(* ===== verification/JS_Prelude.thy ===== *)
theory JS_Prelude
  imports Main "HOL-Library.AList"
begin

text \<open>
  The shared vocabulary of the development: the values of the TypeScript/JavaScript standard
  library that the Skywire manager uses (nullable strings, exceptions, \<open>Map\<close>, \<open>Set\<close>, string and
  number conversions, \<open>Array.slice\<close> and \<open>Array.sort\<close>), with the generic lemmas the components
  share.

  Conventions. A string is a \<open>string\<close> (a list of characters); the case conversions act on the
  letters of ASCII, which is the alphabet of the public keys, types, tags and storage keys of the
  application. A string that may be \<open>null\<close> or \<open>undefined\<close> is a \<open>jsstr\<close>. A \<open>throw\<close> is an \<open>Inl\<close>
  of a \<open>js_error\<close>. A \<open>number\<close> that only takes whole values is an \<open>int\<close>.
\<close>

named_theorems js_map_simps "what a lookup returns after an update of a JS map"
named_theorems js_string_simps "facts about the string functions"

text \<open>The local constants of the code are \<open>let\<close> bindings; the proofs expand them.\<close>

declare Let_def [simp]

section \<open>Exceptions\<close>

datatype js_error = SyntaxError | TypeError | ThrownError string

type_synonym 'a js_result = "js_error + 'a"

definition bindR :: "'a js_result \<Rightarrow> ('a \<Rightarrow> 'b js_result) \<Rightarrow> 'b js_result" where
  "bindR r f = (case r of Inl e \<Rightarrow> Inl e | Inr x \<Rightarrow> f x)"

lemma bindR_simps [simp]:
  "bindR (Inl e) f = Inl e"
  "bindR (Inr x) f = f x"
  by (simp_all add: bindR_def)

lemma bindR_Inr_iff: "bindR r f = Inr y \<longleftrightarrow> (\<exists>x. r = Inr x \<and> f x = Inr y)"
  by (cases r) auto

text \<open>A \<open>forEach\<close> whose body may throw: it stops at the first exception.\<close>

fun foldR :: "('x \<Rightarrow> 'a \<Rightarrow> 'a js_result) \<Rightarrow> 'x list \<Rightarrow> 'a \<Rightarrow> 'a js_result" where
  "foldR f [] a = Inr a"
| "foldR f (x # xs) a = bindR (f x a) (foldR f xs)"

section \<open>Nullable strings\<close>

datatype jsstr = Undefined | Null | Str string

text \<open>JS truthiness of a nullable string: \<open>undefined\<close>, \<open>null\<close> and the empty string are falsy.\<close>

fun truthy :: "jsstr \<Rightarrow> bool" where
  "truthy (Str s) = (s \<noteq> [])"
| "truthy Undefined = False"
| "truthy Null = False"

lemma truthy_iff: "truthy v \<longleftrightarrow> (\<exists>s. v = Str s \<and> s \<noteq> [])"
  by (cases v) auto

text \<open>The value of \<open>localStorage.getItem\<close> or of a \<open>Map\<close> lookup, tested with \<open>if (v)\<close>.\<close>

fun truthy_opt :: "string option \<Rightarrow> bool" where
  "truthy_opt None = False"
| "truthy_opt (Some s) = (s \<noteq> [])"

section \<open>JS maps and sets\<close>

text \<open>
  A JS \<open>Map\<close> keeps its entries in insertion order; \<open>set\<close> on a key that is present replaces the
  value and keeps the position, on a new key it appends the entry. That is \<^const>\<open>AList.update\<close>.
\<close>

type_synonym ('k, 'v) jsmap = "('k \<times> 'v) list"

definition map_get :: "('k, 'v) jsmap \<Rightarrow> 'k \<Rightarrow> 'v option" where
  "map_get m k = map_of m k"

definition map_has :: "('k, 'v) jsmap \<Rightarrow> 'k \<Rightarrow> bool" where
  "map_has m k = (map_of m k \<noteq> None)"

definition map_set :: "'k \<Rightarrow> 'v \<Rightarrow> ('k, 'v) jsmap \<Rightarrow> ('k, 'v) jsmap" where
  "map_set k v m = AList.update k v m"

definition map_delete :: "'k \<Rightarrow> ('k, 'v) jsmap \<Rightarrow> ('k, 'v) jsmap" where
  "map_delete k m = AList.delete k m"

definition map_keys :: "('k, 'v) jsmap \<Rightarrow> 'k list" where
  "map_keys m = map fst m"

definition map_values :: "('k, 'v) jsmap \<Rightarrow> 'v list" where
  "map_values m = map snd m"

definition map_wf :: "('k, 'v) jsmap \<Rightarrow> bool" where
  "map_wf m = distinct (map fst m)"

lemmas js_map_defs =
  map_get_def map_has_def map_set_def map_delete_def map_keys_def map_values_def map_wf_def

lemma find_append_option:
  "find P (xs @ ys) = (case find P xs of Some x \<Rightarrow> Some x | None \<Rightarrow> find P ys)"
  by (induction xs) auto

lemma case_option_ex: "(case v of Some x \<Rightarrow> P x | None \<Rightarrow> False) \<longleftrightarrow> (\<exists>x. v = Some x \<and> P x)"
  by (simp split: option.split)

lemma find_SomeD: "find P xs = Some x \<Longrightarrow> x \<in> set xs \<and> P x"
  by (induction xs) (auto split: if_splits)

text \<open>Searching a list by a key that identifies its elements.\<close>

lemma find_key_distinct:
  "distinct (map f xs) \<Longrightarrow> find (\<lambda>x. f x = k) xs = Some x \<longleftrightarrow> x \<in> set xs \<and> f x = k"
  by (induction xs) auto

lemma distinct_key_unique:
  "distinct (map f xs) \<Longrightarrow> x \<in> set xs \<Longrightarrow> y \<in> set xs \<Longrightarrow> f x = f y \<Longrightarrow> x = y"
  by (simp add: distinct_map inj_on_def)

lemma find_rev_distinct:
  assumes "distinct (map f xs)"
  shows "find (\<lambda>x. f x = k) (rev xs) = find (\<lambda>x. f x = k) xs"
proof (rule option.expand)
  show "(find (\<lambda>x. f x = k) (rev xs) = None) = (find (\<lambda>x. f x = k) xs = None)"
    by (simp add: find_None_iff)
next
  assume "find (\<lambda>x. f x = k) (rev xs) \<noteq> None" and "find (\<lambda>x. f x = k) xs \<noteq> None"
  then obtain a b where a: "find (\<lambda>x. f x = k) (rev xs) = Some a"
    and b: "find (\<lambda>x. f x = k) xs = Some b"
    by auto
  have "find (\<lambda>x. f x = k) xs = Some a"
    using find_SomeD [OF a] assms by (simp add: find_key_distinct)
  then show "the (find (\<lambda>x. f x = k) (rev xs)) = the (find (\<lambda>x. f x = k) xs)"
    using a by simp
qed

lemma find_map_key:
  "(\<And>x. f (g x) = f x) \<Longrightarrow> find (\<lambda>x. f x = k) (map g xs) = map_option g (find (\<lambda>x. f x = k) xs)"
  by (induction xs) auto

subsection \<open>The map interface\<close>

text \<open>
  What the services rely on when they use a \<open>Map\<close>. The loops of the services that load a list
  into a map, or that delete a list of keys from it, are folds over \<open>put\<close> and \<open>del\<close>; their
  effect is derived here once.
\<close>

locale js_map =
  fixes get :: "'m \<Rightarrow> 'k \<Rightarrow> 'v option"
    and put :: "'k \<Rightarrow> 'v \<Rightarrow> 'm \<Rightarrow> 'm"
    and del :: "'k \<Rightarrow> 'm \<Rightarrow> 'm"
    and keys :: "'m \<Rightarrow> 'k list"
  assumes get_put: "get (put k v m) k' = (if k' = k then Some v else get m k')"
    and get_del: "get (del k m) k' = (if k' = k then None else get m k')"
    and keys_put: "keys (put k v m) = (if k \<in> set (keys m) then keys m else keys m @ [k])"
    and keys_del: "keys (del k m) = removeAll k (keys m)"
    and get_None: "get m k = None \<longleftrightarrow> k \<notin> set (keys m)"
begin

lemma get_puts:
  "get (fold (\<lambda>x. put (f x) (g x)) xs m) k =
     (case find (\<lambda>x. f x = k) (rev xs) of Some x \<Rightarrow> Some (g x) | None \<Rightarrow> get m k)"
proof (induction xs arbitrary: m)
  case Nil
  then show ?case by simp
next
  case (Cons x xs)
  show ?case
    by (auto simp: Cons.IH get_put find_append_option split: option.split)
qed

lemma get_puts_distinct:
  assumes "distinct (map f xs)" and "x \<in> set xs"
  shows "get (fold (\<lambda>x. put (f x) (g x)) xs m) (f x) = Some (g x)"
  using assms
proof (induction xs arbitrary: m)
  case Nil
  then show ?case by simp
next
  case (Cons y ys)
  show ?case
  proof (cases "x = y")
    case True
    have "find (\<lambda>z. f z = f y) (rev ys) = None"
      using Cons.prems(1) by (auto simp: find_None_iff) (metis imageI)
    then show ?thesis
      by (simp add: True get_puts get_put)
  next
    case False
    then show ?thesis using Cons by simp
  qed
qed

lemma get_puts_other:
  "k \<notin> f ` set xs \<Longrightarrow> get (fold (\<lambda>x. put (f x) (g x)) xs m) k = get m k"
  by (induction xs arbitrary: m) (auto simp: get_put)

lemma get_dels: "get (fold del ks m) k = (if k \<in> set ks then None else get m k)"
  by (induction ks arbitrary: m) (auto simp: get_del)

lemma keys_dels: "keys (fold del ks m) = filter (\<lambda>k. k \<notin> set ks) (keys m)"
proof (induction ks arbitrary: m)
  case Nil
  then show ?case by simp
next
  case (Cons k ks)
  then show ?case
    by (auto simp: keys_del removeAll_filter_not_eq intro: filter_cong)
qed

lemma distinct_put: "distinct (keys m) \<Longrightarrow> distinct (keys (put k v m))"
  by (simp add: keys_put)

lemma distinct_del: "distinct (keys m) \<Longrightarrow> distinct (keys (del k m))"
  by (simp add: keys_del distinct_removeAll)

lemma distinct_puts: "distinct (keys m) \<Longrightarrow> distinct (keys (fold (\<lambda>x. put (f x) (g x)) xs m))"
  by (induction xs arbitrary: m) (auto simp: distinct_put)

lemma set_keys_puts: "set (keys (fold (\<lambda>x. put (f x) (g x)) xs m)) = set (keys m) \<union> f ` set xs"
  by (induction xs arbitrary: m) (auto simp: keys_put)

end

lemma keys_update_append:
  "map fst (AList.update k v m) = (if k \<in> set (map fst m) then map fst m else map fst m @ [k])"
  by (simp add: update_keys)

interpretation jm: js_map map_get map_set map_delete map_keys
proof unfold_locales
  fix k k' :: 'a and v :: 'b and m :: "('a, 'b) jsmap"
  show "map_get (map_set k v m) k' = (if k' = k then Some v else map_get m k')"
    by (simp add: js_map_defs update_conv')
  show "map_get (map_delete k m) k' = (if k' = k then None else map_get m k')"
    by (simp add: js_map_defs delete_conv')
  show "map_keys (map_set k v m) = (if k \<in> set (map_keys m) then map_keys m else map_keys m @ [k])"
    by (simp add: map_keys_def map_set_def keys_update_append)
  show "map_keys (map_delete k m) = removeAll k (map_keys m)"
    by (simp add: js_map_defs delete_keys)
  show "map_get m k = None \<longleftrightarrow> k \<notin> set (map_keys m)"
    by (simp add: js_map_defs map_of_eq_None_iff)
qed

lemmas jm_laws [js_map_simps] = jm.get_put jm.get_del jm.get_None

lemma map_has_get: "map_has m k \<longleftrightarrow> map_get m k \<noteq> None"
  by (simp add: js_map_defs)

lemma map_has_keys: "map_has m k \<longleftrightarrow> k \<in> set (map_keys m)"
  by (simp add: map_has_get jm.get_None)

lemma map_wf_keys: "map_wf m \<longleftrightarrow> distinct (map_keys m)"
  by (simp add: js_map_defs)

lemma map_set_twice: "map_set k w (map_set k v m) = map_set k w m"
  unfolding map_set_def by (induction m) auto

lemma map_wf_empty [simp]: "map_wf []"
  by (simp add: map_wf_def)

lemma map_wf_set [simp, intro]: "map_wf m \<Longrightarrow> map_wf (map_set k v m)"
  by (simp add: map_wf_keys jm.distinct_put)

lemma map_wf_delete [simp, intro]: "map_wf m \<Longrightarrow> map_wf (map_delete k m)"
  by (simp add: map_wf_keys jm.distinct_del)

lemma map_wf_sets: "map_wf m \<Longrightarrow> map_wf (fold (\<lambda>x. map_set (f x) (g x)) xs m)"
  by (simp add: map_wf_keys jm.distinct_puts)

lemma map_get_in_values: "map_get m k = Some v \<Longrightarrow> v \<in> set (map_values m)"
  by (force simp: js_map_defs dest: map_of_SomeD)

lemma map_get_entry: "map_wf m \<Longrightarrow> (k, v) \<in> set m \<longleftrightarrow> map_get m k = Some v"
  by (simp add: js_map_defs)

lemma map_delete_filter: "map_delete k m = filter (\<lambda>e. fst e \<noteq> k) m"
  unfolding map_delete_def AList.delete_eq by (rule filter_cong) auto

lemma map_deletes_filter: "fold map_delete ks m = filter (\<lambda>e. fst e \<notin> set ks) m"
  by (induction ks arbitrary: m) (auto simp: map_delete_filter intro: filter_cong)

lemma map_delete_absent: "\<not> map_has m k \<Longrightarrow> map_delete k m = m"
  by (auto simp: map_delete_filter map_has_keys map_keys_def intro!: filter_True)

text \<open>Loading a list whose keys are distinct into an empty map keeps the list.\<close>

lemma map_set_new: "k \<notin> fst ` set m \<Longrightarrow> map_set k v m = m @ [(k, v)]"
  unfolding map_set_def by (induction m) auto

lemma map_sets_append:
  assumes "distinct (map f xs)" and "f ` set xs \<inter> fst ` set m = {}"
  shows "fold (\<lambda>x. map_set (f x) (g x)) xs m = m @ map (\<lambda>x. (f x, g x)) xs"
  using assms
proof (induction xs arbitrary: m)
  case Nil
  then show ?case by simp
next
  case (Cons x xs)
  have "map_set (f x) (g x) m = m @ [(f x, g x)]"
    using Cons.prems by (intro map_set_new) auto
  moreover have "f ` set xs \<inter> fst ` set (m @ [(f x, g x)]) = {}"
    using Cons.prems by auto
  ultimately show ?case
    using Cons by simp
qed

lemma map_sets_empty:
  "distinct (map f xs) \<Longrightarrow> fold (\<lambda>x. map_set (f x) (g x)) xs [] = map (\<lambda>x. (f x, g x)) xs"
  by (simp add: map_sets_append)

text \<open>
  A map that files every value under a key the value itself carries: its list of values has no
  two values with the same key, and searching that list is the lookup of the map.
\<close>

definition keyed :: "('v \<Rightarrow> 'k) \<Rightarrow> ('k, 'v) jsmap \<Rightarrow> bool" where
  "keyed f m \<longleftrightarrow> (\<forall>e \<in> set m. f (snd e) = fst e)"

lemma keyed_empty [simp]: "keyed f []"
  by (simp add: keyed_def)

lemma keyed_set: "keyed f m \<Longrightarrow> keyed f (map_set (f v) v m)"
  unfolding map_set_def keyed_def by (induction m) auto

lemma keyed_delete: "keyed f m \<Longrightarrow> keyed f (map_delete k m)"
  by (auto simp: keyed_def map_delete_def AList.delete_eq)

lemma keyed_sets: "keyed f m \<Longrightarrow> keyed f (fold (\<lambda>v. map_set (f v) v) vs m)"
  by (induction vs arbitrary: m) (auto simp: keyed_set)

lemma keyed_values_distinct: "map_wf m \<Longrightarrow> keyed f m \<Longrightarrow> distinct (map f (map_values m))"
  unfolding map_wf_def keyed_def map_values_def
  by (induction m) (auto simp: image_iff)

lemma keyed_values_find: "keyed f m \<Longrightarrow> find (\<lambda>v. f v = k) (map_values m) = map_get m k"
  unfolding keyed_def js_map_defs by (induction m) auto

text \<open>A JS \<open>Set\<close>: the elements in insertion order.\<close>

type_synonym 'a jsset = "'a list"

definition set_add :: "'a \<Rightarrow> 'a jsset \<Rightarrow> 'a jsset" where
  "set_add x s = (if x \<in> set s then s else s @ [x])"

definition set_delete :: "'a \<Rightarrow> 'a jsset \<Rightarrow> 'a jsset" where
  "set_delete x s = removeAll x s"

lemma set_set_add [simp]: "set (set_add x s) = insert x (set s)"
  by (auto simp: set_add_def)

lemma set_set_delete [simp]: "set (set_delete x s) = set s - {x}"
  by (simp add: set_delete_def)

lemma distinct_set_add [simp]: "distinct s \<Longrightarrow> distinct (set_add x s)"
  by (simp add: set_add_def)

lemma distinct_set_delete [simp]: "distinct s \<Longrightarrow> distinct (set_delete x s)"
  by (simp add: set_delete_def distinct_removeAll)

end
