(* ===== verification/JS_Strings.thy ===== *)
theory JS_Strings
  imports JS_Prelude
begin

text \<open>
  The string and number functions of the standard library that the manager uses:
  \<open>startsWith\<close>, \<open>endsWith\<close>, \<open>includes\<close>, \<open>substr\<close>, \<open>trim\<close>, \<open>split\<close>, \<open>toUpperCase\<close>,
  \<open>toLowerCase\<close>, \<open>parseInt(_, 10)\<close> and the conversion of a whole number to a string.
\<close>

section \<open>Substrings\<close>

definition starts_with :: "string \<Rightarrow> string \<Rightarrow> bool" where
  "starts_with s t = (take (length t) s = t)"

definition ends_with :: "string \<Rightarrow> string \<Rightarrow> bool" where
  "ends_with s t = (drop (length s - length t) s = t)"

fun str_includes :: "string \<Rightarrow> string \<Rightarrow> bool" where
  "str_includes [] t = (t = [])"
| "str_includes (c # s) t = (starts_with (c # s) t \<or> str_includes s t)"

text \<open>\<open>s.substr(0, n)\<close>\<close>

definition substr0 :: "string \<Rightarrow> nat \<Rightarrow> string" where
  "substr0 s n = take n s"

lemma starts_with_iff: "starts_with s t \<longleftrightarrow> (\<exists>b. s = t @ b)"
  by (metis append_eq_conv_conj append_take_drop_id starts_with_def)

lemma str_includes_iff: "str_includes s t \<longleftrightarrow> (\<exists>a b. s = a @ t @ b)"
proof (induction s)
  case Nil
  then show ?case by auto
next
  case (Cons c s)
  have "(\<exists>a b. c # s = a @ t @ b) \<longleftrightarrow> (\<exists>b. c # s = t @ b) \<or> (\<exists>a b. s = a @ t @ b)"
    by (metis append_Cons append_Nil neq_Nil_conv list.inject)
  then show ?case
    using Cons.IH by (simp add: starts_with_iff)
qed

lemma str_includes_empty [simp]: "str_includes s []"
  unfolding str_includes_iff by (rule exI[of _ "[]"]) simp

lemma str_includes_refl [simp]: "str_includes s s"
  by (metis append_Nil append_Nil2 str_includes_iff)

section \<open>Case conversion and trimming\<close>

definition to_upper_char :: "char \<Rightarrow> char" where
  "to_upper_char c =
     (if 97 \<le> (of_char c :: nat) \<and> (of_char c :: nat) \<le> 122 then char_of ((of_char c :: nat) - 32) else c)"

definition to_lower_char :: "char \<Rightarrow> char" where
  "to_lower_char c =
     (if 65 \<le> (of_char c :: nat) \<and> (of_char c :: nat) \<le> 90 then char_of ((of_char c :: nat) + 32) else c)"

definition to_upper :: "string \<Rightarrow> string" where
  "to_upper s = map to_upper_char s"

definition to_lower :: "string \<Rightarrow> string" where
  "to_lower s = map to_lower_char s"

lemma to_upper_char_idem [simp]: "to_upper_char (to_upper_char c) = to_upper_char c"
  by (auto simp: to_upper_char_def)

lemma to_lower_char_idem [simp]: "to_lower_char (to_lower_char c) = to_lower_char c"
  by (auto simp: to_lower_char_def)

lemma to_upper_idem [simp]: "to_upper (to_upper s) = to_upper s"
  by (simp add: to_upper_def)

lemma to_lower_idem [simp]: "to_lower (to_lower s) = to_lower s"
  by (simp add: to_lower_def)

lemma to_lower_append [simp]: "to_lower (s @ t) = to_lower s @ to_lower t"
  by (simp add: to_lower_def)

lemma to_upper_append [simp]: "to_upper (s @ t) = to_upper s @ to_upper t"
  by (simp add: to_upper_def)

lemma length_to_upper [simp]: "length (to_upper s) = length s"
  by (simp add: to_upper_def)

lemma to_lower_eq_Nil [simp]: "to_lower s = [] \<longleftrightarrow> s = []"
  by (simp add: to_lower_def)

definition is_ws :: "char \<Rightarrow> bool" where
  "is_ws c = ((of_char c :: nat) \<in> {9, 10, 11, 12, 13, 32, 160})"

definition trim :: "string \<Rightarrow> string" where
  "trim s = rev (dropWhile is_ws (rev (dropWhile is_ws s)))"

lemma dropWhile_idem: "dropWhile P (dropWhile P xs) = dropWhile P xs"
  by (induction xs) auto

lemma hd_trim: "trim s \<noteq> [] \<Longrightarrow> \<not> is_ws (hd (trim s))"
proof -
  assume ne: "trim s \<noteq> []"
  let ?u = "dropWhile is_ws s"
  have "takeWhile is_ws (rev ?u) @ dropWhile is_ws (rev ?u) = rev ?u"
    by simp
  then have u: "?u = trim s @ rev (takeWhile is_ws (rev ?u))"
    unfolding trim_def by (metis rev_append rev_rev_ident)
  then have "hd ?u = hd (trim s)" and "?u \<noteq> []"
    using ne by (metis hd_append2, metis Nil_is_append_conv)
  then show ?thesis
    using hd_dropWhile by metis
qed

lemma trim_idem [simp]: "trim (trim s) = trim s"
proof (cases "trim s")
  case Nil
  then show ?thesis by (simp only: Nil) (simp add: trim_def)
next
  case (Cons c t)
  then have "dropWhile is_ws (trim s) = trim s"
    using hd_trim[of s] by simp
  then have "trim (trim s) = rev (dropWhile is_ws (rev (trim s)))"
    by (simp only: trim_def[of "trim s"])
  also have "rev (trim s) = dropWhile is_ws (rev (dropWhile is_ws s))"
    by (simp add: trim_def)
  finally show ?thesis
    by (simp add: trim_def dropWhile_idem)
qed

section \<open>Splitting\<close>

text \<open>\<open>s.split(c)\<close> for a separator of one character.\<close>

fun split_on :: "char \<Rightarrow> string \<Rightarrow> string list" where
  "split_on c [] = [[]]"
| "split_on c (x # xs) =
     (if x = c then [] # split_on c xs
      else (case split_on c xs of [] \<Rightarrow> [[x]] | p # ps \<Rightarrow> (x # p) # ps))"

text \<open>\<open>parts.join(c)\<close>\<close>

fun join_with :: "string \<Rightarrow> string list \<Rightarrow> string" where
  "join_with c [] = []"
| "join_with c [p] = p"
| "join_with c (p # q # ps) = p @ c @ join_with c (q # ps)"

lemma split_on_ne [simp]: "split_on c s \<noteq> []"
  by (cases s) (auto split: list.split)

lemma join_split_on: "join_with [c] (split_on c s) = s"
proof (induction s)
  case Nil
  then show ?case by simp
next
  case (Cons x xs)
  show ?case
    using Cons
    by (cases "split_on c xs"; cases "tl (split_on c xs)") (auto split: list.split)
qed

lemma split_on_no_sep: "p \<in> set (split_on c s) \<Longrightarrow> c \<notin> set p"
  by (induction s arbitrary: p) (auto split: list.splits if_splits)

lemma split_on_single: "c \<notin> set s \<Longrightarrow> split_on c s = [s]"
  by (induction s) auto

lemma split_on_append: "c \<notin> set s \<Longrightarrow> split_on c (s @ c # t) = s # split_on c t"
  by (induction s) auto

text \<open>\<open>s.split(sep)\<close> for a longer separator, scanning from the left.\<close>

function split_str :: "string \<Rightarrow> string \<Rightarrow> string \<Rightarrow> string list" where
  "split_str sep acc s =
     (if sep = [] \<or> s = [] then [rev acc @ s]
      else if starts_with s sep then rev acc # split_str sep [] (drop (length sep) s)
      else split_str sep (hd s # acc) (tl s))"
  by pat_completeness auto
termination
  by (relation "measure (\<lambda>(sep, acc, s). length s)") auto

declare split_str.simps [simp del]

section \<open>Whole numbers and strings\<close>

definition digit_char :: "nat \<Rightarrow> char" where
  "digit_char d = char_of (48 + d)"

definition is_digit :: "char \<Rightarrow> bool" where
  "is_digit c = (48 \<le> (of_char c :: nat) \<and> (of_char c :: nat) \<le> 57)"

definition digit_val :: "char \<Rightarrow> nat" where
  "digit_val c = of_char c - 48"

fun nat_to_string :: "nat \<Rightarrow> string" where
  "nat_to_string n =
     (if n < 10 then [digit_char n] else nat_to_string (n div 10) @ [digit_char (n mod 10)])"

declare nat_to_string.simps [simp del]

definition int_to_string :: "int \<Rightarrow> string" where
  "int_to_string i = (if i < 0 then CHR ''-'' # nat_to_string (nat (- i)) else nat_to_string (nat i))"

definition digits_val :: "string \<Rightarrow> nat" where
  "digits_val ds = foldl (\<lambda>v c. v * 10 + digit_val c) 0 ds"

text \<open>
  \<open>parseInt(s, 10)\<close>: leading white space and one sign are skipped, the longest prefix of digits is
  read and the rest ignored; \<open>None\<close> is \<open>NaN\<close>.
\<close>

definition parse_int :: "string \<Rightarrow> int option" where
  "parse_int s =
     (let t = dropWhile is_ws s;
          neg = (t \<noteq> [] \<and> hd t = CHR ''-'');
          u = (if t \<noteq> [] \<and> (hd t = CHR ''-'' \<or> hd t = CHR ''+'') then tl t else t);
          ds = takeWhile is_digit u
      in if ds = [] then None
         else Some (if neg then - int (digits_val ds) else int (digits_val ds)))"

lemma of_char_digit: "d < 10 \<Longrightarrow> (of_char (digit_char d) :: nat) = 48 + d"
  by (simp add: digit_char_def)

lemma digit_char_props [simp]:
  "d < 10 \<Longrightarrow> is_digit (digit_char d)"
  "d < 10 \<Longrightarrow> digit_val (digit_char d) = d"
  "d < 10 \<Longrightarrow> \<not> is_ws (digit_char d)"
  by (simp_all add: is_digit_def digit_val_def is_ws_def of_char_digit)

lemma digit_char_ne:
  assumes "d < 10"
  shows "digit_char d \<noteq> CHR ''-''" and "digit_char d \<noteq> CHR ''+''"
    and "digit_char d \<noteq> CHR ''.''"
  using of_char_digit[OF assms] by auto

lemma nat_to_string_digits: "\<forall>c \<in> set (nat_to_string n). is_digit c"
proof (induction n rule: nat_to_string.induct)
  case (1 n)
  then show ?case
    by (subst nat_to_string.simps) auto
qed

lemma nat_to_string_ne [simp]: "nat_to_string n \<noteq> []"
  by (subst nat_to_string.simps) simp

lemma digits_val_snoc [simp]: "digits_val (ds @ [c]) = digits_val ds * 10 + digit_val c"
  by (simp add: digits_val_def)

lemma digits_val_nat_to_string [simp]: "digits_val (nat_to_string n) = n"
proof (induction n rule: nat_to_string.induct)
  case (1 n)
  then show ?case
    by (subst nat_to_string.simps) (auto simp: digits_val_def)
qed

lemma is_digit_not_ws: "is_digit c \<Longrightarrow> \<not> is_ws c"
  by (auto simp: is_digit_def is_ws_def)

lemma is_digit_not_sign: "is_digit c \<Longrightarrow> c \<noteq> CHR ''-'' \<and> c \<noteq> CHR ''+'' \<and> c \<noteq> CHR ''.''"
  by (auto simp: is_digit_def)

lemma takeWhile_nat_to_string [simp]: "takeWhile is_digit (nat_to_string n) = nat_to_string n"
  using nat_to_string_digits by (simp add: takeWhile_eq_all_conv)

lemma parse_int_nat: "parse_int (nat_to_string n) = Some (int n)"
proof -
  obtain c cs where cs: "nat_to_string n = c # cs"
    by (cases "nat_to_string n") auto
  then have c: "is_digit c"
    using nat_to_string_digits[of n] by auto
  then have "dropWhile is_ws (nat_to_string n) = nat_to_string n"
    and "hd (nat_to_string n) \<noteq> CHR ''-''" and "hd (nat_to_string n) \<noteq> CHR ''+''"
    using cs by (auto simp: is_digit_not_ws dest: is_digit_not_sign)
  then show ?thesis
    by (simp add: parse_int_def Let_def)
qed

theorem parse_int_to_string [simp]: "parse_int (int_to_string i) = Some i"
proof (cases "i < 0")
  case True
  have "\<not> is_ws (CHR ''-'')"
    by (simp add: is_ws_def)
  then show ?thesis
    using True by (simp add: parse_int_def int_to_string_def Let_def)
next
  case False
  then show ?thesis
    by (simp add: int_to_string_def parse_int_nat)
qed

end
