(* ===== verification/Language_Check.thy ===== *)
theory Language_Check
  imports JS_Prelude JS_Strings
begin

text \<open>
  \<open>src/assets/i18n/check.js\<close>, the script that compares the files with the translations of the application: which
  languages are checked, the recursive comparison of two files, and the report. A file is its contents as
  \<open>JSON.parse\<close> gives them, made of texts and objects; the members that every JavaScript object has are not in the model.
\<close>

section \<open>The comparison of two files\<close>

datatype lang_data = LText string | LNode "(string \<times> lang_data) list"

text \<open>\<open>second[currentKey]\<close>: a text has its characters as members.\<close>

definition lang_member :: "lang_data \<Rightarrow> string \<Rightarrow> lang_data option" where
  "lang_member t k =
     (case t of
        LText s \<Rightarrow> map_option (\<lambda>n. LText [s ! n]) (find (\<lambda>n. nat_to_string n = k) [0..<length s])
      | LNode kvs \<Rightarrow> map_of kvs k)"

definition differs_loosely :: "string \<Rightarrow> lang_data \<Rightarrow> bool" where
  "differs_loosely s t \<longleftrightarrow> (case t of LText u \<Rightarrow> s \<noteq> u | LNode _ \<Rightarrow> s \<noteq> ''[object Object]'')"

definition element_path :: "string \<Rightarrow> string \<Rightarrow> string" where
  "element_path path key = path @ (if path \<noteq> [] then ''.'' else []) @ key"

text \<open>The result has the missing elements and the different ones.\<close>

fun checkElement :: "string \<Rightarrow> string \<Rightarrow> lang_data \<Rightarrow> lang_data option \<Rightarrow> bool \<Rightarrow> string list \<times> string list"
  and check_children :: "string \<Rightarrow> (string \<times> lang_data) list \<Rightarrow> lang_data \<Rightarrow> bool \<Rightarrow> string list \<times> string list" where
  "checkElement path key fist None ignoreDifferences = ([element_path path key], [])"
| "checkElement path key (LText s) (Some second) ignoreDifferences =
     ([], if \<not> ignoreDifferences \<and> differs_loosely s second then [element_path path key] else [])"
| "checkElement path key (LNode kvs) (Some second) ignoreDifferences =
     check_children (element_path path key) kvs second ignoreDifferences"
| "check_children path [] second ignoreDifferences = ([], [])"
| "check_children path ((k, v) # kvs) second ignoreDifferences =
     (case checkElement path k v (lang_member second k) ignoreDifferences of
        (m1, d1) \<Rightarrow> case check_children path kvs second ignoreDifferences of (m2, d2) \<Rightarrow> (m1 @ m2, d1 @ d2))"

section \<open>The languages to check\<close>

type_synonym lang_files = "string \<Rightarrow> lang_data option"

definition base_languages :: "string list \<Rightarrow> string list" where
  "base_languages localFiles =
     map (take 2) (filter (\<lambda>f. length f = 12 \<and> ends_with f ''_base.json'') localFiles)"

definition translated_languages :: "string list \<Rightarrow> string list" where
  "translated_languages localFiles =
     map (take 2) (filter (\<lambda>f. f \<noteq> ''en.json'' \<and> length f = 7 \<and> ends_with f ''.json'') localFiles)"

definition languages_of_folder :: "string list \<Rightarrow> string + string list" where
  "languages_of_folder localFiles =
     (let langs = base_languages localFiles; langFiles = translated_languages localFiles
      in case find (\<lambda>l. l \<notin> set langFiles) langs of
           Some l \<Rightarrow> Inl (''The \"'' @ l @ ''_base.json\" base file does not have its corresponding language file.'')
         | None \<Rightarrow>
             (case find (\<lambda>l. l \<notin> set langs) langFiles of
                Some l \<Rightarrow> Inl (''The \"'' @ l @ ''.json\" file does not have its corresponding base file.'')
              | None \<Rightarrow> if langs = [] then Inl ''No language files to check.'' else Inr langs))"

text \<open>The arguments of the script after its name: the languages, and whether the check is full.\<close>

definition chosen_languages :: "string list \<Rightarrow> string list \<Rightarrow> string + string list \<times> bool" where
  "chosen_languages args localFiles =
     (case args of
        [] \<Rightarrow> map_sum id (\<lambda>ls. (ls, False)) (languages_of_folder localFiles)
      | [a] \<Rightarrow>
          if a = ''all'' then map_sum id (\<lambda>ls. (ls, True)) (languages_of_folder localFiles)
          else if length a \<noteq> 2
          then Inl ''You can only send as parameter to this script the 2-letter code of one of the language files in this folder, or \"all\".''
          else Inr ([a], True)
      | _ \<Rightarrow> Inl ''Invalid number of parameters.'')"

section \<open>The verification and its report\<close>

record lang_report =
  report_lang :: string
  baseFileOnly :: "string list"
  translatedFileOnly :: "string list"
  enOnly :: "string list"
  translatedOnly :: "string list"
  different :: "string list"

definition check_language :: "lang_files \<Rightarrow> bool \<Rightarrow> lang_data \<Rightarrow> string \<Rightarrow> string + lang_report" where
  "check_language files checkFull currentData lang =
     (case files (lang @ ''.json'') of
        None \<Rightarrow> Inl (''Unable to find the '' @ lang @ ''.json file.'')
      | Some translationData \<Rightarrow>
          (case files (lang @ ''_base.json'') of
             None \<Rightarrow> Inl (''Unable to find the '' @ lang @ ''_base.json language file.'')
           | Some base \<Rightarrow>
               let b = checkElement [] [] base (Some translationData) True;
                   t = checkElement [] [] translationData (Some base) True;
                   e = (if checkFull then checkElement [] [] currentData (Some base) False else ([], []));
                   o' = (if checkFull then checkElement [] [] base (Some currentData) True else ([], []))
               in Inr \<lparr>report_lang = lang, baseFileOnly = fst b, translatedFileOnly = fst t, enOnly = fst e,
                       translatedOnly = fst o', different = snd b @ snd t @ snd e @ snd o'\<rparr>))"

fun check_languages :: "lang_files \<Rightarrow> bool \<Rightarrow> lang_data \<Rightarrow> string list \<Rightarrow> string + lang_report list" where
  "check_languages files checkFull currentData [] = Inr []"
| "check_languages files checkFull currentData (l # ls) =
     (case check_language files checkFull currentData l of
        Inl message \<Rightarrow> Inl message
      | Inr r \<Rightarrow> map_sum id ((#) r) (check_languages files checkFull currentData ls))"

definition report_problems :: "lang_report \<Rightarrow> string list" where
  "report_problems r =
     concat (map (\<lambda>(header, elements). if elements \<noteq> [] then [header] @ elements @ [[]] else [])
       [(''The \"'' @ report_lang r @ ''_base.json\" base file has elements that are not present in \"'' @ report_lang r @ ''.json\":'',
           baseFileOnly r),
        (''\"'' @ report_lang r @ ''.json\" has elements that are not present in the \"'' @ report_lang r @ ''_base.json\" base file:'',
           translatedFileOnly r),
        (''The \"en.json\" file has elements that are not present in the \"'' @ report_lang r @ ''_base.json\" base file:'',
           enOnly r),
        (''The \"'' @ report_lang r @ ''_base.json\" base file has elements that are not present in \"en.json\":'', translatedOnly r),
        (''The \"'' @ report_lang r @ ''_base.json\" base file has values that do not match the ones in \"en.json\":'', different r)])"

datatype check_exit = Exit_error string | Exit_failed "string list" | Exit_passed

definition verification_result :: "lang_report list \<Rightarrow> check_exit" where
  "verification_result rs =
     (let lines = concat (map report_problems rs)
      in if lines \<noteq> [] then Exit_failed (''The following problems were found:'' # lines) else Exit_passed)"

definition run_check :: "lang_files \<Rightarrow> string list \<Rightarrow> string list \<Rightarrow> check_exit" where
  "run_check files localFiles args =
     (case files ''en.json'' of
        None \<Rightarrow> Exit_error ''Unable to find the English language file.''
      | Some currentData \<Rightarrow>
          (case chosen_languages args localFiles of
             Inl message \<Rightarrow> Exit_error message
           | Inr (langs, checkFull) \<Rightarrow>
               (case check_languages files checkFull currentData langs of
                  Inl message \<Rightarrow> Exit_error message
                | Inr rs \<Rightarrow> verification_result rs)))"

section \<open>The paths of a file\<close>

fun at_path :: "lang_data \<Rightarrow> string list \<Rightarrow> lang_data option" where
  "at_path t [] = Some t"
| "at_path (LText s) (k # ks) = None"
| "at_path (LNode kvs) (k # ks) = (case map_of kvs k of None \<Rightarrow> None | Some u \<Rightarrow> at_path u ks)"

definition text_at :: "lang_data \<Rightarrow> string list \<Rightarrow> string option" where
  "text_at t ks = (case at_path t ks of Some (LText s) \<Rightarrow> Some s | _ \<Rightarrow> None)"

text \<open>No object is empty or has a key twice, and no key is a number.\<close>

fun lang_ok :: "lang_data \<Rightarrow> bool" where
  "lang_ok (LText s) \<longleftrightarrow> True"
| "lang_ok (LNode kvs) \<longleftrightarrow>
     kvs \<noteq> [] \<and> distinct (map fst kvs) \<and> (\<forall>(k, v) \<in> set kvs. (\<forall>n. k \<noteq> nat_to_string n) \<and> lang_ok v)"

lemma at_path_append: "at_path t (ks @ ks') = (case at_path t ks of None \<Rightarrow> None | Some u \<Rightarrow> at_path u ks')"
  by (induction t ks rule: at_path.induct) (auto split: option.split)

lemma lang_ok_at: "lang_ok t \<Longrightarrow> at_path t ks = Some u \<Longrightarrow> lang_ok u"
  by (induction t ks rule: at_path.induct) (auto split: option.splits dest: map_of_SomeD)

lemma text_below: "lang_ok t \<Longrightarrow> \<exists>ks s. at_path t ks = Some (LText s)"
proof (induction t)
  case (LText s)
  show ?case by (rule exI [of _ "[]"]) simp
next
  case (LNode kvs)
  then obtain k v rest where kvs: "kvs = (k, v) # rest" by (cases kvs) auto
  with LNode obtain ks s where "at_path v ks = Some (LText s)" by fastforce
  then show ?case by (intro exI [of _ "k # ks"]) (simp add: kvs)
qed

lemma nothing_below_text: "at_path t ks = Some (LText s) \<Longrightarrow> ks' \<noteq> [] \<Longrightarrow> at_path t (ks @ ks') = None"
  by (cases ks') (simp_all add: at_path_append)

lemma something_below_node:
  assumes "lang_ok t" and "at_path t ks = Some (LNode kvs)"
  shows "\<exists>k. at_path t (ks @ [k]) \<noteq> None"
proof -
  from lang_ok_at [OF assms] obtain k v rest where "kvs = (k, v) # rest" by (cases kvs) auto
  then show ?thesis using assms(2) by (intro exI [of _ k]) (simp add: at_path_append)
qed

section \<open>What the comparison finds\<close>

lemma member_of_key:
  assumes "\<forall>n. k \<noteq> nat_to_string n"
  shows "at_path t (k # ks) = (case lang_member t k of None \<Rightarrow> None | Some u \<Rightarrow> at_path u ks)"
proof (cases t)
  case (LText s)
  have "find (\<lambda>n. nat_to_string n = k) [0..<length s] = None" using assms by (auto simp: find_None_iff)
  then show ?thesis by (simp add: LText lang_member_def)
qed (simp add: lang_member_def)

lemma children_fst:
  "fst (check_children p kvs t ig) = [] \<longleftrightarrow> (\<forall>k v. (k, v) \<in> set kvs \<longrightarrow> fst (checkElement p k v (lang_member t k) ig) = [])"
  by (induction kvs) (auto split: prod.splits)

lemma children_snd:
  "snd (check_children p kvs t ig) = [] \<longleftrightarrow> (\<forall>k v. (k, v) \<in> set kvs \<longrightarrow> snd (checkElement p k v (lang_member t k) ig) = [])"
  by (induction kvs) (auto split: prod.splits)

lemma at_node:
  assumes "distinct (map fst kvs)"
  shows "at_path (LNode kvs) (k # ks) = Some r \<longleftrightarrow> (\<exists>v. (k, v) \<in> set kvs \<and> at_path v ks = Some r)"
  by (simp split: option.split) (metis assms map_of_eq_Some_iff option.distinct(1) option.inject)

lemma nothing_missing:
  "lang_ok t \<Longrightarrow> fst (checkElement p key t (Some u) ig) = [] \<longleftrightarrow> (\<forall>ks. at_path t ks \<noteq> None \<longrightarrow> at_path u ks \<noteq> None)"
proof (induction t arbitrary: p key u)
  case (LText s)
  have "at_path u ks \<noteq> None" if "at_path (LText s) ks \<noteq> None" for ks using that by (cases ks) auto
  then show ?case by auto
next
  case (LNode kvs)
  have child: "fst (checkElement q k v (lang_member u k) ig) = [] \<longleftrightarrow>
      (\<forall>ks. at_path v ks \<noteq> None \<longrightarrow> at_path u (k # ks) \<noteq> None)" if "(k, v) \<in> set kvs" for q k v
  proof (cases "lang_member u k")
    case None
    have "at_path u [k] = None" using None that LNode.prems by (auto simp: member_of_key)
    then show ?thesis using None by (auto intro!: exI [of _ "[]"])
  next
    case (Some w)
    then show ?thesis using LNode.IH [of "(k, v)" v q k w] that LNode.prems by (auto simp: member_of_key)
  qed
  have path: "at_path (LNode kvs) (k # ks) \<noteq> None \<longleftrightarrow> (\<exists>v. (k, v) \<in> set kvs \<and> at_path v ks \<noteq> None)" for k ks
    using at_node [of kvs k ks] LNode.prems by (auto simp del: at_path.simps)
  have split: "(\<forall>ks. at_path (LNode kvs) ks \<noteq> None \<longrightarrow> at_path u ks \<noteq> None) \<longleftrightarrow>
      (\<forall>k ks. at_path (LNode kvs) (k # ks) \<noteq> None \<longrightarrow> at_path u (k # ks) \<noteq> None)"
    by (metis at_path.simps(1) list.exhaust option.distinct(1))
  show ?case unfolding split path checkElement.simps children_fst using child by blast
qed

lemma nothing_different:
  "lang_ok t \<Longrightarrow> snd (checkElement p key t (Some u) ig) = [] \<longleftrightarrow>
     ig \<or> (\<forall>ks s w. at_path t ks = Some (LText s) \<and> at_path u ks = Some w \<longrightarrow> \<not> differs_loosely s w)"
proof (induction t arbitrary: p key u)
  case (LText s)
  have "at_path (LText s) ks = Some v \<longleftrightarrow> ks = [] \<and> v = LText s" for ks v by (cases ks) auto
  then show ?case by auto
next
  case (LNode kvs)
  have child: "snd (checkElement q k v (lang_member u k) ig) = [] \<longleftrightarrow>
      ig \<or> (\<forall>ks s w. at_path v ks = Some (LText s) \<and> at_path u (k # ks) = Some w \<longrightarrow> \<not> differs_loosely s w)"
    if "(k, v) \<in> set kvs" for q k v
  proof (cases "lang_member u k")
    case None
    then show ?thesis using that LNode.prems by (auto simp: member_of_key)
  next
    case (Some w)
    then show ?thesis using LNode.IH [of "(k, v)" v q k w] that LNode.prems by (auto simp: member_of_key)
  qed
  have path: "at_path (LNode kvs) (k # ks) = Some (LText s) \<longleftrightarrow> (\<exists>v. (k, v) \<in> set kvs \<and> at_path v ks = Some (LText s))" for k ks s
    using at_node [of kvs k ks] LNode.prems by (auto simp del: at_path.simps)
  have split: "(\<forall>ks s w. at_path (LNode kvs) ks = Some (LText s) \<and> at_path u ks = Some w \<longrightarrow> \<not> differs_loosely s w) \<longleftrightarrow>
      (\<forall>k ks s w. at_path (LNode kvs) (k # ks) = Some (LText s) \<and> at_path u (k # ks) = Some w \<longrightarrow> \<not> differs_loosely s w)"
    by (metis at_path.simps(1) lang_data.distinct(1) list.exhaust option.inject)
  show ?case unfolding split path checkElement.simps children_snd using child by blast
qed

lemma same_texts_same_paths:
  assumes "lang_ok t" and "\<forall>ks. text_at t ks = text_at u ks" and "at_path t ks \<noteq> None"
  shows "at_path u ks \<noteq> None"
proof -
  from assms(3) obtain v where v: "at_path t ks = Some v" by auto
  from text_below [OF lang_ok_at [OF assms(1) v]] obtain ks' s where "at_path v ks' = Some (LText s)" by blast
  then have "text_at t (ks @ ks') = Some s" by (simp add: text_at_def at_path_append v)
  then have "text_at u (ks @ ks') = Some s" using assms(2) by simp
  then show ?thesis by (auto simp: text_at_def at_path_append split: option.splits)
qed

lemma equal_texts:
  assumes "lang_ok t" and "lang_ok u"
    and paths: "\<forall>ks. at_path t ks = None \<longleftrightarrow> at_path u ks = None"
    and texts: "\<forall>ks s w. at_path t ks = Some (LText s) \<and> at_path u ks = Some w \<longrightarrow> \<not> differs_loosely s w"
  shows "text_at t ks = text_at u ks"
proof (cases "at_path t ks")
  case None
  then have "at_path u ks = None" using paths by simp
  with None show ?thesis by (simp add: text_at_def)
next
  case (Some v)
  then obtain w where w: "at_path u ks = Some w" using paths by (metis not_None_eq)
  show ?thesis
  proof (cases v)
    case (LText s)
    show ?thesis
    proof (cases w)
      case (LText s')
      then have "\<not> differs_loosely s (LText s')" using texts Some w \<open>v = LText s\<close> by blast
      then show ?thesis using Some w \<open>v = LText s\<close> LText by (simp add: text_at_def differs_loosely_def)
    next
      case (LNode kvs)
      from something_below_node [OF assms(2)] w LNode obtain k where "at_path u (ks @ [k]) \<noteq> None" by blast
      then show ?thesis using paths nothing_below_text [of t ks s "[k]"] Some \<open>v = LText s\<close> by auto
    qed
  next
    case (LNode kvs)
    from something_below_node [OF assms(1)] Some LNode obtain k where k: "at_path t (ks @ [k]) \<noteq> None" by blast
    have "w \<noteq> LText s" for s using k paths nothing_below_text [of u ks s "[k]"] w by auto
    then show ?thesis using Some w LNode by (cases w) (auto simp: text_at_def)
  qed
qed

section \<open>The verification\<close>

definition language_agrees :: "bool \<Rightarrow> lang_data \<Rightarrow> lang_data \<Rightarrow> lang_data \<Rightarrow> bool" where
  "language_agrees checkFull en base translation \<longleftrightarrow>
     (\<forall>ks. at_path base ks = None \<longleftrightarrow> at_path translation ks = None) \<and>
     (checkFull \<longrightarrow> (\<forall>ks. text_at base ks = text_at en ks))"

lemma no_problems:
  "report_problems r = [] \<longleftrightarrow>
     baseFileOnly r = [] \<and> translatedFileOnly r = [] \<and> enOnly r = [] \<and> translatedOnly r = [] \<and> different r = []"
  by (simp add: report_problems_def)

lemma both_directions: "(\<forall>x. f x = None \<longleftrightarrow> g x = None) \<longleftrightarrow> (\<forall>x. f x \<noteq> None \<longrightarrow> g x \<noteq> None) \<and> (\<forall>x. g x \<noteq> None \<longrightarrow> f x \<noteq> None)"
  by (rule iffI; intro conjI allI; metis)

lemma language_passes:
  assumes files: "files (l @ ''.json'') = Some tr" "files (l @ ''_base.json'') = Some base"
    and ok: "lang_ok en" "lang_ok base" "lang_ok tr"
  shows "\<exists>r. check_language files full en l = Inr r \<and> (report_problems r = [] \<longleftrightarrow> language_agrees full en base tr)"
proof -
  have same: "(\<forall>ks. at_path en ks \<noteq> None \<longrightarrow> at_path base ks \<noteq> None) \<and> (\<forall>ks. at_path base ks \<noteq> None \<longrightarrow> at_path en ks \<noteq> None) \<and>
      (\<forall>ks s w. at_path en ks = Some (LText s) \<and> at_path base ks = Some w \<longrightarrow> \<not> differs_loosely s w) \<longleftrightarrow>
      (\<forall>ks. text_at base ks = text_at en ks)" (is "?l \<longleftrightarrow> ?r")
  proof
    assume l: ?l
    then have "\<forall>ks. at_path en ks = None \<longleftrightarrow> at_path base ks = None" by blast
    then show ?r using equal_texts [OF ok(1,2)] l by metis
  next
    assume r: ?r
    have "\<not> differs_loosely s w" if "at_path en ks = Some (LText s)" "at_path base ks = Some w" for ks s w
    proof -
      from that(1) have "text_at en ks = Some s" by (simp add: text_at_def)
      then have "text_at base ks = Some s" using r by simp
      then show ?thesis using that(2) by (auto simp: text_at_def differs_loosely_def split: lang_data.splits)
    qed
    moreover have "at_path base ks \<noteq> None" if "at_path en ks \<noteq> None" for ks
      using same_texts_same_paths [OF ok(1) _ that] r by metis
    moreover have "at_path en ks \<noteq> None" if "at_path base ks \<noteq> None" for ks
      using same_texts_same_paths [OF ok(2) _ that] r by metis
    ultimately show ?l by blast
  qed
  show ?thesis
    unfolding language_agrees_def both_directions same [symmetric]
    by (cases full) (simp_all add: check_language_def files Let_def no_problems nothing_missing nothing_different ok conj_ac)
qed

lemma languages_pass:
  assumes "\<forall>l \<in> set ls. \<exists>tr base. files (l @ ''.json'') = Some tr \<and> files (l @ ''_base.json'') = Some base \<and> lang_ok tr \<and> lang_ok base"
    and "lang_ok en"
  shows "\<exists>rs. check_languages files full en ls = Inr rs \<and>
    (concat (map report_problems rs) = [] \<longleftrightarrow>
     (\<forall>l \<in> set ls. \<forall>tr base. files (l @ ''.json'') = Some tr \<and> files (l @ ''_base.json'') = Some base \<longrightarrow> language_agrees full en base tr))"
  using assms(1)
proof (induction ls)
  case (Cons l ls)
  then obtain tr base where f: "files (l @ ''.json'') = Some tr" "files (l @ ''_base.json'') = Some base" and "lang_ok tr" "lang_ok base"
    by auto
  with language_passes [of files l tr base en full] assms(2) obtain r where
    r: "check_language files full en l = Inr r" "report_problems r = [] \<longleftrightarrow> language_agrees full en base tr" by blast
  from Cons obtain rs where "check_languages files full en ls = Inr rs"
    and "concat (map report_problems rs) = [] \<longleftrightarrow>
     (\<forall>l \<in> set ls. \<forall>tr base. files (l @ ''.json'') = Some tr \<and> files (l @ ''_base.json'') = Some base \<longrightarrow> language_agrees full en base tr)"
    by auto
  then show ?case using r f by (intro exI [of _ "r # rs"]) auto
qed simp

text \<open>
  Property C31. The script that checks the translations. When the files of the chosen languages exist, and no
  object in a file is empty or has numbers as keys, it ends without a failure exactly if, for every
  language, the translation and its base file have the same elements at every path and, in a full check, the
  base file has the same text as the English file at every path; otherwise it lists the problems and fails.
\<close>

theorem language_check_correct:
  assumes "files ''en.json'' = Some en" and "lang_ok en" and "chosen_languages args localFiles = Inr (langs, full)"
    and "\<forall>l \<in> set langs. \<exists>tr base. files (l @ ''.json'') = Some tr \<and> files (l @ ''_base.json'') = Some base \<and> lang_ok tr \<and> lang_ok base"
  shows "(run_check files localFiles args = Exit_passed \<longleftrightarrow>
      (\<forall>l \<in> set langs. \<forall>tr base. files (l @ ''.json'') = Some tr \<and> files (l @ ''_base.json'') = Some base \<longrightarrow>
         language_agrees full en base tr)) \<and>
    (run_check files localFiles args = Exit_passed \<or> (\<exists>lines. run_check files localFiles args = Exit_failed lines))"
proof -
  from languages_pass [OF assms(4,2), of full] obtain rs where
    rs: "check_languages files full en langs = Inr rs" "concat (map report_problems rs) = [] \<longleftrightarrow>
     (\<forall>l \<in> set langs. \<forall>tr base. files (l @ ''.json'') = Some tr \<and> files (l @ ''_base.json'') = Some base \<longrightarrow> language_agrees full en base tr)"
    by blast
  show ?thesis
    unfolding rs(2) [symmetric]
    using assms(1,3) rs(1) by (simp add: run_check_def verification_result_def Let_def)
qed

text \<open>An empty object in place of a text is not noticed when only the elements are compared.\<close>

theorem empty_object_not_noticed:
  "report_problems r = []" if "check_language (\<lambda>f. if f = ''xx.json'' then Some (LNode [(''a'', LText ''t'')])
     else if f = ''xx_base.json'' then Some (LNode [(''a'', LNode [])]) else None) False en ''xx'' = Inr r"
  using that by (auto simp: check_language_def no_problems lang_member_def)

section \<open>Examples\<close>

definition example_files :: lang_files where
  "example_files f =
     (if f = ''en.json'' \<or> f = ''xx_base.json'' then Some (LNode [(''a'', LText ''one''), (''b'', LNode [(''c'', LText ''two'')])])
      else if f = ''xx.json'' then Some (LNode [(''b'', LNode [(''c'', LText ''dos'')])]) else None)"

theorem language_check_correct_witness:
  "run_check example_files [''en.json'', ''xx.json'', ''xx_base.json''] [] \<noteq> Exit_passed"
proof -
  have digit: "k \<noteq> nat_to_string n" if "hd k \<in> {CHR ''a'', CHR ''b'', CHR ''c''}" "k \<noteq> []" for k n
  proof
    assume "k = nat_to_string n"
    then have "is_digit (hd k)" using that(2) nat_to_string_digits [of n] hd_in_set [of k] by simp
    then show False using that(1) by (auto simp: is_digit_def)
  qed
  have ok: "lang_ok (LNode [(''a'', LText ''one''), (''b'', LNode [(''c'', LText ''two'')])])" "lang_ok (LNode [(''b'', LNode [(''c'', LText ''dos'')])])"
    by (simp_all add: digit)
  have langs: "chosen_languages [] [''en.json'', ''xx.json'', ''xx_base.json''] = Inr ([''xx''], False)"
    by (simp add: chosen_languages_def languages_of_folder_def base_languages_def translated_languages_def ends_with_def Let_def)
  have files: "example_files ''en.json'' = Some (LNode [(''a'', LText ''one''), (''b'', LNode [(''c'', LText ''two'')])])"
    "example_files ''xx_base.json'' = Some (LNode [(''a'', LText ''one''), (''b'', LNode [(''c'', LText ''two'')])])"
    "example_files ''xx.json'' = Some (LNode [(''b'', LNode [(''c'', LText ''dos'')])])"
    by (simp_all add: example_files_def)
  have "at_path (LNode [(''a'', LText ''one''), (''b'', LNode [(''c'', LText ''two'')])]) [''a''] \<noteq> None"
    "at_path (LNode [(''b'', LNode [(''c'', LText ''dos'')])]) [''a''] = None" by simp_all
  then have "\<not> language_agrees False en (LNode [(''a'', LText ''one''), (''b'', LNode [(''c'', LText ''two'')])])
      (LNode [(''b'', LNode [(''c'', LText ''dos'')])])" for en
    unfolding language_agrees_def by metis
  then show ?thesis
    using language_check_correct [of example_files, OF files(1) ok(1) langs] files ok by simp
qed

end
