(* ===== verification/JS_Arrays.thy ===== *)
theory JS_Arrays
  imports JS_Prelude "HOL-Library.Multiset"
begin

text \<open>
  \<open>Array.prototype.slice\<close> with its treatment of negative and out-of-range positions, and
  \<open>Array.prototype.sort\<close> with a comparison function. The standard asks the sort to be stable and
  leaves the order unspecified for an inconsistent comparison; the model is a stable insertion
  sort, and the locale \<open>js_comparator\<close> states what a consistent comparison is and derives what
  every sort of the application relies on.
\<close>

section \<open>slice\<close>

definition slice_index :: "nat \<Rightarrow> int \<Rightarrow> nat" where
  "slice_index n i = (if i < 0 then nat (int n + i) else min (nat i) n)"

definition js_slice :: "int \<Rightarrow> int \<Rightarrow> 'a list \<Rightarrow> 'a list" where
  "js_slice a0 b0 xs =
     (let a = slice_index (length xs) a0; b = slice_index (length xs) b0
      in take (b - a) (drop a xs))"

lemma js_slice_nonneg:
  assumes "0 \<le> a0" and "a0 \<le> b0"
  shows "js_slice a0 b0 xs = take (nat b0 - nat a0) (drop (nat a0) xs)"
  using assms by (auto simp: js_slice_def slice_index_def Let_def min_def)

lemma js_slice_Nil [simp]: "js_slice a0 b0 [] = []"
  by (simp add: js_slice_def Let_def)

lemma set_js_slice: "set (js_slice a0 b0 xs) \<subseteq> set xs"
  by (auto simp: js_slice_def Let_def dest: in_set_takeD in_set_dropD)

text \<open>\<open>Math.ceil(n / d)\<close> for whole numbers.\<close>

definition ceil_div :: "nat \<Rightarrow> nat \<Rightarrow> nat" where
  "ceil_div n d = (n + d - 1) div d"

lemma ceil_div_bounds:
  assumes "0 < d"
  shows "n \<le> d * ceil_div n d" and "0 < n \<Longrightarrow> d * (ceil_div n d - 1) < n"
proof -
  let ?q = "(n + d - 1) div d"
  have eq: "n + d - 1 = d * ?q + (n + d - 1) mod d" and lt: "(n + d - 1) mod d < d"
    using assms by simp_all
  show "n \<le> d * ceil_div n d"
    using eq lt unfolding ceil_div_def by linarith
  assume "0 < n"
  have "d * (?q - 1) = d * ?q - d"
    by (simp add: right_diff_distrib')
  then show "d * (ceil_div n d - 1) < n"
    using eq lt \<open>0 < n\<close> assms unfolding ceil_div_def by linarith
qed

lemma ceil_div_0 [simp]: "0 < d \<Longrightarrow> ceil_div 0 d = 0"
  by (simp add: ceil_div_def)

lemma ceil_div_pos: "0 < d \<Longrightarrow> 0 < n \<Longrightarrow> 0 < ceil_div n d"
  by (metis ceil_div_bounds(1) gr0I le_zero_eq mult_is_0 not_gr_zero)

section \<open>sort\<close>

fun ins_cmp :: "('a \<Rightarrow> 'a \<Rightarrow> int) \<Rightarrow> 'a \<Rightarrow> 'a list \<Rightarrow> 'a list" where
  "ins_cmp cmp x [] = [x]"
| "ins_cmp cmp x (y # ys) = (if cmp x y \<le> 0 then x # y # ys else y # ins_cmp cmp x ys)"

definition js_sort :: "('a \<Rightarrow> 'a \<Rightarrow> int) \<Rightarrow> 'a list \<Rightarrow> 'a list" where
  "js_sort cmp xs = foldr (ins_cmp cmp) xs []"

lemma js_sort_simps [simp]:
  "js_sort cmp [] = []"
  "js_sort cmp (x # xs) = ins_cmp cmp x (js_sort cmp xs)"
  by (simp_all add: js_sort_def)

lemma mset_ins_cmp [simp]: "mset (ins_cmp cmp x ys) = add_mset x (mset ys)"
  by (induction ys) auto

lemma mset_js_sort [simp]: "mset (js_sort cmp xs) = mset xs"
  by (induction xs) auto

lemma set_js_sort [simp]: "set (js_sort cmp xs) = set xs"
  by (metis mset_js_sort set_mset_mset)

lemma length_js_sort [simp]: "length (js_sort cmp xs) = length xs"
  by (metis mset_js_sort size_mset)

lemma distinct_js_sort [simp]: "distinct (js_sort cmp xs) = distinct xs"
  by (metis distinct_count_atmost_1 mset_js_sort set_js_sort)

text \<open>A consistent comparison function on the elements of interest.\<close>

locale js_comparator =
  fixes cmp :: "'a \<Rightarrow> 'a \<Rightarrow> int" and dom :: "'a \<Rightarrow> bool"
  assumes total: "dom x \<Longrightarrow> dom y \<Longrightarrow> cmp x y \<le> 0 \<or> cmp y x \<le> 0"
    and transitive: "dom x \<Longrightarrow> dom y \<Longrightarrow> dom z \<Longrightarrow> cmp x y \<le> 0 \<Longrightarrow> cmp y z \<le> 0 \<Longrightarrow> cmp x z \<le> 0"
begin

lemma set_ins: "set (ins_cmp cmp x ys) = insert x (set ys)"
  by (induction ys) auto

lemma sorted_ins:
  assumes "dom x" and "\<forall>y \<in> set ys. dom y" and "sorted_wrt (\<lambda>a b. cmp a b \<le> 0) ys"
  shows "sorted_wrt (\<lambda>a b. cmp a b \<le> 0) (ins_cmp cmp x ys)"
  using assms
proof (induction ys)
  case Nil
  then show ?case by simp
next
  case (Cons y ys)
  show ?case
  proof (cases "cmp x y \<le> 0")
    case True
    have "\<forall>z \<in> set ys. cmp x z \<le> 0"
      using Cons.prems True by (auto intro: transitive[of x y])
    then show ?thesis using True Cons.prems by simp
  next
    case False
    then have "cmp y x \<le> 0"
      using Cons.prems total[of x y] by auto
    then show ?thesis
      using False Cons by (auto simp: set_ins)
  qed
qed

lemma sorted_sort:
  "\<forall>x \<in> set xs. dom x \<Longrightarrow> sorted_wrt (\<lambda>a b. cmp a b \<le> 0) (js_sort cmp xs)"
  by (induction xs) (auto simp: sorted_ins)

text \<open>Stability: the elements that compare equal with \<open>z\<close> keep their order.\<close>

lemma filter_ins_equal:
  assumes "dom x" and "dom z" and "\<forall>y \<in> set ys. dom y" and "cmp x z \<le> 0 \<and> cmp z x \<le> 0"
  shows "filter (\<lambda>y. cmp y z \<le> 0 \<and> cmp z y \<le> 0) (ins_cmp cmp x ys) =
    x # filter (\<lambda>y. cmp y z \<le> 0 \<and> cmp z y \<le> 0) ys"
  using assms(3)
proof (induction ys)
  case Nil
  then show ?case using assms(4) by simp
next
  case (Cons y ys)
  show ?case
  proof (cases "cmp x y \<le> 0")
    case True
    then show ?thesis using assms(4) by simp
  next
    case False
    have "\<not> cmp z y \<le> 0"
      using False assms Cons.prems transitive[of x z y] by auto
    then show ?thesis using False Cons by simp
  qed
qed

lemma filter_ins_other:
  assumes "\<not> (cmp x z \<le> 0 \<and> cmp z x \<le> 0)"
  shows "filter (\<lambda>y. cmp y z \<le> 0 \<and> cmp z y \<le> 0) (ins_cmp cmp x ys) =
    filter (\<lambda>y. cmp y z \<le> 0 \<and> cmp z y \<le> 0) ys"
  using assms by (induction ys) auto

lemma sort_stable:
  assumes "dom z" and "\<forall>x \<in> set xs. dom x"
  shows "filter (\<lambda>y. cmp y z \<le> 0 \<and> cmp z y \<le> 0) (js_sort cmp xs) =
    filter (\<lambda>y. cmp y z \<le> 0 \<and> cmp z y \<le> 0) xs"
  using assms(2)
proof (induction xs)
  case Nil
  then show ?case by simp
next
  case (Cons x xs)
  then show ?case
    using filter_ins_equal[of x z "js_sort cmp xs"] filter_ins_other[of x z "js_sort cmp xs"] assms(1)
    by (cases "cmp x z \<le> 0 \<and> cmp z x \<le> 0") auto
qed

end


subsection \<open>Consistent comparisons\<close>

text \<open>
  A comparison whose sign changes when its arguments are swapped and that is transitive: the
  contract of the argument of \<open>sort\<close>. Such comparisons can be reversed and chained.
\<close>

definition consistent :: "('a \<Rightarrow> 'a \<Rightarrow> int) \<Rightarrow> ('a \<Rightarrow> bool) \<Rightarrow> bool" where
  "consistent cmp D \<longleftrightarrow>
     (\<forall>x y. D x \<longrightarrow> D y \<longrightarrow> (cmp x y \<le> 0 \<longleftrightarrow> 0 \<le> cmp y x)) \<and>
     (\<forall>x y z. D x \<longrightarrow> D y \<longrightarrow> D z \<longrightarrow> cmp x y \<le> 0 \<longrightarrow> cmp y z \<le> 0 \<longrightarrow> cmp x z \<le> 0)"

lemma consistent_swap:
  assumes "consistent cmp D" and "D x" and "D y"
  shows "cmp x y \<le> 0 \<longleftrightarrow> cmp y x \<ge> 0" and "cmp x y = 0 \<longleftrightarrow> cmp y x = 0"
proof -
  have 1: "cmp x y \<le> 0 \<longleftrightarrow> cmp y x \<ge> 0" and 2: "cmp y x \<le> 0 \<longleftrightarrow> cmp x y \<ge> 0"
    using assms unfolding consistent_def by blast+
  show "cmp x y \<le> 0 \<longleftrightarrow> cmp y x \<ge> 0" by (rule 1)
  show "cmp x y = 0 \<longleftrightarrow> cmp y x = 0" using 1 2 by linarith
qed

lemma consistent_trans:
  "consistent cmp D \<Longrightarrow> D x \<Longrightarrow> D y \<Longrightarrow> D z \<Longrightarrow> cmp x y \<le> 0 \<Longrightarrow> cmp y z \<le> 0 \<Longrightarrow> cmp x z \<le> 0"
  unfolding consistent_def by blast

lemma consistent_comparator: "consistent cmp D \<Longrightarrow> js_comparator cmp D"
proof unfold_locales
  fix x y
  assume "consistent cmp D" "D x" "D y"
  from consistent_swap(1) [OF this] show "cmp x y \<le> 0 \<or> cmp y x \<le> 0" by linarith
qed (rule consistent_trans)

lemma consistent_mono:
  "consistent cmp D \<Longrightarrow> (\<And>x. D' x \<Longrightarrow> D x) \<Longrightarrow> consistent cmp D'"
  unfolding consistent_def by blast

lemma consistent_cong:
  assumes "consistent cmp D" and "\<And>x y. D x \<Longrightarrow> D y \<Longrightarrow> cmp' x y = cmp x y"
  shows "consistent cmp' D"
  unfolding consistent_def
proof (intro conjI allI impI)
  fix x y
  assume "D x" "D y"
  then show "cmp' x y \<le> 0 \<longleftrightarrow> 0 \<le> cmp' y x"
    using assms(2) consistent_swap(1) [OF assms(1)] by simp
next
  fix x y z
  assume "D x" "D y" "D z" "cmp' x y \<le> 0" "cmp' y z \<le> 0"
  then show "cmp' x z \<le> 0"
    using assms(2) consistent_trans [OF assms(1), of x y z] by simp
qed

lemma consistent_flip: "consistent cmp D \<Longrightarrow> consistent (\<lambda>a b. cmp b a) D"
  unfolding consistent_def by (metis linear)

lemma consistent_diff: "consistent (\<lambda>a b. f a - f b) D"
  by (auto simp: consistent_def)

lemma consistent_image:
  assumes "consistent cmp D" and "\<And>x. D' x \<Longrightarrow> D (f x)"
  shows "consistent (\<lambda>a b. cmp (f a) (f b)) D'"
  using assms unfolding consistent_def by blast

lemma consistent_zero: "consistent (\<lambda>a b. 0) D"
  by (simp add: consistent_def)

lemma consistent_lex:
  assumes c1: "consistent c1 D" and c2: "consistent c2 D"
  shows "consistent (\<lambda>a b. if c1 a b = 0 then c2 a b else c1 a b) D"
  unfolding consistent_def
proof (intro conjI allI impI)
  fix x y
  assume "D x" "D y"
  from consistent_swap [OF c1 this] consistent_swap [OF c2 this]
  show "(if c1 x y = 0 then c2 x y else c1 x y) \<le> 0 \<longleftrightarrow> 0 \<le> (if c1 y x = 0 then c2 y x else c1 y x)"
    by auto
next
  fix x y z
  assume D: "D x" "D y" "D z"
    and xy: "(if c1 x y = 0 then c2 x y else c1 x y) \<le> 0"
    and yz: "(if c1 y z = 0 then c2 y z else c1 y z) \<le> 0"
  have le: "c1 x y \<le> 0" "c1 y z \<le> 0" using xy yz by (auto split: if_splits)
  then have xz: "c1 x z \<le> 0" using consistent_trans [OF c1 D] by blast
  have "c1 x y = 0 \<and> c1 y z = 0" if "c1 x z = 0"
  proof -
    have zx: "c1 z x \<le> 0" using that consistent_swap(2) [OF c1 D(1,3)] by simp
    have "c1 y x \<le> 0" by (rule consistent_trans [OF c1 D(2,3,1) le(2) zx])
    moreover have "c1 z y \<le> 0" by (rule consistent_trans [OF c1 D(3,1,2) zx le(1)])
    ultimately show ?thesis
      using le consistent_swap(1) [OF c1 D(2,1)] consistent_swap(1) [OF c1 D(3,2)] by auto
  qed
  then show "(if c1 x z = 0 then c2 x z else c1 x z) \<le> 0"
    using xz xy yz consistent_trans [OF c2 D] by auto
qed

end
