(* ===== verification/Pagination.thy ===== *)
theory Pagination
  imports JS_Arrays
begin

text \<open>
  \<open>recalculateElementsToShow\<close>, which the list components share
  (\<open>transport-list.component.ts\<close> and others): which part of a list is on the current page, and the
  check boxes of the elements that are shown.
\<close>

definition maxShortListElements :: nat where "maxShortListElements = 5"
definition maxFullListElements :: nat where "maxFullListElements = 40"

record ('a, 'k) page_state =
  numberOfPages :: nat
  currentPage :: int
  elementsToShow :: "'a list"
  selections :: "('k, bool) jsmap"

definition max_elements :: "bool \<Rightarrow> nat" where
  "max_elements showShortList = (if showShortList then maxShortListElements else maxFullListElements)"

text \<open>The number of the page in the address: a text that is no positive number means page 1.\<close>

definition page_in_url :: "int option \<Rightarrow> int" where
  "page_in_url n = (case n of None \<Rightarrow> 1 | Some p \<Rightarrow> if p < 1 then 1 else p)"

definition shown_elements :: "nat \<Rightarrow> int \<Rightarrow> 'a list \<Rightarrow> 'a list" where
  "shown_elements m page xs = js_slice (int m * (page - 1)) (int m * (page - 1) + int m) xs"

definition add_selection :: "'k \<Rightarrow> ('k, bool) jsmap \<Rightarrow> ('k, bool) jsmap" where
  "add_selection k sel = (if \<not> map_has sel k then map_set k False sel else sel)"

definition recalculateElementsToShow ::
  "bool \<Rightarrow> ('a \<Rightarrow> 'k) \<Rightarrow> 'a list \<Rightarrow> int \<Rightarrow> ('k, bool) jsmap \<Rightarrow> ('a, 'k) page_state" where
  "recalculateElementsToShow showShortList ident xs currentPageInUrl sel =
     (let m = max_elements showShortList;
          pages = ceil_div (length xs) m;
          page = (if currentPageInUrl > int pages then int pages else currentPageInUrl);
          shown = shown_elements m page xs;
          sel1 = fold (\<lambda>x. add_selection (ident x)) shown sel;
          keysToRemove = filter (\<lambda>k. k \<notin> ident ` set shown) (map_keys sel1)
      in \<lparr>numberOfPages = pages, currentPage = page, elementsToShow = shown,
          selections = fold map_delete keysToRemove sel1\<rparr>)"

section \<open>Properties\<close>

lemma max_elements_pos: "0 < max_elements b"
  by (simp add: max_elements_def maxShortListElements_def maxFullListElements_def)

lemma shown_page: "0 < p \<Longrightarrow> shown_elements m (int p) xs = take m (drop (m * (p - 1)) xs)"
proof -
  assume "0 < p"
  then have "int m * (int p - 1) = int (m * (p - 1))"
    by (simp add: of_nat_diff)
  moreover have "nat (int (m * (p - 1)) + int m) - nat (int (m * (p - 1))) = m"
    by (simp only: of_nat_add [symmetric] nat_int)
  ultimately show ?thesis
    using js_slice_nonneg [of "int (m * (p - 1))" "int (m * (p - 1)) + int m" xs]
    by (simp add: shown_elements_def del: of_nat_mult)
qed

lemma pages_prefix:
  "concat (map (\<lambda>p. take m (drop (m * p) xs)) [0..<n]) = take (m * n) xs"
proof (induction n)
  case (Suc n)
  have "take (m * Suc n) xs = take (m * n) xs @ take m (drop (m * n) xs)"
    by (simp add: take_add [symmetric] add.commute)
  then show ?case using Suc by simp
qed simp

lemma all_pages:
  assumes "0 < m"
  shows "concat (map (\<lambda>p. shown_elements m (int p) xs) [1..<Suc (ceil_div (length xs) m)]) = xs"
proof -
  have "map (\<lambda>p. shown_elements m (int p) xs) [1..<Suc n] = map (\<lambda>p. take m (drop (m * p) xs)) [0..<n]" for n
    by (rule nth_equalityI) (use shown_page [of "Suc _" m xs] in \<open>simp_all del: upt_Suc\<close>)
  then have "concat (map (\<lambda>p. shown_elements m (int p) xs) [1..<Suc (ceil_div (length xs) m)]) =
      take (m * ceil_div (length xs) m) xs"
    by (simp only: pages_prefix)
  also have "\<dots> = xs" using ceil_div_bounds(1) [OF assms, of "length xs"] by simp
  finally show ?thesis .
qed

lemma add_selection_step:
  "map_get (add_selection k' sel) k =
     (if k = k' then Some (case map_get sel k of Some v \<Rightarrow> v | None \<Rightarrow> False) else map_get sel k)"
  by (auto simp: add_selection_def map_has_get jm.get_put split: option.split)

lemma add_selection_get:
  "map_get (fold (\<lambda>x. add_selection (f x)) xs sel) k =
     (if map_has sel k then map_get sel k else if k \<in> f ` set xs then Some False else None)"
proof (induction xs arbitrary: sel)
  case Nil
  then show ?case by (simp add: map_has_get)
next
  case (Cons x xs)
  show ?case
    by (auto simp: Cons.IH add_selection_step map_has_get split: option.split)
qed

lemma recalculated_selections:
  "map_get (selections (recalculateElementsToShow b ident xs p sel)) k =
     (if k \<in> ident ` set (elementsToShow (recalculateElementsToShow b ident xs p sel))
      then Some (case map_get sel k of Some v \<Rightarrow> v | None \<Rightarrow> False) else None)"
  by (auto simp: recalculateElementsToShow_def jm.get_dels add_selection_get map_has_get jm.get_None [symmetric]
      split: option.split)

text \<open>
  The pages of a list: their contents, put together, are the list, so every element
  is on exactly one page and in order; no page is longer than the limit; a page number beyond the
  last page shows the last page; and a list that is not empty never shows an empty page.
\<close>

theorem pages_partition:
  assumes "1 \<le> p"
  shows "let r = recalculateElementsToShow b ident xs p sel in
    concat (map (\<lambda>q. elementsToShow (recalculateElementsToShow b ident xs (int q) sel)) [1..<Suc (numberOfPages r)]) = xs \<and>
    length (elementsToShow r) \<le> max_elements b \<and>
    currentPage r = min p (int (numberOfPages r)) \<and>
    (xs \<noteq> [] \<longrightarrow> elementsToShow r \<noteq> [])"
proof -
  let ?m = "max_elements b" and ?n = "ceil_div (length xs) (max_elements b)"
  have m: "0 < ?m" by (rule max_elements_pos)
  have each: "elementsToShow (recalculateElementsToShow b ident xs (int q) sel) = shown_elements ?m (int q) xs"
    if "q \<le> ?n" for q
    using that by (simp add: recalculateElementsToShow_def)
  have "map (\<lambda>q. elementsToShow (recalculateElementsToShow b ident xs (int q) sel)) [1..<Suc ?n] =
      map (\<lambda>q. shown_elements ?m (int q) xs) [1..<Suc ?n]"
    using each by (intro map_cong refl) (simp del: upt_Suc)
  then have parts: "concat (map (\<lambda>q. elementsToShow (recalculateElementsToShow b ident xs (int q) sel)) [1..<Suc ?n]) = xs"
    using all_pages [OF m, of xs] by (simp only:)
  define page where "page = nat (min p (int ?n))"
  have shown: "elementsToShow (recalculateElementsToShow b ident xs p sel) = shown_elements ?m (int page) xs"
    using assms by (auto simp: recalculateElementsToShow_def page_def min_def)
  have len: "length (shown_elements ?m (int page) xs) \<le> ?m"
    by (auto simp: shown_elements_def js_slice_def slice_index_def)
  have ne: "shown_elements ?m (int page) xs \<noteq> []" if "xs \<noteq> []"
  proof -
    have "0 < ?n" using that m by (intro ceil_div_pos) auto
    then have page: "0 < page" "page \<le> ?n" using assms by (auto simp: page_def)
    have "?m * (page - 1) \<le> ?m * (?n - 1)" using page by (intro mult_le_mono2 diff_le_mono)
    also have "\<dots> < length xs" using ceil_div_bounds(2) [OF m] that by simp
    finally show ?thesis using m by (simp add: shown_page [OF page(1)])
  qed
  have pages: "numberOfPages (recalculateElementsToShow b ident xs p sel) = ?n"
    and current: "currentPage (recalculateElementsToShow b ident xs p sel) = min p (int ?n)"
    by (simp_all add: recalculateElementsToShow_def min_def)
  show ?thesis
    unfolding Let_def pages shown current using parts len ne by blast
qed

text \<open>
  The check boxes follow the page: after the page is calculated there is a check box
  for exactly the elements that are shown, one that was there keeps its state, and a new one is not
  selected.
\<close>

theorem selections_follow_page:
  "map_get (selections (recalculateElementsToShow b ident xs p sel)) k =
     (if k \<in> ident ` set (elementsToShow (recalculateElementsToShow b ident xs p sel))
      then Some (case map_get sel k of Some v \<Rightarrow> v | None \<Rightarrow> False) else None)"
  by (rule recalculated_selections)

theorem pages_partition_witness:
  "currentPage (recalculateElementsToShow True (\<lambda>x. x) [''a'', ''b''] 7 []) = 1"
  using pages_partition [of 7 True "\<lambda>x. x" "[''a'', ''b'']" "[]"]
  by (simp add: recalculateElementsToShow_def max_elements_def maxShortListElements_def ceil_div_def)

end
