(* ===== verification/JS_Values.thy ===== *)
theory JS_Values
  imports JS_Strings
begin

text \<open>
  The elements of the lists the user interface shows are objects whose properties are reached by
  name (\<open>element[key]\<close>). This theory has the values of such properties, with the conversions of
  the language that the list helpers use.
\<close>

datatype jsval =
    VUndef
  | VNull
  | VBool bool
  | VNum int
  | VStr string
  | VObj "(string \<times> jsval) list"

text \<open>\<open>v[p]\<close>; the value of a property of \<open>undefined\<close> or \<open>null\<close> is an error.\<close>

fun get_prop :: "jsval \<Rightarrow> string \<Rightarrow> jsval js_result" where
  "get_prop VUndef p = Inl TypeError"
| "get_prop VNull p = Inl TypeError"
| "get_prop (VObj ms) p = Inr (case map_of ms p of Some v \<Rightarrow> v | None \<Rightarrow> VUndef)"
| "get_prop (VBool b) p = Inr VUndef"
| "get_prop (VNum i) p = Inr VUndef"
| "get_prop (VStr s) p = Inr VUndef"

fun get_path :: "jsval \<Rightarrow> string list \<Rightarrow> jsval js_result" where
  "get_path v [] = Inr v"
| "get_path v (p # ps) = bindR (get_prop v p) (\<lambda>w. get_path w ps)"

fun val_truthy :: "jsval \<Rightarrow> bool" where
  "val_truthy VUndef = False"
| "val_truthy VNull = False"
| "val_truthy (VBool b) = b"
| "val_truthy (VNum i) = (i \<noteq> 0)"
| "val_truthy (VStr s) = (s \<noteq> [])"
| "val_truthy (VObj ms) = True"

text \<open>\<open>String(v)\<close>.\<close>

fun val_to_string :: "jsval \<Rightarrow> string" where
  "val_to_string VUndef = ''undefined''"
| "val_to_string VNull = ''null''"
| "val_to_string (VBool b) = (if b then ''true'' else ''false'')"
| "val_to_string (VNum i) = int_to_string i"
| "val_to_string (VStr s) = s"
| "val_to_string (VObj ms) = ''[object Object]''"

text \<open>
  The conversion to a number in \<open>a - b\<close>: \<open>None\<close> is \<open>NaN\<close>. Of the texts that are numbers, the
  decimal whole numbers are covered, which are those the application compares.
\<close>

definition whole_number :: "string \<Rightarrow> int option" where
  "whole_number s =
     (let t = trim s;
          ds = (case t of [] \<Rightarrow> [] | c # r \<Rightarrow> if c = CHR ''-'' \<or> c = CHR ''+'' then r else t)
      in if t = [] then Some 0
         else if ds \<noteq> [] \<and> list_all is_digit ds then parse_int t
         else None)"

fun val_to_number :: "jsval \<Rightarrow> int option" where
  "val_to_number VUndef = None"
| "val_to_number VNull = Some 0"
| "val_to_number (VBool b) = Some (if b then 1 else 0)"
| "val_to_number (VNum i) = Some i"
| "val_to_number (VStr s) = whole_number s"
| "val_to_number (VObj ms) = None"

text \<open>The result of \<open>a - b\<close> as a sort uses it: \<open>NaN\<close> counts as 0.\<close>

definition num_diff :: "jsval \<Rightarrow> jsval \<Rightarrow> int" where
  "num_diff a b =
     (case (val_to_number a, val_to_number b) of (Some x, Some y) \<Rightarrow> x - y | _ \<Rightarrow> 0)"

end
