(* ===== verification/JSON_Text.thy ===== *)
theory JSON_Text
  imports JS_Strings
begin

text \<open>
  \<open>JSON.stringify\<close> and \<open>JSON.parse\<close>, through which every service keeps its data in
  \<open>localStorage\<close>. A \<open>json\<close> value is the syntax tree of a JSON text. The printer writes no white
  space and escapes as the standard says; the parser accepts white space, every escape sequence and
  nested arrays and objects. Numbers are restricted to whole numbers (the application stores
  versions, ports and times in milliseconds): a literal with a fraction or an exponent, and an
  escape of a character above \<open>U+00FF\<close>, are outside the model and are rejected.

  The recursion of the parser is bounded by fuel; \<open>json_parse\<close> starts it with the length of the
  text, and \<open>parse_stringify\<close> shows that this is enough for every printed text.
\<close>

section \<open>Values and printing\<close>

datatype json =
    JNull
  | JBool bool
  | JNum int
  | JStr string
  | JArr "json list"
  | JObj "(string \<times> json) list"

definition hex_char :: "nat \<Rightarrow> char" where
  "hex_char d = (if d < 10 then char_of (48 + d) else char_of (87 + d))"

definition hex_val :: "char \<Rightarrow> nat option" where
  "hex_val c =
     (let n = of_char c in
      if 48 \<le> n \<and> n \<le> 57 then Some (n - 48)
      else if 97 \<le> n \<and> n \<le> 102 then Some (n - 87)
      else if 65 \<le> n \<and> n \<le> 70 then Some (n - 55)
      else None)"

definition esc_char :: "char \<Rightarrow> string" where
  "esc_char c =
     (let n = (of_char c :: nat) in
      if n = 34 then [CHR 0x5C, CHR 0x22]
      else if n = 92 then [CHR 0x5C, CHR 0x5C]
      else if n = 8 then [CHR 0x5C, CHR ''b'']
      else if n = 9 then [CHR 0x5C, CHR ''t'']
      else if n = 10 then [CHR 0x5C, CHR ''n'']
      else if n = 12 then [CHR 0x5C, CHR ''f'']
      else if n = 13 then [CHR 0x5C, CHR ''r'']
      else if n < 32 then [CHR 0x5C, CHR ''u'', CHR ''0'', CHR ''0'', hex_char (n div 16), hex_char (n mod 16)]
      else [c])"

definition quote_str :: "string \<Rightarrow> string" where
  "quote_str s = CHR 0x22 # concat (map esc_char s) @ [CHR 0x22]"

fun stringify :: "json \<Rightarrow> string"
  and stringify_elems :: "json list \<Rightarrow> string"
  and stringify_members :: "(string \<times> json) list \<Rightarrow> string" where
  "stringify JNull = ''null''"
| "stringify (JBool b) = (if b then ''true'' else ''false'')"
| "stringify (JNum i) = int_to_string i"
| "stringify (JStr s) = quote_str s"
| "stringify (JArr vs) = CHR ''['' # stringify_elems vs @ '']''"
| "stringify (JObj ms) = CHR ''{'' # stringify_members ms @ ''}''"
| "stringify_elems [] = []"
| "stringify_elems (v # vs) =
     stringify v @ (if vs = [] then [] else CHR '','' # stringify_elems vs)"
| "stringify_members [] = []"
| "stringify_members ((k, v) # ms) =
     quote_str k @ CHR '':'' # stringify v @ (if ms = [] then [] else CHR '','' # stringify_members ms)"

section \<open>Parsing\<close>

definition is_json_ws :: "char \<Rightarrow> bool" where
  "is_json_ws c = ((of_char c :: nat) \<in> {9, 10, 13, 32})"

definition skip_ws :: "string \<Rightarrow> string" where
  "skip_ws s = dropWhile is_json_ws s"

definition unesc_char :: "char \<Rightarrow> char option" where
  "unesc_char e =
     (if e = CHR 0x22 then Some (CHR 0x22)
      else if e = CHR 0x5C then Some (CHR 0x5C)
      else if e = CHR ''/'' then Some (CHR ''/'')
      else if e = CHR ''b'' then Some (CHR 0x08)
      else if e = CHR ''f'' then Some (CHR 0x0C)
      else if e = CHR ''n'' then Some (CHR 0x0A)
      else if e = CHR ''r'' then Some (CHR 0x0D)
      else if e = CHR ''t'' then Some (CHR 0x09)
      else None)"

definition hex4 :: "char \<Rightarrow> char \<Rightarrow> char \<Rightarrow> char \<Rightarrow> nat option" where
  "hex4 a b c d =
     (case (hex_val a, hex_val b, hex_val c, hex_val d) of
        (Some w, Some x, Some y, Some z) \<Rightarrow> Some (((w * 16 + x) * 16 + y) * 16 + z)
      | _ \<Rightarrow> None)"

text \<open>The rest of a string literal after its opening quote.\<close>

fun p_str :: "string \<Rightarrow> (string \<times> string) option" where
  "p_str [] = None"
| "p_str (c # r) =
     (if c = CHR 0x22 then Some ([], r)
      else if c = CHR 0x5C then
        (case r of
           [] \<Rightarrow> None
         | e # r1 \<Rightarrow>
             if e = CHR ''u'' then
               (case r1 of
                  h1 # h2 # h3 # h4 # r2 \<Rightarrow>
                    (case hex4 h1 h2 h3 h4 of
                       Some n \<Rightarrow>
                         if n < 256 then map_option (\<lambda>(t, q). (char_of n # t, q)) (p_str r2) else None
                     | None \<Rightarrow> None)
                | _ \<Rightarrow> None)
             else
               (case unesc_char e of
                  Some d \<Rightarrow> map_option (\<lambda>(t, q). (d # t, q)) (p_str r1)
                | None \<Rightarrow> None))
      else if (of_char c :: nat) < 32 then None
      else map_option (\<lambda>(t, q). (c # t, q)) (p_str r))"

definition p_num :: "string \<Rightarrow> (json \<times> string) option" where
  "p_num s =
     (let neg = (s \<noteq> [] \<and> hd s = CHR ''-'');
          u = (if neg then tl s else s);
          ds = takeWhile is_digit u;
          r = dropWhile is_digit u
      in if ds = [] \<or> (hd ds = CHR ''0'' \<and> tl ds \<noteq> []) then None
         else if r \<noteq> [] \<and> (hd r = CHR ''.'' \<or> hd r = CHR ''e'' \<or> hd r = CHR ''E'') then None
         else Some (JNum (if neg then - int (digits_val ds) else int (digits_val ds)), r))"

definition p_lit :: "string \<Rightarrow> (json \<times> string) option" where
  "p_lit s =
     (if starts_with s ''null'' then Some (JNull, drop 4 s)
      else if starts_with s ''true'' then Some (JBool True, drop 4 s)
      else if starts_with s ''false'' then Some (JBool False, drop 5 s)
      else p_num s)"

fun p_val :: "nat \<Rightarrow> string \<Rightarrow> (json \<times> string) option"
  and p_elems :: "nat \<Rightarrow> string \<Rightarrow> (json list \<times> string) option"
  and p_members :: "nat \<Rightarrow> string \<Rightarrow> ((string \<times> json) list \<times> string) option" where
  "p_val 0 s = None"
| "p_val (Suc n) s =
     (case skip_ws s of
        [] \<Rightarrow> None
      | c # r \<Rightarrow>
          if c = CHR 0x22 then map_option (\<lambda>(t, q). (JStr t, q)) (p_str r)
          else if c = CHR ''['' then
            (if starts_with (skip_ws r) '']'' then Some (JArr [], tl (skip_ws r))
             else map_option (\<lambda>(vs, q). (JArr vs, q)) (p_elems n r))
          else if c = CHR ''{'' then
            (if starts_with (skip_ws r) ''}'' then Some (JObj [], tl (skip_ws r))
             else map_option (\<lambda>(ms, q). (JObj ms, q)) (p_members n r))
          else p_lit (c # r))"
| "p_elems 0 s = None"
| "p_elems (Suc n) s =
     (case p_val n s of
        None \<Rightarrow> None
      | Some (v, r) \<Rightarrow>
          if starts_with (skip_ws r) '']'' then Some ([v], tl (skip_ws r))
          else if starts_with (skip_ws r) '','' then
            map_option (\<lambda>(vs, q). (v # vs, q)) (p_elems n (tl (skip_ws r)))
          else None)"
| "p_members 0 s = None"
| "p_members (Suc n) s =
     (if starts_with (skip_ws s) [CHR 0x22] then
        (case p_str (tl (skip_ws s)) of
           None \<Rightarrow> None
         | Some (k, r1) \<Rightarrow>
             if starts_with (skip_ws r1) '':'' then
               (case p_val n (tl (skip_ws r1)) of
                  None \<Rightarrow> None
                | Some (v, r) \<Rightarrow>
                    if starts_with (skip_ws r) ''}'' then Some ([(k, v)], tl (skip_ws r))
                    else if starts_with (skip_ws r) '','' then
                      map_option (\<lambda>(ms, q). ((k, v) # ms, q)) (p_members n (tl (skip_ws r)))
                    else None)
             else None)
      else None)"

definition json_parse :: "string \<Rightarrow> json js_result" where
  "json_parse s =
     (case p_val (length s) s of
        Some (v, r) \<Rightarrow> if skip_ws r = [] then Inr v else Inl SyntaxError
      | None \<Rightarrow> Inl SyntaxError)"

section \<open>Round trip\<close>

lemma hex_val_hex_char: "d < 16 \<Longrightarrow> hex_val (hex_char d) = Some d"
  by (auto simp: hex_val_def hex_char_def Let_def)

lemma of_char_nat_eq: "(of_char c :: nat) = of_char d \<longleftrightarrow> c = d"
  by simp

lemma escaped_codes:
  "(of_char c :: nat) = 34 \<longleftrightarrow> c = CHR 0x22" "(of_char c :: nat) = 92 \<longleftrightarrow> c = CHR 0x5C"
  "(of_char c :: nat) = 8 \<longleftrightarrow> c = CHR 0x08" "(of_char c :: nat) = 9 \<longleftrightarrow> c = CHR 0x09"
  "(of_char c :: nat) = 10 \<longleftrightarrow> c = CHR 0x0A" "(of_char c :: nat) = 12 \<longleftrightarrow> c = CHR 0x0C"
  "(of_char c :: nat) = 13 \<longleftrightarrow> c = CHR 0x0D"
  by (simp_all flip: of_char_nat_eq)

lemma p_str_esc_char: "p_str (esc_char c @ s) = map_option (\<lambda>(t, q). (c # t, q)) (p_str s)"
proof -
  let ?n = "of_char c :: nat"
  have c: "c = char_of ?n" by simp
  have lt: "?n < 256" by simp
  consider "?n = 34" | "?n = 92" | "?n = 8" | "?n = 9" | "?n = 10" | "?n = 12" | "?n = 13"
    | "?n < 32" "?n \<notin> {8, 9, 10, 12, 13}" | "?n \<ge> 32" "?n \<noteq> 34" "?n \<noteq> 92"
    by fastforce
  then show ?thesis
  proof cases
    case 8
    have "hex_val (CHR ''0'') = Some 0"
      by (simp add: hex_val_def)
    moreover have "?n div 16 < 16"
      using lt by linarith
    ultimately have "hex4 (CHR ''0'') (CHR ''0'') (hex_char (?n div 16)) (hex_char (?n mod 16)) = Some ?n"
      using lt by (simp add: hex4_def hex_val_hex_char)
    then show ?thesis
      using 8 lt by (simp add: esc_char_def Let_def)
  next
    case 9
    then have "c \<noteq> CHR 0x22" and "c \<noteq> CHR 0x5C" by auto
    then show ?thesis
      using 9 by (simp add: esc_char_def Let_def)
  qed (simp_all add: escaped_codes esc_char_def Let_def unesc_char_def)
qed

lemma p_str_quote: "p_str (concat (map esc_char s) @ CHR 0x22 # rest) = Some (s, rest)"
  by (induction s) (auto simp: p_str_esc_char)

text \<open>How much fuel a value needs; the printed text is at least that long.\<close>

fun need :: "json \<Rightarrow> nat"
  and need_elems :: "json list \<Rightarrow> nat"
  and need_members :: "(string \<times> json) list \<Rightarrow> nat" where
  "need (JArr vs) = Suc (need_elems vs)"
| "need (JObj ms) = Suc (need_members ms)"
| "need JNull = 1"
| "need (JBool b) = 1"
| "need (JNum i) = 1"
| "need (JStr s) = 1"
| "need_elems [] = 0"
| "need_elems (v # vs) = Suc (need v + need_elems vs)"
| "need_members [] = 0"
| "need_members ((k, v) # ms) = Suc (need v + need_members ms)"

lemma int_to_string_ne [simp]: "int_to_string i \<noteq> []"
  by (simp add: int_to_string_def)

lemma need_le_length:
  "need v \<le> length (stringify v)"
  "need_elems vs \<le> Suc (length (stringify_elems vs))"
  "need_members ms \<le> Suc (length (stringify_members ms))"
proof (induction v and vs and ms rule: stringify_stringify_elems_stringify_members.induct)
  case (3 i)
  then show ?case by (simp add: Suc_leI)
qed (auto simp: quote_str_def)

text \<open>What may follow a value inside a text: nothing, a comma or a closing bracket.\<close>

definition delimited :: "string \<Rightarrow> bool" where
  "delimited r = (r = [] \<or> hd r \<in> {CHR '','', CHR '']'', CHR ''}''})"

lemma delimited_simps [simp]:
  "delimited []" "delimited (CHR '','' # r)" "delimited (CHR '']'' # r)" "delimited (CHR ''}'' # r)"
  by (simp_all add: delimited_def)

lemma skip_ws_id: "s = [] \<or> \<not> is_json_ws (hd s) \<Longrightarrow> skip_ws s = s"
  by (cases s) (auto simp: skip_ws_def)

lemma skip_ws_delims [simp]:
  "skip_ws (CHR '','' # r) = CHR '','' # r" "skip_ws (CHR '']'' # r) = CHR '']'' # r"
  "skip_ws (CHR ''}'' # r) = CHR ''}'' # r" "skip_ws (CHR '':'' # r) = CHR '':'' # r"
  "skip_ws (CHR 0x22 # r) = CHR 0x22 # r" "skip_ws (CHR ''['' # r) = CHR ''['' # r"
  "skip_ws (CHR ''{'' # r) = CHR ''{'' # r" "skip_ws [] = []"
  by (simp_all add: skip_ws_def is_json_ws_def)

lemma starts_with_Cons [simp]: "starts_with (c # s) [d] \<longleftrightarrow> c = d"
  by (simp add: starts_with_def)

lemma nat_to_string_no_leading_zero: "hd (nat_to_string n) = CHR ''0'' \<Longrightarrow> nat_to_string n = ''0''"
proof (induction n rule: nat_to_string.induct)
  case (1 n)
  show ?case
  proof (cases "n < 10")
    case True
    then have "nat_to_string n = [digit_char n]" by (simp add: nat_to_string.simps[of n])
    then show ?thesis using 1 by simp
  next
    case False
    then have eq: "nat_to_string n = nat_to_string (n div 10) @ [digit_char (n mod 10)]"
      by (simp add: nat_to_string.simps[of n])
    then have "nat_to_string (n div 10) = ''0''"
      using 1 False by simp
    then have "digits_val (nat_to_string (n div 10)) = 0"
      by (simp add: digits_val_def digit_val_def)
    then show ?thesis using False by simp
  qed
qed

lemma p_num_print: "delimited rest \<Longrightarrow> p_num (int_to_string i @ rest) = Some (JNum i, rest)"
proof -
  assume d: "delimited rest"
  then have r: "rest = [] \<or> \<not> is_digit (hd rest) \<and> hd rest \<notin> {CHR ''.'', CHR ''e'', CHR ''E''}"
    by (auto simp: delimited_def is_digit_def)
  then have r': "\<not> (rest \<noteq> [] \<and> (hd rest = CHR ''.'' \<or> hd rest = CHR ''e'' \<or> hd rest = CHR ''E''))"
    by auto
  have tw: "takeWhile is_digit (nat_to_string n @ rest) = nat_to_string n"
    and dw: "dropWhile is_digit (nat_to_string n @ rest) = rest" for n
    using r nat_to_string_digits[of n] by (cases rest; simp add: takeWhile_append dropWhile_append)+
  have hd: "hd (nat_to_string n @ rest) \<noteq> CHR ''-''" for n
    using nat_to_string_digits[of n] by (cases "nat_to_string n") (auto dest: is_digit_not_sign)
  have z: "\<not> (hd (nat_to_string n) = CHR ''0'' \<and> tl (nat_to_string n) \<noteq> [])" for n
    using nat_to_string_no_leading_zero[of n] by auto
  show ?thesis
  proof (cases "i < 0")
    case True
    then show ?thesis
      using r' z[of "nat (- i)"]
      by (simp add: p_num_def int_to_string_def Let_def tw dw del: takeWhile_append)
  next
    case False
    then show ?thesis
      using r' z[of "nat i"] hd[of "nat i"]
      by (simp add: p_num_def int_to_string_def Let_def tw dw del: hd_append2)
  qed
qed

lemma print_num_head:
  "hd (int_to_string i) = CHR ''-'' \<or> is_digit (hd (int_to_string i))"
  using nat_to_string_digits[of "nat i"]
  by (cases "nat_to_string (nat i)") (auto simp: int_to_string_def)

lemma p_val_num:
  assumes "delimited rest"
  shows "p_val (Suc n) (int_to_string i @ rest) = Some (JNum i, rest)"
proof -
  obtain c s where c: "int_to_string i = c # s"
    by (cases "int_to_string i") auto
  then have h: "c = CHR ''-'' \<or> is_digit c"
    using print_num_head[of i] by simp
  then have "\<not> is_json_ws c" "c \<noteq> CHR 0x22" "c \<noteq> CHR ''[''" "c \<noteq> CHR ''{''"
    "c \<noteq> CHR ''n''" "c \<noteq> CHR ''t''" "c \<noteq> CHR ''f''"
    by (auto simp: is_digit_def is_json_ws_def)
  then show ?thesis
    using p_num_print[OF assms, of i] c
    by (simp add: skip_ws_id p_lit_def starts_with_def)
qed

lemma stringify_head:
  "stringify v \<noteq> []" "\<not> is_json_ws (hd (stringify v @ r))"
  "\<not> starts_with (stringify v @ r) '']''"
proof -
  have "\<exists>c s. stringify v = c # s \<and> \<not> is_json_ws c \<and> c \<noteq> CHR '']''"
  proof (cases v)
    case (JNum i)
    then show ?thesis
      using print_num_head[of i]
      by (cases "int_to_string i") (auto simp: is_digit_def is_json_ws_def)
  qed (auto simp: is_json_ws_def quote_str_def)
  then show "stringify v \<noteq> []" "\<not> is_json_ws (hd (stringify v @ r))"
    "\<not> starts_with (stringify v @ r) '']''"
    by (auto simp: starts_with_def)
qed

lemma parse_stringify_rest:
  "need v \<le> n \<Longrightarrow> delimited rest \<Longrightarrow> p_val n (stringify v @ rest) = Some (v, rest)"
  "need_elems vs \<le> n \<Longrightarrow> vs \<noteq> [] \<Longrightarrow>
     p_elems n (stringify_elems vs @ CHR '']'' # rest) = Some (vs, rest)"
  "need_members ms \<le> n \<Longrightarrow> ms \<noteq> [] \<Longrightarrow>
     p_members n (stringify_members ms @ CHR ''}'' # rest) = Some (ms, rest)"
proof (induction v and vs and ms arbitrary: n rest and n rest and n rest
    rule: stringify_stringify_elems_stringify_members.induct)
  case 1
  then obtain m where "n = Suc m" by (cases n) auto
  then show ?case by (simp add: skip_ws_def is_json_ws_def p_lit_def starts_with_def)
next
  case (2 b)
  then obtain m where "n = Suc m" by (cases n) auto
  then show ?case by (simp add: skip_ws_def is_json_ws_def p_lit_def starts_with_def)
next
  case (3 i)
  then obtain m where "n = Suc m" by (cases n) auto
  then show ?case using 3 by (simp add: p_val_num del: p_val.simps)
next
  case (4 s)
  then obtain m where "n = Suc m" by (cases n) auto
  then show ?case by (simp add: quote_str_def p_str_quote)
next
  case (5 vs)
  then obtain m where n: "n = Suc m" by (cases n) auto
  show ?case
  proof (cases vs)
    case Nil
    then show ?thesis using n by simp
  next
    case (Cons v us)
    have "skip_ws (stringify_elems vs @ CHR '']'' # rest) = stringify_elems vs @ CHR '']'' # rest"
      "\<not> starts_with (stringify_elems vs @ CHR '']'' # rest) '']''"
      using stringify_head(2,3)[of v] by (auto simp: Cons intro!: skip_ws_id)
    then show ?thesis
      using 5 n Cons by simp
  qed
next
  case (6 ms)
  then obtain m where n: "n = Suc m" by (cases n) auto
  show ?case
  proof (cases ms)
    case Nil
    then show ?thesis using n by simp
  next
    case (Cons m0 ms')
    obtain k v where "m0 = (k, v)" by (cases m0)
    then have "skip_ws (stringify_members ms @ CHR ''}'' # rest) = stringify_members ms @ CHR ''}'' # rest"
      "\<not> starts_with (stringify_members ms @ CHR ''}'' # rest) ''}''"
      by (simp_all add: Cons quote_str_def)
    then show ?thesis
      using 6 n Cons by simp
  qed
next
  case 7
  then show ?case by simp
next
  case (8 v vs)
  then obtain m where n: "n = Suc m" by (cases n) auto
  show ?case
    using 8 n by (cases "vs = []") simp_all
next
  case 9
  then show ?case by simp
next
  case (10 k v ms)
  then obtain m where n: "n = Suc m" by (cases n) auto
  show ?case
    using 10 n by (cases "ms = []") (simp_all add: quote_str_def p_str_quote)
qed

theorem parse_stringify: "json_parse (stringify v) = Inr v"
  using parse_stringify_rest(1)[OF need_le_length(1), of "[]" v]
  by (simp add: json_parse_def)

text \<open>From here on texts are only reasoned about through the round trip.\<close>

declare stringify.simps [simp del] stringify_elems.simps [simp del] stringify_members.simps [simp del]
declare p_val.simps [simp del] p_elems.simps [simp del] p_members.simps [simp del]

end
