(* ===== verification/Service_Errors.thy ===== *)
theory Service_Errors
  imports JS_Values JSON_Text
begin

text \<open>
  \<open>src/app/utils/errors.ts\<close> and \<open>operation-error.ts\<close>: every error of the services becomes an
  \<open>OperationError\<close> with a message for the user. Errors are objects of any shape, so they are
  values of the language; an \<open>OperationError\<close> is the object with its four members.
\<close>

section \<open>Operations\<close>

definition defaultErrorMsg :: string where "defaultErrorMsg = ''common.operation-error''"

definition NoConnection_type :: string where "NoConnection_type = ''NoConnection''"
definition Unknown_type :: string where "Unknown_type = ''Unknown''"

text \<open>The value a parsed text stands for; of an array only that it is an object matters here.\<close>

fun json_val :: "json \<Rightarrow> jsval" where
  "json_val JNull = VNull"
| "json_val (JBool b) = VBool b"
| "json_val (JNum i) = VNum i"
| "json_val (JStr s) = VStr s"
| "json_val (JArr vs) = VObj []"
| "json_val (JObj ms) = VObj (rev (map (\<lambda>m. (fst m, json_val (snd m))) ms))"

text \<open>\<open>JSON.parse(text).error\<close> inside a \<open>try\<close>; \<open>None\<close> is an exception.\<close>

definition parsed_error :: "string \<Rightarrow> jsval option" where
  "parsed_error s =
     (case json_parse s of
        Inl e \<Rightarrow> None
      | Inr j \<Rightarrow> (case get_prop (json_val j) ''error'' of Inl e \<Rightarrow> None | Inr v \<Rightarrow> Some v))"

text \<open>\<open>msg.split(' - ', 2)\<close> keeps the first two parts.\<close>

definition remove_code :: "string \<Rightarrow> string" where
  "remove_code msg =
     (if starts_with msg ''400'' \<or> starts_with msg ''403'' then
        let parts = take 2 (split_str '' - '' [] msg)
        in if length parts = 2 then parts ! 1 else msg
      else msg)"

definition capitalise :: "string \<Rightarrow> string" where
  "capitalise msg =
     (let firstLetter = substr0 msg 1
      in if to_upper firstLetter \<noteq> firstLetter then to_upper firstLetter @ drop 1 msg else msg)"

definition punctuated :: "string \<Rightarrow> bool" where
  "punctuated msg = list_ex (ends_with msg) [''.'', '','', '':'', '';'', ''?'', ''!'']"

definition finish_msg :: "string \<Rightarrow> string" where
  "finish_msg msg =
     (let m = capitalise (trim (remove_code msg))
      in if \<not> punctuated m then m @ ''.'' else m)"

definition processErrorMsg :: "jsval \<Rightarrow> jsval js_result" where
  "processErrorMsg v =
     (if \<not> val_truthy v \<or> get_prop v ''length'' = Inr (VNum 0) then Inr v
      else
        case v of
          VStr msg \<Rightarrow>
            (case (if str_includes msg (CHR 0x22 # ''error'' @ [CHR 0x22, CHR '':'']) then parsed_error msg else None) of
               None \<Rightarrow> Inr (VStr (finish_msg msg))
             | Some (VStr inner) \<Rightarrow> Inr (VStr (finish_msg inner))
             | Some _ \<Rightarrow> Inl TypeError)
        | _ \<Rightarrow> Inl TypeError)"

text \<open>A member of a value that is known not to be \<open>null\<close> or \<open>undefined\<close>.\<close>

definition val_prop :: "jsval \<Rightarrow> string \<Rightarrow> jsval" where
  "val_prop v k = (case get_prop v k of Inr w \<Rightarrow> w | Inl e \<Rightarrow> VUndef)"

fun is_string :: "jsval \<Rightarrow> bool" where
  "is_string (VStr s) = True"
| "is_string _ = False"

definition getErrorMsg :: "jsval \<Rightarrow> jsval" where
  "getErrorMsg e =
     (if val_truthy e then
        let body = val_prop e ''_body''; inner = val_prop e ''error'' in
        if is_string body then body
        else if val_truthy (val_prop e ''originalServerErrorMsg'') \<and> is_string (val_prop e ''originalServerErrorMsg'')
        then val_prop e ''originalServerErrorMsg''
        else if val_truthy inner \<and> is_string inner then inner
        else if val_truthy inner \<and> val_truthy (val_prop inner ''error'') \<and>
                val_truthy (val_prop (val_prop inner ''error'') ''message'')
        then val_prop (val_prop inner ''error'') ''message''
        else if val_truthy inner \<and> val_truthy (val_prop inner ''error'') \<and> is_string (val_prop inner ''error'')
        then val_prop inner ''error''
        else if val_truthy (val_prop e ''message'') then val_prop e ''message''
        else if val_truthy body \<and> val_truthy (val_prop body ''error'') then val_prop body ''error''
        else case parsed_error (val_to_string body) of Some v \<Rightarrow> v | None \<Rightarrow> VNull
      else VNull)"

definition operation_error :: "string \<Rightarrow> jsval \<Rightarrow> jsval \<Rightarrow> jsval \<Rightarrow> jsval" where
  "operation_error t original server_msg translatable =
     VObj [(''type'', VStr t), (''originalError'', original), (''originalServerErrorMsg'', server_msg),
           (''translatableErrorMsg'', translatable)]"

definition no_connection_status :: "jsval \<Rightarrow> bool" where
  "no_connection_status v = (v = VNum 0 \<or> v = VNum 504)"

definition processServiceError :: "jsval \<Rightarrow> jsval js_result" where
  "processServiceError e =
     (if val_truthy e \<and> val_truthy (val_prop e ''type'') \<and> \<not> val_truthy (val_prop e ''srcElement'') then Inr e
      else if \<not> val_truthy e \<or> is_string e then
        Inr (operation_error Unknown_type e
               (if val_truthy e then e else VStr []) (if val_truthy e then e else VStr defaultErrorMsg))
      else
        let msg = getErrorMsg e in
        if no_connection_status (val_prop e ''status'')
        then Inr (operation_error NoConnection_type e msg (VStr ''common.no-connection-error''))
        else if val_truthy msg
        then bindR (processErrorMsg msg) (\<lambda>m. Inr (operation_error Unknown_type e msg m))
        else Inr (operation_error Unknown_type e msg (VStr defaultErrorMsg)))"

section \<open>Properties\<close>

lemma capitalise_append: "msg \<noteq> [] \<Longrightarrow> capitalise (msg @ s) = capitalise msg @ s"
  by (cases msg) (simp_all add: capitalise_def substr0_def)

lemma capitalise_Nil [simp]: "capitalise [] = []"
  by (simp add: capitalise_def substr0_def to_upper_def)

lemma capitalise_ne [simp]: "capitalise msg = [] \<longleftrightarrow> msg = []"
  by (cases msg) (simp_all add: capitalise_def substr0_def to_upper_def)

lemma finish_msg_ne: "finish_msg msg \<noteq> []"
proof -
  have "\<not> punctuated []" by (simp add: punctuated_def ends_with_def)
  then show ?thesis by (auto simp: finish_msg_def)
qed

lemma ends_with_snoc: "ends_with (m @ [c]) [c]"
  by (simp add: ends_with_def)

lemma finish_msg_punctuated: "punctuated (finish_msg msg)"
  by (simp add: finish_msg_def) (simp add: punctuated_def ends_with_snoc)

lemma capitalised: "to_upper (substr0 (capitalise msg) 1) = substr0 (capitalise msg) 1"
  by (cases msg) (auto simp: capitalise_def substr0_def to_upper_def dest: arg_cong [of _ _ hd]
      intro!: to_upper_idem [of "[hd msg]", unfolded to_upper_def, simplified])

lemma finish_msg_capitalised: "to_upper (substr0 (finish_msg msg) 1) = substr0 (finish_msg msg) 1"
proof -
  let ?m = "trim (remove_code msg)"
  have "substr0 (capitalise ?m @ ''.'') 1 = (if ?m = [] then ''.'' else substr0 (capitalise ?m) 1)"
    by (cases "capitalise ?m") (auto simp: substr0_def)
  moreover have "to_upper ''.'' = ''.''" by code_simp
  ultimately show ?thesis
    using capitalised [of ?m] by (simp add: finish_msg_def)
qed

lemma processErrorMsg_text:
  assumes "processErrorMsg (VStr s) = Inr v" and "s \<noteq> []"
  shows "\<exists>t. v = VStr (finish_msg t)"
  using assms by (auto simp: processErrorMsg_def split: option.splits if_splits jsval.splits)

lemma operation_error_props [simp]:
  "val_prop (operation_error t e m u) ''type'' = VStr t"
  "val_prop (operation_error t e m u) ''originalError'' = e"
  "val_prop (operation_error t e m u) ''translatableErrorMsg'' = u"
  "val_prop (operation_error t e m u) ''srcElement'' = VUndef"
  "val_truthy (operation_error t e m u)"
  by (simp_all add: operation_error_def val_prop_def)

lemma processed_unchanged: "t \<noteq> [] \<Longrightarrow> processServiceError (operation_error t e m u) = Inr (operation_error t e m u)"
  by (simp add: processServiceError_def)

lemma is_string_iff: "is_string v \<longleftrightarrow> (\<exists>s. v = VStr s)"
  by (cases v) auto


text \<open>
  Two limits of the clean-up of error texts. A text that contains the name of an error
  member but whose own error member is missing or no string makes the processing itself throw: the
  handlers that call it end in an exception in place of showing the error. And a text with a status
  code loses everything after its second part.
\<close>

theorem error_text_limits:
  assumes "str_includes msg (CHR 0x22 # ''error'' @ [CHR 0x22, CHR '':''])"
    and "parsed_error msg = Some v" and "\<not> is_string v"
    and "starts_with coded ''400''" and "split_str '' - '' [] coded = p # q # rest"
    and "\<not> str_includes coded (CHR 0x22 # ''error'' @ [CHR 0x22, CHR '':''])"
  shows "processErrorMsg (VStr msg) = Inl TypeError \<and>
    processServiceError (VObj [(''error'', VStr msg)]) = Inl TypeError \<and>
    processErrorMsg (VStr coded) =
      Inr (VStr (let m = capitalise (trim q) in if punctuated m then m else m @ ''.''))"
proof -
  have ne: "msg \<noteq> []" "coded \<noteq> []" using assms(1,4) by (auto simp: starts_with_def)
  have 1: "processErrorMsg (VStr msg) = Inl TypeError"
    using assms(1-3) ne by (auto simp: processErrorMsg_def split: jsval.split)
  have "getErrorMsg (VObj [(''error'', VStr msg)]) = VStr msg"
    using ne by (simp add: getErrorMsg_def val_prop_def)
  then have "processServiceError (VObj [(''error'', VStr msg)]) = Inl TypeError"
    using 1 ne by (simp add: processServiceError_def val_prop_def no_connection_status_def)
  moreover have "remove_code coded = q"
    using assms(4,5) by (simp add: remove_code_def)
  then have "processErrorMsg (VStr coded) =
      Inr (VStr (let m = capitalise (trim q) in if punctuated m then m else m @ ''.''))"
    using assms(6) ne by (simp add: processErrorMsg_def finish_msg_def)
  ultimately show ?thesis using 1 by blast
qed


theorem error_text_limits_witness:
  "processErrorMsg (VStr (CHR ''{'' # CHR 0x22 # ''data'' @ [CHR 0x22] @ '':{'' @ [CHR 0x22] @ ''error'' @ [CHR 0x22] @ '':1}}'')) =
     Inl TypeError \<and>
   processErrorMsg (VStr ''400 - dial failed - timeout'') = Inr (VStr ''Dial failed.'')"
proof -
  let ?msg = "CHR ''{'' # CHR 0x22 # ''data'' @ [CHR 0x22] @ '':{'' @ [CHR 0x22] @ ''error'' @ [CHR 0x22] @ '':1}}''"
  let ?c = "''400 - dial failed - timeout''"
  have 1: "str_includes ?msg (CHR 0x22 # ''error'' @ [CHR 0x22, CHR '':''])" by code_simp
  have 2: "parsed_error ?msg = Some VUndef" by code_simp
  have 3: "starts_with ?c ''400''" by code_simp
  have 4: "split_str '' - '' [] ?c = [''400'', ''dial failed'', ''timeout'']" by code_simp
  have 5: "\<not> str_includes ?c (CHR 0x22 # ''error'' @ [CHR 0x22, CHR '':''])" by code_simp
  have 6: "(let m = capitalise (trim ''dial failed'') in if punctuated m then m else m @ ''.'') = ''Dial failed.''"
    by code_simp
  show ?thesis
    using error_text_limits [OF 1 2 _ 3 4 5] unfolding 6 by simp
qed

end
