(* ===== verification/List_Operations.thy ===== *)
theory List_Operations
  imports Pagination Service_Errors
begin

text \<open>
  What the lists of the application have in common besides the pages: the confirmation dialog
  (\<open>confirmation.component.ts\<close>, with the button and the base dialog it uses), the operations on the
  check boxes and the deletion of the selected elements one by one. The dialog and the lists are
  driven by events; what they show is recorded as a list of \<open>ui_event\<close>s.
\<close>

section \<open>The confirmation dialog\<close>

datatype ConfirmationStates = Asking | Processing | Done

datatype ButtonStates = ButtonNormal | ButtonError | ButtonLoading

record button =
  button_state :: ButtonStates
  disabled :: bool

definition button_reset :: "button \<Rightarrow> button" where
  "button_reset b = b\<lparr>button_state := ButtonNormal, disabled := False\<rparr>"

definition showLoading :: "button \<Rightarrow> button" where
  "showLoading b = b\<lparr>button_state := ButtonLoading, disabled := True\<rparr>"

definition showEnabled :: "button \<Rightarrow> button" where "showEnabled b = b\<lparr>disabled := False\<rparr>"
definition showDisabled :: "button \<Rightarrow> button" where "showDisabled b = b\<lparr>disabled := True\<rparr>"

text \<open>
  The cancel button only exists when there is a text for it. The field \<open>disableClose\<close> is that of the
  dialog of the library, which closes on a click outside or the escape key unless it is set. The
  constructor sets it from the data and the base dialog of the template sets it when it is created.
\<close>

record confirmation =
  conf_state :: ConfirmationStates
  disableDismiss :: bool
  disableClose :: bool
  confirmButton :: button
  cancelButton :: "button option"
  doneTitle :: string
  doneText :: jsval
  headerText :: string
  conf_closed :: bool
  operationAccepted :: nat

definition new_confirmation :: "string \<Rightarrow> bool \<Rightarrow> bool \<Rightarrow> confirmation" where
  "new_confirmation header dismissDisabled hasCancel =
     \<lparr>conf_state = Asking, disableDismiss = dismissDisabled, disableClose = True,
      confirmButton = \<lparr>button_state = ButtonNormal, disabled = False\<rparr>,
      cancelButton = (if hasCancel then Some \<lparr>button_state = ButtonNormal, disabled = False\<rparr> else None),
      doneTitle = [], doneText = VUndef, headerText = header, conf_closed = False, operationAccepted = 0\<rparr>"

definition closeModal :: "confirmation \<Rightarrow> confirmation" where
  "closeModal c = c\<lparr>conf_closed := True\<rparr>"

definition showAsking :: "string option \<Rightarrow> confirmation \<Rightarrow> confirmation" where
  "showAsking newHeader c =
     c\<lparr>headerText := (case newHeader of Some h \<Rightarrow> h | None \<Rightarrow> headerText c), conf_state := Asking, confirmButton := button_reset (confirmButton c), disableDismiss := False,
       disableClose := False, cancelButton := map_option showEnabled (cancelButton c)\<rparr>"

definition showProcessing :: "confirmation \<Rightarrow> confirmation" where
  "showProcessing c =
     c\<lparr>conf_state := Processing, disableDismiss := True, confirmButton := showLoading (confirmButton c),
       cancelButton := map_option showDisabled (cancelButton c)\<rparr>"

definition showDone :: "string \<Rightarrow> jsval \<Rightarrow> confirmation \<Rightarrow> confirmation" where
  "showDone newTitle newText c =
     c\<lparr>doneTitle := (if newTitle \<noteq> [] then newTitle else headerText c), doneText := newText,
       confirmButton := button_reset (confirmButton c), conf_state := Done, disableClose := False,
       disableDismiss := False\<rparr>"

text \<open>
  What the user can do: the two buttons, the ways to dismiss a dialog (\<open>DialogComponent.closePopup\<close>)
  and those of the library.
\<close>

definition confirm_clicked :: "confirmation \<Rightarrow> confirmation" where
  "confirm_clicked c =
     (if disabled (confirmButton c) then c
      else let c1 = c\<lparr>confirmButton := button_reset (confirmButton c)\<rparr>
           in if conf_state c = Asking then c1\<lparr>operationAccepted := operationAccepted c1 + 1\<rparr> else closeModal c1)"

definition cancel_clicked :: "confirmation \<Rightarrow> confirmation" where
  "cancel_clicked c =
     (case cancelButton c of
        None \<Rightarrow> c
      | Some b \<Rightarrow>
          if disabled b \<or> conf_state c = Done then c
          else closeModal (c\<lparr>cancelButton := Some (button_reset b)\<rparr>))"

definition closePopup :: "confirmation \<Rightarrow> confirmation" where
  "closePopup c = (if \<not> disableDismiss c then closeModal c else c)"

definition library_dismiss :: "confirmation \<Rightarrow> confirmation" where
  "library_dismiss c = (if \<not> disableClose c then closeModal c else c)"

inductive user_step :: "confirmation \<Rightarrow> confirmation \<Rightarrow> bool" where
  "user_step c (confirm_clicked c)"
| "user_step c (cancel_clicked c)"
| "user_step c (closePopup c)"
| "user_step c (library_dismiss c)"

text \<open>
  How the pages use a dialog: they start the operation when the user has confirmed, and show its end.
  No page calls \<open>showAsking\<close>.
\<close>

inductive code_step :: "confirmation \<Rightarrow> confirmation \<Rightarrow> bool" where
  "conf_state c = Asking \<Longrightarrow> code_step c (showProcessing c)"
| "code_step c (showDone title t c)"

inductive reachable_dialog :: "confirmation \<Rightarrow> bool" where
  opened: "reachable_dialog (new_confirmation header dismissDisabled hasCancel)"
| user: "reachable_dialog c \<Longrightarrow> user_step c c' \<Longrightarrow> reachable_dialog c'"
| code: "reachable_dialog c \<Longrightarrow> code_step c c' \<Longrightarrow> reachable_dialog c'"

inductive_cases user_stepE: "user_step c c'"
inductive_cases code_stepE: "code_step c c'"

definition locked :: "confirmation \<Rightarrow> bool" where
  "locked c \<longleftrightarrow> disableDismiss c \<and> disableClose c \<and> disabled (confirmButton c) \<and>
     (case cancelButton c of Some b \<Rightarrow> disabled b | None \<Rightarrow> True)"

lemmas dialog_defs =
  closeModal_def showAsking_def showProcessing_def showDone_def confirm_clicked_def cancel_clicked_def
  closePopup_def library_dismiss_def button_reset_def showLoading_def showEnabled_def showDisabled_def

lemma locked_user: "locked c \<Longrightarrow> user_step c c' \<Longrightarrow> c' = c"
  by (erule user_stepE) (auto simp: locked_def dialog_defs split: option.splits)

lemma processing_locked:
  "reachable_dialog c \<Longrightarrow> (conf_state c = Processing \<longrightarrow> locked c) \<and> (conf_state c = Done \<or> disableClose c)"
proof (induction rule: reachable_dialog.induct)
  case (user c c')
  show ?case
  proof (cases "conf_state c = Processing")
    case True
    then show ?thesis using user locked_user by blast
  next
    case False
    then show ?thesis
      using user(2,3) by (elim user_stepE) (auto simp: dialog_defs split: option.splits if_splits)
  qed
next
  case (code c c')
  then show ?case
    by (elim code_stepE) (auto simp: dialog_defs locked_def split: option.splits)
qed (simp add: new_confirmation_def)

text \<open>
  A confirmation dialog can not be left and no second confirmation can be sent while
  the operation is running: in every state the dialog can reach, nothing the user does has an effect
  while it shows that it is processing, and after the end of the operation is shown the user can
  close it.
\<close>

theorem confirmation_locked:
  assumes "reachable_dialog c" and "conf_state c = Processing" and "user_step c c'"
  shows "c' = c \<and> conf_closed (closePopup (showDone title t c)) \<and>
    conf_closed (confirm_clicked (showDone title t c)) \<and>
    operationAccepted (confirm_clicked (showDone title t c)) = operationAccepted c"
  using processing_locked [OF assms(1)] locked_user assms(2,3) by (auto simp: dialog_defs)

theorem confirmation_locked_witness:
  "confirm_clicked (showProcessing (new_confirmation ''h'' False True)) =
     showProcessing (new_confirmation ''h'' False True)"
proof -
  have r: "reachable_dialog (showProcessing (new_confirmation ''h'' False True))"
    by (rule reachable_dialog.code [OF reachable_dialog.opened code_step.intros(1)]) (simp add: new_confirmation_def)
  have "conf_state (showProcessing (new_confirmation ''h'' False True)) = Processing"
    by (simp add: showProcessing_def)
  then show ?thesis using confirmation_locked [OF r _ user_step.intros(1)] by blast
qed

text \<open>
  \<open>showProcessing\<close> does not set the field of the library again, so a dialog that asked a second time
  can be closed from outside while the operation is running.
\<close>

theorem asked_again_not_locked:
  "conf_state (showProcessing (showAsking d c)) = Processing \<and>
   conf_closed (library_dismiss (showProcessing (showAsking d c)))"
  by (simp add: dialog_defs)

section \<open>Check boxes\<close>

definition changeSelection :: "'k \<Rightarrow> ('k, bool) jsmap \<Rightarrow> ('k, bool) jsmap" where
  "changeSelection k sel =
     (if map_get sel k = Some True then map_set k False sel else map_set k True sel)"

definition hasSelectedElements :: "('k, bool) jsmap \<Rightarrow> bool" where
  "hasSelectedElements sel = fold (\<lambda>v found. if v then True else found) (map_values sel) False"

definition changeAllSelections :: "bool \<Rightarrow> ('k, bool) jsmap \<Rightarrow> ('k, bool) jsmap" where
  "changeAllSelections v sel = fold (\<lambda>e. map_set (fst e) v) sel sel"

definition selectedElements :: "('k, bool) jsmap \<Rightarrow> 'k list" where
  "selectedElements sel = concat (map (\<lambda>e. if snd e then [fst e] else []) sel)"

section \<open>Deleting the selected elements\<close>

datatype ui_event =
    CloseDialog
  | RefreshData
  | SnackbarDone string
  | DialogDone string jsval
  | UncaughtError js_error
  | SnackbarWarning string
  | SnackbarError jsval
  | RefreshTwice

text \<open>The error handlers of the lists: the error of an answer is processed and shown in the dialog.\<close>

definition error_shown :: "jsval \<Rightarrow> ui_event" where
  "error_shown err =
     (case processServiceError err of
        Inr e \<Rightarrow> DialogDone ''confirmation.error-header-text'' (val_prop e ''translatableErrorMsg'')
      | Inl x \<Rightarrow> UncaughtError x)"

text \<open>
  \<open>deleteRecursively\<close>: the elements are deleted from the last to the first, each request after the
  answer of the one before. A request takes the element (\<open>None\<close> is \<open>undefined\<close>, for an empty list) and
  the state of the backend.
\<close>

function deleteRecursively ::
  "string \<Rightarrow> ('k option \<Rightarrow> 'b \<Rightarrow> jsval + 'b) \<Rightarrow> 'k list \<Rightarrow> 'b \<Rightarrow> 'b \<times> ui_event list" where
  "deleteRecursively msg req ids b =
     (case req (if ids = [] then None else Some (last ids)) b of
        Inl err \<Rightarrow> (b, [RefreshData, error_shown err])
      | Inr b' \<Rightarrow>
          if length (butlast ids) = 0 then (b', [CloseDialog, RefreshData, SnackbarDone msg])
          else deleteRecursively msg req (butlast ids) b')"
  by pat_completeness auto
termination
  by (relation "measure (\<lambda>(msg, req, ids, b). length ids)") auto

declare deleteRecursively.simps [simp del]

subsection \<open>The reference: one request after the other until one fails\<close>

fun delete_in_order :: "('k option \<Rightarrow> 'b \<Rightarrow> jsval + 'b) \<Rightarrow> 'k list \<Rightarrow> 'b \<Rightarrow> 'b \<times> (jsval option)" where
  "delete_in_order req [] b = (b, None)"
| "delete_in_order req (k # ks) b =
     (case req (Some k) b of Inl err \<Rightarrow> (b, Some err) | Inr b' \<Rightarrow> delete_in_order req ks b')"

definition deletion_events :: "string \<Rightarrow> jsval option \<Rightarrow> ui_event list" where
  "deletion_events msg r =
     (case r of None \<Rightarrow> [CloseDialog, RefreshData, SnackbarDone msg] | Some err \<Rightarrow> [RefreshData, error_shown err])"

lemma deleteRecursively_order:
  assumes "ids \<noteq> []"
  shows "deleteRecursively msg req ids b =
    (fst (delete_in_order req (rev ids) b), deletion_events msg (snd (delete_in_order req (rev ids) b)))"
  using assms
proof (induction ids arbitrary: b rule: rev_induct)
  case (snoc k ks)
  show ?case
  proof (cases "req (Some k) b")
    case (Inl err)
    then show ?thesis by (simp add: deleteRecursively.simps [of _ _ "ks @ [k]"] deletion_events_def)
  next
    case (Inr b')
    then have "deleteRecursively msg req (ks @ [k]) b =
        (if ks = [] then (b', deletion_events msg None) else deleteRecursively msg req ks b')"
      by (subst deleteRecursively.simps) (simp add: deletion_events_def)
    then show ?thesis using snoc.IH [of b'] Inr by simp
  qed
qed simp

lemma delete_in_order_contents:
  assumes "\<And>k b b'. req (Some k) b = Inr b' \<Longrightarrow> contents b' = contents b - {k}"
    and "delete_in_order req ks b = (b', r)"
  shows "(r = None \<longrightarrow> contents b' = contents b - set ks) \<and> contents b - set ks \<subseteq> contents b' \<and>
    contents b' \<subseteq> contents b \<and> (\<forall>err. r = Some err \<longrightarrow> (\<exists>k \<in> set ks. req (Some k) b' = Inl err))"
  using assms(2)
proof (induction ks arbitrary: b)
  case (Cons k ks)
  show ?case
  proof (cases "req (Some k) b")
    case (Inl err)
    then show ?thesis using Cons.prems by auto
  next
    case (Inr b1)
    then have "delete_in_order req ks b1 = (b', r)" using Cons.prems by simp
    from Cons.IH [OF this] assms(1) [OF Inr] show ?thesis by auto
  qed
qed simp

lemma set_selectedElements: "map_wf sel \<Longrightarrow> set (selectedElements sel) = {k. map_get sel k = Some True}"
proof -
  assume wf: "map_wf sel"
  have "set (selectedElements sel) = {k. (k, True) \<in> set sel}"
    by (force simp: selectedElements_def)
  then show ?thesis by (simp add: map_get_entry [OF wf])
qed

lemma hasSelected_iff: "hasSelectedElements sel \<longleftrightarrow> selectedElements sel \<noteq> []"
proof -
  have "fold (\<lambda>v found. if v then True else found) vs f \<longleftrightarrow> True \<in> set vs \<or> f" for vs f
    by (induction vs arbitrary: f) auto
  then show ?thesis
    by (auto simp: hasSelectedElements_def selectedElements_def map_values_def)
qed

text \<open>
  Deleting the selected elements of a list, for any backend on which a successful
  request removes the element it names and nothing else: only selected elements are ever removed;
  when no request fails all of them are, and only then the dialog is closed and the success shown;
  the first request that fails stops the operation, nothing after it is requested, and its error is
  shown; in both cases the page is asked to load its data again. The recursion always ends.
\<close>

theorem deletes_selected:
  assumes "\<forall>k b b'. req (Some k) b = Inr b' \<longrightarrow> contents b' = contents b - {k}"
    and "map_wf sel" and "hasSelectedElements sel"
    and "deleteRecursively msg req (selectedElements sel) b = (b', events)"
  shows "contents b - {k. map_get sel k = Some True} \<subseteq> contents b' \<and> contents b' \<subseteq> contents b \<and>
    RefreshData \<in> set events \<and>
    (if CloseDialog \<in> set events
     then contents b' = contents b - {k. map_get sel k = Some True} \<and> SnackbarDone msg \<in> set events
     else \<exists>k err. map_get sel k = Some True \<and> req (Some k) b' = Inl err \<and> events = [RefreshData, error_shown err])"
proof -
  let ?ids = "selectedElements sel"
  obtain b1 r where r: "delete_in_order req (rev ?ids) b = (b1, r)" by fastforce
  have "?ids \<noteq> []" using assms(3) by (simp add: hasSelected_iff)
  from deleteRecursively_order [OF this, of msg req b] assms(4)
  have out: "b' = b1" "events = deletion_events msg r" by (simp_all add: r)
  have c: "(r = None \<longrightarrow> contents b1 = contents b - set ?ids) \<and> contents b - set ?ids \<subseteq> contents b1 \<and>
      contents b1 \<subseteq> contents b \<and> (\<forall>err. r = Some err \<longrightarrow> (\<exists>k \<in> set ?ids. req (Some k) b1 = Inl err))"
    using delete_in_order_contents [of req contents, OF _ r] assms(1) by simp
  have no_close: "error_shown err \<noteq> CloseDialog" for err
    by (simp add: error_shown_def split: sum.split)
  show ?thesis
  proof (cases r)
    case None
    then show ?thesis
      using c unfolding set_selectedElements [OF assms(2)] by (simp add: out deletion_events_def)
  next
    case (Some err)
    then show ?thesis
      using c no_close [of err] unfolding set_selectedElements [OF assms(2)]
      by (auto simp: out deletion_events_def)
  qed
qed

text \<open>A backend with a set of elements in which the element \<open>''b''\<close> can not be deleted.\<close>

definition demo_backend :: "string option \<Rightarrow> string set \<Rightarrow> jsval + string set" where
  "demo_backend k b = (case k of None \<Rightarrow> Inl VNull | Some x \<Rightarrow> if x = ''b'' then Inl (VStr ''in use'') else Inr (b - {x}))"

theorem deletes_selected_witness:
  "\<exists>b' events. deleteRecursively ''m'' demo_backend (selectedElements [(''a'', True), (''b'', True), (''c'', True), (''d'', False)])
      {''a'', ''b'', ''c'', ''d''} = (b', events) \<and> RefreshData \<in> set events \<and> ''d'' \<in> b'"
proof -
  let ?sel = "[(''a'', True), (''b'', True), (''c'', True), (''d'', False)]"
  obtain b' events where r: "deleteRecursively ''m'' demo_backend (selectedElements ?sel)
      {''a'', ''b'', ''c'', ''d''} = (b', events)" by fastforce
  have backend: "\<forall>k b b'. demo_backend (Some k) b = Inr b' \<longrightarrow> (\<lambda>b. b) b' = (\<lambda>b. b) b - {k}"
    by (auto simp: demo_backend_def split: if_splits)
  have "map_wf ?sel" "hasSelectedElements ?sel"
    by (simp_all add: map_wf_def hasSelectedElements_def map_values_def)
  from deletes_selected [OF backend this r] r show ?thesis by (auto simp: map_get_def)
qed

subsection \<open>The operations on the check boxes\<close>

lemma changeSelection_get:
  "map_get (changeSelection k sel) k' = (if k' = k then Some (map_get sel k \<noteq> Some True) else map_get sel k')"
  by (auto simp: changeSelection_def jm.get_put)

lemma changeAllSelections_get:
  assumes "map_wf sel"
  shows "map_get (changeAllSelections v sel) k = (if map_has sel k then Some v else None)"
proof -
  have "find (\<lambda>e. fst e = k) (rev sel) = None \<longleftrightarrow> \<not> map_has sel k"
    by (force simp: find_None_iff map_has_keys map_keys_def)
  then show ?thesis
    unfolding changeAllSelections_def jm.get_puts by (auto simp: map_has_get split: option.split)
qed

end
