(* ===== verification/Hv_Store.thy ===== *)
theory Hv_Store
  imports JSON_Text
begin

text \<open>
  The persistent storage of the application: the browser's \<open>localStorage\<close>, the part of it that
  \<open>StorageService.getDataForHv\<close> and \<open>setDataForHv\<close> give to the current hypervisor
  (\<open>src/app/services/storage.service.ts\<close>), and the interface through which the other services
  keep a JSON value in it.
\<close>

section \<open>localStorage and the data of a hypervisor\<close>

record hv_store =
  localStorage :: "string \<rightharpoonup> string"
  hypervisorPk :: string

definition getItem :: "hv_store \<Rightarrow> string \<Rightarrow> string option" where
  "getItem s k = localStorage s k"

definition setItem :: "string \<Rightarrow> string \<Rightarrow> hv_store \<Rightarrow> hv_store" where
  "setItem k v s = s\<lparr>localStorage := (localStorage s)(k \<mapsto> v)\<rparr>"

definition removeItem :: "string \<Rightarrow> hv_store \<Rightarrow> hv_store" where
  "removeItem k s = s\<lparr>localStorage := (localStorage s)(k := None)\<rparr>"

definition getDataForHv :: "hv_store \<Rightarrow> string \<Rightarrow> string option" where
  "getDataForHv s key = getItem s (hypervisorPk s @ key)"

definition setDataForHv :: "string \<Rightarrow> string \<Rightarrow> hv_store \<Rightarrow> hv_store" where
  "setDataForHv key val s = setItem (hypervisorPk s @ key) val s"

lemmas hv_defs = getItem_def setItem_def removeItem_def getDataForHv_def setDataForHv_def

lemma hypervisorPk_simps [simp]:
  "hypervisorPk (setItem k v s) = hypervisorPk s"
  "hypervisorPk (removeItem k s) = hypervisorPk s"
  "hypervisorPk (setDataForHv k v s) = hypervisorPk s"
  by (simp_all add: hv_defs)

text \<open>
  Removing a key without a hypervisor prefix (as the migrations do) leaves the data of a
  hypervisor alone whenever the prefix is not empty and the key does not start with it.
\<close>

lemma getDataForHv_removeItem:
  "k \<noteq> hypervisorPk s @ key \<Longrightarrow> getDataForHv (removeItem k s) key = getDataForHv s key"
  by (simp add: hv_defs)

section \<open>JSON values with a decoder\<close>

fun json_truthy :: "json \<Rightarrow> bool" where
  "json_truthy JNull = False"
| "json_truthy (JBool b) = b"
| "json_truthy (JNum i) = (i \<noteq> 0)"
| "json_truthy (JStr s) = (s \<noteq> [])"
| "json_truthy (JArr vs) = True"
| "json_truthy (JObj ms) = True"

text \<open>Property access on a parsed object: of two members with the same name the last one counts.\<close>

definition obj_get :: "(string \<times> json) list \<Rightarrow> string \<Rightarrow> json option" where
  "obj_get ms k = map_of (rev ms) k"

text \<open>
  Typed access to the members of a parsed object. The TypeScript code casts the result of
  \<open>JSON.parse\<close> to an interface without checking it; the model reads the members with the types
  of the interface and answers \<open>TypeError\<close> for a text that holds something else, which the
  application itself never writes.
\<close>

definition get_string :: "(string \<times> json) list \<Rightarrow> string \<Rightarrow> string js_result" where
  "get_string ms k = (case obj_get ms k of Some (JStr s) \<Rightarrow> Inr s | _ \<Rightarrow> Inl TypeError)"

definition get_bool :: "(string \<times> json) list \<Rightarrow> string \<Rightarrow> bool js_result" where
  "get_bool ms k = (case obj_get ms k of Some (JBool b) \<Rightarrow> Inr b | _ \<Rightarrow> Inl TypeError)"

definition get_num :: "(string \<times> json) list \<Rightarrow> string \<Rightarrow> int js_result" where
  "get_num ms k = (case obj_get ms k of Some (JNum i) \<Rightarrow> Inr i | _ \<Rightarrow> Inl TypeError)"

definition get_jsstr :: "(string \<times> json) list \<Rightarrow> string \<Rightarrow> jsstr js_result" where
  "get_jsstr ms k =
     (case obj_get ms k of
        None \<Rightarrow> Inr Undefined
      | Some JNull \<Rightarrow> Inr Null
      | Some (JStr s) \<Rightarrow> Inr (Str s)
      | _ \<Rightarrow> Inl TypeError)"

text \<open>\<open>JSON.stringify\<close> leaves out a member whose value is \<open>undefined\<close>.\<close>

fun put_jsstr :: "string \<Rightarrow> jsstr \<Rightarrow> (string \<times> json) list" where
  "put_jsstr k Undefined = []"
| "put_jsstr k Null = [(k, JNull)]"
| "put_jsstr k (Str s) = [(k, JStr s)]"

lemmas get_member_defs = obj_get_def get_string_def get_bool_def get_num_def get_jsstr_def

fun mapR :: "('a \<Rightarrow> 'b js_result) \<Rightarrow> 'a list \<Rightarrow> 'b list js_result" where
  "mapR f [] = Inr []"
| "mapR f (x # xs) = bindR (f x) (\<lambda>y. bindR (mapR f xs) (\<lambda>ys. Inr (y # ys)))"

lemma mapR_inverse: "(\<And>x. f (g x) = Inr x) \<Longrightarrow> mapR f (map g xs) = Inr xs"
  by (induction xs) auto

text \<open>\<open>JSON.parse(text) || []\<close>, where a missing text is \<open>null\<close>.\<close>

definition parse_or_empty :: "string option \<Rightarrow> json js_result" where
  "parse_or_empty t =
     (case t of
        None \<Rightarrow> Inr (JArr [])
      | Some s \<Rightarrow> bindR (json_parse s) (\<lambda>j. Inr (if json_truthy j then j else JArr [])))"

definition dec_list :: "(json \<Rightarrow> 'a js_result) \<Rightarrow> json \<Rightarrow> 'a list js_result" where
  "dec_list dec j = (case j of JArr js \<Rightarrow> mapR dec js | _ \<Rightarrow> Inl TypeError)"

section \<open>The interfaces\<close>

text \<open>A store of texts by key: what \<open>setDataForHv\<close> promises about \<open>getDataForHv\<close>.\<close>

locale text_store =
  fixes get :: "'s \<Rightarrow> string \<Rightarrow> string option"
    and put :: "string \<Rightarrow> string \<Rightarrow> 's \<Rightarrow> 's"
  assumes get_put: "get (put k v s) k' = (if k' = k then Some v else get s k')"

text \<open>A type of values that is written as JSON.\<close>

locale json_codec =
  fixes enc :: "'a \<Rightarrow> json" and dec :: "json \<Rightarrow> 'a js_result"
  assumes dec_enc: "dec (enc x) = Inr x"
begin

lemma dec_list_enc: "dec_list dec (JArr (map enc xs)) = Inr xs"
  by (simp add: dec_list_def mapR_inverse dec_enc)

lemma dec_stringify: "bindR (json_parse (stringify (enc x))) dec = Inr x"
  by (simp add: parse_stringify dec_enc)

lemma parse_or_empty_list:
  "bindR (parse_or_empty (Some (stringify (JArr (map enc xs))))) (dec_list dec) = Inr xs"
  by (simp add: parse_or_empty_def parse_stringify dec_list_enc)

end

text \<open>
  A list of such values kept under one key of a store: what is read after a save is what was
  saved, and a save under another key does not change it.
\<close>

locale persisted_list = text_store get put + json_codec enc dec
  for get :: "'s \<Rightarrow> string \<Rightarrow> string option"
    and put :: "string \<Rightarrow> string \<Rightarrow> 's \<Rightarrow> 's"
    and enc :: "'a \<Rightarrow> json" and dec :: "json \<Rightarrow> 'a js_result"
begin

lemma load_save:
  "bindR (parse_or_empty (get (put k (stringify (JArr (map enc xs))) s) k)) (dec_list dec) = Inr xs"
  by (simp add: get_put parse_or_empty_list)

lemma load_save_other: "k' \<noteq> k \<Longrightarrow> get (put k v s) k' = get s k'"
  by (simp add: get_put)

end

interpretation hvs: text_store getDataForHv setDataForHv
  by unfold_locales (simp add: hv_defs)

text \<open>
  The data of two hypervisors whose keys have the same length is kept apart: a save for one of
  them never changes what the other one reads.
\<close>

lemma other_hypervisor_unchanged:
  assumes "length pk = length (hypervisorPk s)" and "pk \<noteq> hypervisorPk s"
  shows "getDataForHv ((setDataForHv k v s)\<lparr>hypervisorPk := pk\<rparr>) key =
    getDataForHv (s\<lparr>hypervisorPk := pk\<rparr>) key"
  using assms by (auto simp: hv_defs)

end
