(* ===== verification/Data_Sorter.thy ===== *)
theory Data_Sorter
  imports JS_Values JS_Arrays Hv_Store
begin

text \<open>
  \<open>src/app/utils/lists/data-sorter.ts\<close>: the helper that sorts the data of a list by a column the user
  selects and remembers the choice in the persistent storage. A column is identified by its position
  in the list of columns. The language-dependent comparison of texts, \<open>localeCompare\<close>, is the
  parameter \<open>collate\<close>; what the sort relies on is stated as \<open>collation\<close>.
\<close>

section \<open>Columns and state\<close>

datatype SortingModes = TextMode | NumberMode | NumberReversed | BooleanMode

record SortingColumn =
  properties :: "string list"
  column_label :: string
  sortingMode :: SortingModes
  labelProperties :: "string list option"

definition column_id :: "SortingColumn \<Rightarrow> string" where
  "column_id c = concat (properties c)"

record data_sorter =
  sortableColumns :: "SortingColumn list"
  sorter_id :: string
  sortBy :: nat
  sortReverse :: bool
  sortByLabel :: bool
  sorter_data :: "jsval list option"
  defaultColumnIndex :: nat
  tieBreakerColumnIndex :: "nat option"
  sorter_store :: hv_store
  dataSortedCount :: nat

definition columnStorageKeyPrefix :: string where "columnStorageKeyPrefix = ''col_''"
definition orderStorageKeyPrefix :: string where "orderStorageKeyPrefix = ''order_''"
definition labelStorageKeyPrefix :: string where "labelStorageKeyPrefix = ''label_''"

lemmas sorter_keys =
  columnStorageKeyPrefix_def orderStorageKeyPrefix_def labelStorageKeyPrefix_def

definition sortingArrow :: "data_sorter \<Rightarrow> string" where
  "sortingArrow s = (if sortReverse s then ''keyboard_arrow_up'' else ''keyboard_arrow_down'')"

fun bool_string :: "bool \<Rightarrow> string" where
  "bool_string True = ''true''"
| "bool_string False = ''false''"

text \<open>The position of the first column with the saved id.\<close>

fun find_column :: "string \<Rightarrow> SortingColumn list \<Rightarrow> nat option" where
  "find_column k [] = None"
| "find_column k (c # cs) = (if column_id c = k then Some 0 else map_option Suc (find_column k cs))"

definition new_sorter :: "hv_store \<Rightarrow> SortingColumn list \<Rightarrow> nat \<Rightarrow> string \<Rightarrow> data_sorter" where
  "new_sorter st columns def i =
     (let saved = getDataForHv st (columnStorageKeyPrefix @ i);
          found = (case saved of
                     None \<Rightarrow> None
                   | Some k \<Rightarrow> if k \<noteq> [] then find_column k columns else None)
      in \<lparr>sortableColumns = columns, sorter_id = i,
          sortBy = (case found of None \<Rightarrow> def | Some n \<Rightarrow> n),
          sortReverse = (getDataForHv st (orderStorageKeyPrefix @ i) = Some ''true''),
          sortByLabel = (getDataForHv st (labelStorageKeyPrefix @ i) = Some ''true''),
          sorter_data = None, defaultColumnIndex = def, tieBreakerColumnIndex = None,
          sorter_store = st, dataSortedCount = 0\<rparr>)"

section \<open>Comparing two elements\<close>

text \<open>\<open>a.localeCompare(b)\<close>: the receiver has to be a text, the argument is converted to one.\<close>

definition locale_compare :: "(string \<Rightarrow> string \<Rightarrow> int) \<Rightarrow> jsval \<Rightarrow> jsval \<Rightarrow> int js_result" where
  "locale_compare collate a b =
     (case a of VStr x \<Rightarrow> Inr (collate x (val_to_string b)) | _ \<Rightarrow> Inl TypeError)"

definition bool_response :: "jsval \<Rightarrow> jsval \<Rightarrow> int" where
  "bool_response a b =
     (if val_truthy a \<and> \<not> val_truthy b then -1
      else if \<not> val_truthy a \<and> val_truthy b then 1 else 0)"

definition sort_path :: "bool \<Rightarrow> SortingColumn \<Rightarrow> string list" where
  "sort_path by_label c =
     (case (by_label, labelProperties c) of (True, Some ps) \<Rightarrow> ps | _ \<Rightarrow> properties c)"

definition sort_mode :: "bool \<Rightarrow> SortingColumn \<Rightarrow> SortingModes" where
  "sort_mode by_label c = (if by_label then TextMode else sortingMode c)"

fun mode_response ::
  "(string \<Rightarrow> string \<Rightarrow> int) \<Rightarrow> bool \<Rightarrow> SortingModes \<Rightarrow> jsval \<Rightarrow> jsval \<Rightarrow> int js_result" where
  "mode_response collate rv TextMode a b =
     (if \<not> rv then locale_compare collate a b else locale_compare collate b a)"
| "mode_response collate rv NumberReversed a b = Inr (if \<not> rv then num_diff b a else num_diff a b)"
| "mode_response collate rv NumberMode a b = Inr (if \<not> rv then num_diff a b else num_diff b a)"
| "mode_response collate rv BooleanMode a b = Inr (bool_response a b * (if rv then -1 else 1))"

definition getSortResponse ::
  "(string \<Rightarrow> string \<Rightarrow> int) \<Rightarrow> data_sorter \<Rightarrow> nat \<Rightarrow> jsval \<Rightarrow> jsval \<Rightarrow> bool \<Rightarrow> int js_result" where
  "getSortResponse collate s col a b sortByLabelIfRequested =
     (if col < length (sortableColumns s) then
        let c = sortableColumns s ! col;
            by_label = (sortByLabel s \<and> sortByLabelIfRequested) in
        bindR (get_path a (sort_path by_label c)) (\<lambda>x.
        bindR (get_path b (sort_path by_label c)) (\<lambda>y.
          mode_response collate (sortReverse s) (sort_mode by_label c) x y))
      else Inl TypeError)"

definition compare_elements ::
  "(string \<Rightarrow> string \<Rightarrow> int) \<Rightarrow> data_sorter \<Rightarrow> jsval \<Rightarrow> jsval \<Rightarrow> int js_result" where
  "compare_elements collate s a b =
     bindR (getSortResponse collate s (sortBy s) a b True) (\<lambda>r1.
     bindR (if r1 = 0 then
              (case tieBreakerColumnIndex s of
                 Some t \<Rightarrow> if t \<noteq> sortBy s then getSortResponse collate s t a b False else Inr 0
               | None \<Rightarrow> Inr 0)
            else Inr r1) (\<lambda>r2.
       if r2 = 0 \<and> defaultColumnIndex s \<noteq> sortBy s
       then getSortResponse collate s (defaultColumnIndex s) a b False else Inr r2))"

text \<open>The sort with a comparison that may throw.\<close>

fun ins_cmpR :: "('a \<Rightarrow> 'a \<Rightarrow> int js_result) \<Rightarrow> 'a \<Rightarrow> 'a list \<Rightarrow> 'a list js_result" where
  "ins_cmpR cmp x [] = Inr [x]"
| "ins_cmpR cmp x (y # ys) =
     bindR (cmp x y) (\<lambda>r.
       if r \<le> 0 then Inr (x # y # ys) else bindR (ins_cmpR cmp x ys) (\<lambda>zs. Inr (y # zs)))"

fun js_sortR :: "('a \<Rightarrow> 'a \<Rightarrow> int js_result) \<Rightarrow> 'a list \<Rightarrow> 'a list js_result" where
  "js_sortR cmp [] = Inr []"
| "js_sortR cmp (x # xs) = bindR (js_sortR cmp xs) (ins_cmpR cmp x)"

definition sortData :: "(string \<Rightarrow> string \<Rightarrow> int) \<Rightarrow> data_sorter \<Rightarrow> data_sorter js_result" where
  "sortData collate s =
     (case sorter_data s of
        None \<Rightarrow> Inr s
      | Some xs \<Rightarrow>
          bindR (js_sortR (compare_elements collate s) xs) (\<lambda>ys.
            Inr (s\<lparr>sorter_data := Some ys, dataSortedCount := dataSortedCount s + 1\<rparr>)))"

section \<open>Operations\<close>

definition setTieBreakerColumnIndex :: "nat \<Rightarrow> data_sorter \<Rightarrow> data_sorter" where
  "setTieBreakerColumnIndex i s = s\<lparr>tieBreakerColumnIndex := Some i\<rparr>"

definition setSorterData ::
  "(string \<Rightarrow> string \<Rightarrow> int) \<Rightarrow> jsval list option \<Rightarrow> data_sorter \<Rightarrow> data_sorter js_result" where
  "setSorterData collate d s = sortData collate (s\<lparr>sorter_data := d\<rparr>)"

definition save_order :: "data_sorter \<Rightarrow> data_sorter" where
  "save_order s =
     s\<lparr>sorter_store := setDataForHv (orderStorageKeyPrefix @ sorter_id s) (bool_string (sortReverse s)) (sorter_store s)\<rparr>"

definition save_params :: "data_sorter \<Rightarrow> data_sorter" where
  "save_params s =
     s\<lparr>sorter_store :=
         setDataForHv (labelStorageKeyPrefix @ sorter_id s) (bool_string (sortByLabel s))
           (setDataForHv (orderStorageKeyPrefix @ sorter_id s) (bool_string (sortReverse s))
             (setDataForHv (columnStorageKeyPrefix @ sorter_id s)
                (column_id (sortableColumns s ! sortBy s)) (sorter_store s)))\<rparr>"

definition changeSortingParams ::
  "(string \<Rightarrow> string \<Rightarrow> int) \<Rightarrow> nat \<Rightarrow> bool \<Rightarrow> bool \<Rightarrow> data_sorter \<Rightarrow> data_sorter js_result" where
  "changeSortingParams collate col by_label rv s =
     sortData collate (save_params (s\<lparr>sortBy := col, sortByLabel := by_label, sortReverse := rv\<rparr>))"

text \<open>
  \<open>changeSortingOrder\<close>. For a column that can be sorted by label a dialog asks how; its result,
  0 when it was closed without a choice, is the second argument.
\<close>

definition changeSortingOrder ::
  "(string \<Rightarrow> string \<Rightarrow> int) \<Rightarrow> nat \<Rightarrow> nat \<Rightarrow> data_sorter \<Rightarrow> data_sorter js_result" where
  "changeSortingOrder collate col result s =
     (if sortBy s \<noteq> col \<and> labelProperties (sortableColumns s ! col) = None
      then changeSortingParams collate col False False s
      else if labelProperties (sortableColumns s ! col) \<noteq> None
      then if result \<noteq> 0 then changeSortingParams collate col (result > 2) (result mod 2 = 0) s else Inr s
      else sortData collate (save_order (s\<lparr>sortReverse := \<not> sortReverse s\<rparr>)))"

text \<open>The choices of the dialog for small screens: column, by label, reversed.\<close>

definition column_options :: "nat \<Rightarrow> SortingColumn \<Rightarrow> (nat \<times> bool \<times> bool) list" where
  "column_options i c =
     [(i, False, False), (i, False, True)] @
     (if labelProperties c \<noteq> None then [(i, True, False), (i, True, True)] else [])"

definition optionParams :: "data_sorter \<Rightarrow> (nat \<times> bool \<times> bool) list" where
  "optionParams s =
     concat (map (\<lambda>(i, c). column_options i c) (zip [0..<length (sortableColumns s)] (sortableColumns s)))"

definition openSortingOrderModal ::
  "(string \<Rightarrow> string \<Rightarrow> int) \<Rightarrow> nat \<Rightarrow> data_sorter \<Rightarrow> data_sorter js_result" where
  "openSortingOrderModal collate result s =
     (if result \<noteq> 0 then
        if result \<le> length (optionParams s) then
          case optionParams s ! (result - 1) of (col, by_label, rv) \<Rightarrow> changeSortingParams collate col by_label rv s
        else Inl TypeError
      else Inr s)"


section \<open>Sorting works\<close>

text \<open>What is asked of the comparison of texts: it orders all texts consistently.\<close>

definition collation :: "(string \<Rightarrow> string \<Rightarrow> int) \<Rightarrow> bool" where
  "collation collate \<longleftrightarrow> consistent collate (\<lambda>_. True)"

text \<open>An element has a value of the right kind in a column.\<close>

fun fits_mode :: "SortingModes \<Rightarrow> jsval \<Rightarrow> bool" where
  "fits_mode TextMode v = (case v of VStr s \<Rightarrow> True | _ \<Rightarrow> False)"
| "fits_mode NumberMode v = (val_to_number v \<noteq> None)"
| "fits_mode NumberReversed v = (val_to_number v \<noteq> None)"
| "fits_mode BooleanMode v = True"

definition fits_column :: "data_sorter \<Rightarrow> nat \<Rightarrow> bool \<Rightarrow> jsval \<Rightarrow> bool" where
  "fits_column s col by_label x \<longleftrightarrow> col < length (sortableColumns s) \<and>
     (case get_path x (sort_path by_label (sortableColumns s ! col)) of
        Inr v \<Rightarrow> fits_mode (sort_mode by_label (sortableColumns s ! col)) v
      | Inl e \<Rightarrow> False)"

definition sortable :: "data_sorter \<Rightarrow> jsval \<Rightarrow> bool" where
  "sortable s x \<longleftrightarrow> fits_column s (sortBy s) (sortByLabel s) x \<and>
     fits_column s (defaultColumnIndex s) False x \<and>
     (case tieBreakerColumnIndex s of None \<Rightarrow> True | Some t \<Rightarrow> fits_column s t False x)"

definition total_response :: "int js_result \<Rightarrow> int" where
  "total_response r = (case r of Inr i \<Rightarrow> i | Inl e \<Rightarrow> 0)"

lemma mode_response_total:
  "fits_mode m a \<Longrightarrow> fits_mode m b \<Longrightarrow>
    mode_response collate rv m a b = Inr (total_response (mode_response collate rv m a b))"
  by (cases m; cases a; cases b) (auto simp: total_response_def locale_compare_def)

lemma consistent_num:
  assumes "\<And>v. D v \<Longrightarrow> val_to_number v \<noteq> None"
  shows "consistent num_diff D"
  by (rule consistent_cong [OF consistent_diff [of "\<lambda>v. the (val_to_number v)"]])
    (auto simp: num_diff_def dest!: assms)

lemma consistent_bool: "consistent bool_response D"
  by (rule consistent_cong [OF consistent_diff [of "\<lambda>v. if val_truthy v then 0 else 1"]])
    (auto simp: bool_response_def)

lemma consistent_text:
  assumes "collation collate"
  shows "consistent (\<lambda>a b. total_response (locale_compare collate a b)) (fits_mode TextMode)"
proof -
  let ?t = "\<lambda>v. case v of VStr s \<Rightarrow> s | _ \<Rightarrow> []"
  have "consistent (\<lambda>a b. collate (?t a) (?t b)) (fits_mode TextMode)"
    using assms unfolding collation_def consistent_def by blast
  then show ?thesis
    by (rule consistent_cong) (auto simp: locale_compare_def total_response_def split: jsval.splits)
qed

lemma consistent_mode:
  assumes "collation collate"
  shows "consistent (\<lambda>a b. total_response (mode_response collate rv m a b)) (fits_mode m)"
proof (cases m)
  case TextMode
  then show ?thesis
    using consistent_text [OF assms] consistent_flip [OF consistent_text [OF assms]] by (cases rv) simp_all
next
  case NumberMode
  have num: "consistent num_diff (fits_mode NumberMode)" by (rule consistent_num) simp
  then show ?thesis
    using NumberMode consistent_flip [OF num] by (cases rv) (simp_all add: total_response_def)
next
  case NumberReversed
  have num: "consistent num_diff (fits_mode NumberReversed)" by (rule consistent_num) simp
  then show ?thesis
    using NumberReversed consistent_flip [OF num] by (cases rv) (simp_all add: total_response_def)
next
  case BooleanMode
  have "consistent (\<lambda>a b. bool_response b a) (fits_mode m)" by (rule consistent_flip [OF consistent_bool])
  then have "consistent (\<lambda>a b. bool_response a b * - 1) (fits_mode m)"
    by (rule consistent_cong) (auto simp: bool_response_def)
  then show ?thesis
    using BooleanMode consistent_bool [of "fits_mode m"] by (cases rv) (simp_all add: total_response_def)
qed

definition response :: "(string \<Rightarrow> string \<Rightarrow> int) \<Rightarrow> data_sorter \<Rightarrow> nat \<Rightarrow> bool \<Rightarrow> jsval \<Rightarrow> jsval \<Rightarrow> int" where
  "response collate s col lab a b = total_response (getSortResponse collate s col a b lab)"

lemma getSortResponse_total:
  assumes "fits_column s col (sortByLabel s \<and> lab) a" and "fits_column s col (sortByLabel s \<and> lab) b"
  shows "getSortResponse collate s col a b lab = Inr (response collate s col lab a b)"
proof -
  let ?c = "sortableColumns s ! col" and ?l = "sortByLabel s \<and> lab"
  obtain x y where "get_path a (sort_path ?l ?c) = Inr x" "fits_mode (sort_mode ?l ?c) x"
    "get_path b (sort_path ?l ?c) = Inr y" "fits_mode (sort_mode ?l ?c) y" "col < length (sortableColumns s)"
    using assms by (auto simp: fits_column_def split: sum.splits)
  then show ?thesis
    using mode_response_total [of "sort_mode ?l ?c" x y collate "sortReverse s"]
    by (simp add: getSortResponse_def response_def)
qed

lemma consistent_response:
  assumes "collation collate"
  shows "consistent (response collate s col lab) (fits_column s col (sortByLabel s \<and> lab))"
proof -
  let ?c = "sortableColumns s ! col" and ?l = "sortByLabel s \<and> lab"
  let ?v = "\<lambda>a. case get_path a (sort_path ?l ?c) of Inr v \<Rightarrow> v | Inl e \<Rightarrow> VUndef"
  have "consistent (\<lambda>a b. total_response (mode_response collate (sortReverse s) (sort_mode ?l ?c) (?v a) (?v b)))
      (fits_column s col ?l)"
    by (rule consistent_image [OF consistent_mode [OF assms]])
      (auto simp: fits_column_def split: sum.splits)
  then show ?thesis
    by (rule consistent_cong)
      (auto simp: response_def getSortResponse_def fits_column_def split: sum.splits)
qed


text \<open>The comparison the sort uses, on elements that can be compared.\<close>

definition element_cmp :: "(string \<Rightarrow> string \<Rightarrow> int) \<Rightarrow> data_sorter \<Rightarrow> jsval \<Rightarrow> jsval \<Rightarrow> int" where
  "element_cmp collate s a b =
     (let r1 = response collate s (sortBy s) True a b;
          r2 = (if r1 = 0
                then (case tieBreakerColumnIndex s of
                        Some t \<Rightarrow> if t \<noteq> sortBy s then response collate s t False a b else 0
                      | None \<Rightarrow> 0)
                else r1)
      in if r2 = 0
         then if defaultColumnIndex s \<noteq> sortBy s then response collate s (defaultColumnIndex s) False a b else 0
         else r2)"

lemma compare_elements_total:
  assumes "sortable s a" and "sortable s b"
  shows "compare_elements collate s a b = Inr (element_cmp collate s a b)"
proof -
  have 1: "getSortResponse collate s (sortBy s) a b True = Inr (response collate s (sortBy s) True a b)"
    using assms by (intro getSortResponse_total) (simp_all add: sortable_def)
  have 2: "getSortResponse collate s (defaultColumnIndex s) a b False =
      Inr (response collate s (defaultColumnIndex s) False a b)"
    using assms by (intro getSortResponse_total) (simp_all add: sortable_def)
  have 3: "getSortResponse collate s t a b False = Inr (response collate s t False a b)"
    if "tieBreakerColumnIndex s = Some t" for t
    using assms that by (intro getSortResponse_total) (simp_all add: sortable_def)
  show ?thesis
    by (auto simp: compare_elements_def element_cmp_def 1 2 3 split: option.split)
qed

lemma consistent_elements:
  assumes "collation collate"
  shows "consistent (element_cmp collate s) (sortable s)"
proof -
  let ?r = "\<lambda>col lab. response collate s col lab"
  have 1: "consistent (?r (sortBy s) True) (sortable s)"
    by (rule consistent_mono [OF consistent_response [OF assms]]) (simp add: sortable_def)
  have 2: "consistent (\<lambda>a b. case tieBreakerColumnIndex s of
      Some t \<Rightarrow> if t \<noteq> sortBy s then ?r t False a b else 0 | None \<Rightarrow> 0) (sortable s)"
  proof (cases "tieBreakerColumnIndex s")
    case None
    then show ?thesis by (simp add: consistent_zero)
  next
    case (Some t)
    have "consistent (?r t False) (sortable s)"
      by (rule consistent_mono [OF consistent_response [OF assms]]) (use Some in \<open>simp add: sortable_def\<close>)
    then show ?thesis using Some by (cases "t = sortBy s") (simp_all add: consistent_zero)
  qed
  have 3: "consistent (\<lambda>a b. if defaultColumnIndex s \<noteq> sortBy s
      then ?r (defaultColumnIndex s) False a b else 0) (sortable s)"
  proof -
    have "consistent (?r (defaultColumnIndex s) False) (sortable s)"
      by (rule consistent_mono [OF consistent_response [OF assms]]) (simp add: sortable_def)
    then show ?thesis by (cases "defaultColumnIndex s = sortBy s") (simp_all add: consistent_zero)
  qed
  from consistent_lex [OF consistent_lex [OF 1 2] 3] show ?thesis
    by (simp add: element_cmp_def [abs_def])
qed

lemma ins_cmpR_total:
  assumes "\<And>y. y \<in> set ys \<Longrightarrow> cmpR x y = Inr (cmp x y)"
  shows "ins_cmpR cmpR x ys = Inr (ins_cmp cmp x ys)"
  using assms by (induction ys) auto

lemma js_sortR_total:
  assumes "\<And>x y. x \<in> set xs \<Longrightarrow> y \<in> set xs \<Longrightarrow> cmpR x y = Inr (cmp x y)"
  shows "js_sortR cmpR xs = Inr (js_sort cmp xs)"
  using assms
proof (induction xs)
  case (Cons x xs)
  have "js_sortR cmpR xs = Inr (js_sort cmp xs)" using Cons by simp
  moreover have "ins_cmpR cmpR x (js_sort cmp xs) = Inr (ins_cmp cmp x (js_sort cmp xs))"
    using Cons.prems by (intro ins_cmpR_total) simp
  ultimately show ?case by simp
qed simp

lemma sortData_result:
  assumes "collation collate" and "sorter_data s = Some xs" and "\<forall>x \<in> set xs. sortable s x"
  shows "\<exists>ys. sortData collate s =
      Inr (s\<lparr>sorter_data := Some ys, dataSortedCount := dataSortedCount s + 1\<rparr>) \<and>
    mset ys = mset xs \<and>
    sorted_wrt (\<lambda>a b. \<exists>r \<le> 0. compare_elements collate s a b = Inr r) ys \<and>
    (\<forall>z \<in> set xs. filter (\<lambda>y. compare_elements collate s y z = Inr 0) ys =
      filter (\<lambda>y. compare_elements collate s y z = Inr 0) xs)"
proof -
  let ?cmp = "element_cmp collate s"
  let ?ys = "js_sort ?cmp xs"
  have total: "compare_elements collate s a b = Inr (?cmp a b)" if "a \<in> set xs" "b \<in> set xs" for a b
    using compare_elements_total assms(3) that by simp
  have cons: "consistent ?cmp (sortable s)" by (rule consistent_elements [OF assms(1)])
  note cmp = consistent_comparator [OF cons]
  have run: "sortData collate s = Inr (s\<lparr>sorter_data := Some ?ys, dataSortedCount := dataSortedCount s + 1\<rparr>)"
    using js_sortR_total [of xs "compare_elements collate s" ?cmp] total assms(2) by (simp add: sortData_def)
  have "sorted_wrt (\<lambda>a b. ?cmp a b \<le> 0) ?ys" by (rule js_comparator.sorted_sort [OF cmp assms(3)])
  then have sorted: "sorted_wrt (\<lambda>a b. \<exists>r \<le> 0. compare_elements collate s a b = Inr r) ?ys"
    by (rule sorted_wrt_mono_rel [rotated]) (simp add: total)
  have stable: "filter (\<lambda>y. compare_elements collate s y z = Inr 0) ?ys =
      filter (\<lambda>y. compare_elements collate s y z = Inr 0) xs" if z: "z \<in> set xs" for z
  proof -
    have eq: "compare_elements collate s y z = Inr 0 \<longleftrightarrow> ?cmp y z \<le> 0 \<and> ?cmp z y \<le> 0" if "y \<in> set xs" for y
      using consistent_swap(1) [OF cons, of z y] total [OF that z] assms(3) that z by auto
    have "filter (\<lambda>y. ?cmp y z \<le> 0 \<and> ?cmp z y \<le> 0) ?ys = filter (\<lambda>y. ?cmp y z \<le> 0 \<and> ?cmp z y \<le> 0) xs"
      using z assms(3) by (intro js_comparator.sort_stable [OF cmp]) auto
    moreover have "filter (\<lambda>y. compare_elements collate s y z = Inr 0) ws =
        filter (\<lambda>y. ?cmp y z \<le> 0 \<and> ?cmp z y \<le> 0) ws" if "set ws \<subseteq> set xs" for ws
      using that eq by (intro filter_cong) auto
    ultimately show ?thesis by simp
  qed
  show ?thesis
    using run sorted stable by (intro exI [of _ ?ys]) simp
qed


section \<open>The sorting options are remembered\<close>

lemma find_column_first:
  assumes "i < length cs" and "\<And>j. j < i \<Longrightarrow> column_id (cs ! j) \<noteq> column_id (cs ! i)"
  shows "find_column (column_id (cs ! i)) cs = Some i"
  using assms
proof (induction cs arbitrary: i)
  case (Cons c cs)
  show ?case
  proof (cases i)
    case (Suc n)
    have "find_column (column_id (cs ! n)) cs = Some n"
    proof (rule Cons.IH)
      show "n < length cs" using Cons.prems(1) Suc by simp
      show "column_id (cs ! j) \<noteq> column_id (cs ! n)" if "j < n" for j
        using Cons.prems(2) [of "Suc j"] Suc that by simp
    qed
    moreover have "column_id c \<noteq> column_id (cs ! n)" using Cons.prems(2) [of 0] Suc by simp
    ultimately show ?thesis using Suc by simp
  qed simp
qed simp

lemma bool_string_true [simp]: "bool_string b = ''true'' \<longleftrightarrow> b"
  by (cases b) simp_all

text \<open>
  The sorting options survive a restart: a sorter that is created again for the same
  list finds the column, the direction and the label setting that were selected last, provided the
  ids of the columns tell them apart.
\<close>

theorem sorting_options_roundtrip:
  assumes "changeSortingParams collate col by_label rv s = Inr s'"
    and "col < length (sortableColumns s)" and "column_id (sortableColumns s ! col) \<noteq> []"
    and "distinct (map column_id (sortableColumns s))"
  shows "let n = new_sorter (sorter_store s') (sortableColumns s) def (sorter_id s) in
    sortBy n = col \<and> sortByLabel n = by_label \<and> sortReverse n = rv"
proof -
  let ?s = "save_params (s\<lparr>sortBy := col, sortByLabel := by_label, sortReverse := rv\<rparr>)"
  have store: "sorter_store s' = sorter_store ?s"
    using assms(1) by (auto simp: changeSortingParams_def sortData_def bindR_Inr_iff split: option.splits)
  have "column_id (sortableColumns s ! j) \<noteq> column_id (sortableColumns s ! col)" if "j < col" for j
    using assms(2,4) that by (simp add: distinct_conv_nth)
  then have "find_column (column_id (sortableColumns s ! col)) (sortableColumns s) = Some col"
    using assms(2) by (intro find_column_first)
  then show ?thesis
    using assms(3) by (simp add: new_sorter_def store save_params_def hvs.get_put sorter_keys)
qed

text \<open>
  Selecting a column without labels again reverses the direction and nothing else,
  and selecting it twice gives the direction back; the direction is stored each time.
\<close>

theorem changeSortingOrder_toggles:
  assumes "sortBy s = col" and "labelProperties (sortableColumns s ! col) = None"
    and "changeSortingOrder collate col result s = Inr s1"
    and "changeSortingOrder collate col result' s1 = Inr s2"
  shows "sortReverse s1 = (\<not> sortReverse s) \<and> sortReverse s2 = sortReverse s \<and> sortBy s2 = sortBy s \<and>
    sortByLabel s2 = sortByLabel s \<and>
    getDataForHv (sorter_store s2) (orderStorageKeyPrefix @ sorter_id s) = Some (bool_string (sortReverse s))"
proof -
  have keeps: "sortReverse u = sortReverse t \<and> sortBy u = sortBy t \<and> sortByLabel u = sortByLabel t \<and>
      sorter_store u = sorter_store t \<and> sortableColumns u = sortableColumns t \<and> sorter_id u = sorter_id t"
    if "sortData collate t = Inr u" for t u
    using that by (auto simp: sortData_def bindR_Inr_iff split: option.splits)
  have 1: "sortData collate (save_order (s\<lparr>sortReverse := \<not> sortReverse s\<rparr>)) = Inr s1"
    using assms(1-3) by (simp add: changeSortingOrder_def)
  from keeps [OF 1] have k1: "sortReverse s1 = (\<not> sortReverse s)" "sortBy s1 = sortBy s"
    "sortByLabel s1 = sortByLabel s" "sortableColumns s1 = sortableColumns s" "sorter_id s1 = sorter_id s"
    by (simp_all add: save_order_def)
  have "sortData collate (save_order (s1\<lparr>sortReverse := \<not> sortReverse s1\<rparr>)) = Inr s2"
    using assms(1,2,4) k1 by (simp add: changeSortingOrder_def)
  from keeps [OF this] show ?thesis
    by (simp add: save_order_def k1 hvs.get_put)
qed

text \<open>
  The label setting is restored on its own: when the stored column no longer exists
  but the stored label setting is on, the default column is compared as text even if it holds
  numbers, and sorting two elements fails.
\<close>

theorem restored_label_setting_fails:
  assumes "getDataForHv st (labelStorageKeyPrefix @ i) = Some ''true''"
    and "getDataForHv st (columnStorageKeyPrefix @ i) = Some k" and "find_column k cols = None"
    and "def < length cols" and "properties (cols ! def) = [p]" and "labelProperties (cols ! def) = None"
  shows "setSorterData collate (Some [VObj [(p, VNum x)], VObj [(p, VNum y)]]) (new_sorter st cols def i) =
    Inl TypeError"
proof -
  have sel: "sortBy (new_sorter st cols def i) = def" "sortByLabel (new_sorter st cols def i)"
    using assms(1-3) by (auto simp: new_sorter_def split: option.splits)
  have cols: "sortableColumns (new_sorter st cols def i) = cols" by (simp add: new_sorter_def)
  show ?thesis
    using assms(4-6)
    by (simp add: setSorterData_def sortData_def compare_elements_def getSortResponse_def sel cols
        sort_path_def sort_mode_def locale_compare_def)
qed


section \<open>Examples\<close>

text \<open>A comparison of texts that satisfies the contract, and a list with two columns.\<close>

definition length_collate :: "string \<Rightarrow> string \<Rightarrow> int" where
  "length_collate a b = int (length a) - int (length b)"

definition demo_columns :: "SortingColumn list" where
  "demo_columns =
     [\<lparr>properties = [''port''], column_label = ''p'', sortingMode = NumberMode, labelProperties = None\<rparr>,
      \<lparr>properties = [''name''], column_label = ''n'', sortingMode = TextMode, labelProperties = None\<rparr>]"

definition demo_sorter :: data_sorter where
  "demo_sorter =
     (new_sorter \<lparr>localStorage = Map.empty, hypervisorPk = ''hv''\<rparr> demo_columns 0 ''x'')
       \<lparr>sorter_data := Some [VObj [(''port'', VNum 3), (''name'', VStr ''b'')],
                             VObj [(''port'', VNum 2), (''name'', VStr ''a'')]]\<rparr>"

definition label_store :: hv_store where
  "label_store = \<lparr>localStorage = [''hvcol_x'' \<mapsto> ''gone'', ''hvlabel_x'' \<mapsto> ''true''], hypervisorPk = ''hv''\<rparr>"

lemma length_collation: "collation length_collate"
  using consistent_diff [of "\<lambda>s. int (length s)" "\<lambda>_. True"]
  by (simp add: collation_def length_collate_def [abs_def])

lemma demo_sorter_fields:
  "sortBy demo_sorter = 0" "sortByLabel demo_sorter = False" "defaultColumnIndex demo_sorter = 0"
  "tieBreakerColumnIndex demo_sorter = None" "sortableColumns demo_sorter = demo_columns"
  "sortReverse demo_sorter = False" "sorter_id demo_sorter = ''x''"
  by (simp_all add: demo_sorter_def new_sorter_def getDataForHv_def getItem_def)


lemma demo_change:
  "\<exists>s'. changeSortingParams length_collate 1 False True (demo_sorter\<lparr>sorter_data := None\<rparr>) = Inr s'"
  by (simp add: changeSortingParams_def sortData_def save_params_def)

theorem sorting_options_roundtrip_witness:
  "\<exists>s'. changeSortingParams length_collate 1 False True (demo_sorter\<lparr>sorter_data := None\<rparr>) = Inr s' \<and>
    sortReverse (new_sorter (sorter_store s') demo_columns 0 ''x'')"
proof -
  let ?s = "demo_sorter\<lparr>sorter_data := None\<rparr>"
  obtain s' where s': "changeSortingParams length_collate 1 False True ?s = Inr s'"
    using demo_change by blast
  have cols: "1 < length (sortableColumns ?s)" "column_id (sortableColumns ?s ! 1) \<noteq> []"
    "distinct (map column_id (sortableColumns ?s))"
    by (simp_all add: demo_sorter_fields demo_columns_def column_id_def)
  show ?thesis
    using sorting_options_roundtrip [OF s' cols, of 0] s' by (auto simp: demo_sorter_fields)
qed

theorem changeSortingOrder_toggles_witness:
  "\<exists>s1. changeSortingOrder length_collate 0 0 (demo_sorter\<lparr>sorter_data := None\<rparr>) = Inr s1 \<and> sortReverse s1"
proof -
  let ?s = "demo_sorter\<lparr>sorter_data := None\<rparr>"
  have col: "sortBy ?s = 0" "labelProperties (sortableColumns ?s ! 0) = None"
    by (simp_all add: demo_sorter_fields demo_columns_def)
  obtain s1 where s1: "changeSortingOrder length_collate 0 0 ?s = Inr s1" "sorter_data s1 = None"
    "sortBy s1 = 0" "labelProperties (sortableColumns s1 ! 0) = None"
    using col by (simp add: changeSortingOrder_def sortData_def save_order_def)
  moreover obtain s2 where "changeSortingOrder length_collate 0 0 s1 = Inr s2"
    using s1 by (simp add: changeSortingOrder_def sortData_def save_order_def)
  ultimately show ?thesis
    using changeSortingOrder_toggles [OF col s1(1)] by (auto simp: demo_sorter_fields)
qed

theorem restored_label_setting_fails_witness:
  "setSorterData length_collate (Some [VObj [(''port'', VNum 3)], VObj [(''port'', VNum 2)]])
      (new_sorter label_store demo_columns 0 ''x'') = Inl TypeError"
  by (rule restored_label_setting_fails)
    (auto simp: label_store_def getDataForHv_def getItem_def sorter_keys demo_columns_def column_id_def)

end
