(* ===== verification/Data_Filterer.thy ===== *)
theory Data_Filterer
  imports JS_Values
begin

text \<open>
  \<open>src/app/utils/filters.ts\<close>, \<open>src/app/utils/lists/data-filterer.ts\<close> and the form of
  \<open>filters-selection.component.ts\<close>: the filters of a list, which live in the query string of the
  page. An element of a list is an object, the association list of its properties. The route reuse
  strategy of the application creates every page again after a navigation, so a filterer reads the
  query string of one page only.
\<close>

section \<open>Data\<close>

type_synonym element = "(string \<times> jsval) list"

datatype FilterFieldTypes = TextInput | Select

record PrintableLabel =
  pl_value :: string
  pl_label :: string

record CompleteFilterProperties =
  filterName :: string
  printableLabelsForValues :: "PrintableLabel list option"
  filter_type :: FilterFieldTypes
  keyNameInElementsArray :: string
  secondaryKeyNameInElementsArray :: "string option"
  keyNameInFiltersObject :: string

record FilterTextElements =
  text_filterName :: string
  text_value :: jsstr
  text_translatableValue :: jsstr

type_synonym filters = "(string, string) jsmap"

definition prop_text :: "element \<Rightarrow> string \<Rightarrow> string" where
  "prop_text e k = val_to_string (case map_of e k of Some v \<Rightarrow> v | None \<Rightarrow> VUndef)"

definition filter_value :: "filters \<Rightarrow> string \<Rightarrow> string" where
  "filter_value fs k = (case map_get fs k of Some v \<Rightarrow> v | None \<Rightarrow> [])"

section \<open>Filtering\<close>

text \<open>The properties of the filters that are set, in the order of the filters object.\<close>

definition cleanedFilterPropertiesList ::
  "filters \<Rightarrow> CompleteFilterProperties list \<Rightarrow> CompleteFilterProperties list" where
  "cleanedFilterPropertiesList fs ps =
     concat (map (\<lambda>k. if filter_value fs k \<noteq> []
                      then (case find (\<lambda>p. keyNameInFiltersObject p = k) ps of Some p \<Rightarrow> [p] | None \<Rightarrow> [])
                      else []) (map_keys fs))"

definition passes_filter :: "filters \<Rightarrow> CompleteFilterProperties \<Rightarrow> element \<Rightarrow> bool" where
  "passes_filter fs p e =
     (let wanted = to_lower (filter_value fs (keyNameInFiltersObject p));
          primary = str_includes (to_lower (prop_text e (keyNameInElementsArray p))) wanted;
          secondary = (case secondaryKeyNameInElementsArray p of
                         None \<Rightarrow> False
                       | Some k \<Rightarrow> k \<noteq> [] \<and> str_includes (to_lower (prop_text e k)) wanted)
      in primary \<or> secondary)"

definition filterList ::
  "element list option \<Rightarrow> filters \<Rightarrow> CompleteFilterProperties list \<Rightarrow> element list option" where
  "filterList es fs ps =
     (case es of
        None \<Rightarrow> None
      | Some xs \<Rightarrow>
          Some (filter (\<lambda>e. list_all (\<lambda>p. passes_filter fs p e) (cleanedFilterPropertiesList fs ps)) xs))"

definition filter_text :: "filters \<Rightarrow> CompleteFilterProperties \<Rightarrow> FilterTextElements list" where
  "filter_text fs p =
     (let v = filter_value fs (keyNameInFiltersObject p);
          translatable =
            (case printableLabelsForValues p of
               None \<Rightarrow> Undefined
             | Some ls \<Rightarrow> (case find (\<lambda>l. pl_value l = v) (rev ls) of Some l \<Rightarrow> Str (pl_label l) | None \<Rightarrow> Undefined))
      in if v \<noteq> [] then
           [\<lparr>text_filterName = filterName p,
             text_value = (if truthy translatable then Undefined else Str v),
             text_translatableValue = translatable\<rparr>]
         else [])"

definition updateFilterTexts ::
  "filters \<Rightarrow> CompleteFilterProperties list \<Rightarrow> FilterTextElements list" where
  "updateFilterTexts fs ps = concat (map (filter_text fs) ps)"

section \<open>The filterer of a list\<close>

record data_filterer =
  filterPropertiesList :: "CompleteFilterProperties list"
  currentFilters :: filters
  currentFiltersTexts :: "FilterTextElements list"
  currentUrlQueryParams :: "(string, string) jsmap"
  filterer_data :: "element list option"
  dataFilteredEvents :: "element list list"

definition filters_set :: "filters \<Rightarrow> bool" where
  "filters_set fs = list_ex (\<lambda>k. filter_value fs k \<noteq> []) (map_keys fs)"

definition filterData :: "data_filterer \<Rightarrow> data_filterer" where
  "filterData d =
     (case filterer_data d of
        None \<Rightarrow> d
      | Some xs \<Rightarrow>
          let result = (if filters_set (currentFilters d)
                        then (case filterList (Some xs) (currentFilters d) (filterPropertiesList d) of
                                Some ys \<Rightarrow> ys | None \<Rightarrow> [])
                        else xs)
          in d\<lparr>currentFiltersTexts := updateFilterTexts (currentFilters d) (filterPropertiesList d),
               dataFilteredEvents := dataFilteredEvents d @ [result]\<rparr>)"

definition complete_properties ::
  "string \<Rightarrow> CompleteFilterProperties list \<Rightarrow> CompleteFilterProperties list" where
  "complete_properties i ps =
     map (\<lambda>p. p\<lparr>keyNameInFiltersObject := i @ ''_'' @ keyNameInElementsArray p\<rparr>) ps"

text \<open>What the subscription to the query string does with a new query string.\<close>

definition readQueryParams :: "(string, string) jsmap \<Rightarrow> data_filterer \<Rightarrow> data_filterer" where
  "readQueryParams q d =
     (let fs = fold (\<lambda>k m. case map_get q k of Some v \<Rightarrow> map_set k v m | None \<Rightarrow> m)
                 (map_keys (currentFilters d)) (currentFilters d)
      in filterData (d\<lparr>currentFilters := fs, currentUrlQueryParams := q\<rparr>))"

definition new_filterer ::
  "CompleteFilterProperties list \<Rightarrow> string \<Rightarrow> (string, string) jsmap \<Rightarrow> data_filterer" where
  "new_filterer ps i q =
     (let cps = complete_properties i ps
      in readQueryParams q
           \<lparr>filterPropertiesList = cps,
            currentFilters = fold (\<lambda>p. map_set (keyNameInFiltersObject p) []) cps [],
            currentFiltersTexts = [], currentUrlQueryParams = [], filterer_data = None,
            dataFilteredEvents = []\<rparr>)"

definition setFiltererData :: "element list option \<Rightarrow> data_filterer \<Rightarrow> data_filterer" where
  "setFiltererData xs d = filterData (d\<lparr>filterer_data := xs\<rparr>)"

text \<open>
  \<open>FiltersSelectionComponent.apply\<close>: the query string for the values of the form. \<open>changeFilters\<close>
  navigates to it, \<open>removeFilters\<close> navigates to the empty one.
\<close>

definition apply_filters ::
  "CompleteFilterProperties list \<Rightarrow> (string \<Rightarrow> string) \<Rightarrow> (string, string) jsmap" where
  "apply_filters ps form = fold (\<lambda>p. map_set (keyNameInFiltersObject p) (trim (form (keyNameInFiltersObject p)))) ps []"

section \<open>Properties\<close>

lemma cleaned_set:
  "p \<in> set (cleanedFilterPropertiesList fs ps) \<longleftrightarrow>
     filter_value fs (keyNameInFiltersObject p) \<noteq> [] \<and>
     find (\<lambda>q. keyNameInFiltersObject q = keyNameInFiltersObject p) ps = Some p"
proof
  assume "p \<in> set (cleanedFilterPropertiesList fs ps)"
  then obtain k where k: "filter_value fs k \<noteq> []" "find (\<lambda>q. keyNameInFiltersObject q = k) ps = Some p"
    by (auto simp: cleanedFilterPropertiesList_def split: option.splits if_splits)
  then show "filter_value fs (keyNameInFiltersObject p) \<noteq> [] \<and>
      find (\<lambda>q. keyNameInFiltersObject q = keyNameInFiltersObject p) ps = Some p"
    using find_SomeD [OF k(2)] by simp
next
  assume a: "filter_value fs (keyNameInFiltersObject p) \<noteq> [] \<and>
      find (\<lambda>q. keyNameInFiltersObject q = keyNameInFiltersObject p) ps = Some p"
  then have "keyNameInFiltersObject p \<in> set (map_keys fs)"
    using jm.get_None [of fs "keyNameInFiltersObject p"] by (auto simp: filter_value_def split: option.splits)
  then show "p \<in> set (cleanedFilterPropertiesList fs ps)"
    using a unfolding cleanedFilterPropertiesList_def by (auto intro!: bexI [of _ "keyNameInFiltersObject p"])
qed

lemma no_filters: "\<not> filters_set fs \<Longrightarrow> cleanedFilterPropertiesList fs ps = []"
  by (auto simp: filters_set_def list_ex_iff cleanedFilterPropertiesList_def)

lemma passes_filter_iff:
  "passes_filter fs p e \<longleftrightarrow>
     (\<exists>a b. to_lower (prop_text e (keyNameInElementsArray p)) =
        a @ to_lower (filter_value fs (keyNameInFiltersObject p)) @ b) \<or>
     (\<exists>k a b. secondaryKeyNameInElementsArray p = Some k \<and> k \<noteq> [] \<and>
        to_lower (prop_text e k) = a @ to_lower (filter_value fs (keyNameInFiltersObject p)) @ b)"
  by (auto simp: passes_filter_def str_includes_iff case_option_ex)

text \<open>
  Property C37. A list is filtered as documented: the elements that stay keep their order; an
  element stays exactly when, for every filter that is set, the value of the filter occurs, without
  regard to case, in the property of the filter or in its secondary property.
\<close>

theorem filterList_correct:
  assumes "distinct (map keyNameInFiltersObject ps)"
  shows "filterList (Some xs) fs ps = Some (filter (\<lambda>e.
    \<forall>p \<in> set ps. filter_value fs (keyNameInFiltersObject p) \<noteq> [] \<longrightarrow>
      (\<exists>a b. to_lower (prop_text e (keyNameInElementsArray p)) =
         a @ to_lower (filter_value fs (keyNameInFiltersObject p)) @ b) \<or>
      (\<exists>k a b. secondaryKeyNameInElementsArray p = Some k \<and> k \<noteq> [] \<and>
         to_lower (prop_text e k) = a @ to_lower (filter_value fs (keyNameInFiltersObject p)) @ b)) xs)"
proof -
  have "p \<in> set (cleanedFilterPropertiesList fs ps) \<longleftrightarrow>
      p \<in> set ps \<and> filter_value fs (keyNameInFiltersObject p) \<noteq> []" for p
    using find_key_distinct [OF assms, of "keyNameInFiltersObject p" p] by (auto simp: cleaned_set)
  then have "list_all (\<lambda>p. passes_filter fs p e) (cleanedFilterPropertiesList fs ps) \<longleftrightarrow>
      (\<forall>p \<in> set ps. filter_value fs (keyNameInFiltersObject p) \<noteq> [] \<longrightarrow> passes_filter fs p e)" for e
    by (auto simp: list_all_iff)
  then show ?thesis
    by (simp only: filterList_def option.case passes_filter_iff)
qed

lemma filterData_last:
  assumes "filterer_data d = Some xs"
  shows "last (dataFilteredEvents (filterData d)) = filter (\<lambda>e. list_all (\<lambda>p. passes_filter (currentFilters d) p e)
    (cleanedFilterPropertiesList (currentFilters d) (filterPropertiesList d))) xs"
  using assms no_filters [of "currentFilters d" "filterPropertiesList d"] by (simp add: filterData_def filterList_def)

text \<open>
  The event of the filterer always carries the filtered list: the shortcut for no
  filters gives what the filtering would give, and the texts that describe the filters are there
  exactly when a filter is set, each of them with something to show.
\<close>

theorem filterData_event:
  assumes "filterer_data d = Some xs"
  shows "Some (last (dataFilteredEvents (filterData d))) =
      filterList (Some xs) (currentFilters d) (filterPropertiesList d) \<and>
    (\<forall>t \<in> set (currentFiltersTexts (filterData d)). truthy (text_value t) \<or> truthy (text_translatableValue t)) \<and>
    (currentFiltersTexts (filterData d) = [] \<longleftrightarrow>
      cleanedFilterPropertiesList (currentFilters d) (filterPropertiesList d) = [])"
proof -
  let ?fs = "currentFilters d" and ?ps = "filterPropertiesList d"
  have event: "Some (last (dataFilteredEvents (filterData d))) = filterList (Some xs) ?fs ?ps"
    using assms no_filters [of ?fs ?ps] by (simp add: filterData_def filterList_def)
  have texts: "currentFiltersTexts (filterData d) = updateFilterTexts ?fs ?ps"
    using assms by (simp add: filterData_def)
  have show_value: "truthy (text_value t) \<or> truthy (text_translatableValue t)"
    if "t \<in> set (updateFilterTexts ?fs ?ps)" for t
    using that by (auto simp: updateFilterTexts_def filter_text_def)
  have none: "filter_text ?fs p = [] \<longleftrightarrow> filter_value ?fs (keyNameInFiltersObject p) = []" for p
    by (simp add: filter_text_def)
  have "updateFilterTexts ?fs ?ps = [] \<longleftrightarrow> (\<forall>p \<in> set ?ps. filter_value ?fs (keyNameInFiltersObject p) = [])"
    by (simp add: updateFilterTexts_def none)
  also have "\<dots> \<longleftrightarrow> cleanedFilterPropertiesList ?fs ?ps = []"
  proof
    assume "\<forall>p \<in> set ?ps. filter_value ?fs (keyNameInFiltersObject p) = []"
    then have "p \<notin> set (cleanedFilterPropertiesList ?fs ?ps)" for p
      unfolding cleaned_set by (auto dest!: find_SomeD)
    then show "cleanedFilterPropertiesList ?fs ?ps = []" by (meson last_in_set)
  next
    assume empty: "cleanedFilterPropertiesList ?fs ?ps = []"
    show "\<forall>p \<in> set ?ps. filter_value ?fs (keyNameInFiltersObject p) = []"
    proof
      fix p assume p: "p \<in> set ?ps"
      then obtain q where q: "find (\<lambda>q. keyNameInFiltersObject q = keyNameInFiltersObject p) ?ps = Some q"
        by (metis (mono_tags, lifting) find_None_iff not_Some_eq)
      then have "q \<notin> set (cleanedFilterPropertiesList ?fs ?ps)" using empty by simp
      then show "filter_value ?fs (keyNameInFiltersObject p) = []"
        using q find_SomeD [OF q] by (simp add: cleaned_set)
    qed
  qed
  finally show ?thesis using event texts show_value by simp
qed


lemma fold_query:
  assumes "distinct ks"
  shows "map_get (fold (\<lambda>k m. case map_get q k of Some v \<Rightarrow> map_set k v m | None \<Rightarrow> m) ks m) k =
    (if k \<in> set ks \<and> map_get q k \<noteq> None then map_get q k else map_get m k)"
  using assms
  by (induction ks arbitrary: m) (auto simp: jm.get_put split: option.splits)

text \<open>
  The filters the user enters arrive through the address of the page: a filterer
  created for the query string the form produces has exactly the trimmed values of the form, and one
  created for the empty query string (after removing the filters) has none.
\<close>

theorem filters_through_url:
  assumes "p \<in> set ps" and "cps = complete_properties i ps"
    and "k = i @ ''_'' @ keyNameInElementsArray p"
  shows "filter_value (currentFilters (new_filterer ps i (apply_filters cps form))) k = trim (form k) \<and>
    filter_value (currentFilters (new_filterer ps i [])) k = []"
proof -
  let ?init = "fold (\<lambda>p. map_set (keyNameInFiltersObject p) []) cps ([] :: filters)"
  have mem: "k \<in> keyNameInFiltersObject ` set cps"
    using assms by (auto simp: complete_properties_def image_image)
  have keys: "distinct (map_keys ?init)" "k \<in> set (map_keys ?init)"
    using jm.distinct_puts [of "[] :: filters" keyNameInFiltersObject "\<lambda>_. []" cps]
      jm.set_keys_puts [of keyNameInFiltersObject "\<lambda>_. []" cps "[] :: filters"] mem
    by (simp_all add: map_keys_def)
  have init: "map_get ?init k = Some []"
    using mem unfolding jm.get_puts by (auto split: option.split simp: find_None_iff)
  have query: "map_get (apply_filters cps form) k = Some (trim (form k))"
    using mem unfolding apply_filters_def jm.get_puts
    by (auto split: option.split simp: find_None_iff dest: find_SomeD)
  have data: "currentFilters (new_filterer ps i q) =
      fold (\<lambda>k m. case map_get q k of Some v \<Rightarrow> map_set k v m | None \<Rightarrow> m) (map_keys ?init) ?init" for q
    by (simp add: new_filterer_def readQueryParams_def filterData_def assms(2))
  show ?thesis
    unfolding filter_value_def data fold_query [OF keys(1)]
    using keys(2) init query by (auto simp: map_get_def)
qed

section \<open>Examples\<close>

definition id_filter :: CompleteFilterProperties where
  "id_filter = \<lparr>filterName = ''id'', printableLabelsForValues = None, filter_type = TextInput,
     keyNameInElementsArray = ''id'', secondaryKeyNameInElementsArray = Some ''id_label'',
     keyNameInFiltersObject = ''tr_id''\<rparr>"

definition demo_filterer :: data_filterer where
  "demo_filterer = \<lparr>filterPropertiesList = [id_filter], currentFilters = [(''tr_id'', ''AB'')],
     currentFiltersTexts = [], currentUrlQueryParams = [],
     filterer_data = Some [[(''id'', VStr ''xabx'')], [(''id'', VStr ''c'')]], dataFilteredEvents = []\<rparr>"

theorem filterList_correct_witness:
  "filterList (Some [[(''id'', VStr ''xabx'')], [(''id'', VStr ''c'')]]) [(''tr_id'', ''AB'')] [id_filter] =
     Some [[(''id'', VStr ''xabx'')]] \<and>
   (\<exists>P. filterList (Some []) [(''tr_id'', ''AB'')] [id_filter] = Some (filter P []))"
proof -
  have "distinct (map keyNameInFiltersObject [id_filter])" by simp
  note c = filterList_correct [OF this]
  have "filterList (Some [[(''id'', VStr ''xabx'')], [(''id'', VStr ''c'')]]) [(''tr_id'', ''AB'')] [id_filter] =
     Some [[(''id'', VStr ''xabx'')]]"
    by code_simp
  then show ?thesis using c [of "[]" "[(''tr_id'', ''AB'')]"] by blast
qed

theorem filterData_event_witness:
  "Some (last (dataFilteredEvents (filterData demo_filterer))) =
     filterList (Some [[(''id'', VStr ''xabx'')], [(''id'', VStr ''c'')]]) [(''tr_id'', ''AB'')] [id_filter]"
  using filterData_event [of demo_filterer "[[(''id'', VStr ''xabx'')], [(''id'', VStr ''c'')]]"]
  by (simp add: demo_filterer_def)

theorem filters_through_url_witness:
  "filter_value (currentFilters (new_filterer [id_filter] ''tr''
      (apply_filters (complete_properties ''tr'' [id_filter]) (\<lambda>_. '' ab '')))) ''tr_id'' = trim '' ab ''"
proof -
  have "''tr_id'' = ''tr'' @ ''_'' @ keyNameInElementsArray id_filter" by (simp add: id_filter_def)
  from filters_through_url [OF _ refl this, of "[id_filter]" "\<lambda>_. '' ab ''"] show ?thesis by simp
qed

end
