(* ===== verification/List_Component.thy ===== *)
theory List_Component
  imports List_Operations Data_Sorter Data_Filterer
begin

text \<open>
  The part that the components with a list share (\<open>transport-list.component.ts\<close>,
  \<open>route-list.component.ts\<close>, \<open>label-list.component.ts\<close>, \<open>node-list.component.ts\<close>): the data goes to the
  filterer, the filtered data to the sorter, and after every sort the page is calculated. The state
  of these parts is one record, which the components contain; the key of an element for its check box
  is a parameter. What a list promises is proved once, in a locale, for elements that fit the columns.
\<close>

record 'k list_component =
  lc_filtered :: "element list option"
  lc_toShow :: "element list option"
  lc_numberOfPages :: nat
  lc_currentPage :: int
  lc_currentPageInUrl :: int
  lc_selections :: "('k, bool) jsmap"
  lc_showShortList :: bool
  lc_sorter :: data_sorter
  lc_filterer :: data_filterer

definition recalculate :: "(element \<Rightarrow> 'k) \<Rightarrow> 'k list_component \<Rightarrow> 'k list_component" where
  "recalculate ident c =
     (case lc_filtered c of
        Some xs \<Rightarrow>
          let r = recalculateElementsToShow (lc_showShortList c) ident xs (lc_currentPageInUrl c) (lc_selections c)
          in c\<lparr>lc_numberOfPages := numberOfPages r, lc_currentPage := currentPage r,
               lc_toShow := Some (elementsToShow r), lc_selections := selections r\<rparr>
      | None \<Rightarrow> c\<lparr>lc_currentPage := lc_currentPageInUrl c, lc_toShow := None, lc_selections := []\<rparr>)"

fun obj_members :: "jsval \<Rightarrow> element" where
  "obj_members (VObj ms) = ms"
| "obj_members _ = []"

text \<open>
  The subscription to the filterer: the filtered data goes to the sorter, which sorts it in place
  and makes the component calculate the page.
\<close>

definition data_filtered ::
  "(string \<Rightarrow> string \<Rightarrow> int) \<Rightarrow> (element \<Rightarrow> 'k) \<Rightarrow> element list \<Rightarrow> 'k list_component \<Rightarrow> 'k list_component js_result" where
  "data_filtered collate ident xs c =
     bindR (setSorterData collate (Some (map VObj xs)) (lc_sorter c)) (\<lambda>s.
       let sorted = (case sorter_data s of Some vs \<Rightarrow> map obj_members vs | None \<Rightarrow> xs)
       in Inr (recalculate ident (c\<lparr>lc_sorter := s, lc_filtered := Some sorted\<rparr>)))"

definition set_list_data ::
  "(string \<Rightarrow> string \<Rightarrow> int) \<Rightarrow> (element \<Rightarrow> 'k) \<Rightarrow> element list \<Rightarrow> 'k list_component \<Rightarrow> 'k list_component js_result" where
  "set_list_data collate ident xs c =
     (let f = setFiltererData (Some xs) (lc_filterer c)
      in data_filtered collate ident (last (dataFilteredEvents f)) (c\<lparr>lc_filterer := f\<rparr>))"

text \<open>The setter of \<open>showShortList\<close>: the data is sorted again, which calculates the page.\<close>

definition set_showShortList ::
  "(string \<Rightarrow> string \<Rightarrow> int) \<Rightarrow> (element \<Rightarrow> 'k) \<Rightarrow> bool \<Rightarrow> 'k list_component \<Rightarrow> 'k list_component js_result" where
  "set_showShortList collate ident v c =
     (case lc_filtered c of
        Some xs \<Rightarrow> data_filtered collate ident xs (c\<lparr>lc_showShortList := v\<rparr>)
      | None \<Rightarrow> Inr (c\<lparr>lc_showShortList := v, lc_sorter := (lc_sorter c)\<lparr>sorter_data := None\<rparr>\<rparr>))"

definition page_changed :: "(element \<Rightarrow> 'k) \<Rightarrow> int option \<Rightarrow> 'k list_component \<Rightarrow> 'k list_component" where
  "page_changed ident n c = recalculate ident (c\<lparr>lc_currentPageInUrl := page_in_url n\<rparr>)"

definition new_list_component ::
  "hv_store \<Rightarrow> SortingColumn list \<Rightarrow> nat \<Rightarrow> CompleteFilterProperties list \<Rightarrow> string \<Rightarrow> (string, string) jsmap \<Rightarrow> bool \<Rightarrow> 'k list_component" where
  "new_list_component st columns dflt filters listId q short =
     \<lparr>lc_filtered = None, lc_toShow = None, lc_numberOfPages = 1, lc_currentPage = 1, lc_currentPageInUrl = 1,
      lc_selections = [], lc_showShortList = short, lc_sorter = new_sorter st columns dflt listId,
      lc_filterer = new_filterer filters listId q\<rparr>"

definition element_key :: "element \<Rightarrow> string" where
  "element_key e = prop_text e ''id''"

section \<open>What a list promises\<close>

text \<open>
  The sorter of a list: its columns, and no order by label for a column without labels, which the
  dialogs of the sorter never choose.
\<close>

definition list_sorter_ok :: "SortingColumn list \<Rightarrow> nat \<Rightarrow> data_sorter \<Rightarrow> bool" where
  "list_sorter_ok columns dflt s \<longleftrightarrow> sortableColumns s = columns \<and> sortBy s < length columns \<and>
     defaultColumnIndex s = dflt \<and> tieBreakerColumnIndex s = None \<and>
     (sortByLabel s \<longrightarrow> labelProperties (columns ! sortBy s) \<noteq> None)"

definition passes_filters :: "data_filterer \<Rightarrow> element \<Rightarrow> bool" where
  "passes_filters f e = list_all (\<lambda>p. passes_filter (currentFilters f) p e)
     (cleanedFilterPropertiesList (currentFilters f) (filterPropertiesList f))"

definition sorted_elements ::
  "(string \<Rightarrow> string \<Rightarrow> int) \<Rightarrow> data_sorter \<Rightarrow> element list \<Rightarrow> bool" where
  "sorted_elements collate s ys =
     sorted_wrt (\<lambda>a b. \<exists>r \<le> 0. compare_elements collate s (VObj a) (VObj b) = Inr r) ys"

text \<open>The state of a list whose data is \<open>ys\<close>, after a list in the state \<open>c\<close> got it.\<close>

definition list_shows ::
  "(element \<Rightarrow> 'k) \<Rightarrow> 'k list_component \<Rightarrow> element list \<Rightarrow> 'k list_component \<Rightarrow> bool" where
  "list_shows ident c ys c' \<longleftrightarrow>
     lc_filtered c' = Some ys \<and>
     lc_currentPage c' = min (lc_currentPageInUrl c) (int (lc_numberOfPages c')) \<and>
     lc_toShow c' = Some (shown_elements (max_elements (lc_showShortList c)) (lc_currentPage c') ys) \<and>
     (\<forall>k. map_get (lc_selections c') k =
       (if k \<in> ident ` set (shown_elements (max_elements (lc_showShortList c)) (lc_currentPage c') ys)
        then Some (map_get (lc_selections c) k = Some True) else None))"

lemma getSortResponse_data [simp]:
  "getSortResponse collate (s\<lparr>sorter_data := d\<rparr>) = getSortResponse collate s"
  by (intro ext) (simp add: getSortResponse_def)

lemma compare_elements_data [simp]:
  "compare_elements collate (s\<lparr>sorter_data := d\<rparr>) = compare_elements collate s"
  by (intro ext) (simp add: compare_elements_def cong: if_cong option.case_cong)

lemma fits_column_data [simp]: "fits_column (s\<lparr>sorter_data := d\<rparr>) = fits_column s"
  by (intro ext) (simp add: fits_column_def cong: sum.case_cong)

lemma sortable_data [simp]: "sortable (s\<lparr>sorter_data := d\<rparr>) = sortable s"
  by (intro ext) (simp add: sortable_def cong: option.case_cong)

lemma sorted_data:
  assumes "collation collate" and "\<And>x. x \<in> set xs \<Longrightarrow> sortable s (VObj x)"
  obtains ys where "setSorterData collate (Some (map VObj xs)) s =
      Inr (s\<lparr>sorter_data := Some (map VObj ys), dataSortedCount := dataSortedCount s + 1\<rparr>)"
    and "mset ys = mset xs" and "sorted_elements collate s ys"
proof -
  let ?s = "s\<lparr>sorter_data := Some (map VObj xs)\<rparr>"
  have "\<forall>x \<in> set (map VObj xs). sortable ?s x" using assms(2) by auto
  from sortData_result [OF assms(1), of ?s "map VObj xs", OF _ this] obtain vs
    where vs: "sortData collate ?s = Inr (?s\<lparr>sorter_data := Some vs, dataSortedCount := dataSortedCount ?s + 1\<rparr>)"
      "mset vs = mset (map VObj xs)"
      "sorted_wrt (\<lambda>a b. \<exists>r \<le> 0. compare_elements collate ?s a b = Inr r) vs"
    by auto
  have "\<forall>v \<in> set vs. \<exists>e. v = VObj e" using vs(2) by (metis image_iff list.set_map set_mset_mset)
  then have objs: "vs = map VObj (map obj_members vs)"
    by (auto simp: comp_def intro!: nth_equalityI) (metis nth_mem obj_members.simps(1))
  then have "image_mset VObj (mset (map obj_members vs)) = image_mset VObj (mset xs)"
    using vs(2) by (metis mset_map)
  then have perm: "mset (map obj_members vs) = mset xs"
    by (metis (no_types, lifting) image_mset.compositionality image_mset_cong multiset.map_ident obj_members.simps(1) comp_def)
  show thesis
  proof (rule that [of "map obj_members vs"])
    show "setSorterData collate (Some (map VObj xs)) s =
      Inr (s\<lparr>sorter_data := Some (map VObj (map obj_members vs)), dataSortedCount := dataSortedCount s + 1\<rparr>)"
      using vs(1) objs by (simp add: setSorterData_def)
    show "mset (map obj_members vs) = mset xs" by (rule perm)
    have "sorted_wrt (\<lambda>a b. \<exists>r \<le> 0. compare_elements collate s a b = Inr r) (map VObj (map obj_members vs))"
      using vs(3) objs by simp
    then show "sorted_elements collate s (map obj_members vs)"
      by (simp only: sorted_wrt_map sorted_elements_def)
  qed
qed

lemma new_list_sorter_ok:
  "localStorage st = (\<lambda>_. None) \<Longrightarrow> dflt < length columns \<Longrightarrow>
   list_sorter_ok columns dflt (lc_sorter (new_list_component st columns dflt filters listId q short))"
  by (simp add: list_sorter_ok_def new_list_component_def new_sorter_def getDataForHv_def getItem_def)

lemma recalculate_shows:
  assumes "lc_filtered c1 = Some ys" and "lc_currentPageInUrl c1 = lc_currentPageInUrl c"
    and "lc_selections c1 = lc_selections c" and "lc_showShortList c1 = lc_showShortList c"
  shows "list_shows ident c ys (recalculate ident c1)"
proof -
  define r where "r = recalculateElementsToShow (lc_showShortList c) ident ys (lc_currentPageInUrl c) (lc_selections c)"
  have shown: "currentPage r = min (lc_currentPageInUrl c) (int (numberOfPages r))"
    "elementsToShow r = shown_elements (max_elements (lc_showShortList c)) (currentPage r) ys"
    by (simp_all add: r_def recalculateElementsToShow_def min_def)
  have "map_get (selections r) k =
      (if k \<in> ident ` set (elementsToShow r) then Some (map_get (lc_selections c) k = Some True) else None)" for k
    unfolding r_def recalculated_selections by (simp split: option.split)
  then show ?thesis
    using assms shown by (simp add: list_shows_def recalculate_def flip: r_def)
qed

locale listed_elements =
  fixes to_element :: "'a \<Rightarrow> element"
    and columns :: "SortingColumn list"
    and dflt :: nat
  assumes fits: "col < length columns \<Longrightarrow> (by_label \<Longrightarrow> labelProperties (columns ! col) \<noteq> None) \<Longrightarrow>
      sortableColumns s = columns \<Longrightarrow> fits_column s col by_label (VObj (to_element x))"
    and dflt: "dflt < length columns"
begin

lemma element_sortable: "list_sorter_ok columns dflt s \<Longrightarrow> sortable s (VObj (to_element x))"
  using dflt by (auto simp: sortable_def list_sorter_ok_def intro!: fits)

lemma set_data:
  assumes "collation collate" and "list_sorter_ok columns dflt (lc_sorter c)"
  shows "\<exists>c' ys. set_list_data collate ident (map to_element xs) c = Inr c' \<and> list_shows ident c ys c' \<and>
    mset ys = mset (filter (passes_filters (lc_filterer c)) (map to_element xs)) \<and>
    sorted_elements collate (lc_sorter c) ys"
proof -
  let ?all = "map to_element xs"
  let ?f = "setFiltererData (Some ?all) (lc_filterer c)"
  have filtered: "last (dataFilteredEvents ?f) = filter (passes_filters (lc_filterer c)) ?all"
    unfolding passes_filters_def setFiltererData_def
    using filterData_last [of "(lc_filterer c)\<lparr>filterer_data := Some ?all\<rparr>" ?all] by simp
  have "sortable (lc_sorter c) (VObj e)" if "e \<in> set (filter (passes_filters (lc_filterer c)) ?all)" for e
    using that element_sortable [OF assms(2)] by auto
  from sorted_data [OF assms(1) this] obtain ys
    where ys: "setSorterData collate (Some (map VObj (filter (passes_filters (lc_filterer c)) ?all))) (lc_sorter c) =
        Inr ((lc_sorter c)\<lparr>sorter_data := Some (map VObj ys), dataSortedCount := dataSortedCount (lc_sorter c) + 1\<rparr>)"
      "mset ys = mset (filter (passes_filters (lc_filterer c)) ?all)" "sorted_elements collate (lc_sorter c) ys" .
  define c1 where "c1 = c\<lparr>lc_filterer := ?f, lc_sorter :=
    (lc_sorter c)\<lparr>sorter_data := Some (map VObj ys), dataSortedCount := dataSortedCount (lc_sorter c) + 1\<rparr>, lc_filtered := Some ys\<rparr>"
  have objs: "map obj_members (map VObj ys) = ys" by (simp add: comp_def)
  have "set_list_data collate ident ?all c = Inr (recalculate ident c1)"
    by (simp add: set_list_data_def data_filtered_def filtered ys(1) objs c1_def del: map_map)
  moreover have "list_shows ident c ys (recalculate ident c1)"
    by (rule recalculate_shows) (simp_all add: c1_def)
  ultimately show ?thesis using ys(2,3) by blast
qed

end

end
