(* ===== verification/Storage_Service.thy ===== *)
theory Storage_Service
  imports Hv_Store
begin

text \<open>
  \<open>src/app/services/storage.service.ts\<close>: the service that remembers, per hypervisor, the refresh
  interval, the local visors already seen and the labels the user gave to visors, transports and
  dmsg servers. The state is the persistent storage plus the caches the service keeps in memory.
  The main result is that the caches always agree with what a fresh load of the storage would give.
\<close>

section \<open>Data\<close>

datatype LabeledElementTypes = NodeType | TransportType | DmsgServerType

fun element_type_string :: "LabeledElementTypes \<Rightarrow> string" where
  "element_type_string NodeType = ''nd''"
| "element_type_string TransportType = ''tp''"
| "element_type_string DmsgServerType = ''ds''"

definition element_type_of :: "string \<Rightarrow> LabeledElementTypes js_result" where
  "element_type_of s =
     (if s = ''nd'' then Inr NodeType
      else if s = ''tp'' then Inr TransportType
      else if s = ''ds'' then Inr DmsgServerType
      else Inl TypeError)"

record LegacyNodeInfo =
  legacy_publicKey :: string
  legacy_label :: string
  legacy_deleted :: bool

record LocalNodeInfo =
  publicKey :: string
  hidden :: bool
  ip :: jsstr

record LabelInfo =
  label_id :: string
  label :: string
  identifiedElementType :: LabeledElementTypes

record storage_service =
  hv :: hv_store
  currentRefreshTime :: "int option"
  refreshTimeEvents :: "int list"
  savedLocalNodes :: "(string, LocalNodeInfo) jsmap"
  savedLabels :: "(string, LabelInfo) jsmap"
  savedVisibleLocalNodes :: "string jsset"

definition KEY_REFRESH_SECONDS :: string where "KEY_REFRESH_SECONDS = ''refreshSeconds''"
definition KEY_SAVED_LABELS :: string where "KEY_SAVED_LABELS = ''labelsData''"
definition KEY_LOCAL_NODES :: string where "KEY_LOCAL_NODES = ''localNodesData''"
definition LEGACY_KEY_NODES :: string where "LEGACY_KEY_NODES = ''nodesData''"

lemmas storage_keys =
  KEY_REFRESH_SECONDS_def KEY_SAVED_LABELS_def KEY_LOCAL_NODES_def LEGACY_KEY_NODES_def

lemma storage_keys_distinct [simp]:
  "KEY_REFRESH_SECONDS \<noteq> KEY_SAVED_LABELS" "KEY_SAVED_LABELS \<noteq> KEY_REFRESH_SECONDS"
  "KEY_REFRESH_SECONDS \<noteq> KEY_LOCAL_NODES" "KEY_LOCAL_NODES \<noteq> KEY_REFRESH_SECONDS"
  "KEY_SAVED_LABELS \<noteq> KEY_LOCAL_NODES" "KEY_LOCAL_NODES \<noteq> KEY_SAVED_LABELS"
  by (simp_all add: storage_keys)

section \<open>The JSON form of the data\<close>

text \<open>
  The members of an object are written in one fixed order. The code writes the members of a label
  in the order of the object literal that created it; no reader depends on that order.
\<close>

definition enc_node :: "LocalNodeInfo \<Rightarrow> json" where
  "enc_node n =
     JObj ([(''publicKey'', JStr (publicKey n)), (''hidden'', JBool (hidden n))] @ put_jsstr ''ip'' (ip n))"

definition dec_node :: "json \<Rightarrow> LocalNodeInfo js_result" where
  "dec_node j =
     (case j of
        JObj ms \<Rightarrow>
          bindR (get_string ms ''publicKey'') (\<lambda>pk.
          bindR (get_bool ms ''hidden'') (\<lambda>h.
          bindR (get_jsstr ms ''ip'') (\<lambda>i.
          Inr \<lparr>publicKey = pk, hidden = h, ip = i\<rparr>)))
      | _ \<Rightarrow> Inl TypeError)"

definition enc_label :: "LabelInfo \<Rightarrow> json" where
  "enc_label l =
     JObj [(''id'', JStr (label_id l)), (''label'', JStr (label l)),
           (''identifiedElementType'', JStr (element_type_string (identifiedElementType l)))]"

definition dec_label :: "json \<Rightarrow> LabelInfo js_result" where
  "dec_label j =
     (case j of
        JObj ms \<Rightarrow>
          bindR (get_string ms ''id'') (\<lambda>i.
          bindR (get_string ms ''label'') (\<lambda>l.
          bindR (bindR (get_string ms ''identifiedElementType'') element_type_of) (\<lambda>t.
          Inr \<lparr>label_id = i, label = l, identifiedElementType = t\<rparr>)))
      | _ \<Rightarrow> Inl TypeError)"

definition dec_legacy :: "json \<Rightarrow> LegacyNodeInfo js_result" where
  "dec_legacy j =
     (case j of
        JObj ms \<Rightarrow>
          bindR (get_string ms ''publicKey'') (\<lambda>pk.
          bindR (get_string ms ''label'') (\<lambda>l.
          bindR (get_bool ms ''deleted'') (\<lambda>d.
          Inr \<lparr>legacy_publicKey = pk, legacy_label = l, legacy_deleted = d\<rparr>)))
      | _ \<Rightarrow> Inl TypeError)"

lemma dec_enc_node: "dec_node (enc_node n) = Inr n"
  by (cases n; cases "ip n") (auto simp: enc_node_def dec_node_def get_member_defs)

lemma dec_enc_label: "dec_label (enc_label l) = Inr l"
  by (cases l; cases "identifiedElementType l")
    (auto simp: enc_label_def dec_label_def get_member_defs element_type_of_def)

interpretation node_list: persisted_list getDataForHv setDataForHv enc_node dec_node
  by unfold_locales (rule dec_enc_node)

interpretation label_list: persisted_list getDataForHv setDataForHv enc_label dec_label
  by unfold_locales (rule dec_enc_label)

section \<open>Reading and writing the persistent lists\<close>

definition getSavedLocalNodes :: "storage_service \<Rightarrow> LocalNodeInfo list js_result" where
  "getSavedLocalNodes s = bindR (parse_or_empty (getDataForHv (hv s) KEY_LOCAL_NODES)) (dec_list dec_node)"

definition saveLocalNodes :: "LocalNodeInfo list \<Rightarrow> storage_service \<Rightarrow> storage_service" where
  "saveLocalNodes ns s =
     s\<lparr>hv := setDataForHv KEY_LOCAL_NODES (stringify (JArr (map enc_node ns))) (hv s)\<rparr>"

definition getSavedLabels :: "storage_service \<Rightarrow> LabelInfo list js_result" where
  "getSavedLabels s = bindR (parse_or_empty (getDataForHv (hv s) KEY_SAVED_LABELS)) (dec_list dec_label)"

definition saveLabels :: "LabelInfo list \<Rightarrow> storage_service \<Rightarrow> storage_service" where
  "saveLabels ls s =
     s\<lparr>hv := setDataForHv KEY_SAVED_LABELS (stringify (JArr (map enc_label ls))) (hv s)\<rparr>"

definition getSavedVisibleLocalNodes :: "storage_service \<Rightarrow> string jsset" where
  "getSavedVisibleLocalNodes s = savedVisibleLocalNodes s"

lemma getSavedLocalNodes_save [simp]:
  "getSavedLocalNodes (saveLocalNodes ns s) = Inr ns"
  "getSavedLocalNodes (saveLabels ls s) = getSavedLocalNodes s"
  by (simp_all add: getSavedLocalNodes_def saveLocalNodes_def saveLabels_def
      node_list.load_save node_list.load_save_other)

lemma getSavedLabels_save [simp]:
  "getSavedLabels (saveLabels ls s) = Inr ls"
  "getSavedLabels (saveLocalNodes ns s) = getSavedLabels s"
  by (simp_all add: getSavedLabels_def saveLocalNodes_def saveLabels_def
      label_list.load_save label_list.load_save_other)

lemma save_fields [simp]:
  "savedLocalNodes (saveLocalNodes ns s) = savedLocalNodes s"
  "savedLabels (saveLocalNodes ns s) = savedLabels s"
  "savedVisibleLocalNodes (saveLocalNodes ns s) = savedVisibleLocalNodes s"
  "currentRefreshTime (saveLocalNodes ns s) = currentRefreshTime s"
  "savedLocalNodes (saveLabels ls s) = savedLocalNodes s"
  "savedLabels (saveLabels ls s) = savedLabels s"
  "savedVisibleLocalNodes (saveLabels ls s) = savedVisibleLocalNodes s"
  "currentRefreshTime (saveLabels ls s) = currentRefreshTime s"
  by (simp_all add: saveLocalNodes_def saveLabels_def)

text \<open>What the caches hold does not change what the storage holds.\<close>

lemma saved_lists_hv:
  "hv s' = hv s \<Longrightarrow> getSavedLocalNodes s' = getSavedLocalNodes s"
  "hv s' = hv s \<Longrightarrow> getSavedLabels s' = getSavedLabels s"
  by (simp_all add: getSavedLocalNodes_def getSavedLabels_def)

lemma saved_lists_upd [simp]:
  "getSavedLocalNodes (s\<lparr>savedLabels := m\<rparr>) = getSavedLocalNodes s"
  "getSavedLabels (s\<lparr>savedLabels := m\<rparr>) = getSavedLabels s"
  by (simp_all add: getSavedLocalNodes_def getSavedLabels_def)

section \<open>Refresh interval\<close>

definition setRefreshTime :: "int \<Rightarrow> storage_service \<Rightarrow> storage_service" where
  "setRefreshTime secs s =
     s\<lparr>hv := setDataForHv KEY_REFRESH_SECONDS (int_to_string secs) (hv s),
       currentRefreshTime := Some secs,
       refreshTimeEvents := refreshTimeEvents s @ [secs]\<rparr>"

definition getRefreshTime :: "storage_service \<Rightarrow> int option" where
  "getRefreshTime s = currentRefreshTime s"

text \<open>\<open>parseInt(text, 10) || 10\<close>\<close>

definition parse_refresh :: "string option \<Rightarrow> int" where
  "parse_refresh t =
     (case t of
        None \<Rightarrow> 10
      | Some s \<Rightarrow> (case parse_int s of None \<Rightarrow> 10 | Some v \<Rightarrow> if v = 0 then 10 else v))"

section \<open>Local visors\<close>

text \<open>The loop state of \<open>changeLocalNodesHiddenProperty\<close> while it runs over the saved list.\<close>

record change_loop =
  newKeysToSave :: "(string, jsstr) jsmap"
  localNodes :: "LocalNodeInfo list"
  modificationsMade :: bool
  svc :: storage_service

definition set_visibility :: "bool \<Rightarrow> string \<Rightarrow> storage_service \<Rightarrow> storage_service" where
  "set_visibility h pk s =
     s\<lparr>savedVisibleLocalNodes :=
         (if h then set_delete pk (savedVisibleLocalNodes s) else set_add pk (savedVisibleLocalNodes s))\<rparr>"

definition cache_node :: "LocalNodeInfo \<Rightarrow> storage_service \<Rightarrow> storage_service" where
  "cache_node n s = s\<lparr>savedLocalNodes := map_set (publicKey n) n (savedLocalNodes s)\<rparr>"

definition change_saved_node ::
  "(string, jsstr) jsmap \<Rightarrow> bool \<Rightarrow> LocalNodeInfo \<Rightarrow> change_loop \<Rightarrow> change_loop" where
  "change_saved_node publicKeysMap h n l =
     (case map_get publicKeysMap (publicKey n) of
        None \<Rightarrow> l\<lparr>localNodes := localNodes l @ [n]\<rparr>
      | Some newIp \<Rightarrow>
          let l1 = l\<lparr>newKeysToSave := map_delete (publicKey n) (newKeysToSave l)\<rparr>;
              n2 = (if ip n \<noteq> newIp then n\<lparr>ip := newIp\<rparr> else n);
              l2 = (if ip n \<noteq> newIp
                    then l1\<lparr>modificationsMade := True, svc := cache_node n2 (svc l1)\<rparr> else l1);
              n3 = (if hidden n2 \<noteq> h then n2\<lparr>hidden := h\<rparr> else n2);
              l3 = (if hidden n2 \<noteq> h
                    then l2\<lparr>modificationsMade := True,
                            svc := set_visibility h (publicKey n3) (cache_node n3 (svc l2))\<rparr> else l2)
          in l3\<lparr>localNodes := localNodes l3 @ [n3]\<rparr>)"

definition add_new_node :: "bool \<Rightarrow> string \<times> jsstr \<Rightarrow> change_loop \<Rightarrow> change_loop" where
  "add_new_node h e l =
     (let n = \<lparr>publicKey = fst e, hidden = h, ip = snd e\<rparr>
      in l\<lparr>modificationsMade := True,
           localNodes := localNodes l @ [n],
           svc := set_visibility h (fst e) (cache_node n (svc l))\<rparr>)"

definition keys_to_ips :: "string list \<Rightarrow> jsstr list \<Rightarrow> (string, jsstr) jsmap" where
  "keys_to_ips pks ips = fold (\<lambda>e. map_set (fst e) (snd e)) (zip pks ips) []"

definition changeLocalNodesHiddenProperty ::
  "string list \<Rightarrow> jsstr list \<Rightarrow> bool \<Rightarrow> storage_service \<Rightarrow> storage_service js_result" where
  "changeLocalNodesHiddenProperty pks ips h s =
     (if length pks \<noteq> length ips then Inl (ThrownError ''Invalid params'')
      else
        let publicKeysMap = keys_to_ips pks ips in
        bindR (getSavedLocalNodes s) (\<lambda>ns.
          let l0 = \<lparr>newKeysToSave = publicKeysMap, localNodes = [], modificationsMade = False, svc = s\<rparr>;
              l1 = fold (change_saved_node publicKeysMap h) ns l0;
              l2 = fold (add_new_node h) (newKeysToSave l1) l1
          in Inr (if modificationsMade l2 then saveLocalNodes (localNodes l2) (svc l2) else svc l2)))"

definition includeVisibleLocalNodes ::
  "string list \<Rightarrow> jsstr list \<Rightarrow> storage_service \<Rightarrow> storage_service js_result" where
  "includeVisibleLocalNodes pks ips s = changeLocalNodesHiddenProperty pks ips False s"

definition setLocalNodesAsHidden ::
  "string list \<Rightarrow> jsstr list \<Rightarrow> storage_service \<Rightarrow> storage_service js_result" where
  "setLocalNodesAsHidden pks ips s = changeLocalNodesHiddenProperty pks ips True s"

section \<open>Labels\<close>

text \<open>What the loop over the saved labels does with the cache, for one of them.\<close>

definition cache_changed_label ::
  "string \<Rightarrow> string \<Rightarrow> LabeledElementTypes \<Rightarrow> LabelInfo \<Rightarrow> storage_service \<Rightarrow> storage_service" where
  "cache_changed_label i txt t l s =
     (if label_id l = i \<and> identifiedElementType l = t
      then s\<lparr>savedLabels := map_set (label_id l) (l\<lparr>label := txt\<rparr>) (savedLabels s)\<rparr> else s)"

definition saveLabel ::
  "string \<Rightarrow> jsstr \<Rightarrow> LabeledElementTypes \<Rightarrow> storage_service \<Rightarrow> storage_service js_result" where
  "saveLabel i lab t s =
     (if \<not> truthy lab then
        let s1 = (if map_has (savedLabels s) i then s\<lparr>savedLabels := map_delete i (savedLabels s)\<rparr> else s) in
        bindR (getSavedLabels s1) (\<lambda>ls.
          let previouslySaved = list_ex (\<lambda>l. label_id l = i) ls;
              labels = filter (\<lambda>l. label_id l \<noteq> i) ls
          in Inr (if previouslySaved then saveLabels labels s1 else s1))
      else
        let txt = (case lab of Str x \<Rightarrow> x | _ \<Rightarrow> []) in
        bindR (getSavedLabels s) (\<lambda>ls.
          let matches = (\<lambda>l. label_id l = i \<and> identifiedElementType l = t);
              previouslySaved = list_ex matches ls;
              labels = map (\<lambda>l. if matches l then l\<lparr>label := txt\<rparr> else l) ls;
              s1 = fold (cache_changed_label i txt t) ls s
          in if \<not> previouslySaved then
               let newPkInfo = \<lparr>label_id = i, label = txt, identifiedElementType = t\<rparr>
               in Inr (saveLabels (labels @ [newPkInfo])
                        (s1\<lparr>savedLabels := map_set i newPkInfo (savedLabels s1)\<rparr>))
             else Inr (saveLabels labels s1)))"

definition getLabelInfo :: "storage_service \<Rightarrow> string \<Rightarrow> LabelInfo option" where
  "getLabelInfo s i = (if map_has (savedLabels s) i then map_get (savedLabels s) i else None)"

text \<open>\<open>getDefaultLabel\<close>, on the two fields of the visor it reads; \<open>None\<close> is a missing visor.\<close>

definition getDefaultLabel :: "(jsstr \<times> string) option \<Rightarrow> string" where
  "getDefaultLabel node =
     (case node of
        None \<Rightarrow> []
      | Some (node_ip, localPk) \<Rightarrow>
          (case node_ip of
             Str a \<Rightarrow> if a \<noteq> [] then a else substr0 localPk 8
           | _ \<Rightarrow> substr0 localPk 8))"

section \<open>Start-up\<close>

definition migrate_refresh :: "storage_service \<Rightarrow> storage_service" where
  "migrate_refresh s =
     (case getItem (hv s) KEY_REFRESH_SECONDS of
        Some t \<Rightarrow>
          if t \<noteq> [] then
            let s1 = setRefreshTime (parse_refresh (Some t)) s
            in s1\<lparr>hv := removeItem KEY_REFRESH_SECONDS (hv s1)\<rparr>
          else s
      | None \<Rightarrow> s)"

definition migrate_json :: "string \<Rightarrow> storage_service \<Rightarrow> storage_service js_result" where
  "migrate_json key s =
     (case getItem (hv s) key of
        Some t \<Rightarrow>
          if t \<noteq> [] then
            bindR (parse_or_empty (Some t)) (\<lambda>v.
              Inr (s\<lparr>hv := removeItem key (setDataForHv key (stringify v) (hv s))\<rparr>))
          else Inr s
      | None \<Rightarrow> Inr s)"

definition migrateDataToHvStorage :: "storage_service \<Rightarrow> storage_service js_result" where
  "migrateDataToHvStorage s =
     bindR (migrate_json KEY_LOCAL_NODES (migrate_refresh s)) (migrate_json KEY_SAVED_LABELS)"

definition legacy_to_node :: "LegacyNodeInfo \<Rightarrow> LocalNodeInfo" where
  "legacy_to_node o1 = \<lparr>publicKey = legacy_publicKey o1, hidden = legacy_deleted o1, ip = Null\<rparr>"

definition legacy_to_label :: "LegacyNodeInfo \<Rightarrow> LabelInfo" where
  "legacy_to_label o1 =
     \<lparr>label_id = legacy_publicKey o1, label = legacy_label o1, identifiedElementType = NodeType\<rparr>"

definition load_legacy_node :: "LegacyNodeInfo \<Rightarrow> storage_service \<Rightarrow> storage_service" where
  "load_legacy_node o1 s =
     (let s1 = cache_node (legacy_to_node o1) s;
          s2 = (if \<not> legacy_deleted o1 then set_visibility False (legacy_publicKey o1) s1 else s1)
      in s2\<lparr>savedLabels := map_set (legacy_publicKey o1) (legacy_to_label o1) (savedLabels s2)\<rparr>)"

definition loadLegacyNodeData :: "storage_service \<Rightarrow> storage_service js_result" where
  "loadLegacyNodeData s =
     bindR (bindR (parse_or_empty (getItem (hv s) LEGACY_KEY_NODES)) (dec_list dec_legacy)) (\<lambda>old.
       if old \<noteq> [] then
         bindR (getSavedLocalNodes s) (\<lambda>ns.
         bindR (getSavedLabels s) (\<lambda>ls.
           let s1 = fold load_legacy_node old s;
               s2 = saveLabels (ls @ map legacy_to_label old)
                      (saveLocalNodes (ns @ map legacy_to_node old) s1)
           in Inr (s2\<lparr>hv := removeItem LEGACY_KEY_NODES (hv s2)\<rparr>)))
       else Inr s)"

definition load_node :: "LocalNodeInfo \<Rightarrow> storage_service \<Rightarrow> storage_service" where
  "load_node n s =
     (let s1 = cache_node n s
      in if \<not> hidden n then set_visibility False (publicKey n) s1 else s1)"

definition load_label :: "LabelInfo \<Rightarrow> storage_service \<Rightarrow> storage_service" where
  "load_label l s = s\<lparr>savedLabels := map_set (label_id l) l (savedLabels s)\<rparr>"

definition initialize :: "string \<Rightarrow> storage_service \<Rightarrow> storage_service js_result" where
  "initialize hypervisor s =
     bindR (migrateDataToHvStorage (s\<lparr>hv := (hv s)\<lparr>hypervisorPk := hypervisor\<rparr>\<rparr>)) (\<lambda>s1.
       let secs = parse_refresh (getDataForHv (hv s1) KEY_REFRESH_SECONDS);
           s2 = s1\<lparr>currentRefreshTime := Some secs, refreshTimeEvents := refreshTimeEvents s1 @ [secs]\<rparr>
       in bindR (getSavedLocalNodes s2) (\<lambda>ns.
            let s3 = fold load_node ns s2 in
            bindR (getSavedLabels s3) (\<lambda>ls.
              let s4 = fold load_label ls s3 in
              bindR (loadLegacyNodeData s4) (\<lambda>s5.
                Inr (saveLabels (map_values (savedLabels s5))
                       (saveLocalNodes (map_values (savedLocalNodes s5)) s5))))))"


section \<open>The caches agree with the storage\<close>

text \<open>Of two saved entries with the same key the last one counts, as in the loading loop.\<close>

definition lookup_node :: "LocalNodeInfo list \<Rightarrow> string \<Rightarrow> LocalNodeInfo option" where
  "lookup_node ns k = find (\<lambda>n. publicKey n = k) (rev ns)"

definition lookup_label :: "LabelInfo list \<Rightarrow> string \<Rightarrow> LabelInfo option" where
  "lookup_label ls k = find (\<lambda>l. label_id l = k) (rev ls)"

definition visible_ok :: "storage_service \<Rightarrow> bool" where
  "visible_ok s \<longleftrightarrow> distinct (savedVisibleLocalNodes s) \<and>
     (\<forall>k. k \<in> set (savedVisibleLocalNodes s) \<longleftrightarrow>
        (case map_get (savedLocalNodes s) k of Some n \<Rightarrow> \<not> hidden n | None \<Rightarrow> False))"

definition nodes_agree :: "LocalNodeInfo list \<Rightarrow> storage_service \<Rightarrow> bool" where
  "nodes_agree ns s \<longleftrightarrow>
     distinct (map publicKey ns) \<and> (\<forall>k. map_get (savedLocalNodes s) k = lookup_node ns k)"

definition labels_agree :: "LabelInfo list \<Rightarrow> storage_service \<Rightarrow> bool" where
  "labels_agree ls s \<longleftrightarrow>
     distinct (map label_id ls) \<and> (\<forall>k. map_get (savedLabels s) k = lookup_label ls k)"

definition nodes_coherent :: "storage_service \<Rightarrow> bool" where
  "nodes_coherent s \<longleftrightarrow> visible_ok s \<and>
     (case getSavedLocalNodes s of Inr ns \<Rightarrow> nodes_agree ns s | Inl e \<Rightarrow> False)"

definition labels_coherent :: "storage_service \<Rightarrow> bool" where
  "labels_coherent s \<longleftrightarrow>
     (case getSavedLabels s of Inr ls \<Rightarrow> labels_agree ls s | Inl e \<Rightarrow> False)"

lemma lookup_node_snoc:
  "lookup_node (ns @ [n]) k = (if publicKey n = k then Some n else lookup_node ns k)"
  by (simp add: lookup_node_def)

lemma lookup_node_Some: "lookup_node ns k = Some n \<Longrightarrow> publicKey n = k \<and> n \<in> set ns"
  by (auto simp: lookup_node_def dest: find_SomeD)

lemma lookup_node_None: "lookup_node ns k = None \<longleftrightarrow> k \<notin> publicKey ` set ns"
  by (auto simp: lookup_node_def find_None_iff)

lemma lookup_node_iff:
  "distinct (map publicKey ns) \<Longrightarrow> lookup_node ns k = Some n \<longleftrightarrow> n \<in> set ns \<and> publicKey n = k"
  by (simp add: lookup_node_def find_rev_distinct find_key_distinct)

lemma lookup_label_Some: "lookup_label ls k = Some l \<Longrightarrow> label_id l = k \<and> l \<in> set ls"
  by (auto simp: lookup_label_def dest: find_SomeD)

lemma lookup_label_iff:
  "distinct (map label_id ls) \<Longrightarrow> lookup_label ls k = Some l \<longleftrightarrow> l \<in> set ls \<and> label_id l = k"
  by (simp add: lookup_label_def find_rev_distinct find_key_distinct)


section \<open>Changing the hidden status of local visors\<close>

text \<open>What the request asks of a visor: the last address given for its key and the new status.\<close>

definition requested_node ::
  "string list \<Rightarrow> jsstr list \<Rightarrow> bool \<Rightarrow> string \<Rightarrow> LocalNodeInfo option" where
  "requested_node pks ips h k =
     (case find (\<lambda>e. fst e = k) (rev (zip pks ips)) of
        Some e \<Rightarrow> Some \<lparr>publicKey = k, hidden = h, ip = snd e\<rparr>
      | None \<Rightarrow> None)"

definition update_node :: "(string, jsstr) jsmap \<Rightarrow> bool \<Rightarrow> LocalNodeInfo \<Rightarrow> LocalNodeInfo" where
  "update_node m h n =
     (case map_get m (publicKey n) of None \<Rightarrow> n | Some i \<Rightarrow> n\<lparr>hidden := h, ip := i\<rparr>)"

lemma publicKey_update_node [simp]: "publicKey (update_node m h n) = publicKey n"
  by (simp add: update_node_def split: option.split)

lemma map_get_keys_to_ips:
  "map_get (keys_to_ips pks ips) k = map_option snd (find (\<lambda>e. fst e = k) (rev (zip pks ips)))"
  unfolding keys_to_ips_def jm.get_puts
  by (simp add: map_get_def split: option.split)

lemma map_wf_keys_to_ips: "map_wf (keys_to_ips pks ips)"
  by (simp add: keys_to_ips_def map_wf_sets)

text \<open>The caches after one node was stored with both of them brought up to date.\<close>

lemma cache_simps [simp]:
  "savedLocalNodes (set_visibility h pk s) = savedLocalNodes s"
  "savedLocalNodes (cache_node n s) = map_set (publicKey n) n (savedLocalNodes s)"
  "savedVisibleLocalNodes (cache_node n s) = savedVisibleLocalNodes s"
  "savedLabels (cache_node n s) = savedLabels s" "savedLabels (set_visibility h pk s) = savedLabels s"
  "hv (cache_node n s) = hv s" "hv (set_visibility h pk s) = hv s"
  "currentRefreshTime (cache_node n s) = currentRefreshTime s"
  "currentRefreshTime (set_visibility h pk s) = currentRefreshTime s"
  by (simp_all add: cache_node_def set_visibility_def)

lemma visible_ok_cache:
  assumes "visible_ok s" and "hidden n = h" and "publicKey n = pk"
  shows "visible_ok (set_visibility h pk (cache_node n s))"
  using assms by (auto simp: visible_ok_def set_visibility_def js_map_simps)

lemma visible_ok_cache_same:
  assumes "visible_ok s" and "map_get (savedLocalNodes s) (publicKey n) = Some m"
    and "hidden n = hidden m"
  shows "visible_ok (cache_node n s)"
  using assms by (auto simp: visible_ok_def js_map_simps)

lemma nodes_agree_replace:
  assumes "nodes_agree (xs @ n # ys) s" and "publicKey n' = publicKey n"
    and "savedLocalNodes s' = map_set (publicKey n) n' (savedLocalNodes s)"
  shows "nodes_agree (xs @ n' # ys) s'"
  using assms
  by (auto simp: nodes_agree_def js_map_simps lookup_node_def find_append_option split: option.split
      dest!: find_SomeD) (metis imageI)+

lemma nodes_agree_get:
  "nodes_agree (xs @ n # ys) s \<Longrightarrow> map_get (savedLocalNodes s) (publicKey n) = Some n"
  by (auto simp: nodes_agree_def lookup_node_iff)

definition loop_ok :: "LocalNodeInfo list \<Rightarrow> change_loop \<Rightarrow> bool" where
  "loop_ok rest l \<longleftrightarrow> nodes_agree (localNodes l @ rest) (svc l) \<and> visible_ok (svc l)"

lemma change_saved_node_simps [simp]:
  "hv (svc (change_saved_node m h n l)) = hv (svc l)"
  "savedLabels (svc (change_saved_node m h n l)) = savedLabels (svc l)"
  "currentRefreshTime (svc (change_saved_node m h n l)) = currentRefreshTime (svc l)"
  "localNodes (change_saved_node m h n l) = localNodes l @ [update_node m h n]"
  "modificationsMade (change_saved_node m h n l) \<longleftrightarrow>
     modificationsMade l \<or> update_node m h n \<noteq> n"
  "newKeysToSave (change_saved_node m h n l) =
     (if map_has m (publicKey n) then map_delete (publicKey n) (newKeysToSave l) else newKeysToSave l)"
  by (cases n; auto simp: change_saved_node_def update_node_def Let_def map_has_get split: option.split)+

lemma change_saved_node_ok:
  assumes "loop_ok (n # rest) l"
  shows "loop_ok rest (change_saved_node m h n l)"
proof (cases "map_get m (publicKey n)")
  case None
  then show ?thesis
    using assms by (simp add: loop_ok_def change_saved_node_def)
next
  case (Some i)
  let ?s = "svc (change_saved_node m h n l)"
  have agree: "nodes_agree (localNodes l @ n # rest) (svc l)" and vis: "visible_ok (svc l)"
    using assms by (auto simp: loop_ok_def)
  note get = nodes_agree_get [OF agree]
  have same: "update_node m h n = n \<longleftrightarrow> ip n = i \<and> hidden n = h"
    using Some by (cases n) (auto simp: update_node_def)
  consider "update_node m h n = n" | "hidden n = h" "ip n \<noteq> i" | "hidden n \<noteq> h"
    using same by blast
  then show ?thesis
  proof cases
    case 1
    then have "?s = svc l"
      using same by (simp add: change_saved_node_def Some)
    then show ?thesis using agree vis 1 by (simp add: loop_ok_def)
  next
    case 2
    then have s: "?s = cache_node (update_node m h n) (svc l)"
      using Some by (cases n) (simp add: change_saved_node_def update_node_def Let_def)
    moreover have "visible_ok ?s"
      unfolding s using 2 by (intro visible_ok_cache_same [OF vis]) (auto simp: get update_node_def Some)
    moreover have "nodes_agree (localNodes l @ update_node m h n # rest) ?s"
      by (rule nodes_agree_replace [OF agree]) (simp_all add: s)
    ultimately show ?thesis by (simp add: loop_ok_def)
  next
    case 3
    let ?n1 = "n\<lparr>ip := i\<rparr>"
    let ?s1 = "if ip n \<noteq> i then cache_node ?n1 (svc l) else svc l"
    have s: "?s = set_visibility h (publicKey n) (cache_node (update_node m h n) ?s1)"
      using 3 Some by (cases n) (auto simp: change_saved_node_def update_node_def Let_def)
    have vis1: "visible_ok ?s1"
      using vis by (auto intro!: visible_ok_cache_same simp: get)
    have "nodes_agree (localNodes l @ update_node m h n # rest) ?s"
    proof (cases "ip n = i")
      case True
      then show ?thesis by (intro nodes_agree_replace [OF agree]) (simp_all add: s)
    next
      case False
      have "nodes_agree (localNodes l @ ?n1 # rest) ?s1"
        using False by (intro nodes_agree_replace [OF agree]) auto
      then show ?thesis
        by (rule nodes_agree_replace) (use False in \<open>simp_all add: s cache_node_def map_set_twice\<close>)
    qed
    moreover have "visible_ok ?s"
      unfolding s by (intro visible_ok_cache vis1) (auto simp: update_node_def Some)
    ultimately show ?thesis by (simp add: loop_ok_def)
  qed
qed


lemma change_saved_nodes:
  fixes l :: change_loop and m :: "(string, jsstr) jsmap" and h :: bool
  assumes "loop_ok ns l"
  defines "l' \<equiv> fold (change_saved_node m h) ns l"
  shows "loop_ok [] l'"
    and "localNodes l' = localNodes l @ map (update_node m h) ns"
    and "hv (svc l') = hv (svc l)" and "savedLabels (svc l') = savedLabels (svc l)"
    and "currentRefreshTime (svc l') = currentRefreshTime (svc l)"
    and "modificationsMade l' \<longleftrightarrow> modificationsMade l \<or> map (update_node m h) ns \<noteq> ns"
    and "newKeysToSave l' =
      fold map_delete (filter (map_has m) (map publicKey ns)) (newKeysToSave l)"
  using assms(1) unfolding l'_def
  by (induction ns arbitrary: l) (simp_all add: change_saved_node_ok disj_ac)

lemma add_new_node_simps [simp]:
  "hv (svc (add_new_node h e l)) = hv (svc l)"
  "savedLabels (svc (add_new_node h e l)) = savedLabels (svc l)"
  "currentRefreshTime (svc (add_new_node h e l)) = currentRefreshTime (svc l)"
  "localNodes (add_new_node h e l) = localNodes l @ [\<lparr>publicKey = fst e, hidden = h, ip = snd e\<rparr>]"
  "modificationsMade (add_new_node h e l)"
  by (simp_all add: add_new_node_def)

lemma add_new_node_ok:
  assumes "loop_ok [] l" and "fst e \<notin> publicKey ` set (localNodes l)"
  shows "loop_ok [] (add_new_node h e l)"
  using assms
  by (auto simp: loop_ok_def add_new_node_def nodes_agree_def js_map_simps lookup_node_snoc
      intro!: visible_ok_cache)

lemma add_new_nodes:
  fixes l :: change_loop and h :: bool
  assumes "loop_ok [] l" and "distinct (map fst es)"
    and "fst ` set es \<inter> publicKey ` set (localNodes l) = {}"
  defines "l' \<equiv> fold (add_new_node h) es l"
  shows "loop_ok [] l'"
    and "localNodes l' =
      localNodes l @ map (\<lambda>e. \<lparr>publicKey = fst e, hidden = h, ip = snd e\<rparr>) es"
    and "hv (svc l') = hv (svc l)" and "savedLabels (svc l') = savedLabels (svc l)"
    and "currentRefreshTime (svc l') = currentRefreshTime (svc l)"
    and "modificationsMade l' \<longleftrightarrow> modificationsMade l \<or> es \<noteq> []"
  using assms(1-3) unfolding l'_def
  by (induction es arbitrary: l) (auto simp: add_new_node_ok)

text \<open>The list that is stored after the two loops, and what a lookup in it finds.\<close>

definition changed_nodes ::
  "(string, jsstr) jsmap \<Rightarrow> bool \<Rightarrow> LocalNodeInfo list \<Rightarrow> LocalNodeInfo list" where
  "changed_nodes m h ns = map (update_node m h) ns @
     map (\<lambda>e. \<lparr>publicKey = fst e, hidden = h, ip = snd e\<rparr>)
       (fold map_delete (filter (map_has m) (map publicKey ns)) m)"

lemma remaining_keys:
  assumes "map_wf m"
  shows "map_wf (fold map_delete ks m)"
    and "map_get (fold map_delete ks m) k = (if k \<in> set ks then None else map_get m k)"
  using assms by (auto simp: map_wf_keys jm.keys_dels jm.get_dels)

lemma remaining_entry:
  assumes "map_wf m"
  shows "e \<in> set (fold map_delete (filter (map_has m) (map publicKey ns)) m) \<longleftrightarrow>
    fst e \<notin> publicKey ` set ns \<and> map_get m (fst e) = Some (snd e)"
  using map_get_entry [OF remaining_keys(1) [OF assms], of "fst e" "snd e"] assms
  by (auto simp: remaining_keys map_has_get split: if_splits)

lemma distinct_changed_nodes:
  assumes "map_wf m" and "distinct (map publicKey ns)"
  shows "distinct (map publicKey (changed_nodes m h ns))"
  using assms remaining_keys(1) [OF assms(1)]
  by (auto simp: changed_nodes_def comp_def map_wf_def remaining_entry)

lemma lookup_changed_nodes:
  assumes "map_wf m" and "distinct (map publicKey ns)"
  shows "lookup_node (changed_nodes m h ns) k =
    (case map_get m k of
       Some i \<Rightarrow> Some \<lparr>publicKey = k, hidden = h, ip = i\<rparr>
     | None \<Rightarrow> lookup_node ns k)"
proof (cases "map_get m k")
  case None
  have "n \<in> set (changed_nodes m h ns) \<and> publicKey n = k \<longleftrightarrow> n \<in> set ns \<and> publicKey n = k" for n
    using None assms(1)
    by (auto simp: changed_nodes_def remaining_entry update_node_def image_iff split: option.splits)
  then have "lookup_node (changed_nodes m h ns) k = Some n \<longleftrightarrow> lookup_node ns k = Some n" for n
    using assms by (simp add: lookup_node_iff distinct_changed_nodes)
  then show ?thesis using None by (metis not_Some_eq option.simps(4))
next
  case (Some i)
  have "\<lparr>publicKey = k, hidden = h, ip = i\<rparr> \<in> set (changed_nodes m h ns)"
  proof (cases "k \<in> publicKey ` set ns")
    case True
    then obtain n where "n \<in> set ns" "publicKey n = k" by auto
    moreover from this have "update_node m h n = \<lparr>publicKey = k, hidden = h, ip = i\<rparr>"
      using Some by (simp add: update_node_def)
    ultimately show ?thesis by (force simp: changed_nodes_def)
  next
    case False
    then have "(k, i) \<in> set (fold map_delete (filter (map_has m) (map publicKey ns)) m)"
      using Some by (simp add: remaining_entry [OF assms(1)])
    then show ?thesis by (force simp: changed_nodes_def)
  qed
  then show ?thesis
    using Some assms by (simp add: lookup_node_iff distinct_changed_nodes)
qed


lemma coherentD:
  assumes "nodes_coherent s"
  obtains ns where "getSavedLocalNodes s = Inr ns" and "nodes_agree ns s" and "visible_ok s"
  using assms by (auto simp: nodes_coherent_def split: sum.splits)

lemma changeLocalNodes_result:
  assumes "length pks = length ips" and "getSavedLocalNodes s = Inr ns"
    and "nodes_agree ns s" and "visible_ok s"
  obtains s' where "changeLocalNodesHiddenProperty pks ips h s = Inr s'"
    and "getSavedLocalNodes s' = Inr (changed_nodes (keys_to_ips pks ips) h ns)"
    and "nodes_agree (changed_nodes (keys_to_ips pks ips) h ns) s'" and "visible_ok s'"
    and "savedLabels s' = savedLabels s" and "getSavedLabels s' = getSavedLabels s"
proof -
  let ?m = "keys_to_ips pks ips"
  define l0 where "l0 = \<lparr>newKeysToSave = ?m, localNodes = [], modificationsMade = False, svc = s\<rparr>"
  define l1 where "l1 = fold (change_saved_node ?m h) ns l0"
  define l2 where "l2 = fold (add_new_node h) (newKeysToSave l1) l1"
  define s' where "s' = (if modificationsMade l2 then saveLocalNodes (localNodes l2) (svc l2) else svc l2)"
  have ok0: "loop_ok ns l0"
    using assms by (simp add: loop_ok_def l0_def)
  note 1 = change_saved_nodes [OF ok0, of ?m h, folded l1_def]
  have keys: "newKeysToSave l1 = fold map_delete (filter (map_has ?m) (map publicKey ns)) ?m"
    using 1(7) by (simp add: l0_def)
  have loc1: "localNodes l1 = map (update_node ?m h) ns"
    using 1(2) by (simp add: l0_def)
  have wf: "map_wf ?m" by (rule map_wf_keys_to_ips)
  have dist: "distinct (map fst (newKeysToSave l1))"
    using remaining_keys(1) [OF wf] by (simp add: keys map_wf_def)
  have disj: "fst ` set (newKeysToSave l1) \<inter> publicKey ` set (localNodes l1) = {}"
    by (auto simp: keys loc1 remaining_entry [OF wf] simp del: fold_simps)
  note 2 = add_new_nodes [OF 1(1) dist disj, of h, folded l2_def]
  have loc2: "localNodes l2 = changed_nodes ?m h ns"
    by (simp add: 2(2) loc1 keys changed_nodes_def)
  have hv: "hv (svc l2) = hv s" and labels: "savedLabels (svc l2) = savedLabels s"
    using 1(3,4) 2(3,4) by (simp_all add: l0_def)
  have unmodified: "changed_nodes ?m h ns = ns" if "\<not> modificationsMade l2"
    using that 1(6) 2(6) keys by (simp add: changed_nodes_def)
  have "getSavedLocalNodes (svc l2) = Inr ns"
    using assms(2) by (simp add: getSavedLocalNodes_def hv)
  then have "getSavedLocalNodes s' = Inr (changed_nodes ?m h ns)"
    using unmodified by (auto simp: s'_def loc2)
  moreover have "changeLocalNodesHiddenProperty pks ips h s = Inr s'"
    using assms(1,2)
    by (simp add: changeLocalNodesHiddenProperty_def s'_def l2_def l1_def l0_def)
  moreover have "nodes_agree (changed_nodes ?m h ns) s'" "visible_ok s'"
    using 2(1) by (auto simp: loop_ok_def s'_def loc2 nodes_agree_def visible_ok_def)
  moreover have "savedLabels s' = savedLabels s" "getSavedLabels s' = getSavedLabels s"
    using hv labels by (auto simp: s'_def) (simp_all add: getSavedLabels_def)
  ultimately show thesis using that by blast
qed

lemma requested_node_keys:
  "requested_node pks ips h k =
     (case map_get (keys_to_ips pks ips) k of
        Some i \<Rightarrow> Some \<lparr>publicKey = k, hidden = h, ip = i\<rparr> | None \<Rightarrow> None)"
  by (simp add: requested_node_def map_get_keys_to_ips split: option.split)


lemma requested_node_None:
  "length pks = length ips \<Longrightarrow> requested_node pks ips h k = None \<longleftrightarrow> k \<notin> set pks"
proof -
  assume "length pks = length ips"
  then have "set pks = fst ` set (rev (zip pks ips))"
    by (metis list.set_map map_fst_zip set_rev)
  then show ?thesis
    by (auto simp: requested_node_def find_None_iff split: option.splits dest!: find_SomeD)
qed

lemma requested_node_hidden: "requested_node pks ips h k = Some n \<Longrightarrow> hidden n = h"
  by (auto simp: requested_node_def split: option.splits)

lemma changeLocalNodes_effect:
  assumes "nodes_coherent s" and "length pks = length ips"
  shows "\<exists>s'. changeLocalNodesHiddenProperty pks ips h s = Inr s' \<and> nodes_coherent s' \<and>
    labels_coherent s' = labels_coherent s \<and> savedLabels s' = savedLabels s \<and>
    (\<forall>k. map_get (savedLocalNodes s') k =
      (case requested_node pks ips h k of
         Some n \<Rightarrow> Some n
       | None \<Rightarrow> map_get (savedLocalNodes s) k))"
proof -
  obtain ns where ns: "getSavedLocalNodes s = Inr ns" "nodes_agree ns s" "visible_ok s"
    using assms(1) by (rule coherentD)
  obtain s' where s': "changeLocalNodesHiddenProperty pks ips h s = Inr s'"
    "getSavedLocalNodes s' = Inr (changed_nodes (keys_to_ips pks ips) h ns)"
    "nodes_agree (changed_nodes (keys_to_ips pks ips) h ns) s'" "visible_ok s'"
    "savedLabels s' = savedLabels s" "getSavedLabels s' = getSavedLabels s"
    by (rule changeLocalNodes_result [OF assms(2) ns])
  have "map_get (savedLocalNodes s') k =
      (case requested_node pks ips h k of Some n \<Rightarrow> Some n | None \<Rightarrow> map_get (savedLocalNodes s) k)" for k
    using s'(3) ns(2)
    by (simp add: nodes_agree_def lookup_changed_nodes [OF map_wf_keys_to_ips] requested_node_keys
        split: option.split)
  then show ?thesis
    using s' by (auto simp: nodes_coherent_def labels_coherent_def labels_agree_def split: sum.split)
qed

text \<open>
  Property C16. Changing the hidden status of a list of local visors does what the request says
  and keeps the caches and the persistent storage in agreement: every requested visor is cached
  and stored with the new status and the last address given for it, every other visor stays as it
  was, the list in the storage has no duplicates, and the set of visible visors is exactly the set
  of the visors that are not hidden.
\<close>

theorem changeLocalNodes_correct:
  assumes "nodes_coherent s" and "length pks = length ips"
  shows "\<exists>s'. changeLocalNodesHiddenProperty pks ips h s = Inr s' \<and> nodes_coherent s' \<and>
    labels_coherent s' = labels_coherent s \<and>
    (\<forall>k. map_get (savedLocalNodes s') k =
      (case requested_node pks ips h k of
         Some n \<Rightarrow> Some n
       | None \<Rightarrow> map_get (savedLocalNodes s) k))"
  using changeLocalNodes_effect [OF assms, of h] by blast

lemma change_visible:
  assumes "nodes_coherent s" and "length pks = length ips"
    and "changeLocalNodesHiddenProperty pks ips h s = Inr s'"
  shows "set (savedVisibleLocalNodes s') =
    (if h then set (savedVisibleLocalNodes s) - set pks else set (savedVisibleLocalNodes s) \<union> set pks)"
proof -
  obtain ns where ns: "getSavedLocalNodes s = Inr ns" "nodes_agree ns s" "visible_ok s"
    using assms(1) by (rule coherentD)
  have ok: "nodes_agree (changed_nodes (keys_to_ips pks ips) h ns) s'" "visible_ok s'"
    using changeLocalNodes_result [OF assms(2) ns] assms(3) by (metis sum.inject(2))+
  have "k \<in> set (savedVisibleLocalNodes s') \<longleftrightarrow>
    (case requested_node pks ips h k of Some n \<Rightarrow> \<not> h | None \<Rightarrow> k \<in> set (savedVisibleLocalNodes s))" for k
    using ok ns
    by (auto simp: visible_ok_def nodes_agree_def lookup_changed_nodes [OF map_wf_keys_to_ips]
        requested_node_keys split: option.split)
  then show ?thesis
    using requested_node_None [OF assms(2)] by (auto split: option.splits) (metis option.discI)+
qed


text \<open>
  Seen visors become visible and deleted visors stop being visible, and nothing else
  changes in the set of the visible visors.
\<close>

theorem visible_nodes_after_change:
  assumes "nodes_coherent s" and "length pks = length ips"
  shows "(\<exists>s'. includeVisibleLocalNodes pks ips s = Inr s' \<and>
      set (getSavedVisibleLocalNodes s') = set (getSavedVisibleLocalNodes s) \<union> set pks) \<and>
    (\<exists>s'. setLocalNodesAsHidden pks ips s = Inr s' \<and>
      set (getSavedVisibleLocalNodes s') = set (getSavedVisibleLocalNodes s) - set pks)"
proof -
  obtain ns where ns: "getSavedLocalNodes s = Inr ns" "nodes_agree ns s" "visible_ok s"
    using assms(1) by (rule coherentD)
  have "\<exists>s'. changeLocalNodesHiddenProperty pks ips h s = Inr s'" for h
    using changeLocalNodes_result [OF assms(2) ns] by metis
  then show ?thesis
    using change_visible [OF assms]
    by (force simp: includeVisibleLocalNodes_def setLocalNodesAsHidden_def getSavedVisibleLocalNodes_def)
qed

section \<open>Changing a label\<close>

definition same_type_label :: "string \<Rightarrow> LabeledElementTypes \<Rightarrow> storage_service \<Rightarrow> bool" where
  "same_type_label i t s \<longleftrightarrow>
     (case getLabelInfo s i of Some l \<Rightarrow> identifiedElementType l = t | None \<Rightarrow> True)"

definition relabel :: "string \<Rightarrow> string \<Rightarrow> LabelInfo \<Rightarrow> LabelInfo" where
  "relabel i txt l = (if label_id l = i then l\<lparr>label := txt\<rparr> else l)"

lemma getLabelInfo_get: "getLabelInfo s i = map_get (savedLabels s) i"
  by (simp add: getLabelInfo_def map_has_get)

lemma label_id_relabel [simp]: "label_id (relabel i txt l) = label_id l"
  by (simp add: relabel_def)

lemma lookup_label_relabel:
  "lookup_label (map (relabel i txt) ls) k = map_option (relabel i txt) (lookup_label ls k)"
  by (simp add: lookup_label_def rev_map find_map_key)

lemma lookup_label_filter:
  "lookup_label (filter (\<lambda>l. label_id l \<noteq> i) ls) k = (if k = i then None else lookup_label ls k)"
  by (induction ls) (auto simp: lookup_label_def find_append_option split: option.splits)

lemma lookup_label_snoc:
  "lookup_label (ls @ [l]) k = (if label_id l = k then Some l else lookup_label ls k)"
  by (simp add: lookup_label_def)

lemma cache_loop_simps [simp]:
  "hv (fold (cache_changed_label i txt t) ls s) = hv s"
  "savedLocalNodes (fold (cache_changed_label i txt t) ls s) = savedLocalNodes s"
  "savedVisibleLocalNodes (fold (cache_changed_label i txt t) ls s) = savedVisibleLocalNodes s"
  by (induction ls arbitrary: s) (auto simp: cache_changed_label_def)

lemma cache_loop_none:
  "(\<And>l. l \<in> set ls \<Longrightarrow> label_id l \<noteq> i \<or> identifiedElementType l \<noteq> t) \<Longrightarrow>
    fold (cache_changed_label i txt t) ls s = s"
proof (induction ls arbitrary: s)
  case (Cons l ls)
  have "cache_changed_label i txt t l s = s"
    using Cons.prems [of l] by (auto simp: cache_changed_label_def)
  then show ?case using Cons by simp
qed simp

lemma cache_loop_one:
  assumes "l \<in> set ls" and "distinct (map label_id ls)" and "label_id l = i"
    and "identifiedElementType l = t"
  shows "savedLabels (fold (cache_changed_label i txt t) ls s) =
    map_set i (l\<lparr>label := txt\<rparr>) (savedLabels s)"
  using assms
proof (induction ls arbitrary: s)
  case (Cons x xs)
  show ?case
  proof (cases "x = l")
    case True
    have "fold (cache_changed_label i txt t) xs s' = s'" for s'
      using Cons.prems True by (intro cache_loop_none) (auto simp: image_iff)
    then show ?thesis using Cons.prems True by (simp add: cache_changed_label_def [where l = l and s = s])
  next
    case False
    then have "label_id x \<noteq> i" "l \<in> set xs" using Cons.prems by auto
    then show ?thesis using Cons by (simp add: cache_changed_label_def [where l = x and s = s])
  qed
qed simp

text \<open>The two branches of \<open>saveLabel\<close>, on a store whose labels can be read.\<close>

lemma saveLabel_empty:
  assumes "\<not> truthy lab" and "getSavedLabels s = Inr ls" and "labels_agree ls s"
  obtains s' where "saveLabel i lab t s = Inr s'"
    and "getSavedLabels s' = Inr (filter (\<lambda>l. label_id l \<noteq> i) ls)"
    and "labels_agree (filter (\<lambda>l. label_id l \<noteq> i) ls) s'"
    and "savedLocalNodes s' = savedLocalNodes s" and "getSavedLocalNodes s' = getSavedLocalNodes s"
    and "savedVisibleLocalNodes s' = savedVisibleLocalNodes s"
proof -
  let ?s1 = "if map_has (savedLabels s) i then s\<lparr>savedLabels := map_delete i (savedLabels s)\<rparr> else s"
  let ?ls = "filter (\<lambda>l. label_id l \<noteq> i) ls"
  let ?s' = "if list_ex (\<lambda>l. label_id l = i) ls then saveLabels ?ls ?s1 else ?s1"
  have get1: "getSavedLabels ?s1 = Inr ls" and nodes1: "getSavedLocalNodes ?s1 = getSavedLocalNodes s"
    using assms(2) by (simp_all add: getSavedLabels_def getSavedLocalNodes_def)
  have cache: "map_get (savedLabels ?s1) k = (if k = i then None else map_get (savedLabels s) k)" for k
    using jm.get_del [of i "savedLabels s" k] by (auto simp: map_has_get)
  have same: "?ls = ls" if "\<not> list_ex (\<lambda>l. label_id l = i) ls"
    using that by (auto simp: list_ex_iff filter_id_conv)
  have "saveLabel i lab t s = Inr ?s'"
    using assms(1) get1 by (simp add: saveLabel_def)
  moreover have "getSavedLabels ?s' = Inr ?ls"
    using get1 same by simp
  moreover have "labels_agree ?ls ?s'"
    using assms(3) cache by (simp add: labels_agree_def lookup_label_filter distinct_map_filter)
  ultimately show thesis
    using nodes1 by (intro that [of ?s']) simp_all
qed


lemma saveLabel_text:
  assumes "getSavedLabels s = Inr ls" and "labels_agree ls s" and "txt \<noteq> []"
    and "same_type_label i t s"
  obtains s' ls' where "saveLabel i (Str txt) t s = Inr s'" and "getSavedLabels s' = Inr ls'"
    and "labels_agree ls' s'"
    and "\<And>k. lookup_label ls' k =
      (if k = i then Some \<lparr>label_id = i, label = txt, identifiedElementType = t\<rparr> else lookup_label ls k)"
    and "savedLocalNodes s' = savedLocalNodes s" and "getSavedLocalNodes s' = getSavedLocalNodes s"
    and "savedVisibleLocalNodes s' = savedVisibleLocalNodes s"
proof -
  let ?new = "\<lparr>label_id = i, label = txt, identifiedElementType = t\<rparr>"
  let ?s1 = "fold (cache_changed_label i txt t) ls s"
  have dist: "distinct (map label_id ls)" and cache: "\<And>k. map_get (savedLabels s) k = lookup_label ls k"
    using assms(2) by (auto simp: labels_agree_def)
  have ty: "identifiedElementType l = t" if "l \<in> set ls" "label_id l = i" for l
    using assms(4) that lookup_label_iff [OF dist, of i l]
    by (auto simp: same_type_label_def getLabelInfo_get cache split: option.splits)
  have labels: "map (\<lambda>l. if label_id l = i \<and> identifiedElementType l = t then l\<lparr>label := txt\<rparr> else l) ls =
      map (relabel i txt) ls"
    using ty by (auto simp: relabel_def)
  show thesis
  proof (cases "i \<in> label_id ` set ls")
    case True
    then obtain l where l: "l \<in> set ls" "label_id l = i" by auto
    let ?s' = "saveLabels (map (relabel i txt) ls) ?s1"
    have new: "l\<lparr>label := txt\<rparr> = ?new" using l ty by simp
    have look: "lookup_label (map (relabel i txt) ls) k = (if k = i then Some ?new else lookup_label ls k)" for k
    proof (cases "k = i")
      case True
      have "lookup_label ls i = Some l" using l by (simp add: lookup_label_iff [OF dist])
      then show ?thesis using True l new by (simp add: lookup_label_relabel relabel_def)
    next
      case False
      then show ?thesis
        by (cases "lookup_label ls k")
          (auto simp: lookup_label_relabel relabel_def dest: lookup_label_Some)
    qed
    show thesis
    proof (rule that [of ?s' "map (relabel i txt) ls"])
      show "saveLabel i (Str txt) t s = Inr ?s'"
        using assms(1,3) l ty by (auto simp: saveLabel_def labels list_ex_iff)
      show "labels_agree (map (relabel i txt) ls) ?s'"
        using look dist cache l new ty
        by (simp add: labels_agree_def cache_loop_one [OF l(1) dist l(2)] comp_def js_map_simps)
    qed (use look in \<open>simp_all add: saved_lists_hv(1) [of ?s1 s]\<close>)
  next
    case False
    have s1: "?s1 = s" using False by (intro cache_loop_none) auto
    have id: "map (relabel i txt) ls = ls" using False by (auto simp: relabel_def intro!: map_idI)
    let ?s' = "saveLabels (ls @ [?new]) (s\<lparr>savedLabels := map_set i ?new (savedLabels s)\<rparr>)"
    show thesis
    proof (rule that [of ?s' "ls @ [?new]"])
      show "saveLabel i (Str txt) t s = Inr ?s'"
        using assms(1,3) False by (auto simp: saveLabel_def labels list_ex_iff s1 id)
      show "labels_agree (ls @ [?new]) ?s'"
        using dist cache False by (auto simp: labels_agree_def lookup_label_snoc js_map_simps)
    qed (auto simp: lookup_label_snoc)
  qed
qed


lemma saveLabel_effect:
  assumes "labels_coherent s" and "same_type_label i t s"
  shows "\<exists>s'. saveLabel i lab t s = Inr s' \<and> labels_coherent s' \<and>
    nodes_coherent s' = nodes_coherent s \<and> savedVisibleLocalNodes s' = savedVisibleLocalNodes s \<and>
    (\<forall>k. getLabelInfo s' k =
      (if k \<noteq> i then getLabelInfo s k
       else if truthy lab then Some \<lparr>label_id = i, label = (case lab of Str x \<Rightarrow> x | _ \<Rightarrow> []), identifiedElementType = t\<rparr>
       else None))"
proof -
  obtain ls where ls: "getSavedLabels s = Inr ls" "labels_agree ls s"
    using assms(1) by (auto simp: labels_coherent_def split: sum.splits)
  have nodes: "nodes_coherent s' = nodes_coherent s"
    if "savedLocalNodes s' = savedLocalNodes s" "getSavedLocalNodes s' = getSavedLocalNodes s"
      "savedVisibleLocalNodes s' = savedVisibleLocalNodes s" for s'
    using that by (auto simp: nodes_coherent_def nodes_agree_def visible_ok_def split: sum.splits)
  show ?thesis
  proof (cases "truthy lab")
    case True
    then obtain txt1 where lab: "lab = Str txt1" "txt1 \<noteq> []" by (auto simp: truthy_iff)
    obtain s' ls' where r: "saveLabel i (Str txt1) t s = Inr s'" "getSavedLabels s' = Inr ls'"
      "labels_agree ls' s'"
      "\<And>k. lookup_label ls' k =
        (if k = i then Some \<lparr>label_id = i, label = txt1, identifiedElementType = t\<rparr> else lookup_label ls k)"
      "savedLocalNodes s' = savedLocalNodes s" "getSavedLocalNodes s' = getSavedLocalNodes s"
      "savedVisibleLocalNodes s' = savedVisibleLocalNodes s"
      by (rule saveLabel_text [OF ls lab(2) assms(2)]) blast
    then show ?thesis
      using ls(2) lab nodes [OF r(5-7)]
      by (auto simp: labels_coherent_def labels_agree_def getLabelInfo_get)
  next
    case False
    obtain s' where r: "saveLabel i lab t s = Inr s'"
      "getSavedLabels s' = Inr (filter (\<lambda>l. label_id l \<noteq> i) ls)"
      "labels_agree (filter (\<lambda>l. label_id l \<noteq> i) ls) s'"
      "savedLocalNodes s' = savedLocalNodes s" "getSavedLocalNodes s' = getSavedLocalNodes s"
      "savedVisibleLocalNodes s' = savedVisibleLocalNodes s"
      by (rule saveLabel_empty [OF False ls]) blast
    then show ?thesis
      using ls(2) False nodes [OF r(4-6)]
      by (auto simp: labels_coherent_def labels_agree_def getLabelInfo_get lookup_label_filter)
  qed
qed

text \<open>
  Saving a label changes the label of that element only, for the cached map and for
  the stored list alike: an empty, \<open>null\<close> or \<open>undefined\<close> text removes it, any other text replaces
  it or creates it. It needs that the element is not saved already as another type of element.
\<close>

theorem saveLabel_correct:
  assumes "labels_coherent s" and "same_type_label i t s"
  shows "\<exists>s'. saveLabel i lab t s = Inr s' \<and> labels_coherent s' \<and>
    nodes_coherent s' = nodes_coherent s \<and>
    (\<forall>k. getLabelInfo s' k =
      (if k \<noteq> i then getLabelInfo s k
       else if truthy lab then Some \<lparr>label_id = i, label = (case lab of Str x \<Rightarrow> x | _ \<Rightarrow> []), identifiedElementType = t\<rparr>
       else None))"
  using saveLabel_effect [OF assms, of lab] by blast

section \<open>Start-up and restart\<close>

text \<open>The service as it is created, before \<open>initialize\<close>, over an existing storage.\<close>

definition fresh_service :: "hv_store \<Rightarrow> storage_service" where
  "fresh_service st =
     \<lparr>hv = st, currentRefreshTime = None, refreshTimeEvents = [], savedLocalNodes = [],
      savedLabels = [], savedVisibleLocalNodes = []\<rparr>"

text \<open>No data of a previous version of the application: nothing to migrate.\<close>

definition no_old_data :: "hv_store \<Rightarrow> bool" where
  "no_old_data st \<longleftrightarrow>
     getItem st KEY_REFRESH_SECONDS = None \<and> getItem st KEY_LOCAL_NODES = None \<and>
     getItem st KEY_SAVED_LABELS = None \<and> getItem st LEGACY_KEY_NODES = None"

lemma load_nodes:
  "savedLocalNodes (fold load_node ns s) = fold (\<lambda>n. map_set (publicKey n) n) ns (savedLocalNodes s)"
  "set (savedVisibleLocalNodes (fold load_node ns s)) =
     set (savedVisibleLocalNodes s) \<union> publicKey ` set (filter (\<lambda>n. \<not> hidden n) ns)"
  "distinct (savedVisibleLocalNodes s) \<Longrightarrow> distinct (savedVisibleLocalNodes (fold load_node ns s))"
  "hv (fold load_node ns s) = hv s" "savedLabels (fold load_node ns s) = savedLabels s"
  "currentRefreshTime (fold load_node ns s) = currentRefreshTime s"
  "refreshTimeEvents (fold load_node ns s) = refreshTimeEvents s"
  by (induction ns arbitrary: s) (auto simp: load_node_def cache_node_def set_visibility_def)

lemma load_labels:
  "savedLabels (fold load_label ls s) = fold (\<lambda>l. map_set (label_id l) l) ls (savedLabels s)"
  "hv (fold load_label ls s) = hv s" "savedLocalNodes (fold load_label ls s) = savedLocalNodes s"
  "savedVisibleLocalNodes (fold load_label ls s) = savedVisibleLocalNodes s"
  "currentRefreshTime (fold load_label ls s) = currentRefreshTime s"
  "refreshTimeEvents (fold load_label ls s) = refreshTimeEvents s"
  by (induction ls arbitrary: s) (auto simp: load_label_def)

lemma loaded_nodes_get:
  "map_get (fold (\<lambda>n. map_set (publicKey n) n) ns []) k = lookup_node ns k"
  unfolding jm.get_puts by (simp add: lookup_node_def map_get_def split: option.split)

lemma loaded_labels_get:
  "map_get (fold (\<lambda>l. map_set (label_id l) l) ls []) k = lookup_label ls k"
  unfolding jm.get_puts by (simp add: lookup_label_def map_get_def split: option.split)


text \<open>The two maps that the start-up builds from the stored and the legacy lists.\<close>

definition node_map :: "LocalNodeInfo list \<Rightarrow> (string, LocalNodeInfo) jsmap" where
  "node_map ns = fold (\<lambda>n. map_set (publicKey n) n) ns []"

definition label_map :: "LabelInfo list \<Rightarrow> (string, LabelInfo) jsmap" where
  "label_map ls = fold (\<lambda>l. map_set (label_id l) l) ls []"

lemma node_map_values:
  "distinct (map publicKey (map_values (node_map ns)))"
  "lookup_node (map_values (node_map ns)) k = lookup_node ns k"
  "map_get (node_map ns) k = lookup_node ns k"
proof -
  have wf: "map_wf (node_map ns)" and keyed: "keyed publicKey (node_map ns)"
    by (simp_all add: node_map_def map_wf_sets keyed_sets)
  show dist: "distinct (map publicKey (map_values (node_map ns)))"
    by (rule keyed_values_distinct [OF wf keyed])
  show get: "map_get (node_map ns) k = lookup_node ns k"
    by (simp add: node_map_def loaded_nodes_get)
  show "lookup_node (map_values (node_map ns)) k = lookup_node ns k"
    unfolding lookup_node_def [of "map_values (node_map ns)"] find_rev_distinct [OF dist]
    by (simp add: keyed_values_find [OF keyed] get)
qed

lemma label_map_values:
  "distinct (map label_id (map_values (label_map ls)))"
  "lookup_label (map_values (label_map ls)) k = lookup_label ls k"
  "map_get (label_map ls) k = lookup_label ls k"
proof -
  have wf: "map_wf (label_map ls)" and keyed: "keyed label_id (label_map ls)"
    by (simp_all add: label_map_def map_wf_sets keyed_sets)
  show dist: "distinct (map label_id (map_values (label_map ls)))"
    by (rule keyed_values_distinct [OF wf keyed])
  show get: "map_get (label_map ls) k = lookup_label ls k"
    by (simp add: label_map_def loaded_labels_get)
  show "lookup_label (map_values (label_map ls)) k = lookup_label ls k"
    unfolding lookup_label_def [of "map_values (label_map ls)"] find_rev_distinct [OF dist]
    by (simp add: keyed_values_find [OF keyed] get)
qed

lemma load_legacy_nodes:
  "savedLocalNodes (fold load_legacy_node old s) =
     fold (\<lambda>n. map_set (publicKey n) n) (map legacy_to_node old) (savedLocalNodes s)"
  "savedLabels (fold load_legacy_node old s) =
     fold (\<lambda>l. map_set (label_id l) l) (map legacy_to_label old) (savedLabels s)"
  "set (savedVisibleLocalNodes (fold load_legacy_node old s)) = set (savedVisibleLocalNodes s) \<union>
     publicKey ` set (filter (\<lambda>n. \<not> hidden n) (map legacy_to_node old))"
  "distinct (savedVisibleLocalNodes s) \<Longrightarrow>
     distinct (savedVisibleLocalNodes (fold load_legacy_node old s))"
  "hv (fold load_legacy_node old s) = hv s"
  "currentRefreshTime (fold load_legacy_node old s) = currentRefreshTime s"
  by (induction old arbitrary: s)
    (auto simp: load_legacy_node_def cache_node_def set_visibility_def legacy_to_node_def legacy_to_label_def)

lemma migrate_refresh_caches [simp]:
  "savedLocalNodes (migrate_refresh s) = savedLocalNodes s"
  "savedLabels (migrate_refresh s) = savedLabels s"
  "savedVisibleLocalNodes (migrate_refresh s) = savedVisibleLocalNodes s"
  by (auto simp: migrate_refresh_def setRefreshTime_def split: option.split)

lemma migrate_json_caches:
  "migrate_json k s = Inr s' \<Longrightarrow> savedLocalNodes s' = savedLocalNodes s \<and>
     savedLabels s' = savedLabels s \<and> savedVisibleLocalNodes s' = savedVisibleLocalNodes s"
  by (auto simp: migrate_json_def bindR_Inr_iff split: option.splits if_splits)

lemma migrate_caches:
  "migrateDataToHvStorage s = Inr s' \<Longrightarrow> savedLocalNodes s' = savedLocalNodes s \<and>
     savedLabels s' = savedLabels s \<and> savedVisibleLocalNodes s' = savedVisibleLocalNodes s"
  by (auto simp: migrateDataToHvStorage_def bindR_Inr_iff dest!: migrate_json_caches)

definition legacy_nodes :: "hv_store \<Rightarrow> LegacyNodeInfo list js_result" where
  "legacy_nodes st = bindR (parse_or_empty (getItem st LEGACY_KEY_NODES)) (dec_list dec_legacy)"

lemma loadLegacy_result:
  assumes "legacy_nodes (hv s) = Inr old" and "getSavedLocalNodes s = Inr ns" and "getSavedLabels s = Inr ls"
  obtains s' where "loadLegacyNodeData s = Inr s'"
    and "savedLocalNodes s' = savedLocalNodes (fold load_legacy_node old s)"
    and "savedLabels s' = savedLabels (fold load_legacy_node old s)"
    and "savedVisibleLocalNodes s' = savedVisibleLocalNodes (fold load_legacy_node old s)"
    and "currentRefreshTime s' = currentRefreshTime s"
proof (cases "old = []")
  case True
  then show ?thesis using that [of s] assms by (simp add: loadLegacyNodeData_def legacy_nodes_def)
next
  case False
  then show ?thesis
    using that assms by (simp add: loadLegacyNodeData_def legacy_nodes_def load_legacy_nodes)
qed


lemma initialize_result:
  assumes "migrateDataToHvStorage (fresh_service (st\<lparr>hypervisorPk := pk\<rparr>)) = Inr s1"
    and "getSavedLocalNodes s1 = Inr ns" and "getSavedLabels s1 = Inr ls"
    and "legacy_nodes (hv s1) = Inr old"
  obtains s' where "initialize pk (fresh_service st) = Inr s'"
    and "savedLocalNodes s' = node_map (ns @ map legacy_to_node old)"
    and "savedLabels s' = label_map (ls @ map legacy_to_label old)"
    and "getSavedLocalNodes s' = Inr (map_values (node_map (ns @ map legacy_to_node old)))"
    and "getSavedLabels s' = Inr (map_values (label_map (ls @ map legacy_to_label old)))"
    and "set (savedVisibleLocalNodes s') =
      publicKey ` set (filter (\<lambda>n. \<not> hidden n) (ns @ map legacy_to_node old))"
    and "distinct (savedVisibleLocalNodes s')"
    and "getRefreshTime s' = Some (parse_refresh (getDataForHv (hv s1) KEY_REFRESH_SECONDS))"
proof -
  define secs where "secs = parse_refresh (getDataForHv (hv s1) KEY_REFRESH_SECONDS)"
  define s2 where "s2 = s1\<lparr>currentRefreshTime := Some secs, refreshTimeEvents := refreshTimeEvents s1 @ [secs]\<rparr>"
  define s3 where "s3 = fold load_node ns s2"
  define s4 where "s4 = fold load_label ls s3"
  have hv4: "hv s2 = hv s1" "hv s3 = hv s1" "hv s4 = hv s1"
    by (simp_all add: s2_def s3_def s4_def load_nodes load_labels)
  have c2: "savedLocalNodes s2 = []" "savedLabels s2 = []" "savedVisibleLocalNodes s2 = []"
    using migrate_caches [OF assms(1)] by (simp_all add: s2_def fresh_service_def)
  have c4: "savedLocalNodes s4 = node_map ns" "savedLabels s4 = label_map ls"
    "set (savedVisibleLocalNodes s4) = publicKey ` set (filter (\<lambda>n. \<not> hidden n) ns)"
    "distinct (savedVisibleLocalNodes s4)" "currentRefreshTime s4 = Some secs"
    by (simp_all add: s4_def s3_def load_nodes load_labels c2 node_map_def label_map_def)
      (simp add: s2_def)
  obtain s5 where s5: "loadLegacyNodeData s4 = Inr s5"
    "savedLocalNodes s5 = savedLocalNodes (fold load_legacy_node old s4)"
    "savedLabels s5 = savedLabels (fold load_legacy_node old s4)"
    "savedVisibleLocalNodes s5 = savedVisibleLocalNodes (fold load_legacy_node old s4)"
    "currentRefreshTime s5 = currentRefreshTime s4"
    by (rule loadLegacy_result [of s4 old ns ls])
      (use assms saved_lists_hv [OF hv4(3)] in \<open>auto simp: hv4\<close>)
  have c5: "savedLocalNodes s5 = node_map (ns @ map legacy_to_node old)"
    "savedLabels s5 = label_map (ls @ map legacy_to_label old)"
    "set (savedVisibleLocalNodes s5) =
      publicKey ` set (filter (\<lambda>n. \<not> hidden n) (ns @ map legacy_to_node old))"
    "distinct (savedVisibleLocalNodes s5)"
    by (simp_all add: s5 load_legacy_nodes c4 node_map_def label_map_def image_Un)
  show thesis
  proof (rule that)
    show "initialize pk (fresh_service st) = Inr (saveLabels (map_values (savedLabels s5))
        (saveLocalNodes (map_values (savedLocalNodes s5)) s5))"
      using assms saved_lists_hv [OF hv4(1)] saved_lists_hv [OF hv4(2)] s5(1)
      by (simp add: initialize_def fresh_service_def s2_def secs_def s3_def s4_def)
  qed (use c5 c4 s5(5) in \<open>simp_all add: getRefreshTime_def secs_def\<close>)
qed

text \<open>
  Whatever valid data a hypervisor has in the storage, the start-up loads it: the
  stored lists and the data of previous versions are merged (of several entries for one key the
  last one counts), duplicates are removed from the storage, and the caches agree with it.
  That the keys of the local visors do not repeat is needed for the set of visible visors only.
\<close>

theorem initialize_correct:
  assumes "migrateDataToHvStorage (fresh_service (st\<lparr>hypervisorPk := pk\<rparr>)) = Inr s1"
    and "getSavedLocalNodes s1 = Inr ns" and "getSavedLabels s1 = Inr ls"
    and "legacy_nodes (hv s1) = Inr old"
  shows "\<exists>s'. initialize pk (fresh_service st) = Inr s' \<and> labels_coherent s' \<and>
    (distinct (map publicKey ns @ map legacy_publicKey old) \<longrightarrow> nodes_coherent s') \<and>
    (\<forall>k. map_get (savedLocalNodes s') k = lookup_node (ns @ map legacy_to_node old) k) \<and>
    (\<forall>k. getLabelInfo s' k = lookup_label (ls @ map legacy_to_label old) k)"
proof -
  let ?ns = "ns @ map legacy_to_node old"
  obtain s' where s': "initialize pk (fresh_service st) = Inr s'"
    "savedLocalNodes s' = node_map ?ns" "savedLabels s' = label_map (ls @ map legacy_to_label old)"
    "getSavedLocalNodes s' = Inr (map_values (node_map ?ns))"
    "getSavedLabels s' = Inr (map_values (label_map (ls @ map legacy_to_label old)))"
    "set (savedVisibleLocalNodes s') = publicKey ` set (filter (\<lambda>n. \<not> hidden n) ?ns)"
    "distinct (savedVisibleLocalNodes s')"
    by (rule initialize_result [OF assms]) blast
  have pks: "map publicKey (map legacy_to_node old) = map legacy_publicKey old"
    by (simp add: legacy_to_node_def)
  have "visible_ok s'" if "distinct (map publicKey ns @ map legacy_publicKey old)"
  proof -
    have "distinct (map publicKey ?ns)" using that by (simp only: map_append pks)
    note look = lookup_node_iff [OF this]
    have "k \<in> publicKey ` set (filter (\<lambda>n. \<not> hidden n) ?ns) \<longleftrightarrow>
        (\<exists>n. lookup_node ?ns k = Some n \<and> \<not> hidden n)" for k
      unfolding look by auto
    then show ?thesis
      by (simp add: visible_ok_def s'(2,6,7) node_map_values(3) case_option_ex del: set_filter)
  qed
  then show ?thesis
    using s' by (auto simp: nodes_coherent_def labels_coherent_def nodes_agree_def labels_agree_def
        node_map_values label_map_values getLabelInfo_get)
qed


text \<open>
  A visor that is stored as visible and that the data of a previous version marks as
  deleted is left in an inconsistent state by the start-up: the cached entry is hidden, and the set
  of visible visors still contains it, because the loading code only ever adds to that set.
\<close>

theorem initialize_legacy_deleted_visible:
  assumes "migrateDataToHvStorage (fresh_service (st\<lparr>hypervisorPk := pk\<rparr>)) = Inr s1"
    and "getSavedLocalNodes s1 = Inr ns" and "getSavedLabels s1 = Inr ls"
    and "legacy_nodes (hv s1) = Inr (old @ [d])"
    and "n \<in> set ns" and "\<not> hidden n" and "publicKey n = legacy_publicKey d" and "legacy_deleted d"
  shows "\<exists>s'. initialize pk (fresh_service st) = Inr s' \<and>
    publicKey n \<in> set (getSavedVisibleLocalNodes s') \<and>
    map_option hidden (map_get (savedLocalNodes s') (publicKey n)) = Some True \<and> \<not> nodes_coherent s'"
proof -
  let ?ns = "ns @ map legacy_to_node (old @ [d])"
  obtain s' where s': "initialize pk (fresh_service st) = Inr s'" "savedLocalNodes s' = node_map ?ns"
    "set (savedVisibleLocalNodes s') = publicKey ` set (filter (\<lambda>n. \<not> hidden n) ?ns)"
    by (rule initialize_result [OF assms(1-4)]) blast
  have vis: "publicKey n \<in> set (savedVisibleLocalNodes s')"
    using assms(5,6) by (auto simp: s'(3))
  have get: "map_get (savedLocalNodes s') (publicKey n) = Some (legacy_to_node d)"
    using assms(7) by (simp add: s'(2) node_map_values lookup_node_def legacy_to_node_def)
  have "hidden (legacy_to_node d)"
    using assms(8) by (simp add: legacy_to_node_def)
  then show ?thesis
    using s'(1) vis get
    by (auto simp: getSavedVisibleLocalNodes_def nodes_coherent_def visible_ok_def split: option.splits
        intro!: exI [of _ s'])
qed

lemma no_old_data_migrate:
  assumes "no_old_data st"
  shows "migrateDataToHvStorage (fresh_service (st\<lparr>hypervisorPk := pk\<rparr>)) =
      Inr (fresh_service (st\<lparr>hypervisorPk := pk\<rparr>))"
    and "legacy_nodes (st\<lparr>hypervisorPk := pk\<rparr>) = Inr []"
  using assms
  by (simp_all add: no_old_data_def migrateDataToHvStorage_def migrate_refresh_def migrate_json_def
      legacy_nodes_def fresh_service_def getItem_def parse_or_empty_def dec_list_def)

text \<open>
  Property C23. Nothing is lost when the application restarts: a service that is created over the
  storage of a running one, for the same hypervisor, comes up with the same labels, the same local
  visors, the same visible visors and the saved refresh interval.
\<close>

theorem restart_recovers:
  assumes "nodes_coherent s" and "labels_coherent s" and "no_old_data (hv s)"
  shows "\<exists>s'. initialize (hypervisorPk (hv s)) (fresh_service (hv s)) = Inr s' \<and>
    nodes_coherent s' \<and> labels_coherent s' \<and>
    (\<forall>k. map_get (savedLocalNodes s') k = map_get (savedLocalNodes s) k) \<and>
    (\<forall>k. getLabelInfo s' k = getLabelInfo s k) \<and>
    set (getSavedVisibleLocalNodes s') = set (getSavedVisibleLocalNodes s) \<and>
    getRefreshTime s' = Some (parse_refresh (getDataForHv (hv s) KEY_REFRESH_SECONDS))"
proof -
  have same: "(hv s)\<lparr>hypervisorPk := hypervisorPk (hv s)\<rparr> = hv s" by simp
  note mig = no_old_data_migrate [OF assms(3), of "hypervisorPk (hv s)", unfolded same]
  obtain ns where ns: "getSavedLocalNodes s = Inr ns" "nodes_agree ns s" "visible_ok s"
    using assms(1) by (rule coherentD)
  obtain ls where ls: "getSavedLabels s = Inr ls" "labels_agree ls s"
    using assms(2) by (auto simp: labels_coherent_def split: sum.splits)
  have hv1: "hv (fresh_service (hv s)) = hv s" by (simp add: fresh_service_def)
  obtain s' where s': "initialize (hypervisorPk (hv s)) (fresh_service (hv s)) = Inr s'"
    "savedLocalNodes s' = node_map (ns @ map legacy_to_node [])"
    "savedLabels s' = label_map (ls @ map legacy_to_label [])"
    "getSavedLocalNodes s' = Inr (map_values (node_map (ns @ map legacy_to_node [])))"
    "getSavedLabels s' = Inr (map_values (label_map (ls @ map legacy_to_label [])))"
    "set (savedVisibleLocalNodes s') = publicKey ` set (filter (\<lambda>n. \<not> hidden n) (ns @ map legacy_to_node []))"
    "distinct (savedVisibleLocalNodes s')"
    "getRefreshTime s' = Some (parse_refresh (getDataForHv (hv (fresh_service (hv s))) KEY_REFRESH_SECONDS))"
    by (rule initialize_result [where st = "hv s" and pk = "hypervisorPk (hv s)", unfolded same, OF mig(1)])
      (use ns(1) ls(1) mig(2) saved_lists_hv [OF hv1] hv1 in auto)
  have nodes: "map_get (savedLocalNodes s') k = map_get (savedLocalNodes s) k" for k
    using ns(2) s'(2) by (simp add: nodes_agree_def node_map_values)
  have labels: "map_get (savedLabels s') k = map_get (savedLabels s) k" for k
    using ls(2) s'(3) by (simp add: labels_agree_def label_map_values)
  have look: "lookup_node ns k = Some n \<longleftrightarrow> n \<in> set ns \<and> publicKey n = k" for n k
    using ns(2) by (simp add: nodes_agree_def lookup_node_iff)
  have "k \<in> set (savedVisibleLocalNodes s') \<longleftrightarrow> k \<in> set (savedVisibleLocalNodes s)" for k
    using ns(2,3) s'(6) by (auto simp: visible_ok_def nodes_agree_def case_option_ex look)
  then have vis: "set (savedVisibleLocalNodes s') = set (savedVisibleLocalNodes s)" by blast
  have "nodes_coherent s'" "labels_coherent s'"
    using s' vis nodes ns(3)
    by (simp_all add: nodes_coherent_def labels_coherent_def nodes_agree_def labels_agree_def
        node_map_values label_map_values visible_ok_def)
  then show ?thesis
    using s'(1,8) nodes labels vis hv1 by (simp add: getLabelInfo_get getSavedVisibleLocalNodes_def)
qed

text \<open>
  The refresh interval survives a restart: any whole number of seconds except 0 is
  read back as it was set; 0, a missing value and a text that is no number give 10 seconds.
\<close>

theorem refresh_time_roundtrip:
  "parse_refresh (getDataForHv (hv (setRefreshTime secs s)) KEY_REFRESH_SECONDS) =
     (if secs = 0 then 10 else secs) \<and>
   parse_refresh None = 10 \<and> (parse_int t = None \<longrightarrow> parse_refresh (Some t) = 10) \<and>
   getRefreshTime (setRefreshTime secs s) = Some secs \<and>
   (nodes_coherent (setRefreshTime secs s) = nodes_coherent s) \<and>
   (labels_coherent (setRefreshTime secs s) = labels_coherent s)"
proof -
  let ?s = "setRefreshTime secs s"
  have stored: "getSavedLocalNodes ?s = getSavedLocalNodes s" "getSavedLabels ?s = getSavedLabels s"
    by (simp_all add: setRefreshTime_def getSavedLocalNodes_def getSavedLabels_def hvs.get_put)
  have caches: "savedLocalNodes ?s = savedLocalNodes s" "savedLabels ?s = savedLabels s"
    "savedVisibleLocalNodes ?s = savedVisibleLocalNodes s"
    by (simp_all add: setRefreshTime_def)
  have "nodes_coherent ?s = nodes_coherent s" "labels_coherent ?s = labels_coherent s"
    by (auto simp: nodes_coherent_def labels_coherent_def nodes_agree_def labels_agree_def
        visible_ok_def stored caches split: sum.splits)
  then show ?thesis
    by (simp add: setRefreshTime_def hvs.get_put parse_refresh_def getRefreshTime_def)
qed


section \<open>Examples\<close>

text \<open>A first start, and a start over data that a visor and a previous version left behind.\<close>

definition empty_store :: hv_store where
  "empty_store = \<lparr>localStorage = Map.empty, hypervisorPk = ''hv''\<rparr>"

definition old_store :: hv_store where
  "old_store = \<lparr>localStorage =
     [''hvlocalNodesData'' \<mapsto> stringify (JArr [enc_node \<lparr>publicKey = ''02ab'', hidden = False, ip = Null\<rparr>]),
      ''nodesData'' \<mapsto> stringify (JArr [JObj [(''publicKey'', JStr ''02ab''), (''label'', JStr ''home''),
        (''deleted'', JBool True)]])],
     hypervisorPk = []\<rparr>"

lemma empty_store_coherent:
  "nodes_coherent (fresh_service empty_store)" "labels_coherent (fresh_service empty_store)"
  "no_old_data empty_store"
  by (simp_all add: nodes_coherent_def labels_coherent_def nodes_agree_def labels_agree_def
      visible_ok_def fresh_service_def empty_store_def getSavedLocalNodes_def getSavedLabels_def
      getDataForHv_def getItem_def parse_or_empty_def dec_list_def map_get_def lookup_node_def
      lookup_label_def no_old_data_def)

lemma old_store_data:
  "migrateDataToHvStorage (fresh_service (old_store\<lparr>hypervisorPk := ''hv''\<rparr>)) =
     Inr (fresh_service (old_store\<lparr>hypervisorPk := ''hv''\<rparr>))"
  "getSavedLocalNodes (fresh_service (old_store\<lparr>hypervisorPk := ''hv''\<rparr>)) =
     Inr [\<lparr>publicKey = ''02ab'', hidden = False, ip = Null\<rparr>]"
  "getSavedLabels (fresh_service (old_store\<lparr>hypervisorPk := ''hv''\<rparr>)) = Inr []"
  "legacy_nodes (hv (fresh_service (old_store\<lparr>hypervisorPk := ''hv''\<rparr>))) =
     Inr [\<lparr>legacy_publicKey = ''02ab'', legacy_label = ''home'', legacy_deleted = True\<rparr>]"
  by (simp_all add: migrateDataToHvStorage_def migrate_refresh_def migrate_json_def fresh_service_def
      old_store_def getItem_def getDataForHv_def storage_keys getSavedLocalNodes_def getSavedLabels_def
      legacy_nodes_def parse_or_empty_def parse_stringify dec_list_def dec_enc_node dec_legacy_def
      get_member_defs)

theorem changeLocalNodes_correct_witness:
  "\<exists>s'. changeLocalNodesHiddenProperty [''02ab'', ''03cd''] [Str ''10.0.0.2'', Null] False
      (fresh_service empty_store) = Inr s' \<and> nodes_coherent s' \<and>
    map_get (savedLocalNodes s') ''02ab'' =
      Some \<lparr>publicKey = ''02ab'', hidden = False, ip = Str ''10.0.0.2''\<rparr>"
  using changeLocalNodes_correct [OF empty_store_coherent(1),
      of "[''02ab'', ''03cd'']" "[Str ''10.0.0.2'', Null]" False]
  by (auto simp: requested_node_def split: option.splits)

theorem visible_nodes_after_change_witness:
  "\<exists>s'. includeVisibleLocalNodes [''02ab''] [Null] (fresh_service empty_store) = Inr s' \<and>
    set (getSavedVisibleLocalNodes s') = {''02ab''}"
  using visible_nodes_after_change [OF empty_store_coherent(1), of "[''02ab'']" "[Null]"]
  by (auto simp: getSavedVisibleLocalNodes_def fresh_service_def)

theorem saveLabel_correct_witness:
  "\<exists>s'. saveLabel ''02ab'' (Str ''home'') NodeType (fresh_service empty_store) = Inr s' \<and>
    labels_coherent s' \<and>
    getLabelInfo s' ''02ab'' =
      Some \<lparr>label_id = ''02ab'', label = ''home'', identifiedElementType = NodeType\<rparr>"
proof -
  have "same_type_label ''02ab'' NodeType (fresh_service empty_store)"
    by (simp add: same_type_label_def getLabelInfo_get fresh_service_def map_get_def)
  from saveLabel_correct [OF empty_store_coherent(2) this, of "Str ''home''"] show ?thesis
    by auto
qed

theorem initialize_correct_witness:
  "\<exists>s'. initialize ''hv'' (fresh_service old_store) = Inr s' \<and> labels_coherent s' \<and>
    getLabelInfo s' ''02ab'' =
      Some \<lparr>label_id = ''02ab'', label = ''home'', identifiedElementType = NodeType\<rparr>"
  using initialize_correct [OF old_store_data] by (auto simp: lookup_label_def legacy_to_label_def)

theorem initialize_legacy_deleted_visible_witness:
  "\<exists>s'. initialize ''hv'' (fresh_service old_store) = Inr s' \<and>
    ''02ab'' \<in> set (getSavedVisibleLocalNodes s') \<and>
    map_option hidden (map_get (savedLocalNodes s') ''02ab'') = Some True"
  using initialize_legacy_deleted_visible [OF old_store_data(1-3),
      of "[]" "\<lparr>legacy_publicKey = ''02ab'', legacy_label = ''home'', legacy_deleted = True\<rparr>"
        "\<lparr>publicKey = ''02ab'', hidden = False, ip = Null\<rparr>"] old_store_data(4)
  by auto

theorem restart_recovers_witness:
  "\<exists>s'. initialize ''hv'' (fresh_service empty_store) = Inr s' \<and> nodes_coherent s' \<and>
    getRefreshTime s' = Some 10"
  using restart_recovers [OF empty_store_coherent(1,2)] empty_store_coherent(3)
  by (auto simp: fresh_service_def empty_store_def parse_refresh_def getDataForHv_def getItem_def)

theorem refresh_time_roundtrip_witness:
  "parse_refresh (Some ''abc'') = 10 \<and>
   parse_refresh (getDataForHv (hv (setRefreshTime 25 (fresh_service empty_store))) KEY_REFRESH_SECONDS) = 25"
proof -
  have "parse_int ''abc'' = None" by code_simp
  then show ?thesis
    using refresh_time_roundtrip [of 25 "fresh_service empty_store" "''abc''"] by simp
qed

end
