(* ===== verification/Labeled_Element.thy ===== *)
theory Labeled_Element
  imports Storage_Service
begin

text \<open>
  The text that identifies an element of the user interface:
  \<open>labeled-element-text.component.ts\<close> and the form that edits a label, \<open>edit-label.component.ts\<close>.
  The translation of a text is the argument \<open>instant\<close>, a function of the translation library.
\<close>

section \<open>The parts of a label\<close>

record LabelComponents =
  lc_prefix :: string
  prefixSeparator :: string
  lc_label :: string
  translatableLabel :: string
  labelInfo :: "LabelInfo option"

definition empty_components :: LabelComponents where
  "empty_components =
     \<lparr>lc_prefix = [], prefixSeparator = [], lc_label = [], translatableLabel = [], labelInfo = None\<rparr>"

definition getLabelComponents :: "storage_service \<Rightarrow> string \<Rightarrow> LabelComponents" where
  "getLabelComponents st i =
     (let isLocalNode = (i \<in> set (getSavedVisibleLocalNodes st));
          info = getLabelInfo st i;
          resp = empty_components\<lparr>labelInfo := info\<rparr>
      in case info of
           Some l \<Rightarrow>
             if label l \<noteq> [] then
               (if isLocalNode
                then resp\<lparr>lc_prefix := ''labeled-element.local-element'', prefixSeparator := '' - ''\<rparr>
                else resp)\<lparr>lc_label := label l\<rparr>
             else if i \<in> set (getSavedVisibleLocalNodes st)
             then resp\<lparr>lc_prefix := ''labeled-element.unnamed-local-visor''\<rparr>
             else resp\<lparr>translatableLabel := ''labeled-element.unnamed-element''\<rparr>
         | None \<Rightarrow>
             if i \<in> set (getSavedVisibleLocalNodes st)
             then resp\<lparr>lc_prefix := ''labeled-element.unnamed-local-visor''\<rparr>
             else resp\<lparr>translatableLabel := ''labeled-element.unnamed-element''\<rparr>)"

definition getCompleteLabel :: "(string \<Rightarrow> string) \<Rightarrow> storage_service \<Rightarrow> string \<Rightarrow> string" where
  "getCompleteLabel instant st i =
     (let c = getLabelComponents st i
      in (if lc_prefix c \<noteq> [] then instant (lc_prefix c) else []) @ prefixSeparator c @ lc_label c @
         (if translatableLabel c \<noteq> [] then instant (translatableLabel c) else []))"

section \<open>The component\<close>

record labeled_element =
  idInternal :: jsstr
  elementType :: LabeledElementTypes
  labelComponents :: LabelComponents

definition element_id :: "labeled_element \<Rightarrow> string" where
  "element_id e = (case idInternal e of Str s \<Rightarrow> s | _ \<Rightarrow> [])"

definition set_element_id :: "storage_service \<Rightarrow> jsstr \<Rightarrow> labeled_element \<Rightarrow> labeled_element" where
  "set_element_id st v e =
     (let e1 = e\<lparr>idInternal := v\<rparr> in e1\<lparr>labelComponents := getLabelComponents st (element_id e1)\<rparr>)"

definition click_options :: "labeled_element \<Rightarrow> string list" where
  "click_options e =
     [''labeled-element.copy'', ''labeled-element.edit-label''] @
     (if labelInfo (labelComponents e) \<noteq> None then [''labeled-element.remove-label''] else []) @
     [''labeled-element.go-to-settings'']"

datatype click_action =
    CopyId string
  | EditLabel LabelInfo
  | ConfirmRemoval
  | GoToSettings
  | NoAction

text \<open>
  What \<open>processClick\<close> starts for the number the dialog with the options returns; \<open>None\<close> stands
  for the \<open>undefined\<close> of a dialog that was closed without a choice.
\<close>

definition processClick :: "labeled_element \<Rightarrow> nat option \<Rightarrow> click_action" where
  "processClick e selectedOption =
     (case selectedOption of
        None \<Rightarrow> NoAction
      | Some n \<Rightarrow>
          if n = 1 then CopyId (element_id e)
          else if n > 2 then
            if n = 3 \<and> labelInfo (labelComponents e) \<noteq> None then ConfirmRemoval else GoToSettings
          else if n = 2 then
            EditLabel (case labelInfo (labelComponents e) of
                Some l \<Rightarrow> l
              | None \<Rightarrow> \<lparr>label_id = element_id e, label = [], identifiedElementType = elementType e\<rparr>)
          else NoAction)"

text \<open>The user accepts the removal of the label.\<close>

definition removal_accepted :: "labeled_element \<Rightarrow> storage_service \<Rightarrow> storage_service js_result" where
  "removal_accepted e st = saveLabel (element_id e) Null (elementType e) st"

datatype snackbar = ShowDone string | ShowWarning string

text \<open>\<open>EditLabelComponent.save\<close>: the value of the form; the result also has the value the dialog closes with.\<close>

definition edit_label_save ::
  "LabelInfo \<Rightarrow> string \<Rightarrow> storage_service \<Rightarrow> (storage_service \<times> snackbar list \<times> bool) js_result" where
  "edit_label_save d form_value st =
     (let lab = trim form_value in
      if lab \<noteq> label d then
        bindR (saveLabel (label_id d) (Str lab) (identifiedElementType d) st) (\<lambda>st'.
          Inr (st', [if lab = [] then ShowWarning ''edit-label.label-removed-warning''
                     else ShowDone ''edit-label.done''], True))
      else Inr (st, [], False))"

section \<open>Properties\<close>

lemma label_info_id: "labels_coherent st \<Longrightarrow> getLabelInfo st i = Some l \<Longrightarrow> label_id l = i"
  by (auto simp: labels_coherent_def labels_agree_def getLabelInfo_get dest: lookup_label_Some split: sum.splits)

lemma complete_label_cases:
  "getCompleteLabel instant st i =
     (let local = i \<in> set (getSavedVisibleLocalNodes st) in
      case getLabelInfo st i of
        Some l \<Rightarrow>
          if label l \<noteq> [] then (if local then instant ''labeled-element.local-element'' @ '' - '' else []) @ label l
          else instant (if local then ''labeled-element.unnamed-local-visor'' else ''labeled-element.unnamed-element'')
      | None \<Rightarrow> instant (if local then ''labeled-element.unnamed-local-visor'' else ''labeled-element.unnamed-element''))"
  by (simp add: getCompleteLabel_def getLabelComponents_def empty_components_def split: option.split)

text \<open>What an option of the menu promises by its text.\<close>

definition promised_action :: "labeled_element \<Rightarrow> string \<Rightarrow> click_action" where
  "promised_action e t =
     (if t = ''labeled-element.copy'' then CopyId (element_id e)
      else if t = ''labeled-element.edit-label'' then
        EditLabel (case labelInfo (labelComponents e) of
            Some l \<Rightarrow> l
          | None \<Rightarrow> \<lparr>label_id = element_id e, label = [], identifiedElementType = elementType e\<rparr>)
      else if t = ''labeled-element.remove-label'' then ConfirmRemoval
      else if t = ''labeled-element.go-to-settings'' then GoToSettings
      else NoAction)"

lemma menu_numbers:
  assumes "i < length (click_options e)"
  shows "processClick e (Some (i + 1)) = promised_action e (click_options e ! i)"
proof -
  consider "i = 0" | "i = 1" | "i = 2" | "i = 3" "labelInfo (labelComponents e) \<noteq> None"
    using assms by (auto simp: click_options_def split: if_splits) linarith+
  then show ?thesis
    by cases (auto simp: processClick_def promised_action_def click_options_def)
qed

text \<open>
  The life of a label in the user interface. The menu of a labelled element starts,
  for every option it shows, what the text of that option says, although the numbers of the options
  depend on whether there is a label. The form stores the text without the spaces around it; after
  that the element is shown with exactly that text (with the prefix of the local visors where it is
  one), an empty text removes the label, and no other element changes.
\<close>

theorem label_editing:
  assumes "labels_coherent st" and "idInternal e = Str i" and "labelComponents e = getLabelComponents st i"
  shows "(\<forall>n < length (click_options e).
      processClick e (Some (n + 1)) = promised_action e (click_options e ! n)) \<and>
    (\<exists>d st' msgs ch. promised_action e ''labeled-element.edit-label'' = EditLabel d \<and>
      edit_label_save d v st = Inr (st', msgs, ch) \<and> labels_coherent st' \<and>
      getCompleteLabel instant st' i =
        (let local = i \<in> set (getSavedVisibleLocalNodes st) in
         if trim v \<noteq> [] then (if local then instant ''labeled-element.local-element'' @ '' - '' else []) @ trim v
         else instant (if local then ''labeled-element.unnamed-local-visor'' else ''labeled-element.unnamed-element'')) \<and>
      (\<forall>k. k \<noteq> i \<longrightarrow> getCompleteLabel instant st' k = getCompleteLabel instant st k))"
proof (intro conjI allI impI)
  show "processClick e (Some (n + 1)) = promised_action e (click_options e ! n)"
    if "n < length (click_options e)" for n
    using that by (rule menu_numbers)
next
  define d where "d = (case getLabelInfo st i of Some l \<Rightarrow> l
    | None \<Rightarrow> \<lparr>label_id = i, label = [], identifiedElementType = elementType e\<rparr>)"
  have info: "labelInfo (labelComponents e) = getLabelInfo st i" and eid: "element_id e = i"
    using assms(2,3) by (simp_all add: getLabelComponents_def empty_components_def element_id_def split: option.split)
  have click: "promised_action e ''labeled-element.edit-label'' = EditLabel d"
    unfolding promised_action_def d_def info eid by simp
  have d: "label_id d = i" "same_type_label i (identifiedElementType d) st"
    using label_info_id [OF assms(1)] by (auto simp: d_def same_type_label_def split: option.split)
  show "\<exists>d st' msgs ch. promised_action e ''labeled-element.edit-label'' = EditLabel d \<and>
      edit_label_save d v st = Inr (st', msgs, ch) \<and> labels_coherent st' \<and>
      getCompleteLabel instant st' i =
        (let local = i \<in> set (getSavedVisibleLocalNodes st) in
         if trim v \<noteq> [] then (if local then instant ''labeled-element.local-element'' @ '' - '' else []) @ trim v
         else instant (if local then ''labeled-element.unnamed-local-visor'' else ''labeled-element.unnamed-element'')) \<and>
      (\<forall>k. k \<noteq> i \<longrightarrow> getCompleteLabel instant st' k = getCompleteLabel instant st k)"
  proof (cases "trim v = label d")
    case True
    then have "edit_label_save d v st = Inr (st, [], False)"
      by (simp add: edit_label_save_def)
    moreover have "trim v = (case getLabelInfo st i of Some l \<Rightarrow> label l | None \<Rightarrow> [])"
      using True by (simp add: d_def split: option.split)
    ultimately show ?thesis
      using click assms(1) by (auto simp: complete_label_cases split: option.splits)
  next
    case False
    obtain st' where st': "saveLabel i (Str (trim v)) (identifiedElementType d) st = Inr st'" "labels_coherent st'"
      "savedVisibleLocalNodes st' = savedVisibleLocalNodes st"
      "\<And>k. getLabelInfo st' k = (if k \<noteq> i then getLabelInfo st k else if trim v \<noteq> []
         then Some \<lparr>label_id = i, label = trim v, identifiedElementType = identifiedElementType d\<rparr> else None)"
      using saveLabel_effect [OF assms(1) d(2), of "Str (trim v)"] by auto
    obtain msgs where save: "edit_label_save d v st = Inr (st', msgs, True)"
      using False by (simp add: edit_label_save_def d(1) st'(1))
    have visible: "getSavedVisibleLocalNodes st' = getSavedVisibleLocalNodes st"
      using st'(3) by (simp add: getSavedVisibleLocalNodes_def)
    show ?thesis
      by (intro exI conjI, rule click, rule save, rule st'(2)) (simp_all add: complete_label_cases visible st'(4))
  qed
qed

text \<open>An element with no label yet, over an empty storage.\<close>

definition demo_element :: labeled_element where
  "demo_element = set_element_id (fresh_service empty_store) (Str ''02ab'')
     \<lparr>idInternal = Undefined, elementType = NodeType, labelComponents = empty_components\<rparr>"

theorem label_editing_witness:
  "\<exists>d st' msgs ch. processClick demo_element (Some 2) = EditLabel d \<and>
     edit_label_save d '' home '' (fresh_service empty_store) = Inr (st', msgs, ch) \<and>
     getCompleteLabel (\<lambda>t. t) st' ''02ab'' = ''home''"
proof -
  have trim: "trim '' home '' = ''home''" by code_simp
  have e: "idInternal demo_element = Str ''02ab''"
    "labelComponents demo_element = getLabelComponents (fresh_service empty_store) ''02ab''"
    by (simp_all add: demo_element_def set_element_id_def element_id_def)
  have menu: "click_options demo_element ! 1 = ''labeled-element.edit-label''" "1 < length (click_options demo_element)"
    by (simp_all add: click_options_def)
  note c = label_editing [OF empty_store_coherent(2) e, of "'' home ''" "\<lambda>t. t"]
  have "processClick demo_element (Some 2) = promised_action demo_element ''labeled-element.edit-label''"
    using c menu by (metis one_add_one)
  moreover have "getSavedVisibleLocalNodes (fresh_service empty_store) = []"
    by (simp add: getSavedVisibleLocalNodes_def fresh_service_def)
  ultimately show ?thesis using c by (auto simp: trim)
qed

end
