(* ===== verification/App_Datatypes.thy ===== *)
theory App_Datatypes
  imports JS_Strings
begin

text \<open>
  The data of a visor, \<open>src/app/app.datatypes.ts\<close>. A property that may be missing or \<open>null\<close> is an
  \<open>option\<close>, a text that may be is a \<open>jsstr\<close>; a new \<open>Node\<close> object has no property set.
\<close>

record Application =
  app_name :: string
  autostart :: bool
  port :: int
  app_status :: int
  detailedStatus :: string
  app_args :: "string list"

record Transport =
  tr_id :: string
  tr_localPk :: string
  remotePk :: string
  tr_type :: string
  recv :: int
  sent :: int
  isPersistent :: bool
  notFound :: bool

record PersistentTransport =
  pt_pk :: string
  pt_type :: string

record RouteDescriptor =
  dstPk :: string
  srcPk :: string
  dstPort :: int
  srcPort :: int

record RouteForwardRuleSumary =
  nextRid :: int
  nextTid :: string
  routeDescriptor :: "RouteDescriptor option"

record RouteRuleSummary =
  keepAlive :: int
  ruleType :: int
  keyRouteId :: int

record Route =
  route_key :: int
  rule :: string
  ruleSummary :: "RouteRuleSummary option"
  appFields :: "RouteDescriptor option"
  forwardFields :: "RouteForwardRuleSumary option"
  intermediaryForwardFields :: "RouteForwardRuleSumary option"

record Node =
  node_label :: string
  localPk :: string
  isSymmeticNat :: "bool option"
  publicIp :: jsstr
  node_ip :: jsstr
  version :: jsstr
  apps :: "Application list"
  transports :: "Transport list"
  persistentTransports :: "PersistentTransport list"
  minHops :: "int option"
  routes :: "Route list"
  online :: "bool option"
  secondsOnline :: "int option"
  servicesHealth :: jsstr
  dmsgServerPk :: string
  roundTripPing :: string
  isHypervisor :: "bool option"
  buildTag :: jsstr
  skybianBuildVersion :: jsstr
  autoconnectTransports :: "bool option"
  rewardsAddress :: jsstr

definition new_node :: Node where
  "new_node =
     \<lparr>node_label = [], localPk = [], isSymmeticNat = None, publicIp = Undefined, node_ip = Undefined,
      version = Undefined, apps = [], transports = [], persistentTransports = [], minHops = None,
      routes = [], online = None, secondsOnline = None, servicesHealth = Undefined, dmsgServerPk = [],
      roundTripPing = [], isHypervisor = None, buildTag = Undefined, skybianBuildVersion = Undefined,
      autoconnectTransports = None, rewardsAddress = Undefined\<rparr>"

end
