(* ===== verification/Transport_List.thy ===== *)
theory Transport_List
  imports List_Component Labeled_Element App_Datatypes
begin

text \<open>
  \<open>transport-list.component.ts\<close> and \<open>transport.service.ts\<close>: the list of the transports of a visor,
  with the marks of the persistent transports. The component is composed of the filterer, the sorter
  and the pages of the other theories. The elements of the list are given to them as objects with
  the properties of a transport and its two labels.
\<close>

section \<open>Requests\<close>

datatype http_body =
    NoBody
  | RemoteBody string "string option"
  | PersistentBody "PersistentTransport list"
  | AutoconnectBody bool
  | SettingsBody element

record http_request =
  http_method :: string
  http_url :: string
  http_body :: http_body

definition transport_create :: "string \<Rightarrow> string \<Rightarrow> string option \<Rightarrow> http_request" where
  "transport_create nodeKey remoteKey t =
     \<lparr>http_method = ''POST'', http_url = ''visors/'' @ nodeKey @ ''/transports'',
      http_body = RemoteBody remoteKey (case t of Some s \<Rightarrow> if s \<noteq> [] then Some s else None | None \<Rightarrow> None)\<rparr>"

definition transport_delete :: "string \<Rightarrow> string option \<Rightarrow> http_request" where
  "transport_delete nodeKey i =
     \<lparr>http_method = ''DELETE'',
      http_url = ''visors/'' @ nodeKey @ ''/transports/'' @ (case i of Some s \<Rightarrow> s | None \<Rightarrow> ''undefined''),
      http_body = NoBody\<rparr>"

definition savePersistentTransportsData :: "string \<Rightarrow> PersistentTransport list \<Rightarrow> http_request" where
  "savePersistentTransportsData nodeKey l =
     \<lparr>http_method = ''PUT'', http_url = ''visors/'' @ nodeKey @ ''/persistent-transports'', http_body = PersistentBody l\<rparr>"

definition getPersistentTransports :: "string \<Rightarrow> http_request" where
  "getPersistentTransports nodeKey =
     \<lparr>http_method = ''GET'', http_url = ''visors/'' @ nodeKey @ ''/persistent-transports'', http_body = NoBody\<rparr>"

definition transport_types :: "string \<Rightarrow> http_request" where
  "transport_types nodeKey =
     \<lparr>http_method = ''GET'', http_url = ''visors/'' @ nodeKey @ ''/transport-types'', http_body = NoBody\<rparr>"

definition changeAutoconnectSetting :: "string \<Rightarrow> bool \<Rightarrow> http_request" where
  "changeAutoconnectSetting nodeKey enable =
     \<lparr>http_method = ''PUT'', http_url = ''visors/'' @ nodeKey @ ''/public-autoconnect'', http_body = AutoconnectBody enable\<rparr>"

section \<open>The transports of the visor\<close>

definition getPersistentTransportID :: "string \<Rightarrow> string \<Rightarrow> string" where
  "getPersistentTransportID pk t = to_upper pk @ to_upper t"

definition transport_key :: "Transport \<Rightarrow> string" where
  "transport_key t = getPersistentTransportID (remotePk t) (tr_type t)"

definition persistent_key :: "PersistentTransport \<Rightarrow> string" where
  "persistent_key p = getPersistentTransportID (pt_pk p) (pt_type p)"

definition mark_transport ::
  "Transport \<Rightarrow> (string, PersistentTransport) jsmap \<times> Transport list \<Rightarrow> (string, PersistentTransport) jsmap \<times> Transport list" where
  "mark_transport t acc =
     (if map_has (fst acc) (transport_key t)
      then (map_delete (transport_key t) (fst acc), snd acc @ [t\<lparr>isPersistent := True\<rparr>])
      else (fst acc, snd acc @ [t\<lparr>isPersistent := False\<rparr>]))"

definition offline_transport :: "string \<Rightarrow> PersistentTransport \<Rightarrow> Transport" where
  "offline_transport pk p =
     \<lparr>tr_id = persistent_key p, tr_localPk = pk, remotePk = pt_pk p, tr_type = pt_type p, recv = 0, sent = 0,
      isPersistent = True, notFound = True\<rparr>"

text \<open>The first part of the setter of \<open>node\<close>: the marks and the persistent transports that are not running.\<close>

definition all_transports :: "string \<Rightarrow> PersistentTransport list \<Rightarrow> Transport list \<Rightarrow> Transport list" where
  "all_transports pk pts ts =
     (case fold mark_transport ts (fold (\<lambda>p. map_set (persistent_key p) p) pts [], []) of
        (rest, marked) \<Rightarrow> marked @ map (offline_transport pk) (map_values rest))"

definition transport_element :: "(string \<Rightarrow> string) \<Rightarrow> storage_service \<Rightarrow> Transport \<Rightarrow> element" where
  "transport_element instant st t =
     [(''id'', VStr (tr_id t)), (''localPk'', VStr (tr_localPk t)), (''remotePk'', VStr (remotePk t)),
      (''type'', VStr (tr_type t)), (''recv'', VNum (recv t)), (''sent'', VNum (sent t)),
      (''isPersistent'', VBool (isPersistent t))] @ (if notFound t then [(''notFound'', VBool True)] else []) @
     [(''id_label'', VStr (getCompleteLabel instant st (tr_id t))),
      (''remote_pk_label'', VStr (getCompleteLabel instant st (remotePk t)))]"

definition transport_columns :: "SortingColumn list" where
  "transport_columns =
     [\<lparr>properties = [''isPersistent''], column_label = ''transports.persistent'', sortingMode = BooleanMode, labelProperties = None\<rparr>,
      \<lparr>properties = [''id''], column_label = ''transports.id'', sortingMode = TextMode, labelProperties = Some [''id_label'']\<rparr>,
      \<lparr>properties = [''remotePk''], column_label = ''transports.remote-node'', sortingMode = TextMode, labelProperties = Some [''remote_pk_label'']\<rparr>,
      \<lparr>properties = [''type''], column_label = ''transports.type'', sortingMode = TextMode, labelProperties = None\<rparr>,
      \<lparr>properties = [''sent''], column_label = ''common.uploaded'', sortingMode = NumberReversed, labelProperties = None\<rparr>,
      \<lparr>properties = [''recv''], column_label = ''common.downloaded'', sortingMode = NumberReversed, labelProperties = None\<rparr>]"

definition transport_filters :: "CompleteFilterProperties list" where
  "transport_filters =
     [\<lparr>filterName = ''transports.filter-dialog.persistent'',
       printableLabelsForValues = Some
         [\<lparr>pl_value = [], pl_label = ''transports.filter-dialog.persistent-options.any''\<rparr>,
          \<lparr>pl_value = ''true'', pl_label = ''transports.filter-dialog.persistent-options.persistent''\<rparr>,
          \<lparr>pl_value = ''false'', pl_label = ''transports.filter-dialog.persistent-options.non-persistent''\<rparr>],
       filter_type = Select, keyNameInElementsArray = ''isPersistent'', secondaryKeyNameInElementsArray = None,
       keyNameInFiltersObject = []\<rparr>,
      \<lparr>filterName = ''transports.filter-dialog.id'', printableLabelsForValues = None, filter_type = TextInput,
       keyNameInElementsArray = ''id'', secondaryKeyNameInElementsArray = Some ''id_label'', keyNameInFiltersObject = []\<rparr>,
      \<lparr>filterName = ''transports.filter-dialog.remote-node'', printableLabelsForValues = None, filter_type = TextInput,
       keyNameInElementsArray = ''remotePk'', secondaryKeyNameInElementsArray = Some ''remote_pk_label'', keyNameInFiltersObject = []\<rparr>]"

section \<open>The component\<close>

record transport_list =
  nodePK :: string
  allTransports :: "Transport list"
  tl_persistent :: "PersistentTransport list"
  tl_list :: "string list_component"

definition set_node ::
  "(string \<Rightarrow> string \<Rightarrow> int) \<Rightarrow> (string \<Rightarrow> string) \<Rightarrow> storage_service \<Rightarrow>
   string \<Rightarrow> PersistentTransport list \<Rightarrow> Transport list \<Rightarrow> transport_list \<Rightarrow> transport_list js_result" where
  "set_node collate instant st pk pts ts c =
     (let all = all_transports pk pts ts
      in bindR (set_list_data collate element_key (map (transport_element instant st) all) (tl_list c)) (\<lambda>lc.
           Inr (c\<lparr>nodePK := pk, allTransports := all, tl_persistent := pts, tl_list := lc\<rparr>)))"

text \<open>After a change of language the setter runs again on the node it was given, whose list it has extended.\<close>

definition language_changed ::
  "(string \<Rightarrow> string \<Rightarrow> int) \<Rightarrow> (string \<Rightarrow> string) \<Rightarrow> storage_service \<Rightarrow> transport_list \<Rightarrow> transport_list js_result" where
  "language_changed collate instant st c =
     set_node collate instant st (nodePK c) (tl_persistent c) (allTransports c) c"

definition new_transport_list :: "hv_store \<Rightarrow> (string, string) jsmap \<Rightarrow> bool \<Rightarrow> transport_list" where
  "new_transport_list st q short =
     \<lparr>nodePK = [], allTransports = [], tl_persistent = [],
      tl_list = new_list_component st transport_columns 1 transport_filters ''tr'' q short\<rparr>"

section \<open>Persistent transports\<close>

definition confirmation_text :: "Transport list \<Rightarrow> bool \<Rightarrow> string" where
  "confirmation_text ts makePersistent =
     ''transports.'' @
     (case ts of
        [t] \<Rightarrow> if makePersistent then ''make-persistent-confirmation''
               else ''make'' @ (if notFound t then ''-offline'' else []) @ ''-non-persistent-confirmation''
      | _ \<Rightarrow> if makePersistent then ''make-selected-persistent-confirmation''
             else ''make-selected-non-persistent-confirmation'')"

definition drop_present ::
  "PersistentTransport \<Rightarrow> (string, Transport) jsmap \<Rightarrow> (string, Transport) jsmap" where
  "drop_present p m = (if map_has m (persistent_key p) then map_delete (persistent_key p) m else m)"

text \<open>The loop that removes transports from the list while it goes through it: position, list and the flag.\<close>

function remove_selected ::
  "(string, Transport) jsmap \<Rightarrow> nat \<Rightarrow> PersistentTransport list \<Rightarrow> bool \<Rightarrow> PersistentTransport list \<times> bool" where
  "remove_selected m i l nothingToDo =
     (if i < length l then
        if map_has m (persistent_key (l ! i))
        then remove_selected m i (take i l @ drop (i + 1) l) False
        else remove_selected m (i + 1) l nothingToDo
      else (l, nothingToDo))"
  by pat_completeness auto
termination
  by (relation "measure (\<lambda>(m, i, l, n). length l - i)") auto

declare remove_selected.simps [simp del]

text \<open>The list to save; \<open>None\<close> when there is nothing to do.\<close>

definition changed_persistent ::
  "PersistentTransport list option \<Rightarrow> Transport list \<Rightarrow> bool \<Rightarrow> PersistentTransport list option" where
  "changed_persistent l ts makePersistent =
     (let dataToUse = (case l of Some xs \<Rightarrow> xs | None \<Rightarrow> []);
          m = fold (\<lambda>t. map_set (transport_key t) t) ts []
      in if makePersistent then
           let m1 = fold drop_present dataToUse m
           in if m1 = [] then None
              else Some (dataToUse @ map (\<lambda>t. \<lparr>pt_pk = remotePk t, pt_type = tr_type t\<rparr>) (map_values m1))
         else case remove_selected m 0 dataToUse True of
                (l', nothingToDo) \<Rightarrow> if nothingToDo then None else Some l')"

text \<open>The handlers of the answers: the list of the backend, and the answer to the list that was saved.\<close>

definition persistent_list_received ::
  "string \<Rightarrow> Transport list \<Rightarrow> bool \<Rightarrow> jsval + PersistentTransport list option \<Rightarrow> http_request option \<times> ui_event list" where
  "persistent_list_received nodeKey ts makePersistent resp =
     (case resp of
        Inl err \<Rightarrow> (None, [error_shown err])
      | Inr l \<Rightarrow>
          (case changed_persistent l ts makePersistent of
             Some l' \<Rightarrow> (Some (savePersistentTransportsData nodeKey l'), [])
           | None \<Rightarrow> (None, [CloseDialog, SnackbarDone ''transports.no-changes-needed'', RefreshData])))"

definition persistent_list_saved :: "jsval option \<Rightarrow> ui_event list" where
  "persistent_list_saved resp =
     (case resp of
        None \<Rightarrow> [CloseDialog, RefreshData, SnackbarDone ''transports.changes-made'']
      | Some err \<Rightarrow> [error_shown err])"

definition changeIfPersistentOfSelected :: "transport_list \<Rightarrow> Transport list" where
  "changeIfPersistentOfSelected c =
     filter (\<lambda>t. map_has (lc_selections (tl_list c)) (tr_id t) \<and> map_get (lc_selections (tl_list c)) (tr_id t) = Some True) (allTransports c)"

datatype transport_action = MakePersistent bool | TransportDetails | DeleteTransport | NoTransportAction

definition transport_options :: "Transport \<Rightarrow> string list" where
  "transport_options t =
     (if isPersistent t then ''transports.make-non-persistent'' else ''transports.make-persistent'') #
     (if \<not> notFound t then [''transports.details.title'', ''transports.delete''] else [])"

definition showOptionsDialog :: "Transport \<Rightarrow> nat option \<Rightarrow> transport_action" where
  "showOptionsDialog t selectedOption =
     (if selectedOption = Some 1 then MakePersistent (\<not> isPersistent t)
      else if selectedOption = Some 2 then TransportDetails
      else if selectedOption = Some 3 then DeleteTransport
      else NoTransportAction)"

definition delete_confirmation :: "Transport \<Rightarrow> string" where
  "delete_confirmation t =
     ''transports.delete-'' @ (if isPersistent t then ''persistent-'' else []) @ ''confirmation''"

definition transport_deleted :: "jsval option \<Rightarrow> ui_event list" where
  "transport_deleted resp =
     (case resp of None \<Rightarrow> [CloseDialog, RefreshData, SnackbarDone ''transports.deleted''] | Some err \<Rightarrow> [error_shown err])"

section \<open>The marks of the transports\<close>

fun marks :: "(string, PersistentTransport) jsmap \<Rightarrow> Transport list \<Rightarrow> Transport list" where
  "marks m [] = []"
| "marks m (t # ts) = t\<lparr>isPersistent := map_has m (transport_key t)\<rparr> # marks (map_delete (transport_key t) m) ts"

lemma mark_loop:
  "fold mark_transport ts (m, acc) = (fold map_delete (map transport_key ts) m, acc @ marks m ts)"
proof (induction ts arbitrary: m acc)
  case (Cons t ts)
  have "mark_transport t (m, acc) =
      (map_delete (transport_key t) m, acc @ [t\<lparr>isPersistent := map_has m (transport_key t)\<rparr>])"
    by (simp add: mark_transport_def map_delete_absent)
  then show ?case by (simp add: Cons.IH)
qed simp

lemma length_marks [simp]: "length (marks m ts) = length ts"
  by (induction ts arbitrary: m) auto

lemma has_delete: "map_has (map_delete k m) k' \<longleftrightarrow> k' \<noteq> k \<and> map_has m k'"
  by (simp add: map_has_get jm.get_del)

lemma nth_marks:
  "i < length ts \<Longrightarrow> marks m ts ! i = (ts ! i)\<lparr>isPersistent :=
     map_has m (transport_key (ts ! i)) \<and> transport_key (ts ! i) \<notin> transport_key ` set (take i ts)\<rparr>"
proof (induction ts arbitrary: m i)
  case (Cons t ts)
  then show ?case by (cases i) (simp_all add: has_delete conj_ac)
qed simp

lemma transport_key_mark [simp]: "transport_key (t\<lparr>isPersistent := b\<rparr>) = transport_key t"
  by (simp add: transport_key_def)

lemma keys_marks [simp]: "map transport_key (marks m ts) = map transport_key ts"
  by (induction ts arbitrary: m) auto

definition persistent_map :: "PersistentTransport list \<Rightarrow> (string, PersistentTransport) jsmap" where
  "persistent_map pts = fold (\<lambda>p. map_set (persistent_key p) p) pts []"

definition missing_transports :: "PersistentTransport list \<Rightarrow> Transport list \<Rightarrow> PersistentTransport list" where
  "missing_transports pts ts =
     map_values (filter (\<lambda>e. fst e \<notin> transport_key ` set ts) (persistent_map pts))"

lemma all_transports_eq:
  "all_transports pk pts ts = marks (persistent_map pts) ts @ map (offline_transport pk) (missing_transports pts ts)"
  by (simp add: all_transports_def mark_loop map_deletes_filter missing_transports_def
      flip: persistent_map_def)

lemma persistent_map_keys:
  "map_has (persistent_map pts) k \<longleftrightarrow> k \<in> persistent_key ` set pts"
  "map_wf (persistent_map pts)" "keyed persistent_key (persistent_map pts)"
proof -
  have "set (map_keys (persistent_map pts)) = persistent_key ` set pts"
    unfolding persistent_map_def by (simp add: jm.set_keys_puts) (simp add: map_keys_def)
  then show "map_has (persistent_map pts) k \<longleftrightarrow> k \<in> persistent_key ` set pts"
    by (simp add: map_has_keys)
  show "map_wf (persistent_map pts)" "keyed persistent_key (persistent_map pts)"
    unfolding persistent_map_def by (simp_all add: map_wf_sets keyed_sets)
qed

lemma missing_keys:
  "map persistent_key (missing_transports pts ts) =
     filter (\<lambda>k. k \<notin> transport_key ` set ts) (map fst (persistent_map pts))"
proof -
  have "map persistent_key (map_values (filter P m)) = filter Q (map fst m)"
    if "keyed persistent_key m" "\<And>e. P e = Q (fst e)" for m P Q
    using that by (induction m) (auto simp: keyed_def map_values_def)
  from this [OF persistent_map_keys(3), of "\<lambda>e. fst e \<notin> transport_key ` set ts" "\<lambda>k. k \<notin> transport_key ` set ts" pts]
  show ?thesis by (simp only: missing_transports_def)
qed

lemma missing_key_set:
  "persistent_key ` set (missing_transports pts ts) = persistent_key ` set pts - transport_key ` set ts"
  "distinct (map persistent_key (missing_transports pts ts))"
proof -
  have "set (map fst (persistent_map pts)) = persistent_key ` set pts"
    using persistent_map_keys(1) [of pts] by (auto simp: map_has_keys map_keys_def)
  moreover have "persistent_key ` set (missing_transports pts ts) = set (map persistent_key (missing_transports pts ts))"
    by simp
  ultimately show "persistent_key ` set (missing_transports pts ts) = persistent_key ` set pts - transport_key ` set ts"
    unfolding missing_keys by auto
  show "distinct (map persistent_key (missing_transports pts ts))"
    unfolding missing_keys using persistent_map_keys(2) by (simp add: map_wf_def)
qed

lemma offline_key [simp]: "transport_key (offline_transport pk p) = persistent_key p"
  by (simp add: offline_transport_def transport_key_def persistent_key_def)

lemma marked_keys:
  "distinct (map transport_key (filter isPersistent (marks m ts))) \<and>
   set (map transport_key (filter isPersistent (marks m ts))) = transport_key ` set ts \<inter> {k. map_has m k}"
  by (induction ts arbitrary: m) (auto simp: has_delete)

lemma marks_again: "(\<forall>t \<in> set ts'. map_has m (transport_key t) \<and> isPersistent t) \<Longrightarrow>
  distinct (map transport_key ts') \<Longrightarrow> transport_key ` set ts' \<inter> transport_key ` set ts = {} \<Longrightarrow>
  marks m (marks m ts @ ts') = marks m ts @ ts'"
proof (induction ts arbitrary: m)
  case Nil
  then show ?case
  proof (induction ts' arbitrary: m)
    case (Cons t ts')
    have "map_has (map_delete (transport_key t) m) (transport_key u) \<and> isPersistent u" if "u \<in> set ts'" for u
    proof -
      have "transport_key u \<noteq> transport_key t"
        using that Cons.prems(2) by (metis distinct.simps(2) image_eqI list.set_map list.simps(9))
      then show ?thesis using that Cons.prems(1) by (simp add: has_delete)
    qed
    then have "marks (map_delete (transport_key t) m) ts' = ts'"
      using Cons.IH [of "map_delete (transport_key t) m"] Cons.prems by simp
    then show ?case using Cons.prems by simp
  qed simp
next
  case (Cons t ts)
  have "map_has (map_delete (transport_key t) m) (transport_key u) \<and> isPersistent u" if "u \<in> set ts'" for u
  proof -
    have "transport_key u \<noteq> transport_key t" using that Cons.prems(3) by auto (metis image_eqI)
    then show ?thesis using that Cons.prems(1) by (simp add: has_delete)
  qed
  then have "marks (map_delete (transport_key t) m) (marks (map_delete (transport_key t) m) ts @ ts') =
      marks (map_delete (transport_key t) m) ts @ ts'"
    using Cons.IH [of "map_delete (transport_key t) m"] Cons.prems by simp
  then show ?case by simp
qed

text \<open>
  Property C27. The transports shown for a visor. The running transports come first, unchanged and
  in their order, and of those to the same visor and of the same type the first one is marked when
  that visor and type are in the list of persistent transports; after them there is an entry for
  every persistent transport that is not running. So every persistent transport is marked exactly
  once and nothing else is. Doing it again, as after a change of language, changes nothing.
\<close>

theorem transports_marked:
  "let all = all_transports pk pts ts in
   (\<forall>i < length ts. all ! i = (ts ! i)\<lparr>isPersistent := transport_key (ts ! i) \<in> persistent_key ` set pts \<and>
      transport_key (ts ! i) \<notin> transport_key ` set (take i ts)\<rparr>) \<and>
   (\<forall>t \<in> set (drop (length ts) all). notFound t \<and> isPersistent t \<and> transport_key t \<notin> transport_key ` set ts) \<and>
   distinct (map transport_key (filter isPersistent all)) \<and>
   set (map transport_key (filter isPersistent all)) = persistent_key ` set pts \<and>
   all_transports pk pts all = all"
proof -
  define off where "off = map (offline_transport pk) (missing_transports pts ts)"
  let ?m = "persistent_map pts" and ?all = "marks (persistent_map pts) ts @ off"
  have has: "map_has ?m k \<longleftrightarrow> k \<in> persistent_key ` set pts" for k by (rule persistent_map_keys(1))
  have offline: "isPersistent t" "notFound t" if "t \<in> set off" for t
    using that by (auto simp: off_def offline_transport_def)
  have keys: "transport_key ` set off = persistent_key ` set pts - transport_key ` set ts"
    unfolding missing_key_set(1) [symmetric] off_def by (simp add: image_image)
  have dist: "distinct (map transport_key off)"
    using missing_key_set(2) [of pts ts] by (simp add: off_def comp_def)
  have first: "?all ! i = (ts ! i)\<lparr>isPersistent := transport_key (ts ! i) \<in> persistent_key ` set pts \<and>
      transport_key (ts ! i) \<notin> transport_key ` set (take i ts)\<rparr>" if "i < length ts" for i
    using that nth_marks [OF that, of ?m] by (simp add: nth_append has)
  have marks_keys: "transport_key ` set (marks ?m ts) = transport_key ` set ts"
    by (metis keys_marks list.set_map)
  then have "transport_key ` set ?all \<supseteq> persistent_key ` set pts"
    using keys by (auto simp: image_Un)
  then have "missing_transports pts ?all = []"
    using missing_key_set(1) [of pts ?all] by (metis Diff_eq_empty_iff image_is_empty set_empty)
  moreover have "marks ?m ?all = ?all"
  proof (rule marks_again)
    show "\<forall>t \<in> set off. map_has ?m (transport_key t) \<and> isPersistent t"
      using keys offline(1) by (metis DiffD1 has imageI)
    show "transport_key ` set off \<inter> transport_key ` set ts = {}" unfolding keys by blast
  qed (rule dist)
  ultimately have again: "all_transports pk pts ?all = ?all"
    by (simp add: all_transports_eq)
  have "filter isPersistent off = off" using offline by (simp add: filter_id_conv)
  moreover have "set (map transport_key (filter isPersistent (marks ?m ts))) =
      transport_key ` set ts \<inter> persistent_key ` set pts"
    using marked_keys [of ?m ts] has by simp
  ultimately have "distinct (map transport_key (filter isPersistent ?all)) \<and>
      set (map transport_key (filter isPersistent ?all)) = persistent_key ` set pts"
    using conjunct1 [OF marked_keys [of ?m ts]] dist keys
    by (simp only: filter_append map_append distinct_append set_append list.set_map) blast
  moreover have "\<forall>t \<in> set off. notFound t \<and> isPersistent t \<and> transport_key t \<notin> transport_key ` set ts"
    using keys offline by blast
  moreover have all: "all_transports pk pts ts = ?all" by (simp add: all_transports_eq off_def)
  moreover have drop: "drop (length ts) ?all = off" by simp
  ultimately show ?thesis unfolding Let_def all drop using first again by blast
qed

section \<open>Changing the persistent transports\<close>

lemma remove_loop:
  "i \<le> length l \<Longrightarrow> remove_selected m i l n =
     (take i l @ filter (\<lambda>p. \<not> map_has m (persistent_key p)) (drop i l),
      n \<and> (\<forall>p \<in> set (drop i l). \<not> map_has m (persistent_key p)))"
proof (induction m i l n rule: remove_selected.induct)
  case (1 m i l n)
  show ?case
  proof (cases "i < length l")
    case True
    have d: "drop i l = l ! i # drop (Suc i) l" using True by (rule Cons_nth_drop_Suc [symmetric])
    show ?thesis
    proof (cases "map_has m (persistent_key (l ! i))")
      case has: True
      have "remove_selected m i l n = remove_selected m i (take i l @ drop (i + 1) l) False"
        using True has by (subst remove_selected.simps) simp
      also have "\<dots> = (take i l @ filter (\<lambda>p. \<not> map_has m (persistent_key p)) (drop (i + 1) l), False)"
        using 1(1) [OF True has] True by simp
      finally show ?thesis using has by (simp add: d)
    next
      case False
      have "remove_selected m i l n = remove_selected m (i + 1) l n"
        using True False by (subst remove_selected.simps) simp
      then show ?thesis
        using 1(2) [OF True False] True False by (simp add: d take_Suc_conv_app_nth)
    qed
  next
    case False
    then show ?thesis using 1(3) by (subst remove_selected.simps) simp
  qed
qed

lemma selected_map:
  "map_has (fold (\<lambda>t. map_set (transport_key t) t) ts []) k \<longleftrightarrow> k \<in> transport_key ` set ts"
  "keyed transport_key (fold (\<lambda>t. map_set (transport_key t) t) ts [])"
  "map_wf (fold (\<lambda>t. map_set (transport_key t) t) ts [])"
  by (simp_all add: map_has_keys jm.set_keys_puts keyed_sets map_wf_sets) (simp add: map_keys_def)

lemma drop_present_loop: "fold drop_present l m = fold map_delete (map persistent_key l) m"
proof (induction l arbitrary: m)
  case (Cons p l)
  have "drop_present p m = map_delete (persistent_key p) m"
    by (simp add: drop_present_def map_delete_absent)
  then show ?case by (simp add: Cons.IH)
qed simp

lemma keyed_filter: "keyed f m \<Longrightarrow> keyed f (filter P m)"
  by (simp add: keyed_def)

lemma keyed_values: "keyed f m \<Longrightarrow> map f (map_values m) = map fst m"
  by (induction m) (auto simp: keyed_def map_values_def)

text \<open>
  Making transports persistent or not, on the list the backend has at that moment. To
  make them persistent: the entries of the list stay as they are and one entry is added for every
  selected visor and type that is not there, so nothing is added twice; there is nothing to do
  exactly when all are there. To make them not persistent: exactly the entries of the selected
  visors and types are removed; there is nothing to do exactly when none is there. (The loop that
  removes entries while it walks through the list ends and misses none.)
\<close>

theorem persistent_change_correct:
  fixes ts :: "Transport list" and r :: "PersistentTransport list option"
  defines "l \<equiv> (case r of Some xs \<Rightarrow> xs | None \<Rightarrow> [])" and "sel \<equiv> transport_key ` set ts"
  shows "(case changed_persistent r ts True of
      None \<Rightarrow> sel \<subseteq> persistent_key ` set l
    | Some l' \<Rightarrow> \<exists>new. l' = l @ new \<and> new \<noteq> [] \<and> distinct (map persistent_key new) \<and>
        persistent_key ` set new = sel - persistent_key ` set l) \<and>
    (case changed_persistent r ts False of
      None \<Rightarrow> sel \<inter> persistent_key ` set l = {}
    | Some l' \<Rightarrow> l' = filter (\<lambda>p. persistent_key p \<notin> sel) l \<and> sel \<inter> persistent_key ` set l \<noteq> {})"
proof
  let ?m = "fold (\<lambda>t. map_set (transport_key t) t) ts []"
  have has: "map_has ?m k \<longleftrightarrow> k \<in> sel" for k unfolding sel_def by (rule selected_map(1))
  show "case changed_persistent r ts False of
      None \<Rightarrow> sel \<inter> persistent_key ` set l = {}
    | Some l' \<Rightarrow> l' = filter (\<lambda>p. persistent_key p \<notin> sel) l \<and> sel \<inter> persistent_key ` set l \<noteq> {}"
    by (auto simp: changed_persistent_def remove_loop has simp flip: l_def)
  define m1 where "m1 = filter (\<lambda>e. fst e \<notin> persistent_key ` set l) ?m"
  define new where "new = map (\<lambda>t. \<lparr>pt_pk = remotePk t, pt_type = tr_type t\<rparr>) (map_values m1)"
  have m1: "fold drop_present l ?m = m1"
    by (simp add: drop_present_loop map_deletes_filter m1_def)
  have "map persistent_key new = map transport_key (map_values m1)"
    by (simp add: new_def persistent_key_def transport_key_def comp_def)
  also have "\<dots> = map fst m1"
    using selected_map(2) by (intro keyed_values) (simp add: m1_def keyed_filter)
  finally have keys: "map persistent_key new = map fst m1" .
  have "set (map fst (filter (\<lambda>e. P (fst e)) m)) = {k \<in> set (map_keys m). P k}" for P and m :: "(string, Transport) jsmap"
    by (auto simp: map_keys_def)
  then have "set (map fst m1) = {k \<in> set (map_keys ?m). k \<notin> persistent_key ` set l}"
    unfolding m1_def .
  then have "set (map fst m1) = sel - persistent_key ` set l"
    using has by (auto simp: map_has_keys)
  then have new_keys: "persistent_key ` set new = sel - persistent_key ` set l"
    by (metis keys list.set_map)
  have "distinct (map fst m1)" using selected_map(3) [of ts] by (simp add: m1_def map_wf_def distinct_map_filter)
  moreover have "m1 = [] \<longleftrightarrow> new = []" by (simp add: new_def map_values_def)
  ultimately show "case changed_persistent r ts True of
      None \<Rightarrow> sel \<subseteq> persistent_key ` set l
    | Some l' \<Rightarrow> \<exists>new. l' = l @ new \<and> new \<noteq> [] \<and> distinct (map persistent_key new) \<and>
        persistent_key ` set new = sel - persistent_key ` set l"
    using new_keys keys by (auto simp: changed_persistent_def m1 simp flip: l_def new_def)
qed

section \<open>The whole list\<close>

lemma transport_fits:
  assumes "col < length transport_columns" and "by_label \<Longrightarrow> labelProperties (transport_columns ! col) \<noteq> None"
    and "sortableColumns s = transport_columns"
  shows "fits_column s col by_label (VObj (transport_element instant st t))"
proof -
  have "col < 6" using assms(1) by (simp add: transport_columns_def)
  then consider "col = 0" | "col = 1" | "col = 2" | "col = 3" | "col = 4" | "col = 5" by linarith
  then show ?thesis
    using assms(2,3)
    by cases (cases by_label; simp add: fits_column_def transport_columns_def sort_path_def sort_mode_def transport_element_def)+
qed

interpretation tl: listed_elements "transport_element instant st" transport_columns 1 for instant st
  by unfold_locales (auto intro: transport_fits simp: transport_columns_def)


section \<open>Witnesses\<close>

definition running_transport :: "string \<Rightarrow> string \<Rightarrow> Transport" where
  "running_transport i remote =
     \<lparr>tr_id = i, tr_localPk = ''02aa'', remotePk = remote, tr_type = ''stcpr'', recv = 7, sent = 5,
      isPersistent = False, notFound = False\<rparr>"

theorem transports_marked_witness:
  "set (map transport_key (filter isPersistent (all_transports ''02aa''
      [\<lparr>pt_pk = ''02BB'', pt_type = ''STCPR''\<rparr>, \<lparr>pt_pk = ''02cc'', pt_type = ''sudph''\<rparr>]
      [running_transport ''t1'' ''02bb'', running_transport ''t2'' ''02dd'']))) = {''02BBSTCPR'', ''02CCSUDPH''}"
proof -
  let ?pts = "[\<lparr>pt_pk = ''02BB'', pt_type = ''STCPR''\<rparr>, \<lparr>pt_pk = ''02cc'', pt_type = ''sudph''\<rparr>]"
  have keys: "map persistent_key ?pts = [''02BBSTCPR'', ''02CCSUDPH'']" by code_simp
  have "persistent_key ` set ?pts = set (map persistent_key ?pts)" by (rule list.set_map [symmetric])
  then have "persistent_key ` set ?pts = {''02BBSTCPR'', ''02CCSUDPH''}"
    unfolding keys by (simp only: list.set)
  then show ?thesis
    using transports_marked [of "''02aa''" ?pts "[running_transport ''t1'' ''02bb'', running_transport ''t2'' ''02dd'']"]
    unfolding Let_def by (simp only: list.set_map)
qed


end
