(* ===== verification/Apps_List.thy ===== *)
theory Apps_List
  imports Transport_List
begin

text \<open>
  \<open>apps.service.ts\<close> and \<open>node-apps-list.component.ts\<close>: the requests for the apps of a visor, and the list
  that shows them, starts and stops them and changes their autostart setting. The visor is a
  parameter, a function from a request and its state to an error or an answer.
\<close>

section \<open>The requests\<close>

text \<open>\<open>encodeURIComponent\<close> of the language, for the characters of ASCII.\<close>

definition uri_unreserved :: "char \<Rightarrow> bool" where
  "uri_unreserved c \<longleftrightarrow>
     c \<in> set ''ABCDEFGHIJKLMNOPQRSTUVWXYZabcdefghijklmnopqrstuvwxyz0123456789'' \<or>
     (of_char c :: nat) \<in> {45, 95, 46, 33, 126, 42, 39, 40, 41}"

definition hex_digit :: "nat \<Rightarrow> char" where
  "hex_digit n = ''0123456789ABCDEF'' ! n"

definition encode_char :: "char \<Rightarrow> string" where
  "encode_char c =
     (if uri_unreserved c then [c]
      else [CHR ''%'', hex_digit ((of_char c :: nat) div 16), hex_digit ((of_char c :: nat) mod 16)])"

definition encodeURIComponent :: "string \<Rightarrow> string" where
  "encodeURIComponent s = concat (map encode_char s)"

definition changeAppSettings :: "string \<Rightarrow> string \<Rightarrow> element \<Rightarrow> http_request" where
  "changeAppSettings nodeKey appName settings =
     \<lparr>http_method = ''PUT'', http_url = ''visors/'' @ nodeKey @ ''/apps/'' @ encodeURIComponent appName,
      http_body = SettingsBody settings\<rparr>"

definition changeState_request :: "string \<Rightarrow> string \<Rightarrow> bool \<Rightarrow> http_request" where
  "changeState_request nodeKey appName startApp =
     \<lparr>http_method = ''PUT'', http_url = ''visors/'' @ nodeKey @ ''/apps/'' @ encodeURIComponent appName,
      http_body = SettingsBody [(''status'', VNum (if startApp then 1 else 0))]\<rparr>"

definition changeAppAutostart :: "string \<Rightarrow> string \<Rightarrow> bool \<Rightarrow> http_request" where
  "changeAppAutostart nodeKey appName b = changeAppSettings nodeKey appName [(''autostart'', VBool b)]"

definition getLogMessagesUrl :: "string \<Rightarrow> string \<Rightarrow> string" where
  "getLogMessagesUrl nodeKey appName = ''visors/'' @ nodeKey @ ''/apps/'' @ encodeURIComponent appName @ ''/logs''"

section \<open>The list\<close>

definition officialAppsList :: "string set" where
  "officialAppsList = {''skychat'', ''skysocks'', ''skysocks-client'', ''vpn-client'', ''vpn-server''}"

definition app_element :: "Application \<Rightarrow> element" where
  "app_element a =
     [(''name'', VStr (app_name a)), (''autostart'', VBool (autostart a)), (''port'', VNum (port a)),
      (''status'', VNum (app_status a)), (''detailedStatus'', VStr (detailedStatus a))]"

definition apps_columns :: "SortingColumn list" where
  "apps_columns =
     [\<lparr>properties = [''status''], column_label = ''apps.apps-list.state'', sortingMode = NumberReversed, labelProperties = None\<rparr>,
      \<lparr>properties = [''name''], column_label = ''apps.apps-list.app-name'', sortingMode = TextMode, labelProperties = None\<rparr>,
      \<lparr>properties = [''port''], column_label = ''apps.apps-list.port'', sortingMode = NumberMode, labelProperties = None\<rparr>,
      \<lparr>properties = [''autostart''], column_label = ''apps.apps-list.auto-start'', sortingMode = BooleanMode, labelProperties = None\<rparr>]"

definition apps_filters :: "CompleteFilterProperties list" where
  "apps_filters =
     [\<lparr>filterName = ''apps.apps-list.filter-dialog.state'',
       printableLabelsForValues = Some
         [\<lparr>pl_value = [], pl_label = ''apps.apps-list.filter-dialog.state-options.any''\<rparr>,
          \<lparr>pl_value = ''1'', pl_label = ''apps.apps-list.filter-dialog.state-options.running''\<rparr>,
          \<lparr>pl_value = ''0'', pl_label = ''apps.apps-list.filter-dialog.state-options.stopped''\<rparr>],
       filter_type = Select, keyNameInElementsArray = ''status'', secondaryKeyNameInElementsArray = None,
       keyNameInFiltersObject = []\<rparr>,
      \<lparr>filterName = ''apps.apps-list.filter-dialog.name'', printableLabelsForValues = None, filter_type = TextInput,
       keyNameInElementsArray = ''name'', secondaryKeyNameInElementsArray = None, keyNameInFiltersObject = []\<rparr>,
      \<lparr>filterName = ''apps.apps-list.filter-dialog.port'', printableLabelsForValues = None, filter_type = TextInput,
       keyNameInElementsArray = ''port'', secondaryKeyNameInElementsArray = None, keyNameInFiltersObject = []\<rparr>,
      \<lparr>filterName = ''apps.apps-list.filter-dialog.autostart'',
       printableLabelsForValues = Some
         [\<lparr>pl_value = [], pl_label = ''apps.apps-list.filter-dialog.autostart-options.any''\<rparr>,
          \<lparr>pl_value = ''true'', pl_label = ''apps.apps-list.filter-dialog.autostart-options.enabled''\<rparr>,
          \<lparr>pl_value = ''false'', pl_label = ''apps.apps-list.filter-dialog.autostart-options.disabled''\<rparr>],
       filter_type = Select, keyNameInElementsArray = ''autostart'', secondaryKeyNameInElementsArray = None,
       keyNameInFiltersObject = []\<rparr>]"

record apps_list =
  al_list :: "string list_component"
  showOfficialApps :: bool
  allApps :: "Application list"
  allAppsForType :: "Application list"
  refreshAgain :: bool

definition app_ident :: "element \<Rightarrow> string" where "app_ident e = prop_text e ''name''"

definition apps_list_id :: "bool \<Rightarrow> string" where
  "apps_list_id official = (if official then ''op'' else ''up'')"

definition new_apps_list :: "hv_store \<Rightarrow> (string, string) jsmap \<Rightarrow> bool \<Rightarrow> bool \<Rightarrow> apps_list" where
  "new_apps_list st q short official =
     \<lparr>al_list = new_list_component st apps_columns 1 apps_filters (apps_list_id official) q short,
      showOfficialApps = official, allApps = [], allAppsForType = [], refreshAgain = False\<rparr>"

definition apps_of_type :: "bool \<Rightarrow> Application list \<Rightarrow> Application list" where
  "apps_of_type official as =
     fold (\<lambda>a l. if official \<and> app_name a \<in> officialAppsList then l @ [a]
                else if \<not> official \<and> app_name a \<notin> officialAppsList then l @ [a] else l) as []"

text \<open>
  The setter of the data. The list is calculated once, and a second refresh that was asked for is
  started then; the second component of the result is whether it was.
\<close>

definition set_apps ::
  "(string \<Rightarrow> string \<Rightarrow> int) \<Rightarrow> Application list option \<Rightarrow> apps_list \<Rightarrow> (apps_list \<times> bool) js_result" where
  "set_apps collate val c =
     (let all = (case val of Some as \<Rightarrow> as | None \<Rightarrow> []);
          typed = apps_of_type (showOfficialApps c) all in
      bindR (set_list_data collate app_ident (map app_element typed) (al_list c)) (\<lambda>l.
        Inr (c\<lparr>allApps := all, allAppsForType := typed, al_list := l, refreshAgain := False\<rparr>, refreshAgain c)))"

definition apps_params :: "string option \<Rightarrow> int option option \<Rightarrow> apps_list \<Rightarrow> apps_list \<times> bool" where
  "apps_params official page c =
     (let c1 = (case official of Some s \<Rightarrow> c\<lparr>showOfficialApps := (to_upper s = to_upper ''true'')\<rparr> | None \<Rightarrow> c)
      in case page of
           Some n \<Rightarrow> (c1\<lparr>al_list := page_changed app_ident n (al_list c1), refreshAgain := False\<rparr>, refreshAgain c1)
         | None \<Rightarrow> (c1, False))"

section \<open>What the list shows of an app\<close>

definition app_stopped :: "int \<Rightarrow> bool" where "app_stopped st \<longleftrightarrow> st = 0 \<or> st = 2"

text \<open>
  \<open>getLink\<close>, with the origin of the page. The port of an address without a colon is \<open>undefined\<close>, whose
  method \<open>startsWith\<close> is an error.
\<close>

fun chat_address :: "string \<Rightarrow> string list \<Rightarrow> string \<times> string option \<Rightarrow> string \<times> string option" where
  "chat_address nodeIp (x # y # r) (url, prt) =
     chat_address nodeIp (y # r)
       (if x = ''-addr'' then
          let parts = split_on CHR '':'' (trim y)
          in (if hd parts = ''*'' then nodeIp else url, if 1 < length parts then Some (parts ! 1) else None)
        else (url, prt))"
| "chat_address nodeIp xs acc = acc"

fun url_arg :: "string list \<Rightarrow> string option" where
  "url_arg (x # y # r) = (if to_lower x \<in> {''url'', ''-url''} then Some (trim y) else url_arg (y # r))"
| "url_arg _ = None"

definition getLink :: "string \<Rightarrow> string \<Rightarrow> string \<Rightarrow> Application \<Rightarrow> string option js_result" where
  "getLink origin nodeIp pk a =
     (if to_lower (app_name a) = ''skychat'' \<and> nodeIp \<noteq> [] \<and> \<not> app_stopped (app_status a) then
        (case chat_address nodeIp (app_args a) (''127.0.0.1'', Some ''8001'') of
           (url, None) \<Rightarrow> Inl TypeError
         | (url, Some p) \<Rightarrow>
             Inr (Some (''http://'' @ url @ (if starts_with p '':'' then p else CHR '':'' # p))))
      else if to_lower (app_name a) = ''vpn-client'' \<and> pk \<noteq> [] then
        Inr (Some (origin @ ''/#/vpn/'' @ pk @ ''/status''))
      else if app_name a \<notin> officialAppsList then Inr (url_arg (app_args a))
      else Inr None)"

definition getStateClass :: "int \<Rightarrow> string" where
  "getStateClass st = (if st = 1 then ''dot-green'' else if st = 3 then ''dot-yellow'' else ''dot-red'')"

definition getSmallScreenStateClass :: "int \<Rightarrow> string" where
  "getSmallScreenStateClass st =
     (if st = 1 then ''green-clear-text'' else if st = 3 then ''yellow-clear-text'' else ''red-clear-text'')"

definition getStateTooltip :: "int \<Rightarrow> string" where
  "getStateTooltip st =
     (if st = 1 then ''apps.status-running-tooltip'' else if st = 3 then ''apps.status-connecting-tooltip''
      else ''apps.status-stopped-tooltip'')"

definition getSmallScreenStateTextVar :: "int \<Rightarrow> string" where
  "getSmallScreenStateTextVar st =
     (if st = 1 then ''apps.status-running'' else if st = 2 then ''apps.status-failed''
      else if st = 3 then ''apps.status-connecting'' else ''apps.status-stopped'')"

section \<open>Changing apps\<close>

text \<open>
  The answer of a visor to a change: the new state and its description, when the answer has them.
\<close>

type_synonym app_answer = "(int \<times> string) option"

text \<open>
  The environment of an operation: the visor with its state, and the objects that stand for the
  errors the language throws, which reach the same handler as the errors of the visor.
\<close>

record 'b visor =
  va_answer :: "http_request \<Rightarrow> 'b \<Rightarrow> jsval + app_answer \<times> 'b"
  va_exn :: "js_error \<Rightarrow> jsval"

definition put_prop :: "string \<Rightarrow> jsval \<Rightarrow> element \<Rightarrow> element" where
  "put_prop k v e = map (\<lambda>(k', w). (k', if k' = k then v else w)) e"

definition with_status :: "string \<Rightarrow> int \<times> string \<Rightarrow> element \<Rightarrow> element" where
  "with_status appName s e =
     (if app_ident e = appName
      then put_prop ''detailedStatus'' (VStr (snd s)) (put_prop ''status'' (VNum (fst s)) e) else e)"

text \<open>
  The objects of the page are those of the filtered list, so a change of one is seen in both. The
  objects are found by their name here; a visor has one app of each name.
\<close>

definition status_answered :: "string \<Rightarrow> app_answer \<Rightarrow> apps_list \<Rightarrow> apps_list js_result" where
  "status_answered appName resp c =
     (case resp of
        None \<Rightarrow> Inr c
      | Some s \<Rightarrow>
          (case lc_toShow (al_list c) of
             None \<Rightarrow> Inl TypeError
           | Some es \<Rightarrow>
               Inr (c\<lparr>al_list := (al_list c)\<lparr>lc_toShow := Some (map (with_status appName s) es),
                  lc_filtered := map_option (map (with_status appName s)) (lc_filtered (al_list c))\<rparr>\<rparr>)))"

definition snackbar_error :: "jsval \<Rightarrow> ui_event" where
  "snackbar_error err = (case processServiceError err of Inr e \<Rightarrow> SnackbarError e | Inl x \<Rightarrow> UncaughtError x)"

definition operation_error_shown :: "bool \<Rightarrow> jsval \<Rightarrow> ui_event" where
  "operation_error_shown hasDialog err = (if hasDialog then error_shown err else snackbar_error err)"

definition change_request :: "string \<Rightarrow> bool \<Rightarrow> bool \<Rightarrow> string \<Rightarrow> http_request" where
  "change_request nodeKey changingAutostart newVal appName =
     (if changingAutostart then changeAppAutostart nodeKey appName newVal
      else changeState_request nodeKey appName newVal)"

text \<open>
  One request with the step that \<open>startChangingAppState\<close> adds to it. An error that this step throws is
  the error of the operation.
\<close>

definition run_change ::
  "'b visor \<Rightarrow> string \<Rightarrow> bool \<Rightarrow> bool \<Rightarrow> string \<Rightarrow> apps_list \<times> 'b \<Rightarrow>
   (jsval \<times> 'b) + (apps_list \<times> 'b)" where
  "run_change visor nodeKey changingAutostart newVal appName s =
     (case va_answer visor (change_request nodeKey changingAutostart newVal appName) (snd s) of
        Inl err \<Rightarrow> Inl (err, snd s)
      | Inr (resp, b) \<Rightarrow>
          if changingAutostart then Inr (fst s, b)
          else (case status_answered appName resp (fst s) of Inr c \<Rightarrow> Inr (c, b) | Inl x \<Rightarrow> Inl (va_exn visor x, b)))"

definition changeSingleAppVal ::
  "'b visor \<Rightarrow> string \<Rightarrow> bool \<Rightarrow> bool \<Rightarrow> bool \<Rightarrow> string \<Rightarrow> apps_list \<times> 'b \<Rightarrow>
   (apps_list \<times> 'b) \<times> ui_event list" where
  "changeSingleAppVal visor nodeKey hasDialog changingAutostart newVal appName s =
     (case run_change visor nodeKey changingAutostart newVal appName s of
        Inl (err, b) \<Rightarrow> ((fst s, b), [RefreshTwice, operation_error_shown hasDialog err])
      | Inr s' \<Rightarrow> (s', (if hasDialog then [CloseDialog] else []) @ [RefreshTwice, SnackbarDone ''apps.operation-completed'']))"

function changeAppsValRecursively ::
  "'b visor \<Rightarrow> string \<Rightarrow> bool \<Rightarrow> string list \<Rightarrow> bool \<Rightarrow> bool \<Rightarrow> apps_list \<times> 'b \<Rightarrow>
   (apps_list \<times> 'b) \<times> ui_event list" where
  "changeAppsValRecursively visor nodeKey hasDialog names changingAutostart newVal s =
     (if length names = 0 then
        (s, [RefreshData, SnackbarWarning ''apps.operation-unnecessary''] @ (if hasDialog then [CloseDialog] else []))
      else
        (case run_change visor nodeKey changingAutostart newVal (last names) s of
           Inl (err, b) \<Rightarrow> ((fst s, b), [RefreshTwice, operation_error_shown hasDialog err])
         | Inr s' \<Rightarrow>
             if length (butlast names) = 0 then
               (s', (if hasDialog then [CloseDialog] else []) @ [RefreshTwice, SnackbarDone ''apps.operation-completed''])
             else changeAppsValRecursively visor nodeKey hasDialog (butlast names) changingAutostart newVal s'))"
  by pat_completeness auto
termination
  by (relation "measure (\<lambda>(visor, nodeKey, hasDialog, names, changingAutostart, newVal, s). length names)") auto

declare changeAppsValRecursively.simps [simp del]

definition prop_status :: "element \<Rightarrow> int" where
  "prop_status e = (case map_of e ''status'' of Some (VNum n) \<Rightarrow> n | _ \<Rightarrow> 0)"

definition prop_autostart :: "element \<Rightarrow> bool" where
  "prop_autostart e = (case map_of e ''autostart'' of Some v \<Rightarrow> val_truthy v | None \<Rightarrow> False)"

text \<open>\<open>appsMap\<close> is made from the elements of the page whenever the page is.\<close>

definition appsMap :: "apps_list \<Rightarrow> (string, element) jsmap" where
  "appsMap c = fold (\<lambda>e. map_set (app_ident e) e) (case lc_toShow (al_list c) of Some es \<Rightarrow> es | None \<Rightarrow> []) []"

definition selected_to_change :: "(element \<Rightarrow> bool) \<Rightarrow> apps_list \<Rightarrow> string list js_result" where
  "selected_to_change needed c =
     foldR (\<lambda>(k, v) names.
        if v then (case map_get (appsMap c) k of
                     None \<Rightarrow> Inl TypeError
                   | Some e \<Rightarrow> Inr (if needed e then names @ [k] else names))
        else Inr names) (lc_selections (al_list c)) []"

text \<open>The two operations on the selected apps; \<open>accepted\<close> is the answer to the question.\<close>

definition changeStateOfSelected ::
  "'b visor \<Rightarrow> string \<Rightarrow> bool \<Rightarrow> bool \<Rightarrow> apps_list \<times> 'b \<Rightarrow>
   ((apps_list \<times> 'b) \<times> ui_event list) js_result" where
  "changeStateOfSelected visor nodeKey startApps accepted s =
     bindR (selected_to_change
         (\<lambda>e. (startApps \<and> app_stopped (prop_status e)) \<or> (\<not> startApps \<and> \<not> app_stopped (prop_status e))) (fst s)) (\<lambda>names.
       if startApps then Inr (changeAppsValRecursively visor nodeKey False names False startApps s)
       else if accepted then Inr (changeAppsValRecursively visor nodeKey True names False startApps s)
       else Inr (s, []))"

definition changeAutostartOfSelected ::
  "'b visor \<Rightarrow> string \<Rightarrow> bool \<Rightarrow> bool \<Rightarrow> apps_list \<times> 'b \<Rightarrow>
   ((apps_list \<times> 'b) \<times> ui_event list) js_result" where
  "changeAutostartOfSelected visor nodeKey newVal accepted s =
     bindR (selected_to_change (\<lambda>e. (newVal \<and> \<not> prop_autostart e) \<or> (\<not> newVal \<and> prop_autostart e)) (fst s)) (\<lambda>names.
       if accepted then Inr (changeAppsValRecursively visor nodeKey True names True newVal s)
       else Inr (s, []))"

definition changeAppState_one ::
  "'b visor \<Rightarrow> string \<Rightarrow> element \<Rightarrow> bool \<Rightarrow> apps_list \<times> 'b \<Rightarrow>
   (apps_list \<times> 'b) \<times> ui_event list" where
  "changeAppState_one visor nodeKey e accepted s =
     (if app_stopped (prop_status e) then changeSingleAppVal visor nodeKey False False True (app_ident e) s
      else if accepted then changeSingleAppVal visor nodeKey True False False (app_ident e) s
      else (s, []))"

definition changeAppAutostart_one ::
  "'b visor \<Rightarrow> string \<Rightarrow> element \<Rightarrow> bool \<Rightarrow> apps_list \<times> 'b \<Rightarrow>
   (apps_list \<times> 'b) \<times> ui_event list" where
  "changeAppAutostart_one visor nodeKey e accepted s =
     (if accepted then changeSingleAppVal visor nodeKey True True (\<not> prop_autostart e) (app_ident e) s else (s, []))"

text \<open>What happens 50 milliseconds after an operation ended.\<close>

definition refresh_twice :: "apps_list \<Rightarrow> apps_list" where
  "refresh_twice c = c\<lparr>refreshAgain := True\<rparr>"

datatype app_option = ViewLogs | ChangeAppState | ChangeAutostart | OpenConfig | NoAppOption

definition app_options :: "string set \<Rightarrow> element \<Rightarrow> string list" where
  "app_options appsWithoutConfig e =
     [''apps.view-logs'',
      if app_stopped (prop_status e) then ''apps.start-app'' else ''apps.stop-app'',
      if prop_autostart e then ''apps.apps-list.disable-autostart'' else ''apps.apps-list.enable-autostart''] @
     (if app_ident e \<notin> appsWithoutConfig then [''apps.settings''] else [])"

definition app_option_selected :: "nat option \<Rightarrow> app_option" where
  "app_option_selected selectedOption =
     (if selectedOption = Some 1 then ViewLogs else if selectedOption = Some 2 then ChangeAppState
      else if selectedOption = Some 3 then ChangeAutostart else if selectedOption = Some 4 then OpenConfig else NoAppOption)"

datatype config_dialog = SkychatSettings | SkysocksSettings | SkysocksClientSettings | UserAppSettings

definition config_of :: "string \<Rightarrow> config_dialog" where
  "config_of appName =
     (if appName = ''skychat'' then SkychatSettings
      else if appName = ''skysocks'' \<or> appName = ''vpn-server'' then SkysocksSettings
      else if appName = ''skysocks-client'' \<or> appName = ''vpn-client'' then SkysocksClientSettings
      else UserAppSettings)"

definition viewLogs :: "element \<Rightarrow> string option" where
  "viewLogs e = (if \<not> app_stopped (prop_status e) then None else Some ''apps.apps-list.unavailable-logs-error'')"

section \<open>The addresses of the requests\<close>

definition uri_hex_val :: "char \<Rightarrow> nat" where
  "uri_hex_val c = (if is_digit c then of_char c - 48 else of_char c - 55)"

fun decode_uri :: "string \<Rightarrow> string" where
  "decode_uri [] = []"
| "decode_uri (c # r) =
     (case r of
        a # b # r' \<Rightarrow> if c = CHR ''%'' then char_of (uri_hex_val a * 16 + uri_hex_val b) # decode_uri r' else c # decode_uri r
      | _ \<Rightarrow> c # decode_uri r)"

lemma uri_hex_val_digit: "n < 16 \<Longrightarrow> uri_hex_val (hex_digit n) = n"
proof -
  assume "n < 16"
  then have "n \<in> set [0..<16]" by simp
  moreover have "\<forall>m \<in> set [0..<16]. uri_hex_val (hex_digit m) = m" by code_simp
  ultimately show ?thesis by blast
qed

lemma decode_encode_char: "decode_uri (encode_char c @ r) = c # decode_uri r"
proof (cases "uri_unreserved c")
  case True
  then have "c \<noteq> CHR ''%''" by (auto simp: uri_unreserved_def)
  then show ?thesis using True by (simp add: encode_char_def split: list.split)
next
  case False
  have c: "(of_char c :: nat) < 256" using nat_of_char_less_256 by blast
  have "(of_char c :: nat) div 16 < 16" using c by (simp add: div_less_iff_less_mult)
  then have "uri_hex_val (hex_digit ((of_char c :: nat) div 16)) = of_char c div 16"
    "uri_hex_val (hex_digit ((of_char c :: nat) mod 16)) = of_char c mod 16"
    by (auto intro!: uri_hex_val_digit)
  then show ?thesis using False by (simp add: encode_char_def)
qed

lemma decode_encode [simp]: "decode_uri (encodeURIComponent s) = s"
  by (induction s) (simp_all add: encodeURIComponent_def decode_encode_char)

section \<open>The whole list\<close>

lemma apps_of_type_filter:
  "apps_of_type official as = filter (\<lambda>a. (app_name a \<in> officialAppsList) = official) as"
proof -
  have "fold (\<lambda>a l. if official \<and> app_name a \<in> officialAppsList then l @ [a]
                else if \<not> official \<and> app_name a \<notin> officialAppsList then l @ [a] else l) as acc =
      acc @ filter (\<lambda>a. (app_name a \<in> officialAppsList) = official) as" for acc
    by (induction as arbitrary: acc) auto
  then show ?thesis by (simp add: apps_of_type_def)
qed

lemma app_fits:
  assumes "col < length apps_columns" and "by_label \<Longrightarrow> labelProperties (apps_columns ! col) \<noteq> None"
    and "sortableColumns s = apps_columns"
  shows "fits_column s col by_label (VObj (app_element a))"
proof -
  have "col < 4" using assms(1) by (simp add: apps_columns_def)
  then consider "col = 0" | "col = 1" | "col = 2" | "col = 3" by linarith
  then show ?thesis
    using assms(2,3)
    by cases (cases by_label; simp add: fits_column_def apps_columns_def sort_path_def sort_mode_def app_element_def)+
qed

interpretation apl: listed_elements app_element apps_columns 1
  by unfold_locales (auto intro: app_fits simp: apps_columns_def)

text \<open>
  The list of apps: giving it the data of a visor never throws; it has exactly the
  official apps, or exactly the others, that pass the filters, in the selected order and with the page
  and the check boxes of the page; and a second refresh that was asked for is started once.
\<close>

theorem set_apps_correct:
  assumes "collation collate" and "list_sorter_ok apps_columns 1 (lc_sorter (al_list c))"
  shows "\<exists>c' ys. set_apps collate (Some as) c = Inr (c', refreshAgain c) \<and> \<not> refreshAgain c' \<and>
    list_shows app_ident (al_list c) ys (al_list c') \<and>
    mset ys = mset (filter (passes_filters (lc_filterer (al_list c)))
      (map app_element (filter (\<lambda>a. (app_name a \<in> officialAppsList) = showOfficialApps c) as))) \<and>
    sorted_elements collate (lc_sorter (al_list c)) ys"
proof -
  let ?as = "filter (\<lambda>a. (app_name a \<in> officialAppsList) = showOfficialApps c) as"
  from apl.set_data [OF assms, of app_ident ?as] obtain lc ys
    where lc: "set_list_data collate app_ident (map app_element ?as) (al_list c) = Inr lc"
      "list_shows app_ident (al_list c) ys lc"
      "mset ys = mset (filter (passes_filters (lc_filterer (al_list c))) (map app_element ?as))"
      "sorted_elements collate (lc_sorter (al_list c)) ys"
    by (elim exE conjE)
  let ?c = "c\<lparr>allApps := as, allAppsForType := ?as, al_list := lc, refreshAgain := False\<rparr>"
  have "set_apps collate (Some as) c = Inr (?c, refreshAgain c)"
    by (simp add: set_apps_def apps_of_type_filter lc(1))
  then show ?thesis using lc(2-4) by (intro exI [of _ ?c] exI [of _ ys]) simp
qed

section \<open>Changing the selected apps\<close>

text \<open>The reference: one change after the other until one fails.\<close>

fun changes_in_order ::
  "'b visor \<Rightarrow> string \<Rightarrow> bool \<Rightarrow> bool \<Rightarrow> string list \<Rightarrow> apps_list \<times> 'b \<Rightarrow> (apps_list \<times> 'b) \<times> jsval option" where
  "changes_in_order v nodeKey ca nv [] s = (s, None)"
| "changes_in_order v nodeKey ca nv (k # ks) s =
     (case run_change v nodeKey ca nv k s of
        Inl (err, b) \<Rightarrow> ((fst s, b), Some err)
      | Inr s' \<Rightarrow> changes_in_order v nodeKey ca nv ks s')"

definition change_events :: "bool \<Rightarrow> jsval option \<Rightarrow> ui_event list" where
  "change_events hasDialog r =
     (case r of
        None \<Rightarrow> (if hasDialog then [CloseDialog] else []) @ [RefreshTwice, SnackbarDone ''apps.operation-completed'']
      | Some err \<Rightarrow> [RefreshTwice, operation_error_shown hasDialog err])"

lemma changeApps_order:
  assumes "names \<noteq> []"
  shows "changeAppsValRecursively v nodeKey hasDialog names ca nv s =
    (fst (changes_in_order v nodeKey ca nv (rev names) s),
     change_events hasDialog (snd (changes_in_order v nodeKey ca nv (rev names) s)))"
  using assms
proof (induction names arbitrary: s rule: rev_induct)
  case (snoc k ks)
  show ?case
  proof (cases "run_change v nodeKey ca nv k s")
    case (Inl e)
    then show ?thesis
      by (cases e) (simp add: changeAppsValRecursively.simps [of v nodeKey hasDialog "ks @ [k]"] change_events_def)
  next
    case (Inr s')
    then show ?thesis
      using snoc.IH [of s'] by (simp add: changeAppsValRecursively.simps [of v nodeKey hasDialog "ks @ [k]"] change_events_def)
  qed
qed simp

lemma appsMap_get:
  assumes "lc_toShow (al_list c) = Some es" and "distinct (map app_ident es)"
  shows "map_get (appsMap c) k = find (\<lambda>e. app_ident e = k) es"
proof -
  have "appsMap c = map (\<lambda>e. (app_ident e, e)) es"
    using assms map_sets_empty [of app_ident es "\<lambda>e. e"] by (simp add: appsMap_def)
  moreover have "map_of (map (\<lambda>e. (app_ident e, e)) es) k = find (\<lambda>e. app_ident e = k) es" by (induction es) auto
  ultimately show ?thesis by (simp add: map_get_def)
qed

definition chosen :: "(element \<Rightarrow> bool) \<Rightarrow> (string, bool) jsmap \<Rightarrow> element list \<Rightarrow> string set" where
  "chosen needed sel es = {app_ident e | e. e \<in> set es \<and> needed e \<and> map_get sel (app_ident e) = Some True}"

lemma selected_result:
  assumes "lc_toShow (al_list c) = Some es" and "distinct (map app_ident es)" and "map_wf (lc_selections (al_list c))"
    and "\<And>k. map_get (lc_selections (al_list c)) k = Some True \<Longrightarrow> k \<in> app_ident ` set es"
  obtains names where "selected_to_change needed c = Inr names" and "distinct names"
    and "set names = chosen needed (lc_selections (al_list c)) es"
proof -
  let ?sel = "lc_selections (al_list c)"
  define want where "want = (\<lambda>x. snd x \<and> (\<exists>e \<in> set es. app_ident e = fst x \<and> needed e))"
  have entry: "\<exists>e \<in> set es. app_ident e = k \<and> map_get (appsMap c) k = Some e \<and> (needed e \<longleftrightarrow> want (k, True))"
    if "(k, True) \<in> set ?sel" for k
  proof -
    have "map_get ?sel k = Some True" using map_get_entry [OF assms(3)] that by simp
    then have "k \<in> app_ident ` set es" by (rule assms(4))
    then obtain e where e: "e \<in> set es" "app_ident e = k" by auto
    have "find (\<lambda>e. app_ident e = k) es = Some e"
      using e by (simp only: find_key_distinct [OF assms(2)])
    then have "map_get (appsMap c) k = Some e" by (simp only: appsMap_get [OF assms(1,2)])
    moreover have "e' = e" if "e' \<in> set es" "app_ident e' = k" for e'
      by (rule distinct_key_unique [OF assms(2) that(1) e(1)]) (simp add: that e)
    then have "want (k, True) \<longleftrightarrow> needed e" unfolding want_def using e by fastforce
    ultimately show ?thesis using e by (intro bexI [of _ e]) simp_all
  qed
  have "foldR (\<lambda>(k, v) names.
        if v then (case map_get (appsMap c) k of
                     None \<Rightarrow> Inl TypeError
                   | Some e \<Rightarrow> Inr (if needed e then names @ [k] else names))
        else Inr names) xs acc = Inr (acc @ map fst (filter want xs))" if "set xs \<subseteq> set ?sel" for xs acc
    using that
  proof (induction xs arbitrary: acc)
    case (Cons x xs)
    obtain k v where x: "x = (k, v)" by (cases x)
    show ?case
    proof (cases v)
      case True
      then obtain e where "map_get (appsMap c) k = Some e" "needed e \<longleftrightarrow> want (k, True)"
        using entry [of k] Cons.prems x by auto
      then show ?thesis using Cons True x by simp
    next
      case False
      then show ?thesis using Cons x by (simp add: want_def)
    qed
  qed simp
  then have run: "selected_to_change needed c = Inr (map fst (filter want ?sel))" by (simp add: selected_to_change_def)
  have "set (map fst (filter want ?sel)) = chosen needed ?sel es"
    using map_get_entry [OF assms(3)] by (auto simp: want_def chosen_def image_iff)
  then show thesis using that [OF run] assms(3) by (simp add: map_wf_def distinct_map_filter)
qed

text \<open>
  Starting and stopping the selected apps. When the selected apps are on the page, which
  a recalculation of the page ensures, the operation never throws; exactly the selected apps that are
  not already in the wanted state get a request, one at a time and until the first failure; nothing
  is requested when there are none, or when the apps would be stopped and the user does not confirm.
\<close>

theorem selected_apps_state:
  assumes "lc_toShow (al_list c) = Some es" and "distinct (map app_ident es)" and "map_wf (lc_selections (al_list c))"
    and "\<forall>k. map_get (lc_selections (al_list c)) k = Some True \<longrightarrow> k \<in> app_ident ` set es"
  shows "\<exists>names. distinct names \<and>
    set names = chosen (\<lambda>e. app_stopped (prop_status e) = startApps) (lc_selections (al_list c)) es \<and>
    changeStateOfSelected visor nodeKey startApps accepted (c, b) =
      Inr (if \<not> startApps \<and> \<not> accepted then ((c, b), [])
           else if names = [] then
             ((c, b), [RefreshData, SnackbarWarning ''apps.operation-unnecessary''] @ (if startApps then [] else [CloseDialog]))
           else let r = changes_in_order visor nodeKey False startApps names (c, b)
                in (fst r, change_events (\<not> startApps) (snd r)))"
proof -
  have needed: "(\<lambda>e. (startApps \<and> app_stopped (prop_status e)) \<or> (\<not> startApps \<and> \<not> app_stopped (prop_status e))) =
      (\<lambda>e. app_stopped (prop_status e) = startApps)" by auto
  from selected_result [OF assms(1-3) assms(4) [rule_format], of "\<lambda>e. app_stopped (prop_status e) = startApps"] obtain names where
    n: "selected_to_change (\<lambda>e. app_stopped (prop_status e) = startApps) c = Inr names" "distinct names"
      "set names = chosen (\<lambda>e. app_stopped (prop_status e) = startApps) (lc_selections (al_list c)) es" .
  show ?thesis
  proof (cases "names = []")
    case True
    then show ?thesis
      using n by (intro exI [of _ "[]"])
        (simp add: changeStateOfSelected_def needed changeAppsValRecursively.simps [of _ _ _ "[]"])
  next
    case False
    then show ?thesis
      using n by (intro exI [of _ "rev names"])
        (simp add: changeStateOfSelected_def needed changeApps_order Let_def)
  qed
qed

section \<open>The link of the chat\<close>

text \<open>
  The link of the chat app that is running on a visor with an address: with no address
  argument it is the default port of the local machine; with \<open>*:port\<close> it is that port on the visor;
  but an address argument without a colon makes the computation of the link, and so the list, throw.
\<close>

theorem chat_link:
  assumes "to_lower (app_name a) = ''skychat''" and "nodeIp \<noteq> []" and "\<not> app_stopped (app_status a)"
  shows "app_args a = [] \<longrightarrow> getLink origin nodeIp pk a = Inr (Some ''http://127.0.0.1:8001'')"
    and "app_args a = [''-addr'', CHR ''*'' # CHR '':'' # p] \<and> list_all is_digit p \<and> p \<noteq> [] \<longrightarrow>
      getLink origin nodeIp pk a = Inr (Some (''http://'' @ nodeIp @ CHR '':'' # p))"
    and "app_args a = [''-addr'', x] \<and> CHR '':'' \<notin> set (trim x) \<longrightarrow> getLink origin nodeIp pk a = Inl TypeError"
proof -
  have digit: "CHR '':'' \<notin> set p" "trim (CHR ''*'' # CHR '':'' # p) = CHR ''*'' # CHR '':'' # p" if "list_all is_digit p" "p \<noteq> []"
  proof -
    show "CHR '':'' \<notin> set p" using that by (auto simp: list_all_iff is_digit_def)
    have "\<not> is_ws (last p)" using that by (auto simp: list_all_iff intro!: is_digit_not_ws)
    then show "trim (CHR ''*'' # CHR '':'' # p) = CHR ''*'' # CHR '':'' # p"
      using that(2) by (cases p rule: rev_cases) (auto simp: trim_def is_ws_def)
  qed
  show "app_args a = [] \<longrightarrow> getLink origin nodeIp pk a = Inr (Some ''http://127.0.0.1:8001'')"
    using assms by (simp add: getLink_def starts_with_def)
  show "app_args a = [''-addr'', CHR ''*'' # CHR '':'' # p] \<and> list_all is_digit p \<and> p \<noteq> [] \<longrightarrow>
      getLink origin nodeIp pk a = Inr (Some (''http://'' @ nodeIp @ CHR '':'' # p))"
  proof
    assume a: "app_args a = [''-addr'', CHR ''*'' # CHR '':'' # p] \<and> list_all is_digit p \<and> p \<noteq> []"
    then have "split_on CHR '':'' (trim (CHR ''*'' # CHR '':'' # p)) = [''*'', p]"
      using digit split_on_append [of "CHR '':''" "''*''" p] split_on_single [of "CHR '':''" p] by simp
    moreover have "\<not> starts_with p '':''" using digit a by (auto simp: starts_with_iff)
    ultimately show "getLink origin nodeIp pk a = Inr (Some (''http://'' @ nodeIp @ CHR '':'' # p))"
      using assms a by (simp add: getLink_def)
  qed
  show "app_args a = [''-addr'', x] \<and> CHR '':'' \<notin> set (trim x) \<longrightarrow> getLink origin nodeIp pk a = Inl TypeError"
    using assms by (simp add: getLink_def split_on_single)
qed

section \<open>Witnesses\<close>

definition chat_app :: Application where
  "chat_app = \<lparr>app_name = ''skychat'', autostart = False, port = 1, app_status = 0, detailedStatus = [], app_args = []\<rparr>"

theorem set_apps_correct_witness:
  "\<exists>c'. set_apps length_collate (Some [chat_app])
     (new_apps_list \<lparr>localStorage = (\<lambda>_. None), hypervisorPk = ''hv''\<rparr> [] False True) = Inr c'"
proof -
  let ?c = "new_apps_list \<lparr>localStorage = (\<lambda>_. None), hypervisorPk = ''hv''\<rparr> [] False True"
  have ok: "list_sorter_ok apps_columns 1 (lc_sorter (al_list ?c))"
    unfolding new_apps_list_def apps_list.select_convs by (rule new_list_sorter_ok) (simp_all add: apps_columns_def)
  from set_apps_correct [OF length_collation ok, of "[chat_app]"] show ?thesis by (elim exE conjE) (rule exI)
qed

definition page_with_chat :: apps_list where
  "page_with_chat = (let c = new_apps_list \<lparr>localStorage = (\<lambda>_. None), hypervisorPk = ''hv''\<rparr> [] False True
     in c\<lparr>al_list := (al_list c)\<lparr>lc_toShow := Some [app_element chat_app], lc_selections := [(''skychat'', True)]\<rparr>\<rparr>)"

definition good_visor :: "unit visor" where
  "good_visor = \<lparr>va_answer = (\<lambda>r b. Inr (Some (1, ''running''), b)), va_exn = (\<lambda>x. VUndef)\<rparr>"

theorem selected_apps_state_witness:
  "\<exists>r. changeStateOfSelected good_visor ''02aa'' True False (page_with_chat, ()) = Inr r \<and>
     snd r = [RefreshTwice, SnackbarDone ''apps.operation-completed'']"
proof -
  have es: "lc_toShow (al_list page_with_chat) = Some [app_element chat_app]"
    "distinct (map app_ident [app_element chat_app])"
    "lc_selections (al_list page_with_chat) = [(''skychat'', True)]" "map_wf (lc_selections (al_list page_with_chat))"
    by (simp_all add: page_with_chat_def Let_def map_wf_def)
  have ident: "app_ident (app_element chat_app) = ''skychat''" by (simp add: app_ident_def prop_text_def app_element_def chat_app_def)
  have sel: "\<forall>k. map_get (lc_selections (al_list page_with_chat)) k = Some True \<longrightarrow> k \<in> app_ident ` set [app_element chat_app]"
    using ident by (simp add: es(3) map_get_def split: if_splits)
  have "chosen (\<lambda>e. app_stopped (prop_status e) = True) (lc_selections (al_list page_with_chat)) [app_element chat_app] = {''skychat''}"
    unfolding chosen_def es(3) by (auto simp: ident map_get_def) (simp add: prop_status_def app_element_def chat_app_def app_stopped_def)
  note only_chat = this
  from selected_apps_state [OF es(1,2,4) sel, of True good_visor "''02aa''" False "()"] obtain names where
    n: "distinct names"
      "set names = chosen (\<lambda>e. app_stopped (prop_status e) = True) (lc_selections (al_list page_with_chat)) [app_element chat_app]"
      "changeStateOfSelected good_visor ''02aa'' True False (page_with_chat, ()) =
        Inr (if \<not> True \<and> \<not> False then ((page_with_chat, ()), [])
             else if names = [] then
               ((page_with_chat, ()), [RefreshData, SnackbarWarning ''apps.operation-unnecessary''] @ (if True then [] else [CloseDialog]))
             else let r = changes_in_order good_visor ''02aa'' False True names (page_with_chat, ())
                  in (fst r, change_events (\<not> True) (snd r)))"
    by (elim exE conjE)
  have "set names = {''skychat''}" unfolding n(2) by (rule only_chat)
  then have "names = [''skychat'']" using n(1) by (cases names) (auto simp: subset_singleton_iff)
  then show ?thesis
    using n(3) by (simp add: Let_def run_change_def good_visor_def status_answered_def es(1) change_events_def)
qed

end
