(* ===== verification/Node_Service.thy ===== *)
theory Node_Service
  imports Complex_Main App_Datatypes Storage_Service
begin

text \<open>
  \<open>src/app/services/node.service.ts\<close>: the visors of a hypervisor. The answers of the backend are
  records of the members the service reads; a member whose absence makes the code throw is an
  \<open>option\<close>. The arithmetic of the BigNumber library is a parameter.
\<close>

section \<open>Answers of the backend\<close>

record overview_resp =
  o_local_pk :: string
  o_build_version :: "jsstr option"
  o_local_ip :: jsstr
  o_public_ip :: jsstr
  o_is_symmetic_nat :: bool

record raw_transport =
  rt_id :: string
  rt_local_pk :: string
  rt_remote_pk :: string
  rt_type :: string
  rt_log :: "(int \<times> int) option"

record raw_descriptor =
  rd_dst_pk :: string
  rd_dst_port :: int
  rd_src_pk :: string
  rd_src_port :: int

record raw_forward =
  rf_next_rid :: int
  rf_next_tid :: string
  rf_route_descriptor :: "raw_descriptor option"

record raw_summary =
  rs_keep_alive :: int
  rs_rule_type :: int
  rs_key_route_id :: int
  rs_app_fields :: "raw_descriptor option option"
  rs_forward_fields :: "raw_forward option"
  rs_intermediary_forward_fields :: "raw_forward option"

record raw_route =
  rr_key :: int
  rr_rule :: string
  rr_rule_summary :: "raw_summary option"

record raw_app =
  ra_name :: string
  ra_status :: int
  ra_port :: int
  ra_auto_start :: bool
  ra_detailed_status :: string
  ra_args :: "string list"

record summary_resp =
  s_overview :: "overview_resp option"
  s_online :: bool
  s_public_autoconnect :: bool
  s_build_tag :: jsstr
  s_reward_address :: jsstr
  s_services_health :: "jsstr option"
  s_dmsg_stats :: "(string \<times> int) option"
  s_is_hypervisor :: bool
  s_uptime :: rat
  s_min_hops :: int
  s_skybian_build_version :: jsstr
  s_transports :: "raw_transport list option"
  s_persistent_transports :: "(string \<times> string) list option"
  s_routes :: "raw_route list option"
  s_apps :: "raw_app list option"

text \<open>\<open>decimalPlaces\<close> and \<open>toString(10)\<close> of the BigNumber library.\<close>

record bignumber =
  decimalPlaces :: "rat \<Rightarrow> nat \<Rightarrow> rat"
  bn_toString :: "rat \<Rightarrow> string"

definition nsToMs :: "bignumber \<Rightarrow> int \<Rightarrow> string" where
  "nsToMs bn time =
     (let v = of_int time / 1000000;
          w = (if v < 10 then decimalPlaces bn v 2 else decimalPlaces bn v 0)
      in bn_toString bn w)"

text \<open>\<open>x.p\<close> where \<open>x\<close> may be \<open>undefined\<close> or \<open>null\<close>.\<close>

definition member_of :: "'a option \<Rightarrow> 'a js_result" where
  "member_of v = (case v of None \<Rightarrow> Inl TypeError | Some x \<Rightarrow> Inr x)"

section \<open>The list of visors\<close>

definition visor_ip :: "jsstr \<Rightarrow> jsstr" where
  "visor_ip v = (case v of Str s \<Rightarrow> if s \<noteq> [] \<and> trim s \<noteq> [] then Str s else Null | _ \<Rightarrow> Null)"

definition visor_label :: "storage_service \<Rightarrow> string \<Rightarrow> jsstr \<Rightarrow> string" where
  "visor_label st pk addr =
     (case getLabelInfo st pk of
        Some l \<Rightarrow> if label l \<noteq> [] then label l else getDefaultLabel (Some (addr, pk))
      | None \<Rightarrow> getDefaultLabel (Some (addr, pk)))"

definition listed_visor :: "bignumber \<Rightarrow> storage_service \<Rightarrow> summary_resp \<Rightarrow> Node js_result" where
  "listed_visor bn st r =
     bindR (member_of (s_overview r)) (\<lambda>ov.
     bindR (member_of (o_build_version ov)) (\<lambda>ver.
       let addr = visor_ip (o_local_ip ov);
           node = new_node
             \<lparr>online := Some (s_online r), localPk := o_local_pk ov, version := ver,
              autoconnectTransports := Some (s_public_autoconnect r),
              buildTag := (if truthy (s_build_tag r) then s_build_tag r else Str []),
              rewardsAddress := s_reward_address r, node_ip := addr,
              node_label := visor_label st (o_local_pk ov) addr\<rparr>
       in if \<not> s_online r then Inr (node\<lparr>dmsgServerPk := [], roundTripPing := []\<rparr>)
          else
            bindR (member_of (s_services_health r)) (\<lambda>h.
            bindR (member_of (s_dmsg_stats r)) (\<lambda>d.
              Inr (node\<lparr>servicesHealth := h, dmsgServerPk := fst d, roundTripPing := nsToMs bn (snd d),
                        isHypervisor := Some (s_is_hypervisor r)\<rparr>)))))"

definition is_online :: "Node \<Rightarrow> bool" where
  "is_online n = (online n = Some True)"

definition missing_visor :: "storage_service \<Rightarrow> LocalNodeInfo \<Rightarrow> Node" where
  "missing_visor st n =
     new_node\<lparr>localPk := publicKey n, node_label := visor_label st (publicKey n) Undefined,
              online := Some False, dmsgServerPk := [], roundTripPing := []\<rparr>"

text \<open>The loop over the saved visors: the missing visors so far and the map of the obtained ones.\<close>

definition check_saved_visor ::
  "storage_service \<Rightarrow> LocalNodeInfo \<Rightarrow> Node list \<times> (string, Node) jsmap \<Rightarrow> Node list \<times> (string, Node) jsmap" where
  "check_saved_visor st n acc =
     (let missing = (if \<not> map_has (snd acc) (publicKey n) \<and> \<not> hidden n
                     then fst acc @ [missing_visor st n] else fst acc);
          obtained = (case map_get (snd acc) (publicKey n) of
                        Some v \<Rightarrow> if \<not> is_online v \<and> hidden n then map_delete (publicKey n) (snd acc) else snd acc
                      | None \<Rightarrow> snd acc)
      in (missing, obtained))"

definition getNodes ::
  "bignumber \<Rightarrow> summary_resp list option \<Rightarrow> storage_service \<Rightarrow> (Node list \<times> storage_service) js_result" where
  "getNodes bn result st =
     bindR (mapR (listed_visor bn st) (case result of Some rs \<Rightarrow> rs | None \<Rightarrow> [])) (\<lambda>nodes.
       let obtained = fold (\<lambda>n. map_set (localPk n) n) nodes [];
           seen = filter is_online nodes in
       bindR (includeVisibleLocalNodes (map localPk seen) (map node_ip seen) st) (\<lambda>st1.
       bindR (getSavedLocalNodes st1) (\<lambda>saved.
         case fold (check_saved_visor st1) saved ([], obtained) of
           (missing, obtained') \<Rightarrow> Inr (map_values obtained' @ missing, st1))))"

section \<open>One visor\<close>

definition node_transport :: "raw_transport \<Rightarrow> Transport js_result" where
  "node_transport t =
     bindR (member_of (rt_log t)) (\<lambda>lg.
       Inr \<lparr>tr_id = rt_id t, tr_localPk = rt_local_pk t, remotePk = rt_remote_pk t, tr_type = rt_type t,
            recv = fst lg, sent = snd lg, isPersistent = False, notFound = False\<rparr>)"

definition route_descriptor :: "raw_descriptor \<Rightarrow> RouteDescriptor" where
  "route_descriptor d =
     \<lparr>dstPk = rd_dst_pk d, srcPk = rd_src_pk d, dstPort = rd_dst_port d, srcPort = rd_src_port d\<rparr>"

definition node_route :: "raw_route \<Rightarrow> Route" where
  "node_route r =
     (let base = \<lparr>route_key = rr_key r, rule = rr_rule r, ruleSummary = None, appFields = None,
                  forwardFields = None, intermediaryForwardFields = None\<rparr>
      in case rr_rule_summary r of
           None \<Rightarrow> base
         | Some s \<Rightarrow>
             base\<lparr>ruleSummary := Some \<lparr>keepAlive = rs_keep_alive s, ruleType = rs_rule_type s,
                                       keyRouteId = rs_key_route_id s\<rparr>,
                  appFields := (case rs_app_fields s of
                      Some (Some d) \<Rightarrow> Some (route_descriptor d) | _ \<Rightarrow> None),
                  forwardFields := map_option (\<lambda>f. \<lparr>nextRid = rf_next_rid f, nextTid = rf_next_tid f,
                      routeDescriptor = map_option route_descriptor (rf_route_descriptor f)\<rparr>)
                      (rs_forward_fields s),
                  intermediaryForwardFields := map_option (\<lambda>f. \<lparr>nextRid = rf_next_rid f,
                      nextTid = rf_next_tid f, routeDescriptor = None\<rparr>)
                      (rs_intermediary_forward_fields s)\<rparr>)"

definition node_app :: "raw_app \<Rightarrow> Application" where
  "node_app a =
     \<lparr>app_name = ra_name a, autostart = ra_auto_start a, port = ra_port a, app_status = ra_status a,
      detailedStatus = ra_detailed_status a, app_args = ra_args a\<rparr>"

definition getNode :: "bignumber \<Rightarrow> summary_resp \<Rightarrow> storage_service \<Rightarrow> Node js_result" where
  "getNode bn r st =
     bindR (member_of (s_overview r)) (\<lambda>ov.
     bindR (member_of (o_build_version ov)) (\<lambda>ver.
       let addr = visor_ip (o_local_ip ov);
           node = new_node
             \<lparr>localPk := o_local_pk ov, version := ver, secondsOnline := Some (floor (s_uptime r)),
              minHops := Some (s_min_hops r), buildTag := s_build_tag r,
              skybianBuildVersion := s_skybian_build_version r,
              isSymmeticNat := Some (o_is_symmetic_nat ov), publicIp := o_public_ip ov,
              autoconnectTransports := Some (s_public_autoconnect r),
              rewardsAddress := s_reward_address r, node_ip := addr,
              node_label := visor_label st (o_local_pk ov) addr\<rparr> in
       bindR (member_of (s_services_health r)) (\<lambda>h.
       bindR (mapR node_transport (case s_transports r of Some ts \<Rightarrow> ts | None \<Rightarrow> [])) (\<lambda>ts.
         Inr (node
           \<lparr>servicesHealth := h, transports := ts,
            persistentTransports :=
              map (\<lambda>p. \<lparr>pt_pk = fst p, pt_type = snd p\<rparr>)
                (case s_persistent_transports r of Some ps \<Rightarrow> ps | None \<Rightarrow> []),
            routes := map node_route (case s_routes r of Some rs \<Rightarrow> rs | None \<Rightarrow> []),
            apps := map node_app (case s_apps r of Some xs \<Rightarrow> xs | None \<Rightarrow> []),
            dmsgServerPk := (case s_dmsg_stats r of Some d \<Rightarrow> fst d | None \<Rightarrow> ''-''),
            roundTripPing := (case s_dmsg_stats r of Some d \<Rightarrow> nsToMs bn (snd d) | None \<Rightarrow> ''-1'')\<rparr>)))))"

section \<open>Updates\<close>

definition UseCustomSettings_key :: string where "UseCustomSettings_key = ''updaterUseCustomSettings''"
definition Channel_key :: string where "Channel_key = ''updaterChannel''"
definition Version_key :: string where "Version_key = ''updaterVersion''"
definition ArchiveURL_key :: string where "ArchiveURL_key = ''updaterArchiveURL''"
definition ChecksumsURL_key :: string where "ChecksumsURL_key = ''updaterChecksumsURL''"

lemmas updater_keys =
  UseCustomSettings_key_def Channel_key_def Version_key_def ArchiveURL_key_def ChecksumsURL_key_def

definition checkUpdate :: "hv_store \<Rightarrow> string \<Rightarrow> string" where
  "checkUpdate st nodeKey =
     (let saved = getItem st Channel_key;
          channel = (case saved of Some c \<Rightarrow> if c \<noteq> [] then c else ''stable'' | None \<Rightarrow> ''stable'')
      in ''visors/'' @ nodeKey @ ''/update/available/'' @ channel)"

definition custom_setting ::
  "hv_store \<Rightarrow> string \<times> string \<Rightarrow> (string, string) jsmap \<Rightarrow> (string, string) jsmap" where
  "custom_setting st e body =
     (case getItem st (fst e) of
        Some v \<Rightarrow> if v \<noteq> [] then map_set (snd e) v body else body
      | None \<Rightarrow> body)"

definition update_body :: "hv_store \<Rightarrow> (string, string) jsmap" where
  "update_body st =
     (if truthy_opt (getItem st UseCustomSettings_key) then
        fold (custom_setting st)
          [(Channel_key, ''channel''), (Version_key, ''version''), (ArchiveURL_key, ''archive_url''),
           (ChecksumsURL_key, ''checksums_url'')] [(''channel'', ''stable'')]
      else [(''channel'', ''stable'')])"

section \<open>Properties\<close>

lemma mapR_Inr: "mapR f xs = Inr ys \<longleftrightarrow> list_all2 (\<lambda>x y. f x = Inr y) xs ys"
  by (induction xs arbitrary: ys) (auto simp: bindR_Inr_iff list_all2_Cons1)

lemma mapR_defined: "\<forall>x \<in> set xs. \<exists>y. f x = Inr y \<Longrightarrow> \<exists>ys. mapR f xs = Inr ys"
  by (induction xs) auto

text \<open>The visors that the loop over the saved visors adds and the ones it removes.\<close>

definition added_visor :: "(string, Node) jsmap \<Rightarrow> LocalNodeInfo \<Rightarrow> bool" where
  "added_visor ob n \<longleftrightarrow> \<not> map_has ob (publicKey n) \<and> \<not> hidden n"

definition removed_visor :: "(string, Node) jsmap \<Rightarrow> LocalNodeInfo \<Rightarrow> bool" where
  "removed_visor ob n \<longleftrightarrow>
     hidden n \<and> (case map_get ob (publicKey n) of Some v \<Rightarrow> \<not> is_online v | None \<Rightarrow> False)"

lemma check_saved_step:
  "check_saved_visor st n (ms, ob) =
     (ms @ (if added_visor ob n then [missing_visor st n] else []),
      if removed_visor ob n then map_delete (publicKey n) ob else ob)"
  by (auto simp: check_saved_visor_def added_visor_def removed_visor_def split: option.split)

lemma check_saved_loop:
  assumes "distinct (map publicKey saved)"
  shows "fold (check_saved_visor st) saved (ms, ob) =
    (ms @ map (missing_visor st) (filter (added_visor ob) saved),
     fold map_delete (map publicKey (filter (removed_visor ob) saved)) ob)"
  using assms
proof (induction saved arbitrary: ms ob)
  case (Cons n saved)
  define ob' where "ob' = (if removed_visor ob n then map_delete (publicKey n) ob else ob)"
  have other: "map_get ob' (publicKey m) = map_get ob (publicKey m)" if "m \<in> set saved" for m
  proof -
    have "publicKey m \<noteq> publicKey n" using that Cons.prems by (metis distinct.simps(2) image_eqI list.set_map list.simps(9))
    then show ?thesis by (simp add: ob'_def jm.get_del)
  qed
  have "filter (added_visor ob') saved = filter (added_visor ob) saved"
    by (rule filter_cong) (simp_all add: added_visor_def map_has_get other)
  moreover have "filter (removed_visor ob') saved = filter (removed_visor ob) saved"
    by (rule filter_cong) (simp_all add: removed_visor_def other)
  ultimately show ?case
    using Cons by (simp add: check_saved_step ob'_def)
qed simp

lemma obtained_map:
  assumes "distinct (map localPk ns)"
  shows "fold (\<lambda>n. map_set (localPk n) n) ns [] = map (\<lambda>n. (localPk n, n)) ns"
    and "map_get (map (\<lambda>n. (localPk n, n)) ns) k = Some v \<longleftrightarrow> v \<in> set ns \<and> localPk v = k"
    and "map_has (map (\<lambda>n. (localPk n, n)) ns) k \<longleftrightarrow> k \<in> localPk ` set ns"
proof -
  show "fold (\<lambda>n. map_set (localPk n) n) ns [] = map (\<lambda>n. (localPk n, n)) ns"
    using assms by (rule map_sets_empty)
  have "distinct (map fst (map (\<lambda>n. (localPk n, n)) ns))" using assms by (simp add: comp_def)
  then show "map_get (map (\<lambda>n. (localPk n, n)) ns) k = Some v \<longleftrightarrow> v \<in> set ns \<and> localPk v = k"
    by (auto simp: map_get_def)
  show "map_has (map (\<lambda>n. (localPk n, n)) ns) k \<longleftrightarrow> k \<in> localPk ` set ns"
    by (auto simp: map_has_keys map_keys_def image_image)
qed

text \<open>The list of visors after the loop, in terms of the visors obtained and the visors saved.\<close>

lemma getNodes_result:
  assumes "nodes_coherent st" and "mapR (listed_visor bn st) rs = Inr ns" and "distinct (map localPk ns)"
  defines "ob \<equiv> map (\<lambda>n. (localPk n, n)) ns" and "seen \<equiv> filter is_online ns"
  obtains st' saved where "getNodes bn (Some rs) st =
      Inr (filter (\<lambda>n. localPk n \<notin> publicKey ` {s \<in> set saved. removed_visor ob s}) ns @
           map (missing_visor st') (filter (added_visor ob) saved), st')"
    and "includeVisibleLocalNodes (map localPk seen) (map node_ip seen) st = Inr st'"
    and "nodes_coherent st'" and "nodes_agree saved st'"
    and "\<And>k. map_get (savedLocalNodes st') k =
      (case requested_node (map localPk seen) (map node_ip seen) False k of
         Some n \<Rightarrow> Some n | None \<Rightarrow> map_get (savedLocalNodes st) k)"
proof -
  obtain st' where st': "includeVisibleLocalNodes (map localPk seen) (map node_ip seen) st = Inr st'"
    "nodes_coherent st'"
    "\<And>k. map_get (savedLocalNodes st') k =
      (case requested_node (map localPk seen) (map node_ip seen) False k of
         Some n \<Rightarrow> Some n | None \<Rightarrow> map_get (savedLocalNodes st) k)"
    using changeLocalNodes_effect [OF assms(1), of "map localPk seen" "map node_ip seen" False]
    by (auto simp: includeVisibleLocalNodes_def)
  obtain saved where saved: "getSavedLocalNodes st' = Inr saved" "nodes_agree saved st'"
    using st'(2) by (rule coherentD)
  have dist: "distinct (map publicKey saved)" using saved(2) by (simp add: nodes_agree_def)
  have "map_values (fold map_delete (map publicKey (filter (removed_visor ob) saved)) ob) =
      filter (\<lambda>n. localPk n \<notin> publicKey ` {s \<in> set saved. removed_visor ob s}) ns"
    by (simp add: map_deletes_filter map_values_def ob_def filter_map comp_def)
  then have "getNodes bn (Some rs) st =
      Inr (filter (\<lambda>n. localPk n \<notin> publicKey ` {s \<in> set saved. removed_visor ob s}) ns @
           map (missing_visor st') (filter (added_visor ob) saved), st')"
    using assms(2) st'(1) saved(1) check_saved_loop [OF dist, of st' "[]" ob]
    by (simp add: getNodes_def obtained_map(1) [OF assms(3)] ob_def seen_def)
  then show thesis using that st' saved(2) by blast
qed

text \<open>A visor that is online is saved as visible.\<close>

lemma online_not_hidden:
  assumes "map_get m (localPk n) =
      (case requested_node (map localPk seen) (map node_ip seen) False (localPk n) of Some x \<Rightarrow> Some x | None \<Rightarrow> v)"
    and "n \<in> set seen" and "map_get m (localPk n) = Some s"
  shows "\<not> hidden s"
proof -
  have "localPk n \<in> set (map localPk seen)" using assms(2) by simp
  then show ?thesis
    using assms(1,3) requested_node_None [of "map localPk seen" "map node_ip seen" False "localPk n"]
      requested_node_hidden [of "map localPk seen" "map node_ip seen" False "localPk n"]
    by (auto split: option.splits)
qed

lemma agree_saved:
  assumes "nodes_agree saved st"
  shows "s \<in> set saved \<longleftrightarrow> map_get (savedLocalNodes st) (publicKey s) = Some s"
    and "map_get (savedLocalNodes st) k = Some s \<Longrightarrow> publicKey s = k"
  using assms lookup_node_Some [of saved k s] by (simp_all add: nodes_agree_def lookup_node_iff)

lemma kept_visors:
  assumes "nodes_agree saved st" and "distinct (map localPk obtained)"
    and "\<And>n s. n \<in> set obtained \<Longrightarrow> is_online n \<Longrightarrow>
      map_get (savedLocalNodes st) (localPk n) = Some s \<Longrightarrow> \<not> hidden s"
  shows "set (filter (\<lambda>n. localPk n \<notin>
      publicKey ` {s \<in> set saved. removed_visor (map (\<lambda>n. (localPk n, n)) obtained) s}) obtained) =
    {n \<in> set obtained. \<forall>s. map_get (savedLocalNodes st) (localPk n) = Some s \<longrightarrow> \<not> hidden s}"
proof -
  let ?ob = "map (\<lambda>n. (localPk n, n)) obtained"
  have "(\<exists>s \<in> set saved. removed_visor ?ob s \<and> publicKey s = localPk n) \<longleftrightarrow>
      (\<exists>s. map_get (savedLocalNodes st) (localPk n) = Some s \<and> hidden s)" if "n \<in> set obtained" for n
  proof -
    have "map_get ?ob (localPk n) = Some n" using that obtained_map(2) [OF assms(2)] by simp
    then show ?thesis
      using agree_saved [OF assms(1)] assms(3) [OF that] unfolding removed_visor_def
      by (metis (mono_tags, lifting) option.simps(5))
  qed
  note removed = this
  have "localPk n \<in> publicKey ` {s \<in> set saved. removed_visor ?ob s} \<longleftrightarrow>
      (\<exists>s \<in> set saved. removed_visor ?ob s \<and> publicKey s = localPk n)" for n
    by (auto simp: image_iff)
  then show ?thesis using removed by (auto simp only: set_filter mem_Collect_eq)
qed

lemma missing_visors:
  assumes "nodes_agree saved st" and "distinct (map localPk obtained)"
  shows "localPk ` set (map (missing_visor st) (filter (added_visor (map (\<lambda>n. (localPk n, n)) obtained)) saved)) =
    {k. k \<notin> localPk ` set obtained \<and> (\<exists>s. map_get (savedLocalNodes st) k = Some s \<and> \<not> hidden s)}"
proof (rule set_eqI)
  fix k
  let ?ob = "map (\<lambda>n. (localPk n, n)) obtained"
  have "k \<in> localPk ` set (map (missing_visor st) (filter (added_visor ?ob) saved)) \<longleftrightarrow>
      (\<exists>s \<in> set saved. added_visor ?ob s \<and> publicKey s = k)"
    by (auto simp: image_image missing_visor_def)
  also have "\<dots> \<longleftrightarrow> k \<notin> localPk ` set obtained \<and> (\<exists>s. map_get (savedLocalNodes st) k = Some s \<and> \<not> hidden s)"
    unfolding added_visor_def obtained_map(3) [OF assms(2)] using agree_saved [OF assms(1)] by metis
  finally show "k \<in> localPk ` set (map (missing_visor st) (filter (added_visor ?ob) saved)) \<longleftrightarrow>
      k \<in> {k. k \<notin> localPk ` set obtained \<and> (\<exists>s. map_get (savedLocalNodes st) k = Some s \<and> \<not> hidden s)}"
    by simp
qed

lemma getNodes_listed:
  assumes "nodes_coherent st" and "mapR (listed_visor bn st) rs = Inr obtained"
    and "distinct (map localPk obtained)"
  shows "\<exists>shown st'. getNodes bn (Some rs) st = Inr (shown, st') \<and> nodes_coherent st' \<and>
    distinct (map localPk shown) \<and>
    localPk ` set shown =
      {k. (k \<in> localPk ` set obtained \<or> map_has (savedLocalNodes st) k) \<and>
          (\<forall>n. map_get (savedLocalNodes st') k = Some n \<longrightarrow> \<not> hidden n)} \<and>
    {n \<in> set shown. is_online n} = {n \<in> set obtained. is_online n} \<and>
    set (getSavedVisibleLocalNodes st') =
      set (getSavedVisibleLocalNodes st) \<union> localPk ` {n \<in> set obtained. is_online n} \<and>
    (\<forall>k. map_get (savedLocalNodes st') k =
      (case requested_node (map localPk (filter is_online obtained)) (map node_ip (filter is_online obtained)) False k of
         Some n \<Rightarrow> Some n | None \<Rightarrow> map_get (savedLocalNodes st) k))"
proof -
  define ob where "ob = map (\<lambda>n. (localPk n, n)) obtained"
  define seen where "seen = filter is_online obtained"
  obtain st' saved where r: "getNodes bn (Some rs) st =
      Inr (filter (\<lambda>n. localPk n \<notin> publicKey ` {s \<in> set saved. removed_visor ob s}) obtained @
           map (missing_visor st') (filter (added_visor ob) saved), st')"
    and visible: "includeVisibleLocalNodes (map localPk seen) (map node_ip seen) st = Inr st'"
    and co: "nodes_coherent st'" and agree: "nodes_agree saved st'"
    and get: "\<And>k. map_get (savedLocalNodes st') k =
      (case requested_node (map localPk seen) (map node_ip seen) False k of
         Some n \<Rightarrow> Some n | None \<Rightarrow> map_get (savedLocalNodes st) k)"
    using getNodes_result [OF assms] unfolding ob_def seen_def by blast
  let ?kept = "filter (\<lambda>n. localPk n \<notin> publicKey ` {s \<in> set saved. removed_visor ob s}) obtained"
  let ?missing = "map (missing_visor st') (filter (added_visor ob) saved)"
  have online: "\<not> hidden s" if "n \<in> set obtained" "is_online n"
    "map_get (savedLocalNodes st') (localPk n) = Some s" for n s
    using that online_not_hidden [OF get] by (simp add: seen_def)
  have kept: "set ?kept = {n \<in> set obtained. \<forall>s. map_get (savedLocalNodes st') (localPk n) = Some s \<longrightarrow> \<not> hidden s}"
    unfolding ob_def by (rule kept_visors [OF agree assms(3) online])
  have missing: "localPk ` set ?missing =
      {k. k \<notin> localPk ` set obtained \<and> (\<exists>s. map_get (savedLocalNodes st') k = Some s \<and> \<not> hidden s)}"
    unfolding ob_def by (rule missing_visors [OF agree assms(3)])
  have known: "map_has (savedLocalNodes st) k \<longleftrightarrow> map_get (savedLocalNodes st') k \<noteq> None"
    if "k \<notin> localPk ` set obtained" for k
  proof -
    have "k \<notin> set (map localPk seen)" using that by (auto simp: seen_def)
    then show ?thesis
      using get [of k] requested_node_None [of "map localPk seen" "map node_ip seen" False k]
      by (auto simp: map_has_get)
  qed
  have keys: "localPk ` set (?kept @ ?missing) =
      {k. (k \<in> localPk ` set obtained \<or> map_has (savedLocalNodes st) k) \<and>
          (\<forall>n. map_get (savedLocalNodes st') k = Some n \<longrightarrow> \<not> hidden n)}"
    (is "?keys = ?wanted")
  proof (rule set_eqI)
    fix k
    have "k \<in> localPk ` set ?kept \<longleftrightarrow>
        k \<in> localPk ` set obtained \<and> (\<forall>s. map_get (savedLocalNodes st') k = Some s \<longrightarrow> \<not> hidden s)"
      unfolding kept by auto
    then show "k \<in> ?keys \<longleftrightarrow> k \<in> ?wanted"
      unfolding set_append image_Un Un_iff missing mem_Collect_eq using known [of k] by auto
  qed
  have on: "{n \<in> set (?kept @ ?missing). is_online n} = {n \<in> set obtained. is_online n}"
    unfolding set_append kept using online by (auto simp: missing_visor_def is_online_def)
  have "distinct (map localPk ?kept)" "distinct (map localPk ?missing)"
    "localPk ` set ?kept \<inter> localPk ` set ?missing = {}"
    using assms(3) agree missing
    by (auto simp: distinct_map_filter comp_def missing_visor_def nodes_agree_def)
  then have dist: "distinct (map localPk (?kept @ ?missing))"
    by (simp only: map_append distinct_append list.set_map)
  have vis: "set (getSavedVisibleLocalNodes st') =
      set (getSavedVisibleLocalNodes st) \<union> localPk ` {n \<in> set obtained. is_online n}"
    using change_visible [OF assms(1) _ visible [unfolded includeVisibleLocalNodes_def]]
    by (auto simp: getSavedVisibleLocalNodes_def seen_def)
  show ?thesis
    by (intro exI [of _ "?kept @ ?missing"] exI [of _ st'] conjI allI r co dist keys on vis get [unfolded seen_def])
qed

text \<open>
  Property C13. The list of visors the application shows, for any answer of the hypervisor that
  can be read: no visor is listed twice; the listed visors are exactly the visors the hypervisor
  returned and the visors saved in the browser, less those the user has hidden; a visor is listed
  as online exactly when the hypervisor says so; and every online visor is saved as visible, also
  when it was hidden before, while no other visor becomes visible.
\<close>

theorem getNodes_correct:
  assumes "nodes_coherent st" and "mapR (listed_visor bn st) rs = Inr obtained"
    and "distinct (map localPk obtained)"
  shows "\<exists>shown st'. getNodes bn (Some rs) st = Inr (shown, st') \<and> nodes_coherent st' \<and>
    distinct (map localPk shown) \<and>
    localPk ` set shown =
      {k. (k \<in> localPk ` set obtained \<or> map_has (savedLocalNodes st) k) \<and>
          (\<forall>n. map_get (savedLocalNodes st') k = Some n \<longrightarrow> \<not> hidden n)} \<and>
    {n \<in> set shown. is_online n} = {n \<in> set obtained. is_online n} \<and>
    set (getSavedVisibleLocalNodes st') =
      set (getSavedVisibleLocalNodes st) \<union> localPk ` {n \<in> set obtained. is_online n}"
  using getNodes_listed [OF assms] by (elim exE conjE) (rule exI, rule exI, (rule conjI, assumption)+, assumption)

lemma listed_visor_error: "listed_visor bn st r = Inl e \<Longrightarrow> e = TypeError"
  by (auto simp: listed_visor_def member_of_def split: option.splits if_splits)

lemma mapR_error:
  assumes "r \<in> set rs" and "f r = Inl e" and "\<And>x e'. f x = Inl e' \<Longrightarrow> e' = e"
  shows "mapR f rs = Inl e"
  using assms(1)
proof (induction rs)
  case (Cons x rs)
  show ?case
  proof (cases "f x")
    case (Inl e')
    then show ?thesis using assms(3) by simp
  next
    case (Inr y)
    then have "r \<in> set rs" using Cons.prems assms(2) by auto
    then show ?thesis using Cons.IH Inr by simp
  qed
qed simp

text \<open>
  One visor without build information is enough to lose the whole list: the version
  is read before the code checks if the visor is online, so that for a summary whose overview has
  no build information, which is what the hypervisor sends for a visor it could not reach, the
  request for the list ends in an error and no visor is listed.
\<close>

theorem visor_without_build_info:
  assumes "r \<in> set rs" and "s_overview r = Some ov" and "o_build_version ov = None"
  shows "getNodes bn (Some rs) st = Inl TypeError"
proof -
  have "listed_visor bn st r = Inl TypeError"
    using assms(2,3) by (simp add: listed_visor_def member_of_def)
  then have "mapR (listed_visor bn st) rs = Inl TypeError"
    using mapR_error [OF assms(1)] listed_visor_error by metis
  then show ?thesis by (simp add: getNodes_def)
qed

text \<open>An answer with one visor that is online and one that is not.\<close>

definition demo_bignumber :: bignumber where
  "demo_bignumber = \<lparr>decimalPlaces = (\<lambda>v n. v), bn_toString = (\<lambda>v. int_to_string (floor v))\<rparr>"

definition demo_summary :: "string \<Rightarrow> bool \<Rightarrow> summary_resp" where
  "demo_summary pk b =
     \<lparr>s_overview = Some \<lparr>o_local_pk = pk, o_build_version = Some (Str ''v1''), o_local_ip = Str ''10.0.0.2'',
                         o_public_ip = Null, o_is_symmetic_nat = False\<rparr>,
      s_online = b, s_public_autoconnect = True, s_build_tag = Null, s_reward_address = Null,
      s_services_health = Some (Str ''healthy''), s_dmsg_stats = Some (''03ff'', 25000000),
      s_is_hypervisor = False, s_uptime = 7 / 2, s_min_hops = 1, s_skybian_build_version = Null,
      s_transports = None, s_persistent_transports = None, s_routes = None, s_apps = None\<rparr>"

lemma demo_visors:
  "\<exists>ns. mapR (listed_visor demo_bignumber st) [demo_summary ''02aa'' True, demo_summary ''02bb'' False] = Inr ns \<and>
     distinct (map localPk ns) \<and> map localPk ns = [''02aa'', ''02bb''] \<and> map is_online ns = [True, False]"
  by (simp add: listed_visor_def demo_summary_def member_of_def is_online_def)

theorem getNodes_correct_witness:
  "\<exists>shown st'. getNodes demo_bignumber (Some [demo_summary ''02aa'' True, demo_summary ''02bb'' False])
      (fresh_service empty_store) = Inr (shown, st') \<and> distinct (map localPk shown) \<and>
    ''02aa'' \<in> set (getSavedVisibleLocalNodes st')"
proof -
  let ?rs = "[demo_summary ''02aa'' True, demo_summary ''02bb'' False]"
  obtain ns where ns: "mapR (listed_visor demo_bignumber (fresh_service empty_store)) ?rs = Inr ns"
    "distinct (map localPk ns)" "map localPk ns = [''02aa'', ''02bb'']" "map is_online ns = [True, False]"
    using demo_visors [of "fresh_service empty_store"] by (elim exE conjE)
  have "''02aa'' \<in> localPk ` {n \<in> set ns. is_online n}"
    using ns(3,4) by (auto simp: map_eq_Cons_conv image_iff)
  then show ?thesis
    using getNodes_correct [OF empty_store_coherent(1) ns(1,2)] by (elim exE conjE) auto
qed

definition unreachable_summary :: summary_resp where
  "unreachable_summary = (demo_summary ''02cc'' False)
     \<lparr>s_overview := Some \<lparr>o_local_pk = ''02cc'', o_build_version = None, o_local_ip = Str [],
                         o_public_ip = Str [], o_is_symmetic_nat = False\<rparr>\<rparr>"

theorem visor_without_build_info_witness:
  "getNodes demo_bignumber (Some [demo_summary ''02aa'' True, unreachable_summary]) (fresh_service empty_store) =
     Inl TypeError"
  by (rule visor_without_build_info [of unreachable_summary]) (auto simp: unreachable_summary_def)

end
