(* ===== verification/Node_Data.thy ===== *)
theory Node_Data
  imports Node_Service Service_Errors
begin

text \<open>
  \<open>src/app/services/single-node-data.service.ts\<close> and \<open>multiple-node-data.service.ts\<close>: the services
  that keep the data of the visors up to date. What their timers and requests do is a set of events
  on the state of a service, each with the time (ms) at which it happens. The subscription of an
  update is either waiting for its delay or loading the data; starting another one drops it. The
  division of the BigNumber library is a parameter.
\<close>

section \<open>Traffic history\<close>

record TrafficData =
  totalSent :: int
  totalReceived :: int
  sentHistory :: "int list"
  receivedHistory :: "int list"

definition new_traffic :: TrafficData where
  "new_traffic = \<lparr>totalSent = 0, totalReceived = 0, sentHistory = [], receivedHistory = []\<rparr>"

definition maxTrafficHistorySlots :: nat where "maxTrafficHistorySlots = 10"
definition expirationTime :: int where "expirationTime = 60000"
definition connectionRetryDelay :: int where "connectionRetryDelay = 5000"

text \<open>The update of one of the two history arrays, for the number of slots needed.\<close>

definition add_slots :: "int \<Rightarrow> int \<Rightarrow> int list \<Rightarrow> int list" where
  "add_slots newSlotsNeeded v h =
     (if newSlotsNeeded = 0 then h[length h - 1 := v] else h @ replicate (nat newSlotsNeeded) v)"

text \<open>
  The transports of a visor are never missing in the answer of \<open>getNode\<close>; of an empty list the sums
  are 0. The test for the limit looks at the length of the first array only.
\<close>

definition updateTrafficData ::
  "(int \<Rightarrow> int \<Rightarrow> int) \<Rightarrow> int \<Rightarrow> int \<Rightarrow> Transport list \<Rightarrow> TrafficData \<Rightarrow> int \<Rightarrow> TrafficData" where
  "updateTrafficData floor_div now refreshDelay ts cur lastUpdate =
     (let out = fold (\<lambda>t acc. acc + sent t) ts 0;
          inp = fold (\<lambda>t acc. acc + recv t) ts 0;
          cur1 = cur\<lparr>totalSent := out, totalReceived := inp\<rparr>
      in if sentHistory cur = [] then
           cur1\<lparr>sentHistory := replicate maxTrafficHistorySlots out,
                receivedHistory := replicate maxTrafficHistorySlots inp @
                  drop maxTrafficHistorySlots (receivedHistory cur)\<rparr>
         else
           let needed0 = floor_div (now - lastUpdate) refreshDelay;
               needed = (if needed0 > int maxTrafficHistorySlots then int maxTrafficHistorySlots else needed0);
               s1 = add_slots needed out (sentHistory cur);
               r1 = add_slots needed inp (receivedHistory cur)
           in if length s1 > maxTrafficHistorySlots
              then cur1\<lparr>sentHistory := drop (length s1 - maxTrafficHistorySlots) s1,
                        receivedHistory := drop (length r1 - maxTrafficHistorySlots) r1\<rparr>
              else cur1\<lparr>sentHistory := s1, receivedHistory := r1\<rparr>)"

section \<open>The data of one visor\<close>

record SingleNodeBackendData =
  sd_data :: "Node option"
  sd_error :: "jsval option"
  momentOfLastCorrectUpdate :: "int option"
  updating :: bool
  trafficData :: TrafficData

datatype update_phase = NoUpdate | Delayed int | Loading

record NodeData =
  nd_pk :: string
  lastEmitedData :: SingleNodeBackendData
  updateSubscription :: update_phase
  dataEvents :: "SingleNodeBackendData list"
  whenUpdateWasScheduled :: int
  stopRequestedDate :: int

definition new_node_data :: "string \<Rightarrow> NodeData" where
  "new_node_data pk =
     \<lparr>nd_pk = pk,
      lastEmitedData = \<lparr>sd_data = None, sd_error = None, momentOfLastCorrectUpdate = None,
                        updating = False, trafficData = new_traffic\<rparr>,
      updateSubscription = NoUpdate, dataEvents = [], whenUpdateWasScheduled = 0, stopRequestedDate = -1\<rparr>"

record node_data_service =
  dataRefreshDelay :: int
  nodesMap :: "(string, NodeData) jsmap"
  completedSubjects :: "string list"

definition startDataSubscription :: "int \<Rightarrow> NodeData \<Rightarrow> NodeData" where
  "startDataSubscription delayMs nd = nd\<lparr>updateSubscription := Delayed delayMs\<rparr>"

definition startRequestingData :: "string \<Rightarrow> node_data_service \<Rightarrow> node_data_service" where
  "startRequestingData pk s =
     (case map_get (nodesMap s) pk of
        None \<Rightarrow> s\<lparr>nodesMap := map_set pk (startDataSubscription 0 (new_node_data pk)) (nodesMap s)\<rparr>
      | Some nd \<Rightarrow> s\<lparr>nodesMap := map_set pk (nd\<lparr>stopRequestedDate := -1\<rparr>) (nodesMap s)\<rparr>)"

definition stopRequestingSpecificNode :: "int \<Rightarrow> string \<Rightarrow> node_data_service \<Rightarrow> node_data_service" where
  "stopRequestingSpecificNode now pk s =
     (case map_get (nodesMap s) pk of
        None \<Rightarrow> s
      | Some nd \<Rightarrow> s\<lparr>nodesMap := map_set pk (nd\<lparr>stopRequestedDate := now\<rparr>) (nodesMap s)\<rparr>)"

definition forceSpecificNodeRefresh :: "string \<Rightarrow> node_data_service \<Rightarrow> node_data_service" where
  "forceSpecificNodeRefresh pk s =
     (case map_get (nodesMap s) pk of
        None \<Rightarrow> s
      | Some nd \<Rightarrow> s\<lparr>nodesMap := map_set pk (startDataSubscription 0 nd) (nodesMap s)\<rparr>)"

text \<open>What the constructor does with a new value of the refresh time (s).\<close>

definition refreshTimeChanged :: "int \<Rightarrow> node_data_service \<Rightarrow> node_data_service" where
  "refreshTimeChanged v s =
     fold forceSpecificNodeRefresh (map nd_pk (map_values (nodesMap s))) (s\<lparr>dataRefreshDelay := v * 1000\<rparr>)"

definition calculateRemainingTime :: "int \<Rightarrow> int \<Rightarrow> int \<Rightarrow> int" where
  "calculateRemainingTime now refreshDelay moment =
     (if moment < 1 then 0
      else let d = refreshDelay - (now - moment) in if d < 0 then 0 else d)"

definition emit :: "SingleNodeBackendData \<Rightarrow> NodeData \<Rightarrow> NodeData" where
  "emit d nd = nd\<lparr>lastEmitedData := d, dataEvents := dataEvents nd @ [d]\<rparr>"

text \<open>The delay of an update is over: the event that shows the animation, and the request.\<close>

definition updateStarted :: "NodeData \<Rightarrow> NodeData" where
  "updateStarted nd = (emit ((lastEmitedData nd)\<lparr>updating := True\<rparr>) nd)\<lparr>updateSubscription := Loading\<rparr>"

definition nodeReceived ::
  "(int \<Rightarrow> int \<Rightarrow> int) \<Rightarrow> int \<Rightarrow> int \<Rightarrow> Node \<Rightarrow> NodeData \<Rightarrow> NodeData" where
  "nodeReceived floor_div now refreshDelay result nd =
     (let traffic = updateTrafficData floor_div now refreshDelay (transports result)
                      (trafficData (lastEmitedData nd)) (whenUpdateWasScheduled nd);
          remaining = calculateRemainingTime now refreshDelay (whenUpdateWasScheduled nd);
          again = remaining < 1000;
          nd1 = (if again then nd\<lparr>whenUpdateWasScheduled := now\<rparr> else nd);
          refreshTime = (if again then refreshDelay else remaining)
      in startDataSubscription refreshTime
           (emit \<lparr>sd_data = Some result, sd_error = None, momentOfLastCorrectUpdate = Some now,
                  updating = False, trafficData = traffic\<rparr> nd1))"

text \<open>The test that stops the updates of a visor that was not found.\<close>

definition visor_not_found :: "jsval \<Rightarrow> bool" where
  "visor_not_found e =
     (val_truthy (val_prop e ''originalError'') \<and> val_prop (val_prop e ''originalError'') ''status'' = VNum 400)"

definition nodeFailed :: "jsval \<Rightarrow> string \<Rightarrow> node_data_service \<Rightarrow> node_data_service js_result" where
  "nodeFailed err pk s =
     (case map_get (nodesMap s) pk of
        None \<Rightarrow> Inr s
      | Some nd \<Rightarrow>
          bindR (processServiceError err) (\<lambda>e.
            let nd1 = emit ((lastEmitedData nd)\<lparr>sd_error := Some e, updating := False\<rparr>) nd in
            Inr (if \<not> visor_not_found e
                 then s\<lparr>nodesMap := map_set pk (startDataSubscription connectionRetryDelay nd1) (nodesMap s)\<rparr>
                 else s\<lparr>nodesMap := map_delete pk (nodesMap s), completedSubjects := completedSubjects s @ [pk]\<rparr>)))"

definition expired :: "int \<Rightarrow> NodeData \<Rightarrow> bool" where
  "expired now nd = (stopRequestedDate nd > 0 \<and> now - stopRequestedDate nd > expirationTime)"

definition finishIfExpired :: "int \<Rightarrow> NodeData \<Rightarrow> node_data_service \<Rightarrow> node_data_service" where
  "finishIfExpired now nd s =
     (if expired now nd
      then s\<lparr>nodesMap := map_delete (nd_pk nd) (nodesMap s), completedSubjects := completedSubjects s @ [nd_pk nd]\<rparr>
      else s)"

definition checkForExpired :: "int \<Rightarrow> node_data_service \<Rightarrow> node_data_service" where
  "checkForExpired now s = fold (finishIfExpired now) (map_values (nodesMap s)) s"

definition new_node_data_service :: "int \<Rightarrow> node_data_service" where
  "new_node_data_service v = \<lparr>dataRefreshDelay = v * 1000, nodesMap = [], completedSubjects = []\<rparr>"

section \<open>The service as a transition system\<close>

inductive nd_step :: "(int \<Rightarrow> int \<Rightarrow> int) \<Rightarrow> node_data_service \<Rightarrow> node_data_service \<Rightarrow> bool"
  for floor_div where
  start: "nd_step floor_div s (startRequestingData pk s)"
| stop: "0 \<le> now \<Longrightarrow> nd_step floor_div s (stopRequestingSpecificNode now pk s)"
| force: "nd_step floor_div s (forceSpecificNodeRefresh pk s)"
| refresh_time: "0 < v \<Longrightarrow> nd_step floor_div s (refreshTimeChanged v s)"
| timer: "map_get (nodesMap s) pk = Some nd \<Longrightarrow> updateSubscription nd = Delayed d \<Longrightarrow>
    nd_step floor_div s (s\<lparr>nodesMap := map_set pk (updateStarted nd) (nodesMap s)\<rparr>)"
| received: "map_get (nodesMap s) pk = Some nd \<Longrightarrow> updateSubscription nd = Loading \<Longrightarrow> 0 \<le> now \<Longrightarrow>
    nd_step floor_div s
      (s\<lparr>nodesMap := map_set pk (nodeReceived floor_div now (dataRefreshDelay s) result nd) (nodesMap s)\<rparr>)"
| failed: "map_get (nodesMap s) pk = Some nd \<Longrightarrow> updateSubscription nd = Loading \<Longrightarrow>
    nodeFailed err pk s = Inr s' \<Longrightarrow> nd_step floor_div s s'"
| expire: "nd_step floor_div s (checkForExpired now s)"

inductive reachable_nd :: "(int \<Rightarrow> int \<Rightarrow> int) \<Rightarrow> node_data_service \<Rightarrow> bool" for floor_div where
  init: "0 < v \<Longrightarrow> reachable_nd floor_div (new_node_data_service v)"
| step: "reachable_nd floor_div s \<Longrightarrow> nd_step floor_div s s' \<Longrightarrow> reachable_nd floor_div s'"

section \<open>A received update\<close>

lemma fold_add: "fold (\<lambda>t acc. acc + f t) ts a = a + sum_list (map f ts)" for a :: int
  by (induction ts arbitrary: a) auto

definition moved_history :: "nat \<Rightarrow> int \<Rightarrow> int list \<Rightarrow> int list" where
  "moved_history k v h = (if k = 0 then butlast h @ [v] else drop k h @ replicate k v)"

lemma moved_history_ok:
  "length h = 10 \<Longrightarrow> k \<le> 10 \<Longrightarrow> length (moved_history k v h) = 10 \<and> last (moved_history k v h) = v"
  by (auto simp: moved_history_def last_append)

lemma limited_slots:
  assumes "length h = 10" and "0 \<le> n" and "n \<le> 10"
  shows "drop (length (add_slots n v h) - 10) (add_slots n v h) = moved_history (nat n) v h"
proof (cases "n = 0")
  case True
  obtain xs x where h: "h = xs @ [x]" using assms(1) by (cases h rule: rev_cases) auto
  have "add_slots n v h = xs @ [v]" by (simp add: add_slots_def True h)
  then show ?thesis using True assms(1) h by (simp add: moved_history_def)
next
  case False
  then show ?thesis using assms by (simp add: add_slots_def moved_history_def)
qed

lemma updateTraffic_empty:
  assumes "sentHistory cur = []" and "receivedHistory cur = []"
  shows "updateTrafficData fd now delay ts cur lastUpdate =
    \<lparr>totalSent = sum_list (map sent ts), totalReceived = sum_list (map recv ts),
     sentHistory = replicate 10 (sum_list (map sent ts)),
     receivedHistory = replicate 10 (sum_list (map recv ts))\<rparr>"
  using assms by (simp add: updateTrafficData_def fold_add maxTrafficHistorySlots_def)

lemma updateTraffic_full:
  assumes "length (sentHistory cur) = 10" and "length (receivedHistory cur) = 10"
    and "0 \<le> fd (now - lastUpdate) delay"
  defines "k \<equiv> nat (min 10 (fd (now - lastUpdate) delay))"
  shows "updateTrafficData fd now delay ts cur lastUpdate =
    \<lparr>totalSent = sum_list (map sent ts), totalReceived = sum_list (map recv ts),
     sentHistory = moved_history k (sum_list (map sent ts)) (sentHistory cur),
     receivedHistory = moved_history k (sum_list (map recv ts)) (receivedHistory cur)\<rparr>"
proof -
  define n where "n = min 10 (fd (now - lastUpdate) delay)"
  define s1 where "s1 = add_slots n (sum_list (map sent ts)) (sentHistory cur)"
  define r1 where "r1 = add_slots n (sum_list (map recv ts)) (receivedHistory cur)"
  have ne: "sentHistory cur \<noteq> []" using assms(1) by auto
  have n: "(if fd (now - lastUpdate) delay > int maxTrafficHistorySlots then int maxTrafficHistorySlots
      else fd (now - lastUpdate) delay) = n"
    by (simp add: maxTrafficHistorySlots_def min_def n_def)
  have bounds: "0 \<le> n" "n \<le> 10" using assms(3) by (simp_all add: n_def)
  have s: "drop (length s1 - 10) s1 = moved_history k (sum_list (map sent ts)) (sentHistory cur)"
    unfolding s1_def k_def n_def [symmetric] by (rule limited_slots [OF assms(1) bounds])
  have r: "drop (length r1 - 10) r1 = moved_history k (sum_list (map recv ts)) (receivedHistory cur)"
    unfolding r1_def k_def n_def [symmetric] by (rule limited_slots [OF assms(2) bounds])
  have len: "length s1 = length r1"
    using assms(1,2) by (simp add: add_slots_def s1_def r1_def)
  have "updateTrafficData fd now delay ts cur lastUpdate =
    \<lparr>totalSent = sum_list (map sent ts), totalReceived = sum_list (map recv ts),
     sentHistory = drop (length s1 - 10) s1, receivedHistory = drop (length r1 - 10) r1\<rparr>"
    unfolding updateTrafficData_def Let_def fold_add n add_0
    using ne len by (simp add: maxTrafficHistorySlots_def flip: s1_def r1_def)
  then show ?thesis using s r by simp
qed

definition traffic_ok :: "TrafficData \<Rightarrow> bool" where
  "traffic_ok t \<longleftrightarrow> length (receivedHistory t) = length (sentHistory t) \<and> length (sentHistory t) \<in> {0, 10}"

lemma traffic_ok_cases:
  assumes "traffic_ok t"
  obtains (empty) "sentHistory t = []" "receivedHistory t = []"
    | (full) "length (sentHistory t) = 10" "length (receivedHistory t) = 10"
  using assms by (auto simp: traffic_ok_def)

text \<open>
  What a received answer does with the data of a visor. The data and the time are
  kept and the error is gone. The totals are the sums over the transports, the two histories have
  ten values, the last of them the new total, and they move by one value for every refresh interval
  that has passed since the last scheduled update (at most ten; with none the last value is
  replaced). The next update is scheduled within the refresh interval, and not within the next
  second unless the interval itself is that short.
\<close>

theorem nodeReceived_correct:
  fixes result :: Node
  assumes "\<forall>a b. 0 < b \<longrightarrow> floor_div a b = a div b"
    and "0 < refreshDelay" and "whenUpdateWasScheduled nd \<le> now"
    and "traffic_ok (trafficData (lastEmitedData nd))"
  defines "r \<equiv> nodeReceived floor_div now refreshDelay result nd"
    and "old \<equiv> trafficData (lastEmitedData nd)"
    and "k \<equiv> nat (min 10 ((now - whenUpdateWasScheduled nd) div refreshDelay))"
  shows "sd_data (lastEmitedData r) = Some result \<and> sd_error (lastEmitedData r) = None \<and>
    momentOfLastCorrectUpdate (lastEmitedData r) = Some now \<and>
    totalSent (trafficData (lastEmitedData r)) = sum_list (map sent (transports result)) \<and>
    totalReceived (trafficData (lastEmitedData r)) = sum_list (map recv (transports result)) \<and>
    (\<forall>h \<in> {(sentHistory, totalSent), (receivedHistory, totalReceived)}.
       length (fst h (trafficData (lastEmitedData r))) = 10 \<and>
       last (fst h (trafficData (lastEmitedData r))) = snd h (trafficData (lastEmitedData r)) \<and>
       (fst h old \<noteq> [] \<longrightarrow> fst h (trafficData (lastEmitedData r)) =
          moved_history k (snd h (trafficData (lastEmitedData r))) (fst h old))) \<and>
    (\<exists>d. updateSubscription r = Delayed d \<and> d \<le> refreshDelay \<and> (d = refreshDelay \<or> 1000 \<le> d))"
proof -
  let ?t = "updateTrafficData floor_div now refreshDelay (transports result) old (whenUpdateWasScheduled nd)"
  have traffic: "trafficData (lastEmitedData r) = ?t"
    by (simp add: r_def nodeReceived_def startDataSubscription_def emit_def old_def)
  have fd: "floor_div (now - whenUpdateWasScheduled nd) refreshDelay =
      (now - whenUpdateWasScheduled nd) div refreshDelay"
    using assms(1,2) by simp
  have k: "k \<le> 10" by (simp add: k_def)
  have history: "length (fst h ?t) = 10 \<and> last (fst h ?t) = snd h ?t \<and>
      (fst h old \<noteq> [] \<longrightarrow> fst h ?t = moved_history k (snd h ?t) (fst h old))"
    if "h \<in> {(sentHistory, totalSent), (receivedHistory, totalReceived)}" for h
    using assms(4) [folded old_def]
  proof (cases rule: traffic_ok_cases)
    case empty
    then show ?thesis using that by (auto simp: updateTraffic_empty)
  next
    case full
    have "0 \<le> floor_div (now - whenUpdateWasScheduled nd) refreshDelay"
      unfolding fd using assms(2,3) by (simp add: pos_imp_zdiv_nonneg_iff)
    note t = updateTraffic_full [OF full, where fd = floor_div and now = now and delay = refreshDelay
        and lastUpdate = "whenUpdateWasScheduled nd" and ts = "transports result", OF this, unfolded fd, folded k_def]
    show ?thesis using that moved_history_ok [OF full(1) k] moved_history_ok [OF full(2) k] by (auto simp: t)
  qed
  have totals: "totalSent ?t = sum_list (map sent (transports result))"
    "totalReceived ?t = sum_list (map recv (transports result))"
    by (simp_all add: updateTrafficData_def fold_add)
  have "\<exists>d. updateSubscription r = Delayed d \<and> d \<le> refreshDelay \<and> (d = refreshDelay \<or> 1000 \<le> d)"
    using assms(2,3) by (auto simp: r_def nodeReceived_def startDataSubscription_def calculateRemainingTime_def)
  moreover have "sd_data (lastEmitedData r) = Some result" "sd_error (lastEmitedData r) = None"
    "momentOfLastCorrectUpdate (lastEmitedData r) = Some now"
    by (simp_all add: r_def nodeReceived_def startDataSubscription_def emit_def)
  ultimately show ?thesis unfolding traffic using history totals by blast
qed

section \<open>The invariant of the service\<close>

definition node_data_ok :: "NodeData \<Rightarrow> bool" where
  "node_data_ok nd \<longleftrightarrow>
     updateSubscription nd \<noteq> NoUpdate \<and>
     (updateSubscription nd = Loading \<longrightarrow> updating (lastEmitedData nd)) \<and>
     traffic_ok (trafficData (lastEmitedData nd)) \<and>
     (sd_data (lastEmitedData nd) = None \<longleftrightarrow> momentOfLastCorrectUpdate (lastEmitedData nd) = None) \<and>
     (sd_data (lastEmitedData nd) \<noteq> None \<longrightarrow> length (sentHistory (trafficData (lastEmitedData nd))) = 10) \<and>
     (sd_data (lastEmitedData nd) = None \<longrightarrow> whenUpdateWasScheduled nd = 0) \<and>
     (if dataEvents nd = [] then sd_data (lastEmitedData nd) = None else last (dataEvents nd) = lastEmitedData nd)"

definition service_ok :: "node_data_service \<Rightarrow> bool" where
  "service_ok s \<longleftrightarrow> 0 < dataRefreshDelay s \<and> map_wf (nodesMap s) \<and>
     (\<forall>pk nd. map_get (nodesMap s) pk = Some nd \<longrightarrow> nd_pk nd = pk \<and> node_data_ok nd)"

lemma traffic_ok_update:
  assumes "traffic_ok cur"
  shows "traffic_ok (updateTrafficData fd now delay ts cur lastUpdate)"
    "length (sentHistory (updateTrafficData fd now delay ts cur lastUpdate)) = 10"
proof -
  have len: "length (add_slots n v h) = length h + nat n" for n v h
    by (simp add: add_slots_def)
  have "length (sentHistory (updateTrafficData fd now delay ts cur lastUpdate)) = 10 \<and>
      length (receivedHistory (updateTrafficData fd now delay ts cur lastUpdate)) = 10"
    using assms
  proof (cases rule: traffic_ok_cases)
    case full
    then have "sentHistory cur \<noteq> []" by auto
    with full show ?thesis
      unfolding updateTrafficData_def Let_def maxTrafficHistorySlots_def by (simp add: len)
  qed (simp add: updateTraffic_empty)
  then show "traffic_ok (updateTrafficData fd now delay ts cur lastUpdate)"
    "length (sentHistory (updateTrafficData fd now delay ts cur lastUpdate)) = 10"
    by (simp_all add: traffic_ok_def)
qed

lemma service_ok_put:
  assumes "service_ok s" and "nd_pk nd = pk" and "node_data_ok nd"
  shows "service_ok (s\<lparr>nodesMap := map_set pk nd (nodesMap s)\<rparr>)"
  using assms by (auto simp: service_ok_def jm.get_put)

lemma service_ok_del:
  "service_ok s \<Longrightarrow> service_ok (s\<lparr>nodesMap := map_delete pk (nodesMap s), completedSubjects := c\<rparr>)"
  by (auto simp: service_ok_def jm.get_del split: if_splits)

lemma service_ok_get:
  "service_ok s \<Longrightarrow> map_get (nodesMap s) pk = Some nd \<Longrightarrow> nd_pk nd = pk \<and> node_data_ok nd"
  by (simp add: service_ok_def)

lemma node_data_ok_ops:
  assumes "node_data_ok nd"
  shows "node_data_ok (startDataSubscription d nd)" "node_data_ok (nd\<lparr>stopRequestedDate := t\<rparr>)"
    "node_data_ok (updateStarted nd)"
    "node_data_ok (startDataSubscription d (emit ((lastEmitedData nd)\<lparr>sd_error := e, updating := False\<rparr>) nd))"
  using assms by (auto simp: node_data_ok_def startDataSubscription_def updateStarted_def emit_def split: if_splits)

lemma node_data_ok_received:
  assumes "node_data_ok nd"
  shows "node_data_ok (nodeReceived floor_div now d result nd)"
proof -
  have "traffic_ok (trafficData (lastEmitedData nd))" using assms by (simp add: node_data_ok_def)
  from traffic_ok_update [OF this] show ?thesis
    by (simp add: node_data_ok_def nodeReceived_def startDataSubscription_def emit_def)
qed

lemma nd_pk_ops [simp]:
  "nd_pk (startDataSubscription d nd) = nd_pk nd" "nd_pk (updateStarted nd) = nd_pk nd"
  "nd_pk (emit e nd) = nd_pk nd" "nd_pk (nodeReceived floor_div now d result nd) = nd_pk nd"
  by (simp_all add: startDataSubscription_def updateStarted_def emit_def nodeReceived_def)

lemma new_node_data_ok: "node_data_ok (startDataSubscription 0 (new_node_data pk))" "nd_pk (new_node_data pk) = pk"
  by (simp_all add: node_data_ok_def startDataSubscription_def new_node_data_def traffic_ok_def new_traffic_def)

lemma force_ok: "service_ok s \<Longrightarrow> service_ok (forceSpecificNodeRefresh pk s)"
  unfolding forceSpecificNodeRefresh_def
  by (cases "map_get (nodesMap s) pk") (auto intro!: service_ok_put node_data_ok_ops dest: service_ok_get)

lemma force_all_ok: "service_ok s \<Longrightarrow> service_ok (fold forceSpecificNodeRefresh pks s)"
  by (induction pks arbitrary: s) (auto simp: force_ok)

lemma finish_ok: "service_ok s \<Longrightarrow> service_ok (finishIfExpired now nd s)"
  by (simp add: finishIfExpired_def service_ok_del)

lemma finish_all_ok: "service_ok s \<Longrightarrow> service_ok (fold (finishIfExpired now) nds s)"
  by (induction nds arbitrary: s) (auto simp: finish_ok)

lemma failed_ok:
  assumes "service_ok s" and "nodeFailed err pk s = Inr s'"
  shows "service_ok s'"
proof (cases "map_get (nodesMap s) pk")
  case None
  then show ?thesis using assms by (simp add: nodeFailed_def)
next
  case (Some nd)
  then have nd: "nd_pk nd = pk" "node_data_ok nd" using service_ok_get [OF assms(1)] by blast+
  show ?thesis
    using assms Some nd
    by (auto simp: nodeFailed_def bindR_Inr_iff intro!: service_ok_put service_ok_del node_data_ok_ops)
qed

lemma nd_step_ok: "nd_step floor_div s s' \<Longrightarrow> service_ok s \<Longrightarrow> service_ok s'"
proof (induction rule: nd_step.induct)
  case (start s pk)
  then show ?case
    unfolding startRequestingData_def
    by (cases "map_get (nodesMap s) pk")
      (auto intro!: service_ok_put node_data_ok_ops new_node_data_ok simp: new_node_data_ok dest: service_ok_get)
next
  case (stop now s pk)
  then show ?case
    unfolding stopRequestingSpecificNode_def
    by (cases "map_get (nodesMap s) pk") (auto intro!: service_ok_put node_data_ok_ops dest: service_ok_get)
next
  case (refresh_time v s)
  then have "service_ok (s\<lparr>dataRefreshDelay := v * 1000\<rparr>)" by (simp add: service_ok_def)
  then show ?case unfolding refreshTimeChanged_def by (rule force_all_ok)
next
  case (timer s pk nd d)
  then show ?case by (auto intro!: service_ok_put node_data_ok_ops dest: service_ok_get)
next
  case (received s pk nd now result)
  then show ?case by (auto intro!: service_ok_put node_data_ok_received dest: service_ok_get)
next
  case (failed s pk nd err s')
  then show ?case using failed_ok by blast
next
  case (expire s now)
  then show ?case unfolding checkForExpired_def by (rule finish_all_ok)
qed (rule force_ok)

lemma new_service_ok: "0 < v \<Longrightarrow> service_ok (new_node_data_service v)"
  by (simp add: new_node_data_service_def service_ok_def map_get_def)

lemma reachable_nd_ok: "reachable_nd floor_div s \<Longrightarrow> service_ok s"
  by (induction rule: reachable_nd.induct) (auto intro: new_service_ok nd_step_ok)

text \<open>
  Property C10. In every state the service can reach, each visor in the cache is filed under its own
  key and has an update pending, so it is kept up to date as long as it is cached, whatever errors
  and manual refreshes happen; the last event is the cached data; data that was obtained once is
  never lost, together with the time and ten values of history; and the update that is loading is
  shown as such.
\<close>

theorem node_data_invariant:
  assumes "reachable_nd floor_div s" and "map_get (nodesMap s) pk = Some nd"
  shows "nd_pk nd = pk \<and> updateSubscription nd \<noteq> NoUpdate \<and>
    (updateSubscription nd = Loading \<longrightarrow> updating (lastEmitedData nd)) \<and>
    (dataEvents nd \<noteq> [] \<longrightarrow> last (dataEvents nd) = lastEmitedData nd) \<and>
    (sd_data (lastEmitedData nd) \<noteq> None \<longrightarrow>
      momentOfLastCorrectUpdate (lastEmitedData nd) \<noteq> None \<and>
      length (sentHistory (trafficData (lastEmitedData nd))) = 10 \<and>
      length (receivedHistory (trafficData (lastEmitedData nd))) = 10) \<and>
    (\<forall>err s' nd'. updateSubscription nd = Loading \<longrightarrow> nodeFailed err pk s = Inr s' \<longrightarrow>
      map_get (nodesMap s') pk = Some nd' \<longrightarrow>
      sd_data (lastEmitedData nd') = sd_data (lastEmitedData nd) \<and> sd_error (lastEmitedData nd') \<noteq> None)"
proof -
  have ok: "nd_pk nd = pk" "node_data_ok nd"
    using service_ok_get [OF reachable_nd_ok [OF assms(1)] assms(2)] by blast+
  have kept: "sd_data (lastEmitedData nd') = sd_data (lastEmitedData nd) \<and> sd_error (lastEmitedData nd') \<noteq> None"
    if "nodeFailed err pk s = Inr s'" "map_get (nodesMap s') pk = Some nd'" for err s' nd'
    using that assms(2)
    by (auto simp: nodeFailed_def bindR_Inr_iff jm.get_put jm.get_del startDataSubscription_def emit_def
        split: if_splits)
  show ?thesis using ok kept by (auto simp: node_data_ok_def traffic_ok_def)
qed

lemma expired_loop:
  "map_get (nodesMap (fold (finishIfExpired now) nds s)) k =
     (if \<exists>nd \<in> set nds. nd_pk nd = k \<and> expired now nd then None else map_get (nodesMap s) k)"
proof (induction nds arbitrary: s)
  case (Cons nd nds)
  have "map_get (nodesMap (finishIfExpired now nd s)) k =
      (if nd_pk nd = k \<and> expired now nd then None else map_get (nodesMap s) k)"
    by (auto simp: finishIfExpired_def jm.get_del)
  then show ?case by (simp add: Cons.IH del: fold_simps) (auto simp: Cons.IH)
qed simp

lemma expired_entries:
  assumes "service_ok s"
  shows "map_get (nodesMap (checkForExpired now s)) k =
    (case map_get (nodesMap s) k of Some nd \<Rightarrow> if expired now nd then None else Some nd | None \<Rightarrow> None)"
proof -
  have wf: "map_wf (nodesMap s)" using assms by (simp add: service_ok_def)
  have "nd \<in> set (map_values (nodesMap s)) \<longleftrightarrow> (\<exists>pk. map_get (nodesMap s) pk = Some nd)" for nd
    using map_get_entry [OF wf] by (force simp: map_values_def)
  then have "(\<exists>nd \<in> set (map_values (nodesMap s)). nd_pk nd = k \<and> expired now nd) \<longleftrightarrow>
      (\<exists>nd. map_get (nodesMap s) k = Some nd \<and> expired now nd)"
    using service_ok_get [OF assms] by blast
  then show ?thesis
    unfolding checkForExpired_def expired_loop by (auto split: option.split)
qed

text \<open>
  The cache of visors. After the page of a visor is closed its data stays available
  for a minute: a page opened again before that finds the last data and cancels the request to
  stop; the first check after that minute removes the visor; no other visor is touched by any of
  this except those whose own minute is over.
\<close>

theorem node_cache_correct:
  assumes "reachable_nd floor_div s" and "map_get (nodesMap s) pk = Some nd" and "0 < t"
  defines "s1 \<equiv> stopRequestingSpecificNode t pk s"
  shows "(\<forall>now. now - t \<le> 60000 \<longrightarrow>
      (\<exists>nd'. map_get (nodesMap (startRequestingData pk (checkForExpired now s1))) pk = Some nd' \<and>
        lastEmitedData nd' = lastEmitedData nd \<and> (\<forall>later. \<not> expired later nd'))) \<and>
    (\<forall>now. now - t > 60000 \<longrightarrow> map_get (nodesMap (checkForExpired now s1)) pk = None) \<and>
    (\<forall>now k nd'. k \<noteq> pk \<longrightarrow> map_get (nodesMap s) k = Some nd' \<longrightarrow> \<not> expired now nd' \<longrightarrow>
      map_get (nodesMap (checkForExpired now s1)) k = Some nd')"
proof -
  have ok: "service_ok s1"
    unfolding s1_def using assms(3) reachable_nd_ok [OF assms(1)] nd_step_ok [OF nd_step.stop] by auto
  have get: "map_get (nodesMap s1) k =
      (if k = pk then Some (nd\<lparr>stopRequestedDate := t\<rparr>) else map_get (nodesMap s) k)" for k
    using assms(2) by (simp add: s1_def stopRequestingSpecificNode_def jm.get_put)
  have entries: "map_get (nodesMap (checkForExpired now s1)) k =
      (case map_get (nodesMap s1) k of Some nd \<Rightarrow> if expired now nd then None else Some nd | None \<Rightarrow> None)" for now k
    by (rule expired_entries [OF ok])
  show ?thesis
    using assms(3)
    by (auto simp: entries get startRequestingData_def jm.get_put expired_def expirationTime_def split: option.splits)
qed

section \<open>Witnesses\<close>

definition demo_node :: Node where
  "demo_node = new_node\<lparr>localPk := ''02aa'', transports :=
     [\<lparr>tr_id = ''t1'', tr_localPk = ''02aa'', remotePk = ''02bb'', tr_type = ''stcpr'', recv = 7, sent = 5,
       isPersistent = False, notFound = False\<rparr>]\<rparr>"

theorem nodeReceived_correct_witness:
  "totalSent (trafficData (lastEmitedData (nodeReceived (div) 90000 10000 demo_node (new_node_data ''02aa'')))) = 5"
  using nodeReceived_correct [of "(div)" 10000 "new_node_data ''02aa''" 90000 demo_node]
  by (simp add: new_node_data_def traffic_ok_def new_traffic_def demo_node_def)

definition demo_service :: node_data_service where
  "demo_service = startRequestingData ''02aa'' (new_node_data_service 10)"

lemma demo_service_reachable: "reachable_nd (div) demo_service"
  unfolding demo_service_def by (intro reachable_nd.step [OF reachable_nd.init nd_step.start]) simp

lemma demo_service_get: "map_get (nodesMap demo_service) ''02aa'' = Some (startDataSubscription 0 (new_node_data ''02aa''))"
  by (simp add: demo_service_def startRequestingData_def new_node_data_service_def map_get_def map_set_def)

theorem node_data_invariant_witness:
  "updateSubscription (startDataSubscription 0 (new_node_data ''02aa'')) \<noteq> NoUpdate"
  using node_data_invariant [OF demo_service_reachable demo_service_get] by blast

theorem node_cache_correct_witness:
  "map_get (nodesMap (checkForExpired 70002 (stopRequestingSpecificNode 10000 ''02aa'' demo_service))) ''02aa'' = None"
  using node_cache_correct [OF demo_service_reachable demo_service_get, of 10000] by simp

end
