(* ===== verification/Nodes_Data.thy ===== *)
theory Nodes_Data
  imports Node_Data
begin

text \<open>
  \<open>src/app/services/multiple-node-data.service.ts\<close>: the service that keeps the list of visors up to
  date. As for the data of one visor, the timers and the answers are events on the state of the
  service; an update is waiting for its delay or loading the data. The answer of the hypervisor goes
  through \<open>getNodes\<close>, so the storage of the browser is part of the state.
\<close>

record MultipleNodesBackendData =
  md_data :: "Node list option"
  md_error :: "jsval option"
  md_moment :: "int option"
  md_updating :: bool

record multiple_node_service =
  mn_refreshDelay :: int
  mn_update :: update_phase
  mn_last :: MultipleNodesBackendData
  mn_events :: "MultipleNodesBackendData list"
  firstCallToGetDataMade :: bool

definition no_nodes_data :: MultipleNodesBackendData where
  "no_nodes_data = \<lparr>md_data = None, md_error = None, md_moment = None, md_updating = False\<rparr>"

definition getData :: "int \<Rightarrow> multiple_node_service \<Rightarrow> multiple_node_service" where
  "getData delayMs s = s\<lparr>firstCallToGetDataMade := True, mn_update := Delayed delayMs\<rparr>"

definition forceRefresh :: "multiple_node_service \<Rightarrow> multiple_node_service" where
  "forceRefresh s = getData 0 s"

text \<open>The constructor: the subject of the refresh time has a value, which starts the updates.\<close>

definition nodesRefreshTimeChanged :: "int \<Rightarrow> multiple_node_service \<Rightarrow> multiple_node_service" where
  "nodesRefreshTimeChanged v s = forceRefresh (s\<lparr>mn_refreshDelay := v * 1000\<rparr>)"

definition new_multiple_node_service :: "int \<Rightarrow> multiple_node_service" where
  "new_multiple_node_service v =
     nodesRefreshTimeChanged v
       \<lparr>mn_refreshDelay = 0, mn_update = NoUpdate, mn_last = no_nodes_data, mn_events = [], firstCallToGetDataMade = False\<rparr>"

definition startRequestingNodes :: "multiple_node_service \<Rightarrow> multiple_node_service" where
  "startRequestingNodes s = (if \<not> firstCallToGetDataMade s then getData 0 s else s)"

text \<open>
  The subscription object exists since the constructor, so the test for it always holds.
\<close>

definition stopRequestingNodes :: "multiple_node_service \<Rightarrow> multiple_node_service" where
  "stopRequestingNodes s = s\<lparr>mn_update := NoUpdate, firstCallToGetDataMade := False\<rparr>"

definition emit_nodes :: "MultipleNodesBackendData \<Rightarrow> multiple_node_service \<Rightarrow> multiple_node_service" where
  "emit_nodes d s = s\<lparr>mn_last := d, mn_events := mn_events s @ [d]\<rparr>"

definition nodesUpdateStarted :: "multiple_node_service \<Rightarrow> multiple_node_service" where
  "nodesUpdateStarted s = (emit_nodes ((mn_last s)\<lparr>md_updating := True\<rparr>) s)\<lparr>mn_update := Loading\<rparr>"

definition nodesReceived :: "int \<Rightarrow> Node list \<Rightarrow> multiple_node_service \<Rightarrow> multiple_node_service" where
  "nodesReceived now ns s =
     getData (mn_refreshDelay s)
       (emit_nodes \<lparr>md_data = Some ns, md_error = None, md_moment = Some now, md_updating = False\<rparr> s)"

definition nodesFailed :: "jsval \<Rightarrow> multiple_node_service \<Rightarrow> multiple_node_service js_result" where
  "nodesFailed err s =
     bindR (processServiceError err) (\<lambda>e.
       Inr (getData connectionRetryDelay
         (emit_nodes \<lparr>md_data = md_data (mn_last s), md_error = Some e, md_moment = md_moment (mn_last s),
                      md_updating = False\<rparr> s)))"

text \<open>
  The answer to the request: the list of the hypervisor, which \<open>getNodes\<close> completes with the saved
  visors, or an error. An exception of \<open>getNodes\<close> reaches the error handler like a failed request;
  the object of an exception, with the text of the browser, is a parameter.
\<close>

definition nodesAnswer ::
  "(js_error \<Rightarrow> jsval) \<Rightarrow> bignumber \<Rightarrow> int \<Rightarrow> jsval + summary_resp list option \<Rightarrow> storage_service \<times> multiple_node_service \<Rightarrow>
   (storage_service \<times> multiple_node_service) js_result" where
  "nodesAnswer exc bn now r s =
     (case r of
        Inl err \<Rightarrow> bindR (nodesFailed err (snd s)) (\<lambda>m. Inr (fst s, m))
      | Inr result \<Rightarrow>
          (case getNodes bn result (fst s) of
             Inr (ns, st) \<Rightarrow> Inr (st, nodesReceived now ns (snd s))
           | Inl e \<Rightarrow> bindR (nodesFailed (exc e) (snd s)) (\<lambda>m. Inr (fst s, m))))"

section \<open>The service as a transition system\<close>

inductive mn_step ::
  "(js_error \<Rightarrow> jsval) \<Rightarrow> bignumber \<Rightarrow> storage_service \<times> multiple_node_service \<Rightarrow> storage_service \<times> multiple_node_service \<Rightarrow> bool" for exc bn where
  start: "mn_step exc bn (st, m) (st, startRequestingNodes m)"
| stop: "mn_step exc bn (st, m) (st, stopRequestingNodes m)"
| force: "mn_step exc bn (st, m) (st, forceRefresh m)"
| refresh_time: "0 < v \<Longrightarrow> mn_step exc bn (st, m) (st, nodesRefreshTimeChanged v m)"
| timer: "mn_update m = Delayed d \<Longrightarrow> mn_step exc bn (st, m) (st, nodesUpdateStarted m)"
| answer: "mn_update m = Loading \<Longrightarrow> nodesAnswer exc bn now r (st, m) = Inr (st', m') \<Longrightarrow> mn_step exc bn (st, m) (st', m')"

inductive reachable_mn ::
  "(js_error \<Rightarrow> jsval) \<Rightarrow> bignumber \<Rightarrow> storage_service \<times> multiple_node_service \<Rightarrow> bool" for exc bn where
  init: "0 < v \<Longrightarrow> reachable_mn exc bn (st, new_multiple_node_service v)"
| step: "reachable_mn exc bn s \<Longrightarrow> mn_step exc bn s s' \<Longrightarrow> reachable_mn exc bn s'"

inductive_cases mn_stepE: "mn_step exc bn s s'"

lemmas mn_defs = getData_def forceRefresh_def nodesRefreshTimeChanged_def startRequestingNodes_def
  stopRequestingNodes_def emit_nodes_def nodesUpdateStarted_def nodesReceived_def new_multiple_node_service_def

definition mn_ok :: "multiple_node_service \<Rightarrow> bool" where
  "mn_ok m \<longleftrightarrow>
     (firstCallToGetDataMade m \<longleftrightarrow> mn_update m \<noteq> NoUpdate) \<and> 0 < mn_refreshDelay m \<and>
     (md_data (mn_last m) = None \<longleftrightarrow> md_moment (mn_last m) = None) \<and>
     (mn_events m \<noteq> [] \<longrightarrow> last (mn_events m) = mn_last m) \<and>
     (mn_update m = Loading \<longrightarrow> md_updating (mn_last m))"

lemma nodesFailed_result:
  assumes "nodesFailed err m = Inr m'"
  obtains e where "m' = getData connectionRetryDelay
    (emit_nodes \<lparr>md_data = md_data (mn_last m), md_error = Some e, md_moment = md_moment (mn_last m), md_updating = False\<rparr> m)"
  using assms by (auto simp: nodesFailed_def bindR_Inr_iff)

lemma nodesAnswer_cases:
  assumes "nodesAnswer exc bn now r (st, m) = Inr (st', m')"
  obtains (received) ns where "m' = nodesReceived now ns m"
    | (failed) err where "nodesFailed err m = Inr m'" and "st' = st"
  using assms by (auto simp: nodesAnswer_def bindR_Inr_iff split: sum.splits prod.splits)

lemma nodesFailed_ok: "mn_ok m \<Longrightarrow> nodesFailed err m = Inr m' \<Longrightarrow> mn_ok m'"
  by (erule nodesFailed_result) (simp add: mn_ok_def mn_defs)

lemma nodesReceived_ok: "mn_ok m \<Longrightarrow> mn_ok (nodesReceived now ns m)"
  by (simp add: mn_ok_def mn_defs)

lemma mn_step_ok:
  assumes "mn_step exc bn s s'" and "mn_ok (snd s)"
  shows "mn_ok (snd s')"
  using assms(1)
proof (cases rule: mn_step.cases)
  case (answer m now r st st' m')
  then show ?thesis using assms(2) nodesAnswer_cases [OF answer(4)] by (metis nodesFailed_ok nodesReceived_ok snd_conv)
qed (use assms(2) in \<open>auto simp: mn_ok_def mn_defs\<close>)

lemma reachable_mn_ok: "reachable_mn exc bn s \<Longrightarrow> mn_ok (snd s)"
  by (induction rule: reachable_mn.induct) (auto simp: mn_step_ok, simp add: mn_ok_def mn_defs no_nodes_data_def)

lemma mn_step_data:
  assumes "mn_step exc bn s s'" and "md_data (mn_last (snd s)) \<noteq> None"
  shows "md_data (mn_last (snd s')) \<noteq> None"
  using assms(1)
proof (cases rule: mn_step.cases)
  case (answer m now r st st' m')
  from answer(4) show ?thesis
    using assms(2) answer(1,2) by (cases rule: nodesAnswer_cases) (auto simp: mn_defs elim!: nodesFailed_result)
qed (use assms(2) in \<open>auto simp: mn_defs\<close>)

text \<open>
  Property C19. The list of visors is kept up to date: in every state the service can reach, as long
  as it was not stopped there is exactly one update under way, which is waiting for its delay or
  loading; a request that fails or an answer that can not be used keeps the last good list and the
  time it was obtained, and is repeated after the retry delay; and a list that was once obtained is
  never lost. A new subscriber receives the last event.
\<close>

theorem nodes_kept_updated:
  assumes "reachable_mn exc bn (st, m)"
  shows "(firstCallToGetDataMade m \<longleftrightarrow> mn_update m \<noteq> NoUpdate) \<and>
    (mn_events m \<noteq> [] \<longrightarrow> last (mn_events m) = mn_last m) \<and>
    (\<forall>st' m'. mn_step exc bn (st, m) (st', m') \<longrightarrow> md_data (mn_last m) \<noteq> None \<longrightarrow> md_data (mn_last m') \<noteq> None) \<and>
    (\<forall>err m'. nodesFailed err m = Inr m' \<longrightarrow> md_data (mn_last m') = md_data (mn_last m) \<and>
       md_moment (mn_last m') = md_moment (mn_last m) \<and> md_error (mn_last m') \<noteq> None \<and>
       mn_update m' = Delayed connectionRetryDelay) \<and>
    (\<forall>now ns. mn_update (nodesReceived now ns m) = Delayed (mn_refreshDelay m) \<and> md_error (mn_last (nodesReceived now ns m)) = None)"
proof -
  have "md_data (mn_last m') = md_data (mn_last m) \<and> md_moment (mn_last m') = md_moment (mn_last m) \<and>
      md_error (mn_last m') \<noteq> None \<and> mn_update m' = Delayed connectionRetryDelay" if "nodesFailed err m = Inr m'" for err m'
    using that by (rule nodesFailed_result) (simp add: mn_defs)
  moreover have "mn_ok m" using reachable_mn_ok [OF assms] by simp
  moreover have "mn_update (nodesReceived now ns m) = Delayed (mn_refreshDelay m)"
    "md_error (mn_last (nodesReceived now ns m)) = None" for now ns
    by (simp_all add: mn_defs)
  ultimately show ?thesis using mn_step_data by (fastforce simp: mn_ok_def)
qed

theorem nodes_kept_updated_witness:
  "mn_update (new_multiple_node_service 10) \<noteq> NoUpdate"
proof -
  have "reachable_mn (\<lambda>e. VObj []) \<lparr>decimalPlaces = \<lambda>r n. r, bn_toString = \<lambda>r. []\<rparr> (fresh_service empty_store, new_multiple_node_service 10)"
    by (rule reachable_mn.init) simp
  from nodes_kept_updated [OF this] show ?thesis by (simp add: mn_defs)
qed

end
