(* ===== verification/General_Utils.thy ===== *)
theory General_Utils
  imports Hv_Store
begin

text \<open>
  \<open>src/app/utils/generalUtils.ts\<close>: the checks of the build tag of a visor and of the text of an IP
  address.
\<close>

definition is_tag :: "jsstr \<Rightarrow> string list \<Rightarrow> bool" where
  "is_tag tag names = (case tag of Str t \<Rightarrow> list_ex (\<lambda>n. to_upper t = to_upper n) names | _ \<Rightarrow> True)"

definition checkIfTagIsUpdatable :: "jsstr \<Rightarrow> bool" where
  "checkIfTagIsUpdatable tag =
     (\<not> is_tag tag [''Windows'', ''Win'', ''Mac'', ''Macos'', ''Mac OS'', ''Darwin''])"

definition checkIfTagCanOpenterminal :: "jsstr \<Rightarrow> bool" where
  "checkIfTagCanOpenterminal tag = (\<not> is_tag tag [''Windows'', ''Win''])"

definition ip_part_ok :: "string \<Rightarrow> bool" where
  "ip_part_ok part =
     (case parse_int part of
        None \<Rightarrow> False
      | Some n \<Rightarrow> \<not> (int_to_string n \<noteq> part \<or> n < 0 \<or> n > 255))"

definition checkIfIpValidOrEmpty :: "jsstr \<Rightarrow> bool" where
  "checkIfIpValidOrEmpty v =
     (case v of
        Str s \<Rightarrow>
          if s = [] then True
          else let parts = split_on CHR ''.'' s
               in if length parts \<noteq> 4 then False else list_all ip_part_ok parts
      | _ \<Rightarrow> True)"

text \<open>The text of the address with four given parts.\<close>

definition ip_text :: "nat \<Rightarrow> nat \<Rightarrow> nat \<Rightarrow> nat \<Rightarrow> string" where
  "ip_text a b c d = join_with ''.'' [nat_to_string a, nat_to_string b, nat_to_string c, nat_to_string d]"

lemma ip_part_iff: "ip_part_ok p \<longleftrightarrow> (\<exists>n \<le> 255. p = nat_to_string n)"
proof
  assume "ip_part_ok p"
  then obtain i where "int_to_string i = p" "0 \<le> i" "i \<le> 255"
    by (auto simp: ip_part_ok_def split: option.splits)
  then show "\<exists>n \<le> 255. p = nat_to_string n"
    by (intro exI [of _ "nat i"]) (auto simp: int_to_string_def)
next
  assume "\<exists>n \<le> 255. p = nat_to_string n"
  then obtain n where "n \<le> 255" "p = nat_to_string n" by blast
  then show "ip_part_ok p" by (simp add: ip_part_ok_def parse_int_nat) (simp add: int_to_string_def)
qed

lemma no_dot: "CHR ''.'' \<notin> set (nat_to_string n)"
  using nat_to_string_digits [of n] is_digit_not_sign by blast

lemma ip_text_parts:
  "split_on CHR ''.'' (ip_text a b c d) = [nat_to_string a, nat_to_string b, nat_to_string c, nat_to_string d]"
  by (simp add: ip_text_def split_on_append split_on_single no_dot del: nat_to_string.simps)

lemma four_parts: "length xs = 4 \<Longrightarrow> \<exists>a b c d. xs = [a, b, c, d]"
  by (simp add: numeral_eq_Suc length_Suc_conv) blast

text \<open>
  The check of an IP address accepts exactly the missing or empty text and the texts of
  four numbers from 0 to 255 in their usual decimal form, separated by points: leading zeros, signs,
  spaces, other bases and missing or additional parts are all rejected.
\<close>

theorem ip_check_exact:
  "checkIfIpValidOrEmpty (Str s) \<longleftrightarrow>
     s = [] \<or> (\<exists>a b c d. {a, b, c, d} \<subseteq> {..255} \<and> s = ip_text a b c d)"
proof (cases "s = []")
  case False
  have "(\<exists>a b c d. {a, b, c, d} \<subseteq> {..255} \<and> s = ip_text a b c d)"
    if len: "length (split_on CHR ''.'' s) = 4" and ok: "list_all ip_part_ok (split_on CHR ''.'' s)"
  proof -
    obtain p q r t where parts: "split_on CHR ''.'' s = [p, q, r, t]" using four_parts [OF len] by blast
    then obtain a b c d where n: "a \<le> 255" "b \<le> 255" "c \<le> 255" "d \<le> 255"
      "[p, q, r, t] = [nat_to_string a, nat_to_string b, nat_to_string c, nat_to_string d]"
      using ok by (auto simp: ip_part_iff simp del: nat_to_string.simps)
    have "s = join_with ''.'' [p, q, r, t]" by (metis join_split_on parts)
    then have "s = ip_text a b c d" unfolding ip_text_def n(5) .
    then show ?thesis using n(1-4) by (intro exI [of _ a] exI [of _ b] exI [of _ c] exI [of _ d]) simp
  qed
  moreover have "length (split_on CHR ''.'' s) = 4 \<and> list_all ip_part_ok (split_on CHR ''.'' s)"
    if "{a, b, c, d} \<subseteq> {..255}" "s = ip_text a b c d" for a b c d
    unfolding that(2) ip_text_parts using that(1) by (auto simp: ip_part_iff)
  ultimately show ?thesis using False by (auto simp: checkIfIpValidOrEmpty_def Let_def)
qed (simp add: checkIfIpValidOrEmpty_def)

end
