(* ===== verification/Node_List.thy ===== *)
theory Node_List
  imports List_Component Labeled_Element Nodes_Data General_Utils
begin

text \<open>
  \<open>node-list.component.ts\<close>: the page with the list of visors. It shows what the service of
  \<open>Nodes_Data\<close> sends, with the filters, the order and the pages of \<open>List_Component\<close> (without check
  boxes), and it hides offline visors in the storage of the browser.
\<close>

section \<open>Elements\<close>

fun jsstr_value :: "jsstr \<Rightarrow> jsval" where
  "jsstr_value Undefined = VUndef"
| "jsstr_value Null = VNull"
| "jsstr_value (Str s) = VStr s"

definition bool_value :: "bool option \<Rightarrow> jsval" where
  "bool_value b = (case b of Some v \<Rightarrow> VBool v | None \<Rightarrow> VUndef)"

text \<open>The properties of a visor that the list, its helpers and its operations read.\<close>

definition node_element :: "bool \<Rightarrow> (string \<Rightarrow> string) \<Rightarrow> storage_service \<Rightarrow> Node \<Rightarrow> element" where
  "node_element dmsg instant st n =
     [(''label'', VStr (node_label n)), (''localPk'', VStr (localPk n)), (''ip'', jsstr_value (node_ip n)),
      (''version'', jsstr_value (version n)), (''buildTag'', jsstr_value (buildTag n)),
      (''online'', bool_value (online n)), (''isHypervisor'', bool_value (isHypervisor n)),
      (''dmsgServerPk'', VStr (dmsgServerPk n)), (''roundTripPing'', VStr (roundTripPing n))] @
     (if dmsg then [(''dmsgServerPk_label'', VStr (getCompleteLabel instant st (dmsgServerPk n)))] else [])"

definition element_online :: "element \<Rightarrow> bool" where
  "element_online e = val_truthy (case map_of e ''online'' of Some v \<Rightarrow> v | None \<Rightarrow> VUndef)"

text \<open>A property that has a text, \<open>null\<close> or no value.\<close>

definition element_str :: "element \<Rightarrow> string \<Rightarrow> jsstr" where
  "element_str e k = (case map_of e k of Some (VStr s) \<Rightarrow> Str s | Some VNull \<Rightarrow> Null | _ \<Rightarrow> Undefined)"

definition base_node_columns :: "SortingColumn list" where
  "base_node_columns =
     [\<lparr>properties = [''isHypervisor''], column_label = ''nodes.hypervisor'', sortingMode = BooleanMode, labelProperties = None\<rparr>,
      \<lparr>properties = [''online''], column_label = ''nodes.state'', sortingMode = BooleanMode, labelProperties = None\<rparr>,
      \<lparr>properties = [''label''], column_label = ''nodes.label'', sortingMode = TextMode, labelProperties = None\<rparr>,
      \<lparr>properties = [''localPk''], column_label = ''nodes.key'', sortingMode = TextMode, labelProperties = None\<rparr>]"

definition node_columns :: "bool \<Rightarrow> SortingColumn list" where
  "node_columns dmsg = base_node_columns @
     (if dmsg then
        [\<lparr>properties = [''dmsgServerPk''], column_label = ''nodes.dmsg-server'', sortingMode = TextMode,
          labelProperties = Some [''dmsgServerPk_label'']\<rparr>,
         \<lparr>properties = [''roundTripPing''], column_label = ''nodes.ping'', sortingMode = NumberMode, labelProperties = None\<rparr>]
      else [])"

definition all_node_filters :: "CompleteFilterProperties list" where
  "all_node_filters =
     [\<lparr>filterName = ''nodes.filter-dialog.online'',
       printableLabelsForValues = Some
         [\<lparr>pl_value = [], pl_label = ''nodes.filter-dialog.online-options.any''\<rparr>,
          \<lparr>pl_value = ''true'', pl_label = ''nodes.filter-dialog.online-options.online''\<rparr>,
          \<lparr>pl_value = ''false'', pl_label = ''nodes.filter-dialog.online-options.offline''\<rparr>],
       filter_type = Select, keyNameInElementsArray = ''online'', secondaryKeyNameInElementsArray = None,
       keyNameInFiltersObject = []\<rparr>,
      \<lparr>filterName = ''nodes.filter-dialog.label'', printableLabelsForValues = None, filter_type = TextInput,
       keyNameInElementsArray = ''label'', secondaryKeyNameInElementsArray = None, keyNameInFiltersObject = []\<rparr>,
      \<lparr>filterName = ''nodes.filter-dialog.key'', printableLabelsForValues = None, filter_type = TextInput,
       keyNameInElementsArray = ''localPk'', secondaryKeyNameInElementsArray = None, keyNameInFiltersObject = []\<rparr>,
      \<lparr>filterName = ''nodes.filter-dialog.dmsg'', printableLabelsForValues = None, filter_type = TextInput,
       keyNameInElementsArray = ''dmsgServerPk'', secondaryKeyNameInElementsArray = Some ''dmsgServerPk_label'',
       keyNameInFiltersObject = []\<rparr>]"

definition node_filters :: "bool \<Rightarrow> CompleteFilterProperties list" where
  "node_filters dmsg = (if dmsg then all_node_filters else butlast all_node_filters)"

section \<open>The page\<close>

record node_list_page =
  nl_loading :: bool
  nl_updating :: bool
  nl_errorsUpdating :: bool
  lastUpdateRequestedManually :: bool
  showDmsgInfo :: bool
  canLogOut :: bool
  hasOfflineNodes :: bool
  allNodes :: "Node list"
  lastUpdate :: int
  secondsSinceLastUpdate :: int
  nl_saved :: "MultipleNodesBackendData option option"
  nl_list :: "unit list_component"

definition new_node_list_page :: "hv_store \<Rightarrow> (string, string) jsmap \<Rightarrow> int \<Rightarrow> string \<Rightarrow> MultipleNodesBackendData option option \<Rightarrow> node_list_page" where
  "new_node_list_page st q now url saved =
     (let dmsg = str_includes url ''dmsg''
      in \<lparr>nl_loading = True, nl_updating = False, nl_errorsUpdating = False, lastUpdateRequestedManually = False,
          showDmsgInfo = dmsg, canLogOut = True, hasOfflineNodes = False, allNodes = [], lastUpdate = now,
          secondsSinceLastUpdate = 0, nl_saved = saved,
          nl_list = new_list_component st (node_columns dmsg) 3 (node_filters dmsg) (if dmsg then ''dl'' else ''nl'') q False\<rparr>)"

definition updateOptionsMenu :: "node_list_page \<Rightarrow> string list" where
  "updateOptionsMenu p = ''modifyRewardsAll'' # (if canLogOut p then [''logout''] else [])"

datatype page_action = LogOut | UpdateAll | ChangeRewards | NoPageAction

definition performAction :: "string \<Rightarrow> page_action" where
  "performAction actionName =
     (if actionName = ''logout'' then LogOut
      else if actionName = ''updateAll'' then UpdateAll
      else if actionName = ''modifyRewardsAll'' then ChangeRewards
      else NoPageAction)"

datatype page_event =
    PageError string "jsval option"
  | PageDone string
  | CloseTemporaryError
  | HideDataProblem
  | ShowDataProblem

definition no_ident :: "element \<Rightarrow> unit" where "no_ident e = ()"

definition set_nodes ::
  "(string \<Rightarrow> string \<Rightarrow> int) \<Rightarrow> (string \<Rightarrow> string) \<Rightarrow> storage_service \<Rightarrow> Node list \<Rightarrow> node_list_page \<Rightarrow> node_list_page js_result" where
  "set_nodes collate instant st ns p =
     bindR (set_list_data collate no_ident (map (node_element (showDmsgInfo p) instant st) ns) (nl_list p)) (\<lambda>lc.
       Inr (p\<lparr>allNodes := ns, nl_list := lc,
              hasOfflineNodes := list_ex (\<lambda>e. \<not> element_online e) (case lc_filtered lc of Some es \<Rightarrow> es | None \<Rightarrow> [])\<rparr>))"

text \<open>
  The handler of the events of the data service. \<open>None\<close> is the first value of the subject. The time
  of an update that has data is never missing.
\<close>

definition nodes_event ::
  "(string \<Rightarrow> string \<Rightarrow> int) \<Rightarrow> (string \<Rightarrow> string) \<Rightarrow> storage_service \<Rightarrow> int \<Rightarrow>
   MultipleNodesBackendData option \<Rightarrow> node_list_page \<Rightarrow> (node_list_page \<times> page_event list) js_result" where
  "nodes_event collate instant st now result p =
     (let p1 = p\<lparr>nl_updating := (case result of Some r \<Rightarrow> md_updating r | None \<Rightarrow> True)\<rparr>
      in case result of
           None \<Rightarrow> Inr (p1, [])
         | Some r \<Rightarrow>
             if md_updating r then Inr (p1, [])
             else
               (case (md_data r, md_error r) of
                  (Some ns, None) \<Rightarrow>
                    bindR (set_nodes collate instant st ns p1) (\<lambda>p2.
                      let moment = (case md_moment r of Some t \<Rightarrow> t | None \<Rightarrow> 0)
                      in Inr (p2\<lparr>nl_loading := False, lastUpdate := moment,
                                 secondsSinceLastUpdate := (now - moment) div 1000,
                                 nl_errorsUpdating := False, lastUpdateRequestedManually := False\<rparr>,
                              [CloseTemporaryError, HideDataProblem] @
                              (if lastUpdateRequestedManually p2 then [PageDone ''common.refreshed''] else [])))
                | (_, Some e) \<Rightarrow>
                    Inr (p1\<lparr>nl_errorsUpdating := True\<rparr>,
                         (if \<not> nl_errorsUpdating p1
                          then [PageError (if nl_loading p1 then ''common.loading-error'' else ''nodes.error-load'') (Some e)]
                          else []) @ [ShowDataProblem])
                | (None, None) \<Rightarrow> Inr (p1, [])))"

text \<open>
  An event that reaches the page from the service is also kept in the state of the history of the
  browser; the start of the page uses the kept one first.
\<close>

definition service_event ::
  "(string \<Rightarrow> string \<Rightarrow> int) \<Rightarrow> (string \<Rightarrow> string) \<Rightarrow> storage_service \<Rightarrow> int \<Rightarrow>
   MultipleNodesBackendData option \<Rightarrow> node_list_page \<Rightarrow> (node_list_page \<times> page_event list) js_result" where
  "service_event collate instant st now result p =
     nodes_event collate instant st now result (p\<lparr>nl_saved := Some result\<rparr>)"

definition startGettingData ::
  "(string \<Rightarrow> string \<Rightarrow> int) \<Rightarrow> (string \<Rightarrow> string) \<Rightarrow> storage_service \<Rightarrow> int \<Rightarrow>
   node_list_page \<Rightarrow> (node_list_page \<times> page_event list) js_result" where
  "startGettingData collate instant st now p =
     (case nl_saved p of
        Some saved \<Rightarrow> nodes_event collate instant st now saved p
      | None \<Rightarrow> Inr (p, []))"

definition time_tick :: "int \<Rightarrow> node_list_page \<Rightarrow> node_list_page" where
  "time_tick now p = p\<lparr>secondsSinceLastUpdate := (now - lastUpdate p) div 1000\<rparr>"

definition forceDataRefresh ::
  "bool \<Rightarrow> node_list_page \<times> multiple_node_service \<Rightarrow> node_list_page \<times> multiple_node_service" where
  "forceDataRefresh requestedManually s =
     (if requestedManually then (fst s)\<lparr>lastUpdateRequestedManually := True\<rparr> else fst s, forceRefresh (snd s))"

section \<open>What is shown of a visor\<close>

definition nodeStatusClass :: "Node \<Rightarrow> bool \<Rightarrow> string" where
  "nodeStatusClass n forDot =
     (if is_online n then
        if servicesHealth n = Str ''unhealthy'' then (if forDot then ''dot-yellow blinking'' else ''yellow-text'')
        else if servicesHealth n = Str ''healthy'' then (if forDot then ''dot-green'' else ''green-text'')
        else (if forDot then ''dot-outline-gray'' else [])
      else (if forDot then ''dot-red'' else ''red-text''))"

definition nodeStatusText :: "Node \<Rightarrow> bool \<Rightarrow> string" where
  "nodeStatusText n forTooltip =
     (if is_online n then
        if servicesHealth n = Str ''healthy'' then ''node.statuses.online''
        else if servicesHealth n = Str ''unhealthy'' then ''node.statuses.partially-online''
        else if servicesHealth n = Str ''connecting'' then ''node.statuses.connecting''
        else ''node.statuses.unknown''
      else ''node.statuses.offline'') @ (if forTooltip then ''-tooltip'' else [])"

section \<open>Operations on all visors\<close>

definition dataSource :: "node_list_page \<Rightarrow> element list option" where
  "dataSource p = lc_toShow (nl_list p)"

definition online_page :: "node_list_page \<Rightarrow> element list" where
  "online_page p = filter element_online (case dataSource p of Some es \<Rightarrow> es | None \<Rightarrow> [])"

record update_node_data =
  und_key :: string
  und_label :: string
  und_version :: jsstr
  und_tag :: jsstr

definition update_data :: "element \<Rightarrow> update_node_data" where
  "update_data e =
     \<lparr>und_key = prop_text e ''localPk'', und_label = prop_text e ''label'', und_version = element_str e ''version'',
      und_tag = element_str e ''buildTag''\<rparr>"

text \<open>The two lists the dialog is opened with; \<open>None\<close> is the error that there are no visors.\<close>

definition updateAll :: "node_list_page \<Rightarrow> (update_node_data list \<times> update_node_data list) option" where
  "updateAll p =
     (if (case dataSource p of None \<Rightarrow> True | Some es \<Rightarrow> es = []) then None
      else Some (map update_data (filter (\<lambda>e. checkIfTagIsUpdatable (element_str e ''buildTag'')) (online_page p)),
                 map update_data (filter (\<lambda>e. \<not> checkIfTagIsUpdatable (element_str e ''buildTag'')) (online_page p))))"

definition changeRewardsToAll :: "node_list_page \<Rightarrow> (string \<times> string) list option" where
  "changeRewardsToAll p =
     (if (case dataSource p of None \<Rightarrow> True | Some es \<Rightarrow> es = []) then None
      else Some (map (\<lambda>e. (prop_text e ''localPk'', prop_text e ''label'')) (online_page p)))"

text \<open>
  \<open>recursivelyUpdateWallets\<close>: the request takes the key (\<open>None\<close> is \<open>undefined\<close>) and the state of the
  backend and tells whether the visor was updated; an error of the request counts as no.
\<close>

function recursivelyUpdateWallets ::
  "(string option \<Rightarrow> 'b \<Rightarrow> bool \<times> 'b) \<Rightarrow> string list \<Rightarrow> string list \<Rightarrow> nat \<Rightarrow> 'b \<Rightarrow> nat \<times> 'b \<times> (bool \<times> string option) list" where
  "recursivelyUpdateWallets req keys labels errors b =
     (case req (if keys = [] then None else Some (last keys)) b of
        (ok, b') \<Rightarrow>
          let msg = (ok, if labels = [] then None else Some (last labels));
              errors' = (if ok then errors else errors + 1)
          in if length (butlast keys) \<ge> 1 then
               (case recursivelyUpdateWallets req (butlast keys) (butlast labels) errors' b' of
                  (n, b'', msgs) \<Rightarrow> (n, b'', msg # msgs))
             else (errors', b', [msg]))"
  by pat_completeness auto
termination
  by (relation "measure (\<lambda>(req, keys, labels, errors, b). length keys)") auto

declare recursivelyUpdateWallets.simps [simp del]

section \<open>Menus\<close>

datatype node_action = CopyKey | CopyDmsg | EditLabel | DeleteNode | NoNodeAction

definition node_options :: "bool \<Rightarrow> bool \<Rightarrow> string list" where
  "node_options dmsg isOnline =
     [''nodes.copy-key''] @ (if dmsg then [''nodes.copy-dmsg''] else []) @ [''labeled-element.edit-label''] @
     (if \<not> isOnline then [''nodes.delete-node''] else [])"

definition node_option_selected :: "bool \<Rightarrow> nat option \<Rightarrow> node_action" where
  "node_option_selected dmsg selectedOption =
     (if selectedOption = Some 1 then CopyKey
      else if dmsg then
        if selectedOption = Some 2 then CopyDmsg
        else if selectedOption = Some 3 then EditLabel
        else if selectedOption = Some 4 then DeleteNode
        else NoNodeAction
      else
        if selectedOption = Some 2 then EditLabel
        else if selectedOption = Some 3 then DeleteNode
        else NoNodeAction)"

definition copyToClipboard :: "bool \<Rightarrow> Node \<Rightarrow> nat option \<Rightarrow> string option" where
  "copyToClipboard dmsg n selectedOption =
     (if \<not> dmsg then Some (localPk n)
      else if selectedOption = Some 1 then Some (localPk n)
      else if selectedOption = Some 2 then Some (dmsgServerPk n)
      else None)"

definition edited_label_info :: "storage_service \<Rightarrow> Node \<Rightarrow> LabelInfo" where
  "edited_label_info st n =
     (case getLabelInfo st (localPk n) of
        Some l \<Rightarrow> l
      | None \<Rightarrow> \<lparr>label_id = localPk n, label = [], identifiedElementType = NodeType\<rparr>)"

section \<open>Hiding offline visors\<close>

definition deleteNode ::
  "Node \<Rightarrow> storage_service \<Rightarrow> node_list_page \<times> multiple_node_service \<Rightarrow>
   (storage_service \<times> (node_list_page \<times> multiple_node_service) \<times> page_event list) js_result" where
  "deleteNode n st s =
     bindR (setLocalNodesAsHidden [localPk n] [node_ip n] st) (\<lambda>st'.
       Inr (st', forceDataRefresh False s, [PageDone ''nodes.deleted'']))"

definition removal_text :: "node_list_page \<Rightarrow> string" where
  "removal_text p =
     (if currentFiltersTexts (lc_filterer (nl_list p)) \<noteq> [] then ''nodes.delete-all-filtered-offline-confirmation''
      else ''nodes.delete-all-offline-confirmation'')"

definition offline_elements :: "element list \<Rightarrow> element list" where
  "offline_elements es = filter (\<lambda>e. \<not> element_online e) es"

definition removeOffline ::
  "storage_service \<Rightarrow> node_list_page \<times> multiple_node_service \<Rightarrow>
   (storage_service \<times> (node_list_page \<times> multiple_node_service) \<times> page_event list) js_result" where
  "removeOffline st s =
     bindR (member_of (lc_filtered (nl_list (fst s)))) (\<lambda>filteredNodes.
       let nodesToRemove = map (\<lambda>e. prop_text e ''localPk'') (offline_elements filteredNodes);
           ipsToRemove = map (\<lambda>e. element_str e ''ip'') (offline_elements filteredNodes)
       in if length nodesToRemove > 0 then
            bindR (setLocalNodesAsHidden nodesToRemove ipsToRemove st) (\<lambda>st'.
              Inr (st', forceDataRefresh False s,
                   [PageDone (if length nodesToRemove = 1 then ''nodes.deleted-singular'' else ''nodes.deleted-plural'')]))
          else Inr (st, s, []))"

section \<open>Hidden visors\<close>

lemma listed_visor_labels:
  assumes "savedLabels st' = savedLabels st"
  shows "listed_visor bn st' = listed_visor bn st"
proof -
  have "visor_label st' = visor_label st"
    by (intro ext) (simp only: visor_label_def getLabelInfo_def assms)
  then show ?thesis by (intro ext) (simp only: listed_visor_def)
qed

lemma getNodes_shown:
  assumes "nodes_coherent st" and "mapR (listed_visor bn st) rs = Inr obtained" and "distinct (map localPk obtained)"
  shows "\<exists>shown st'. getNodes bn (Some rs) st = Inr (shown, st') \<and> nodes_coherent st' \<and>
    (\<forall>k. k \<in> localPk ` set shown \<longleftrightarrow> (\<exists>n \<in> set obtained. localPk n = k \<and> is_online n) \<or>
      (case map_get (savedLocalNodes st) k of
         Some s \<Rightarrow> \<not> hidden s
       | None \<Rightarrow> k \<in> localPk ` set obtained))"
proof -
  let ?seen = "filter is_online obtained"
  obtain shown st' where r: "getNodes bn (Some rs) st = Inr (shown, st')" "nodes_coherent st'"
    "localPk ` set shown =
      {k. (k \<in> localPk ` set obtained \<or> map_has (savedLocalNodes st) k) \<and>
          (\<forall>n. map_get (savedLocalNodes st') k = Some n \<longrightarrow> \<not> hidden n)}"
    "\<And>k. map_get (savedLocalNodes st') k =
      (case requested_node (map localPk ?seen) (map node_ip ?seen) False k of
         Some n \<Rightarrow> Some n | None \<Rightarrow> map_get (savedLocalNodes st) k)"
    using getNodes_listed [OF assms] by (elim exE conjE) (rule that, assumption+, erule spec)
  have "k \<in> localPk ` set shown \<longleftrightarrow> (\<exists>n \<in> set obtained. localPk n = k \<and> is_online n) \<or>
      (case map_get (savedLocalNodes st) k of Some s \<Rightarrow> \<not> hidden s | None \<Rightarrow> k \<in> localPk ` set obtained)" for k
  proof (cases "k \<in> localPk ` set ?seen")
    case True
    then obtain n where n: "n \<in> set obtained" "localPk n = k" "is_online n" by auto
    have "requested_node (map localPk ?seen) (map node_ip ?seen) False k \<noteq> None"
      using True requested_node_None [of "map localPk ?seen" "map node_ip ?seen" False k] by auto
    then have "\<forall>s. map_get (savedLocalNodes st') k = Some s \<longrightarrow> \<not> hidden s"
      using r(4) [of k] requested_node_hidden [of "map localPk ?seen" "map node_ip ?seen" False k] by auto
    then show ?thesis using n unfolding r(3) by auto
  next
    case False
    then have same: "map_get (savedLocalNodes st') k = map_get (savedLocalNodes st) k"
      using r(4) [of k] requested_node_None [of "map localPk ?seen" "map node_ip ?seen" False k] by auto
    have "\<not> (\<exists>n \<in> set obtained. localPk n = k \<and> is_online n)" using False by auto
    then show ?thesis unfolding r(3) mem_Collect_eq same by (auto simp: map_has_get split: option.split)
  qed
  then show ?thesis using r(1,2) by blast
qed

lemma removeOffline_effect:
  assumes "nodes_coherent st" and "lc_filtered (nl_list p) = Some es" and "removeOffline st (p, m) = Inr (st1, s1, ev)"
  defines "removed \<equiv> (\<lambda>e. prop_text e ''localPk'') ` {e \<in> set es. \<not> element_online e}"
  shows "nodes_coherent st1 \<and> savedLabels st1 = savedLabels st \<and>
    (\<forall>k \<in> removed. \<exists>n. map_get (savedLocalNodes st1) k = Some n \<and> hidden n) \<and>
    (\<forall>k. k \<notin> removed \<longrightarrow> map_get (savedLocalNodes st1) k = map_get (savedLocalNodes st) k)"
proof -
  let ?pks = "map (\<lambda>e. prop_text e ''localPk'') (offline_elements es)"
  let ?ips = "map (\<lambda>e. element_str e ''ip'') (offline_elements es)"
  have st1: "nodes_coherent st1 \<and> savedLabels st1 = savedLabels st \<and> (\<forall>k. map_get (savedLocalNodes st1) k =
      (case requested_node ?pks ?ips True k of Some n \<Rightarrow> Some n | None \<Rightarrow> map_get (savedLocalNodes st) k))"
  proof (cases "offline_elements es = []")
    case True
    then have "st1 = st" using assms(2,3) by (simp add: removeOffline_def member_of_def)
    moreover have "requested_node ?pks ?ips True k = None" for k
      using requested_node_None [of ?pks ?ips True k] True by simp
    ultimately show ?thesis using assms(1) by simp
  next
    case False
    then have "changeLocalNodesHiddenProperty ?pks ?ips True st = Inr st1"
      using assms(2,3) by (simp add: removeOffline_def member_of_def setLocalNodesAsHidden_def bindR_Inr_iff Let_def)
    then show ?thesis using changeLocalNodes_effect [OF assms(1), of ?pks ?ips True] by auto
  qed
  have removed: "\<exists>n. map_get (savedLocalNodes st1) k = Some n \<and> hidden n" if "k \<in> removed" for k
  proof -
    have "requested_node ?pks ?ips True k \<noteq> None"
      using that requested_node_None [of ?pks ?ips True k] by (simp add: removed_def offline_elements_def)
    then show ?thesis using st1 requested_node_hidden [of ?pks ?ips True k] by auto
  qed
  have other: "map_get (savedLocalNodes st1) k = map_get (savedLocalNodes st) k" if "k \<notin> removed" for k
  proof -
    have "requested_node ?pks ?ips True k = None"
      using that requested_node_None [of ?pks ?ips True k] by (simp add: removed_def offline_elements_def)
    then show ?thesis using st1 by simp
  qed
  show ?thesis using st1 removed other by blast
qed


section \<open>The events of the data service\<close>

lemma node_fits:
  assumes "col < length (node_columns False)" and "by_label \<Longrightarrow> labelProperties (node_columns False ! col) \<noteq> None"
    and "sortableColumns s = node_columns False"
  shows "fits_column s col by_label (VObj (node_element False instant st n))"
proof -
  have "col < 4" using assms(1) by (simp add: node_columns_def base_node_columns_def)
  then consider "col = 0" | "col = 1" | "col = 2" | "col = 3" by linarith
  then show ?thesis
    using assms(2,3)
    by cases (cases by_label; simp add: fits_column_def node_columns_def base_node_columns_def sort_path_def
        sort_mode_def node_element_def)+
qed

interpretation nl: listed_elements "node_element False instant st" "node_columns False" 3 for instant st
  by unfold_locales (auto intro: node_fits simp: node_columns_def base_node_columns_def)

lemma set_nodes_result:
  assumes "collation collate" and "\<not> showDmsgInfo p" and "list_sorter_ok (node_columns False) 3 (lc_sorter (nl_list p))"
  obtains lc ys where "set_nodes collate instant st ns p =
      Inr (p\<lparr>allNodes := ns, nl_list := lc, hasOfflineNodes := list_ex (\<lambda>e. \<not> element_online e) ys\<rparr>)"
    and "list_shows no_ident (nl_list p) ys lc"
    and "mset ys = mset (filter (passes_filters (lc_filterer (nl_list p))) (map (node_element False instant st) ns))"
    and "sorted_elements collate (lc_sorter (nl_list p)) ys"
proof -
  from nl.set_data [OF assms(1,3), of no_ident instant st ns] obtain lc ys
    where lc: "set_list_data collate no_ident (map (node_element False instant st) ns) (nl_list p) = Inr lc"
      "list_shows no_ident (nl_list p) ys lc"
      "mset ys = mset (filter (passes_filters (lc_filterer (nl_list p))) (map (node_element False instant st) ns))"
      "sorted_elements collate (lc_sorter (nl_list p)) ys"
    by (elim exE conjE)
  have "lc_filtered lc = Some ys" using lc(2) unfolding list_shows_def by (rule conjunct1)
  then have "set_nodes collate instant st ns p =
      Inr (p\<lparr>allNodes := ns, nl_list := lc, hasOfflineNodes := list_ex (\<lambda>e. \<not> element_online e) ys\<rparr>)"
    using assms(2) lc(1) by (simp add: set_nodes_def)
  then show thesis using that lc(2-4) by blast
qed

definition is_page_error :: "page_event \<Rightarrow> bool" where
  "is_page_error ev = (case ev of PageError t e \<Rightarrow> True | _ \<Rightarrow> False)"

definition good_result :: "MultipleNodesBackendData option \<Rightarrow> Node list \<Rightarrow> bool" where
  "good_result result ns \<longleftrightarrow>
     (\<exists>r. result = Some r \<and> \<not> md_updating r \<and> md_data r = Some ns \<and> md_error r = None)"

definition failed_result :: "MultipleNodesBackendData option \<Rightarrow> bool" where
  "failed_result result \<longleftrightarrow> (\<exists>r. result = Some r \<and> \<not> md_updating r \<and> md_error r \<noteq> None)"

lemma other_event:
  assumes "\<nexists>ns. good_result result ns"
  obtains p' ev where "nodes_event collate instant st now result p = Inr (p', ev)"
    and "nl_list p' = nl_list p" and "allNodes p' = allNodes p" and "nl_loading p' = nl_loading p"
    and "nl_errorsUpdating p' \<longleftrightarrow> nl_errorsUpdating p \<or> failed_result result"
    and "length (filter is_page_error ev) = (if failed_result result \<and> \<not> nl_errorsUpdating p then 1 else 0)"
proof (cases result)
  case None
  then show thesis
    by (intro that [of "p\<lparr>nl_updating := True\<rparr>" "[]"]) (simp_all add: nodes_event_def failed_result_def)
next
  case (Some r)
  show thesis
  proof (cases "md_updating r \<or> md_error r = None")
    case True
    then show thesis
      using Some assms
      by (intro that [of "p\<lparr>nl_updating := md_updating r\<rparr>" "[]"])
        (auto simp: nodes_event_def failed_result_def good_result_def split: option.split)
  next
    case False
    then obtain e where e: "md_error r = Some e" "\<not> md_updating r" by auto
    show thesis
      by (rule that [of "p\<lparr>nl_updating := False, nl_errorsUpdating := True\<rparr>"
            "(if \<not> nl_errorsUpdating p
              then [PageError (if nl_loading p then ''common.loading-error'' else ''nodes.error-load'') (Some e)] else []) @
             [ShowDataProblem]"])
        (use e Some in \<open>auto simp: nodes_event_def failed_result_def is_page_error_def split: option.split\<close>)
  qed
qed

text \<open>
  The page with the visors, for every event of the data service. The handler never
  throws. A list of visors replaces the one that is shown: exactly the visors that pass the filters,
  in the selected order, on the page of the address or the last one; the page is loaded, there is no
  error any more, and the offer to remove offline visors is there exactly when one of them is
  offline. Any other event keeps the list as it is; a failure is reported to the user, unless the
  one before was a failure too.
\<close>

theorem page_event_correct:
  assumes "collation collate" and "\<not> showDmsgInfo p" and "list_sorter_ok (node_columns False) 3 (lc_sorter (nl_list p))"
  shows "\<exists>p' ev. nodes_event collate instant st now result p = Inr (p', ev) \<and>
    (if \<exists>ns. good_result result ns
     then (\<exists>ns ys. good_result result ns \<and> list_shows no_ident (nl_list p) ys (nl_list p') \<and>
        mset ys = mset (filter (passes_filters (lc_filterer (nl_list p))) (map (node_element False instant st) ns)) \<and>
        sorted_elements collate (lc_sorter (nl_list p)) ys \<and>
        (hasOfflineNodes p' \<longleftrightarrow> (\<exists>e \<in> set ys. \<not> element_online e))) \<and>
        \<not> nl_loading p' \<and> \<not> nl_errorsUpdating p' \<and> filter is_page_error ev = []
     else nl_list p' = nl_list p \<and> allNodes p' = allNodes p \<and> nl_loading p' = nl_loading p \<and>
        (nl_errorsUpdating p' \<longleftrightarrow> nl_errorsUpdating p \<or> failed_result result) \<and>
        length (filter is_page_error ev) = (if failed_result result \<and> \<not> nl_errorsUpdating p then 1 else 0))"
proof (cases "\<exists>ns. good_result result ns")
  case True
  then obtain r ns where r: "result = Some r" "\<not> md_updating r" "md_data r = Some ns" "md_error r = None" "good_result result ns"
    by (auto simp: good_result_def)
  let ?p1 = "p\<lparr>nl_updating := False\<rparr>"
  have "\<not> showDmsgInfo ?p1" "list_sorter_ok (node_columns False) 3 (lc_sorter (nl_list ?p1))" using assms(2,3) by simp_all
  then obtain lc ys
    where lc: "set_nodes collate instant st ns ?p1 =
        Inr (?p1\<lparr>allNodes := ns, nl_list := lc, hasOfflineNodes := list_ex (\<lambda>e. \<not> element_online e) ys\<rparr>)"
      "list_shows no_ident (nl_list p) ys lc"
      "mset ys = mset (filter (passes_filters (lc_filterer (nl_list p))) (map (node_element False instant st) ns))"
      "sorted_elements collate (lc_sorter (nl_list p)) ys"
    by (rule set_nodes_result [OF assms(1), of ?p1 instant st ns]) simp
  obtain p' ev where p': "nodes_event collate instant st now result p = Inr (p', ev)"
    "nl_list p' = lc" "hasOfflineNodes p' = list_ex (\<lambda>e. \<not> element_online e) ys" "\<not> nl_loading p'" "\<not> nl_errorsUpdating p'"
    "filter is_page_error ev = []"
    using lc(1) r by (simp add: nodes_event_def is_page_error_def)
  have "\<exists>ns ys. good_result result ns \<and> list_shows no_ident (nl_list p) ys (nl_list p') \<and>
      mset ys = mset (filter (passes_filters (lc_filterer (nl_list p))) (map (node_element False instant st) ns)) \<and>
      sorted_elements collate (lc_sorter (nl_list p)) ys \<and> (hasOfflineNodes p' \<longleftrightarrow> (\<exists>e \<in> set ys. \<not> element_online e))"
    by (intro exI [of _ ns] exI [of _ ys] conjI) (use r(5) lc p' in \<open>simp_all add: list_ex_iff\<close>)
  then show ?thesis using True p'(1,4-6) by auto
next
  case False
  show ?thesis
    by (rule other_event [OF False, of collate instant st now p]) (intro exI conjI, assumption, simp only: False if_False)
qed

section \<open>Operations on all visors\<close>

text \<open>The reference: one request after the other, whatever the answers are.\<close>

fun update_in_order :: "(string option \<Rightarrow> 'b \<Rightarrow> bool \<times> 'b) \<Rightarrow> string list \<Rightarrow> 'b \<Rightarrow> bool list \<times> 'b" where
  "update_in_order req [] b = ([], b)"
| "update_in_order req (k # ks) b =
     (case req (Some k) b of (ok, b') \<Rightarrow> case update_in_order req ks b' of (oks, b'') \<Rightarrow> (ok # oks, b''))"

lemma update_wallets_order:
  assumes "keys \<noteq> []" and "length labels = length keys" and "update_in_order req (rev keys) b = (oks, b')"
  shows "recursivelyUpdateWallets req keys labels errors b =
    (errors + length (filter Not oks), b', zip oks (map Some (rev labels)))"
  using assms
proof (induction keys arbitrary: labels errors b oks rule: rev_induct)
  case (snoc k ks)
  obtain l ls where labels: "labels = ls @ [l]" "length ls = length ks"
    using snoc.prems(2) by (cases labels rule: rev_cases) auto
  obtain ok b1 where req: "req (Some k) b = (ok, b1)" by fastforce
  then obtain oks1 where rest: "update_in_order req (rev ks) b1 = (oks1, b')" "oks = ok # oks1"
    using snoc.prems(3) by (auto split: prod.splits)
  let ?errors = "if ok then errors else errors + 1"
  show ?case
  proof (cases "ks = []")
    case True
    then show ?thesis
      using rest labels req by (subst recursivelyUpdateWallets.simps) simp
  next
    case False
    have "recursivelyUpdateWallets req ks ls ?errors b1 =
        (?errors + length (filter Not oks1), b', zip oks1 (map Some (rev ls)))"
      by (rule snoc.IH [OF False labels(2) rest(1)])
    then show ?thesis
      using False rest(2) labels req by (subst recursivelyUpdateWallets.simps) (simp add: Suc_le_eq)
  qed
qed simp

text \<open>
  Updating the visors of a list one after the other: every visor is requested exactly
  once, from the last to the first, each after the answer to the one before and whether that failed
  or not; each result is shown with the label of that visor; and the result is the number of the
  visors that could not be updated. The recursion ends.
\<close>

theorem update_wallets_correct:
  assumes "keys \<noteq> []" and "length labels = length keys"
  shows "recursivelyUpdateWallets req keys labels 0 b =
    (case update_in_order req (rev keys) b of (oks, b') \<Rightarrow>
       (length (filter Not oks), b', zip oks (map Some (rev labels))))"
  by (cases "update_in_order req (rev keys) b") (simp add: update_wallets_order [OF assms])

theorem update_wallets_correct_witness:
  "recursivelyUpdateWallets (\<lambda>k b. (k = Some ''02aa'', b + (1::nat))) [''02aa'', ''02bb''] [''A'', ''B''] 0 0 =
     (1, 2, [(False, Some ''B''), (True, Some ''A'')])"
  using update_wallets_correct [of "[''02aa'', ''02bb'']" "[''A'', ''B'']" "\<lambda>k b. (k = Some ''02aa'', b + (1::nat))" 0]
  by simp

text \<open>
  The operations on all visors work on the elements of the page that is shown, so never on more than
  40 visors, although the comments speak of all online visors.
\<close>

theorem rewards_current_page_only:
  assumes "dataSource p = Some (shown_elements (max_elements False) (int k) ys)" and "0 < k"
    and "changeRewardsToAll p = Some l"
  shows "set l \<subseteq> (\<lambda>e. (prop_text e ''localPk'', prop_text e ''label'')) `
      {e \<in> set (take 40 (drop (40 * (k - 1)) ys)). element_online e} \<and> length l \<le> 40"
proof -
  have "dataSource p = Some (take 40 (drop (40 * (k - 1)) ys))"
    using assms(1,2) by (simp add: shown_page max_elements_def maxFullListElements_def)
  then have "l = map (\<lambda>e. (prop_text e ''localPk'', prop_text e ''label''))
      (filter element_online (take 40 (drop (40 * (k - 1)) ys)))"
    using assms(3) by (auto simp: changeRewardsToAll_def online_page_def split: if_splits)
  moreover have "length (filter element_online (take 40 (drop (40 * (k - 1)) ys))) \<le> 40"
    by (rule le_trans [OF length_filter_le]) simp
  ultimately show ?thesis by auto
qed

section \<open>Witnesses\<close>

definition demo_page :: node_list_page where
  "demo_page = new_node_list_page \<lparr>localStorage = (\<lambda>_. None), hypervisorPk = ''hv''\<rparr> [] 0 ''/nodes/list/1'' None"

definition offline_visor :: Node where
  "offline_visor = new_node\<lparr>localPk := ''02aa'', node_label := ''A'', online := Some False\<rparr>"

lemma demo_page_sorter: "list_sorter_ok (node_columns False) 3 (lc_sorter (nl_list demo_page)) \<and> \<not> showDmsgInfo demo_page"
proof -
  have "\<not> str_includes ''/nodes/list/1'' ''dmsg''" by code_simp
  moreover have "list_sorter_ok (node_columns False) 3
      (lc_sorter (new_list_component \<lparr>localStorage = (\<lambda>_. None), hypervisorPk = ''hv''\<rparr> (node_columns False) 3
        (node_filters False) ''nl'' [] False :: unit list_component))"
    by (rule new_list_sorter_ok) (simp_all add: node_columns_def base_node_columns_def)
  ultimately show ?thesis by (simp add: demo_page_def new_node_list_page_def Let_def)
qed

theorem page_event_correct_witness:
  "\<exists>p' ev. nodes_event length_collate (\<lambda>t. t) (fresh_service empty_store) 0
     (Some \<lparr>md_data = Some [offline_visor], md_error = None, md_moment = Some 0, md_updating = False\<rparr>) demo_page = Inr (p', ev) \<and>
     \<not> nl_loading p'"
proof -
  let ?r = "Some \<lparr>md_data = Some [offline_visor], md_error = None, md_moment = Some 0, md_updating = False\<rparr>"
  have good: "\<exists>ns. good_result ?r ns" by (simp add: good_result_def)
  from page_event_correct [OF length_collation, of demo_page "\<lambda>t. t" "fresh_service empty_store" 0 ?r]
  show ?thesis using demo_page_sorter unfolding if_P [OF good] by blast
qed


end
