(* ===== verification/Ui_Base.thy ===== *)
theory Ui_Base
  imports Service_Errors
begin

text \<open>
  What the pages share: \<open>src/app/utils/timeUtils.ts\<close> (how an elapsed time is shown),
  \<open>src/app/utils/page-base.ts\<close> (the values a page keeps in the state of the browser history) and
  \<open>src/app/services/snackbar.service.ts\<close> (the message bar, of which at most one is open).
\<close>

section \<open>Elapsed time\<close>

datatype TimeRepresentations = Seconds | Minutes | Hours | Days | Weeks

record ElapsedTime =
  timeRepresentation :: TimeRepresentations
  elapsedTime :: string
  totalMinutes :: string
  translationVarName :: string

definition getElapsedTime :: "int \<Rightarrow> ElapsedTime" where
  "getElapsedTime elapsedSeconds =
     (let u = (if elapsedSeconds \<ge> 60 \<and> elapsedSeconds < 3600 then (Minutes, 60, ''minute'')
               else if elapsedSeconds \<ge> 3600 \<and> elapsedSeconds < 86400 then (Hours, 3600, ''hour'')
               else if elapsedSeconds \<ge> 86400 \<and> elapsedSeconds < 604800 then (Days, 86400, ''day'')
               else if elapsedSeconds \<ge> 604800 then (Weeks, 604800, ''week'')
               else (Seconds, 1, ''second''));
          elapsed = elapsedSeconds div fst (snd u)
      in \<lparr>timeRepresentation = fst u, elapsedTime = int_to_string elapsed,
          totalMinutes = int_to_string (elapsedSeconds div 60),
          translationVarName = (if fst u = Seconds \<or> elapsed > 1 then snd (snd u) @ ''s'' else snd (snd u))\<rparr>)"

fun unit_seconds :: "TimeRepresentations \<Rightarrow> int" where
  "unit_seconds Seconds = 1"
| "unit_seconds Minutes = 60"
| "unit_seconds Hours = 3600"
| "unit_seconds Days = 86400"
| "unit_seconds Weeks = 604800"

text \<open>
  The time that is shown is the elapsed time, rounded down to the largest unit of which at least one
  has passed, and the singular of the name of the unit is used exactly for one minute, hour, day or week.
\<close>

theorem getElapsedTime_correct:
  assumes "0 \<le> s"
  shows "let r = getElapsedTime s; u = unit_seconds (timeRepresentation r) in
    elapsedTime r = int_to_string (s div u) \<and> totalMinutes r = int_to_string (s div 60) \<and>
    (\<forall>v. u < unit_seconds v \<longrightarrow> s < unit_seconds v) \<and> (timeRepresentation r \<noteq> Seconds \<longrightarrow> u \<le> s) \<and>
    (last (translationVarName r) = CHR ''s'' \<longleftrightarrow> \<not> (timeRepresentation r \<noteq> Seconds \<and> s div u = 1))"
proof -
  have all: "(\<forall>v. P v) \<longleftrightarrow> P Seconds \<and> P Minutes \<and> P Hours \<and> P Days \<and> P Weeks" for P
    by (metis TimeRepresentations.exhaust)
  consider "s < 60" | "60 \<le> s" "s < 3600" | "3600 \<le> s" "s < 86400" | "86400 \<le> s" "s < 604800" | "604800 \<le> s"
    by linarith
  then show ?thesis
  proof cases
    case 1 then show ?thesis by (simp add: getElapsedTime_def all)
  next
    case 2
    then have "1 \<le> s div 60" by (simp add: int_one_le_iff_zero_less pos_imp_zdiv_pos_iff)
    then show ?thesis using 2 by (simp add: getElapsedTime_def all)
  next
    case 3
    then have "1 \<le> s div 3600" by (simp add: int_one_le_iff_zero_less pos_imp_zdiv_pos_iff)
    then show ?thesis using 3 by (simp add: getElapsedTime_def all)
  next
    case 4
    then have "1 \<le> s div 86400" by (simp add: int_one_le_iff_zero_less pos_imp_zdiv_pos_iff)
    then show ?thesis using 4 by (simp add: getElapsedTime_def all)
  next
    case 5
    then have "1 \<le> s div 604800" by (simp add: int_one_le_iff_zero_less pos_imp_zdiv_pos_iff)
    then show ?thesis using 5 by (simp add: getElapsedTime_def all)
  qed
qed

section \<open>Values in the history of the browser\<close>

text \<open>\<open>window.history.state\<close> is \<open>null\<close> or an object; the time of a value is in a member of its own.\<close>

type_synonym history_state = "(string, jsval) jsmap option"

record LocalValueData =
  lv_value :: jsval
  lv_date :: jsval

definition saveLocalValue :: "string \<Rightarrow> jsval \<Rightarrow> int \<Rightarrow> history_state \<Rightarrow> history_state js_result" where
  "saveLocalValue key v now st =
     (case st of
        None \<Rightarrow> Inl TypeError
      | Some m \<Rightarrow> Inr (Some (map_set (key @ ''_time'') (VNum now) (map_set key v m))))"

definition member_value :: "(string, jsval) jsmap \<Rightarrow> string \<Rightarrow> jsval" where
  "member_value m key = (case map_get m key of Some v \<Rightarrow> v | None \<Rightarrow> VUndef)"

definition getLocalValue :: "string \<Rightarrow> history_state \<Rightarrow> LocalValueData option" where
  "getLocalValue key st =
     (case st of
        None \<Rightarrow> None
      | Some m \<Rightarrow>
          if member_value m key = VUndef then None
          else Some \<lparr>lv_value = member_value m key, lv_date = member_value m (key @ ''_time'')\<rparr>)"

text \<open>The scroll position that is restored.\<close>

definition scroll_position :: "history_state \<Rightarrow> jsval" where
  "scroll_position st = (case getLocalValue ''scroll-pos'' st of Some d \<Rightarrow> lv_value d | None \<Rightarrow> VStr ''0'')"

lemma time_key_other: "key @ ''_time'' \<noteq> key"
  by simp

theorem local_value_roundtrip:
  assumes "v \<noteq> VUndef"
  shows "\<exists>st'. saveLocalValue key v now (Some m) = Inr st' \<and>
    getLocalValue key st' = Some \<lparr>lv_value = v, lv_date = VNum now\<rparr> \<and>
    (\<forall>k. k \<notin> {key, key @ ''_time''} \<and> k @ ''_time'' \<notin> {key, key @ ''_time''} \<longrightarrow> getLocalValue k st' = getLocalValue k (Some m))"
  using assms by (simp add: saveLocalValue_def getLocalValue_def member_value_def js_map_simps)

text \<open>A page that has no state in the history fails when it saves a value, although it can read.\<close>

theorem saving_needs_a_state: "getLocalValue key None = None \<and> saveLocalValue key v now None = Inl TypeError"
  by (simp add: getLocalValue_def saveLocalValue_def)

section \<open>The message bar\<close>

datatype SnackbarIcons = IconError | IconDone | IconWarning
datatype SnackbarColors = Red | Green | Yellow

record SnackbarConfig =
  sn_text :: jsval
  textTranslationParams :: jsval
  smallText :: jsval
  smallTextTranslationParams :: jsval
  sn_icon :: SnackbarIcons
  sn_color :: SnackbarColors
  sn_duration :: int

record snackbar_service =
  lastWasTemporaryError :: bool
  currentSnack :: "SnackbarConfig option"

definition new_snackbar_service :: snackbar_service where
  "new_snackbar_service = \<lparr>lastWasTemporaryError = False, currentSnack = None\<rparr>"

text \<open>Opening a message replaces the one that is open.\<close>

definition open_snack ::
  "jsval \<Rightarrow> jsval \<Rightarrow> jsval \<Rightarrow> jsval \<Rightarrow> SnackbarIcons \<Rightarrow> SnackbarColors \<Rightarrow> int \<Rightarrow> snackbar_service \<Rightarrow> snackbar_service" where
  "open_snack txt params small smallParams icon color duration s =
     s\<lparr>currentSnack := Some \<lparr>sn_text = txt, textTranslationParams = params, smallText = small,
         smallTextTranslationParams = smallParams, sn_icon = icon, sn_color = color, sn_duration = duration\<rparr>\<rparr>"

definition snackbar_showError ::
  "jsval \<Rightarrow> jsval \<Rightarrow> bool \<Rightarrow> jsval \<Rightarrow> jsval \<Rightarrow> snackbar_service \<Rightarrow> snackbar_service js_result" where
  "snackbar_showError body params isTemporalError smallBody smallParams s =
     bindR (processServiceError body) (\<lambda>b.
     bindR (if val_truthy smallBody then processServiceError smallBody else Inr VNull) (\<lambda>sb.
       Inr (open_snack (val_prop b ''translatableErrorMsg'') params
              (if val_truthy sb then val_prop sb ''translatableErrorMsg'' else VNull) smallParams
              IconError Red 15000 (s\<lparr>lastWasTemporaryError := isTemporalError\<rparr>))))"

definition snackbar_showWarning :: "string \<Rightarrow> jsval \<Rightarrow> snackbar_service \<Rightarrow> snackbar_service" where
  "snackbar_showWarning txt params s =
     open_snack (VStr txt) params VNull VNull IconWarning Yellow 15000 (s\<lparr>lastWasTemporaryError := False\<rparr>)"

definition snackbar_showDone :: "string \<Rightarrow> jsval \<Rightarrow> snackbar_service \<Rightarrow> snackbar_service" where
  "snackbar_showDone txt params s =
     open_snack (VStr txt) params VNull VNull IconDone Green 5000 (s\<lparr>lastWasTemporaryError := False\<rparr>)"

definition closeCurrent :: "snackbar_service \<Rightarrow> snackbar_service" where
  "closeCurrent s = s\<lparr>currentSnack := None\<rparr>"

definition closeCurrentIfTemporaryError :: "snackbar_service \<Rightarrow> snackbar_service" where
  "closeCurrentIfTemporaryError s = (if lastWasTemporaryError s then closeCurrent s else s)"

text \<open>
  The calls of the service, in any order, with the end of a message (its time is over, or the user
  closes it). The specification only looks at the last message that was opened.
\<close>

datatype snack_call =
    CallError jsval bool jsval
  | CallWarning string
  | CallDone string
  | CallClose
  | CallCloseTemporary
  | MessageGone

fun snack_called :: "snack_call \<Rightarrow> snackbar_service \<Rightarrow> snackbar_service js_result" where
  "snack_called (CallError b t sb) s = snackbar_showError b VNull t sb VNull s"
| "snack_called (CallWarning x) s = Inr (snackbar_showWarning x VNull s)"
| "snack_called (CallDone x) s = Inr (snackbar_showDone x VNull s)"
| "snack_called CallClose s = Inr (closeCurrent s)"
| "snack_called CallCloseTemporary s = Inr (closeCurrentIfTemporaryError s)"
| "snack_called MessageGone s = Inr (s\<lparr>currentSnack := None\<rparr>)"

fun temporary_after :: "bool \<Rightarrow> snack_call \<Rightarrow> bool" where
  "temporary_after old (CallError b t sb) = t"
| "temporary_after old (CallWarning x) = False"
| "temporary_after old (CallDone x) = False"
| "temporary_after old _ = old"

lemma snack_flags:
  "foldR snack_called cs s = Inr s' \<Longrightarrow> lastWasTemporaryError s' = foldl temporary_after (lastWasTemporaryError s) cs"
proof (induction cs arbitrary: s)
  case (Cons c cs)
  then obtain s1 where s1: "snack_called c s = Inr s1" "foldR snack_called cs s1 = Inr s'" by (auto simp: bindR_Inr_iff)
  have "lastWasTemporaryError s1 = temporary_after (lastWasTemporaryError s) c"
    using s1(1)
    by (cases c) (auto simp: snackbar_showError_def snackbar_showWarning_def snackbar_showDone_def open_snack_def closeCurrent_def
      closeCurrentIfTemporaryError_def bindR_Inr_iff split: if_splits)
  then show ?case using Cons.IH [OF s1(2)] by simp
qed simp

text \<open>
  \<open>closeCurrentIfTemporaryError\<close> closes the open message exactly when the last message that was opened
  is an error that was marked as temporary; any other message stays as it is.
\<close>

theorem temporary_errors_only:
  assumes "foldR snack_called cs new_snackbar_service = Inr s"
  shows "currentSnack (closeCurrentIfTemporaryError s) =
    (if foldl temporary_after False cs then None else currentSnack s)"
  using snack_flags [OF assms] by (simp add: closeCurrentIfTemporaryError_def closeCurrent_def new_snackbar_service_def)

lemma snackbar_showError_text:
  "t \<noteq> [] \<Longrightarrow> val_truthy e \<Longrightarrow> val_truthy (val_prop e ''type'') \<Longrightarrow> \<not> val_truthy (val_prop e ''srcElement'') \<Longrightarrow>
   snackbar_showError (VStr t) p tmp e sp s =
     Inr (open_snack (VStr t) p (val_prop e ''translatableErrorMsg'') sp IconError Red 15000 (s\<lparr>lastWasTemporaryError := tmp\<rparr>))"
  by (simp add: snackbar_showError_def processServiceError_def operation_error_def val_prop_def)

section \<open>Examples\<close>

theorem getElapsedTime_correct_witness: "timeRepresentation (getElapsedTime 7300) = Hours \<and> translationVarName (getElapsedTime 7300) = ''hours''"
  using getElapsedTime_correct [of 7300] by (simp add: getElapsedTime_def)

end
