(* ===== verification/Auth.thy ===== *)
theory Auth
  imports Ui_Base
begin

text \<open>
  The requests to the visor (\<open>src/app/services/api.service.ts\<close>), the authentication
  (\<open>auth.service.ts\<close>, \<open>auth-guard.service.ts\<close>, \<open>vpn-auth-guard.service.ts\<close>) and the login page
  (\<open>components/pages/login/login.component.ts\<close>). The visor is a parameter: a function from a request
  and its state to an error or a result and a new state. A body is a value (it is sent as JSON). The
  object of an exception that the code raises is given by the parameter \<open>exn\<close>.
\<close>

section \<open>Requests\<close>

record RequestOptions =
  textResponse :: bool
  ignoreAuth :: bool
  vpnKeyForAuth :: jsstr
  csrfToken :: jsval

definition new_options :: RequestOptions where
  "new_options = \<lparr>textResponse = False, ignoreAuth = False, vpnKeyForAuth = Undefined, csrfToken = VUndef\<rparr>"

record visor_request =
  rq_method :: string
  rq_url :: string
  rq_headers :: "(string \<times> string) list"
  rq_text :: bool
  rq_body :: jsval

type_synonym 'b http = "visor_request \<Rightarrow> 'b \<Rightarrow> (jsval + jsval) \<times> 'b"

text \<open>A result, the navigations that were started, and the new state of the visor.\<close>

type_synonym 'b api_answered = "(jsval + jsval) \<times> string list list \<times> 'b"

text \<open>The prefix is \<open>http-api/\<close> only for the development server over http.\<close>

definition apiPrefix :: "bool \<Rightarrow> string \<Rightarrow> string" where
  "apiPrefix production protocol =
     (if \<not> production \<and> str_includes protocol ''http:'' then ''http-api/'' else ''api/'')"

definition wsApiPrefix :: "bool \<Rightarrow> string \<Rightarrow> string" where
  "wsApiPrefix production protocol =
     (if \<not> production then (if str_includes protocol ''http:'' then ''ws-api/'' else ''wss-api/'') else ''api/'')"

definition ws_url :: "bool \<Rightarrow> string \<Rightarrow> string \<Rightarrow> string \<Rightarrow> string" where
  "ws_url production protocol host url =
     (if starts_with protocol ''https'' then ''wss://'' else ''ws://'') @ host @ ''/'' @ wsApiPrefix production protocol @ url"

definition getRequestOptions :: "RequestOptions \<Rightarrow> (string \<times> string) list" where
  "getRequestOptions opts =
     (''Content-Type'', ''application/json'') #
     (if val_truthy (csrfToken opts) then [(''X-CSRF-Token'', val_to_string (csrfToken opts))] else [])"

definition successHandler :: "jsval \<Rightarrow> jsval js_result" where
  "successHandler v = (if v = VStr ''manager token is null'' then Inl (ThrownError ''manager token is null'') else Inr v)"

definition login_destination :: "RequestOptions \<Rightarrow> string list" where
  "login_destination opts =
     (case vpnKeyForAuth opts of Str k \<Rightarrow> if k \<noteq> [] then [''vpnlogin'', k] else [''login''] | _ \<Rightarrow> [''login''])"

definition auth_redirects :: "jsval \<Rightarrow> RequestOptions \<Rightarrow> string list list" where
  "auth_redirects e opts =
     (if ignoreAuth opts then []
      else (if val_prop e ''status'' = VNum 401 then [login_destination opts] else []) @
           (case val_prop e ''error'' of
              VStr m \<Rightarrow> if m \<noteq> [] \<and> str_includes m ''change password'' then [login_destination opts] else []
            | _ \<Rightarrow> []))"

definition thrown :: "(js_error \<Rightarrow> jsval) \<Rightarrow> jsval js_result \<Rightarrow> jsval" where
  "thrown exn r = (case r of Inr e \<Rightarrow> e | Inl x \<Rightarrow> exn x)"

definition api_request ::
  "(js_error \<Rightarrow> jsval) \<Rightarrow> 'b http \<Rightarrow> string \<Rightarrow> string \<Rightarrow> string \<Rightarrow> jsval \<Rightarrow> RequestOptions \<Rightarrow> 'b \<Rightarrow> 'b api_answered" where
  "api_request exn http prefix meth url body opts b =
     (let u = (if starts_with url ''/'' then drop 1 url else url)
      in case http \<lparr>rq_method = meth, rq_url = prefix @ u, rq_headers = getRequestOptions opts,
                    rq_text = textResponse opts, rq_body = body\<rparr> b of
           (r, b') \<Rightarrow>
             (case (case r of Inl e \<Rightarrow> Inl e
                    | Inr v \<Rightarrow> (case successHandler v of Inl x \<Rightarrow> Inl (exn x) | Inr w \<Rightarrow> Inr w)) of
                Inr w \<Rightarrow> (Inr w, [], b')
              | Inl e \<Rightarrow> (Inl (thrown exn (processServiceError e)), auth_redirects e opts, b')))"

definition api_get where
  "api_get exn http prefix url opts b = api_request exn http prefix ''GET'' url (VObj []) opts b"

text \<open>
  \<open>post\<close>, \<open>put\<close> and \<open>delete\<close> first ask for a token. That request is made with the default options.
\<close>

definition with_csrf ::
  "(js_error \<Rightarrow> jsval) \<Rightarrow> 'b http \<Rightarrow> string \<Rightarrow> string \<Rightarrow> string \<Rightarrow> jsval \<Rightarrow> RequestOptions \<Rightarrow> 'b \<Rightarrow> 'b api_answered" where
  "with_csrf exn http prefix meth url body opts b =
     (case api_get exn http prefix ''csrf'' new_options b of
        (Inl e, navs, b1) \<Rightarrow> (Inl e, navs, b1)
      | (Inr v, navs, b1) \<Rightarrow>
          (case get_prop v ''csrf_token'' of
             Inl x \<Rightarrow> (Inl (exn x), navs, b1)
           | Inr t \<Rightarrow>
               (case api_request exn http prefix meth url body (opts\<lparr>csrfToken := t\<rparr>) b1 of
                  (r, navs2, b2) \<Rightarrow> (r, navs @ navs2, b2))))"

section \<open>Authentication\<close>

datatype AuthStates = AuthDisabled | Logged | NotLogged

text \<open>The flag \<open>forceFail\<close> of the guard is the state of the service.\<close>

definition checkIfCanActivate :: "bool \<Rightarrow> bool \<times> string list list" where
  "checkIfCanActivate forceFail = (if forceFail then (False, [[''login'']]) else (True, []))"

definition vpn_can_activate :: "jsstr \<Rightarrow> bool \<times> (string list \<times> string) list" where
  "vpn_can_activate lastError =
     (case lastError of
        Str m \<Rightarrow> if m \<noteq> [] then (False, [([''vpn'', ''unavailable''], m)]) else (True, [])
      | _ \<Rightarrow> (True, []))"

definition confirmed_status :: "(js_error \<Rightarrow> jsval) \<Rightarrow> jsval + jsval \<Rightarrow> jsval + jsval" where
  "confirmed_status exn r =
     (case r of Inl e \<Rightarrow> Inl e | Inr status \<Rightarrow> if status \<noteq> VBool True then Inl (exn (ThrownError [])) else Inr status)"

definition auth_login ::
  "(js_error \<Rightarrow> jsval) \<Rightarrow> 'b http \<Rightarrow> string \<Rightarrow> string \<Rightarrow> bool \<Rightarrow> 'b \<Rightarrow> 'b api_answered \<times> bool" where
  "auth_login exn http prefix password forceFail b =
     (case with_csrf exn http prefix ''POST'' ''login''
             (VObj [(''username'', VStr ''admin''), (''password'', VStr password)]) (new_options\<lparr>ignoreAuth := True\<rparr>) b of
        (r, navs, b') \<Rightarrow>
          (case confirmed_status exn r of
             Inl e \<Rightarrow> ((Inl e, navs, b'), forceFail)
           | Inr s \<Rightarrow> ((Inr s, navs, b'), False)))"

definition auth_logout :: "(js_error \<Rightarrow> jsval) \<Rightarrow> 'b http \<Rightarrow> string \<Rightarrow> bool \<Rightarrow> 'b \<Rightarrow> 'b api_answered \<times> bool" where
  "auth_logout exn http prefix forceFail b =
     (case with_csrf exn http prefix ''POST'' ''logout'' (VObj []) new_options b of
        (r, navs, b') \<Rightarrow>
          (case confirmed_status exn r of
             Inl e \<Rightarrow> ((Inl e, navs, b'), forceFail)
           | Inr s \<Rightarrow> ((Inr s, navs, b'), True)))"

text \<open>The handler of the errors: the status 401 of the original error.\<close>

definition unauthorized :: "jsval \<Rightarrow> bool" where
  "unauthorized err \<longleftrightarrow>
     val_truthy (val_prop err ''originalError'') \<and> val_prop (val_prop err ''originalError'') ''status'' = VNum 401"

definition checkLogin ::
  "(js_error \<Rightarrow> jsval) \<Rightarrow> 'b http \<Rightarrow> string \<Rightarrow> bool \<Rightarrow> 'b \<Rightarrow> ((jsval + AuthStates) \<times> string list list \<times> 'b) \<times> bool" where
  "checkLogin exn http prefix forceFail b =
     (case api_get exn http prefix ''user'' (new_options\<lparr>ignoreAuth := True\<rparr>) b of
        (r, navs, b') \<Rightarrow>
          let checked = (case r of
                Inl e \<Rightarrow> Inl e
              | Inr v \<Rightarrow> (case get_prop v ''username'' of
                            Inl x \<Rightarrow> Inl (exn x)
                          | Inr u \<Rightarrow> Inr (if val_truthy u then Logged else AuthDisabled)))
          in case checked of
               Inr s \<Rightarrow> ((Inr s, navs, b'), forceFail)
             | Inl e \<Rightarrow>
                 (case processServiceError e of
                    Inl x \<Rightarrow> ((Inl (exn x), navs, b'), forceFail)
                  | Inr err \<Rightarrow>
                      if unauthorized err then ((Inr NotLogged, navs, b'), True)
                      else ((Inl err, navs, b'), forceFail)))"

fun set_prop :: "string \<Rightarrow> jsval \<Rightarrow> jsval \<Rightarrow> jsval" where
  "set_prop k v (VObj ms) = VObj (map_set k v ms)"
| "set_prop k v w = w"

text \<open>The answer of a change of the password is a text; \<open>translate\<close> is the service of translations.\<close>

definition is_true_text :: "jsval \<Rightarrow> bool" where
  "is_true_text v = (case v of VStr s \<Rightarrow> trim s = ''true'' | _ \<Rightarrow> False)"

definition password_error :: "(js_error \<Rightarrow> jsval) \<Rightarrow> (jsval \<Rightarrow> bool) \<Rightarrow> string \<Rightarrow> jsval \<Rightarrow> jsval" where
  "password_error exn special txt e =
     (case processServiceError e of
        Inl x \<Rightarrow> exn x
      | Inr err \<Rightarrow> if special err then set_prop ''translatableErrorMsg'' (VStr txt) err else err)"

definition changePassword ::
  "(js_error \<Rightarrow> jsval) \<Rightarrow> (string \<Rightarrow> string) \<Rightarrow> 'b http \<Rightarrow> string \<Rightarrow> string \<Rightarrow> string \<Rightarrow> 'b \<Rightarrow> 'b api_answered" where
  "changePassword exn translate http prefix oldPass newPass b =
     (case with_csrf exn http prefix ''POST'' ''change-password''
             (VObj [(''old_password'', VStr oldPass), (''new_password'', VStr newPass)])
             (new_options\<lparr>textResponse := True, ignoreAuth := True\<rparr>) b of
        (r, navs, b') \<Rightarrow>
          (case (case r of
                   Inl e \<Rightarrow> Inl e
                 | Inr v \<Rightarrow>
                     if is_true_text v then Inr (VBool True)
                     else if v = VStr ''Please do not change the default password.''
                     then Inl (exn (ThrownError (translate ''settings.password.errors.default-password'')))
                     else Inl (exn (ThrownError (translate ''common.operation-error'')))) of
             Inr v \<Rightarrow> (Inr v, navs, b')
           | Inl e \<Rightarrow> (Inl (password_error exn unauthorized ''settings.password.errors.bad-old-password'' e), navs, b')))"

definition server_failure :: "jsval \<Rightarrow> bool" where
  "server_failure err \<longleftrightarrow>
     val_truthy (val_prop err ''originalError'') \<and> val_prop (val_prop err ''originalError'') ''status'' = VNum 500"

definition initialConfig ::
  "(js_error \<Rightarrow> jsval) \<Rightarrow> 'b http \<Rightarrow> string \<Rightarrow> string \<Rightarrow> 'b \<Rightarrow> 'b api_answered" where
  "initialConfig exn http prefix pass b =
     (case with_csrf exn http prefix ''POST'' ''create-account''
             (VObj [(''username'', VStr ''admin''), (''password'', VStr pass)])
             (new_options\<lparr>textResponse := True, ignoreAuth := True\<rparr>) b of
        (r, navs, b') \<Rightarrow>
          (case (case r of
                   Inl e \<Rightarrow> Inl e
                 | Inr v \<Rightarrow> if is_true_text v then Inr (VBool True) else Inl (exn (ThrownError (val_to_string v)))) of
             Inr v \<Rightarrow> (Inr v, navs, b')
           | Inl e \<Rightarrow> (Inl (password_error exn server_failure ''settings.password.initial-config.error'' e), navs, b')))"

section \<open>Tokens\<close>

text \<open>A visor that also records the requests it gets.\<close>

definition recording :: "'b http \<Rightarrow> ('b \<times> visor_request list) http" where
  "recording http q bl = (case http q (fst bl) of (r, b') \<Rightarrow> (r, (b', snd bl @ [q])))"

lemma api_request_recording:
  "\<exists>r navs b'. api_request exn (recording http) prefix m url body opts bl = (r, navs, (b', snd bl @
     [\<lparr>rq_method = m, rq_url = prefix @ (if starts_with url ''/'' then drop 1 url else url),
       rq_headers = getRequestOptions opts, rq_text = textResponse opts, rq_body = body\<rparr>]))"
  by (auto simp: api_request_def recording_def split: prod.splits sum.splits)


section \<open>The guard\<close>

text \<open>What the user and the pages do with the service; every operation gives whether it opened the guard.\<close>

datatype auth_call = CallLogin string | CallLogout | CallCheck

fun auth_called ::
  "(js_error \<Rightarrow> jsval) \<Rightarrow> 'b http \<Rightarrow> string \<Rightarrow> auth_call \<Rightarrow> bool \<times> 'b \<Rightarrow> bool \<times> 'b" where
  "auth_called exn http prefix (CallLogin p) (ff, b) = (case auth_login exn http prefix p ff b of ((r, n, b'), ff') \<Rightarrow> (ff', b'))"
| "auth_called exn http prefix CallLogout (ff, b) = (case auth_logout exn http prefix ff b of ((r, n, b'), ff') \<Rightarrow> (ff', b'))"
| "auth_called exn http prefix CallCheck (ff, b) = (case checkLogin exn http prefix ff b of ((r, n, b'), ff') \<Rightarrow> (ff', b'))"

definition accepted_login :: "(js_error \<Rightarrow> jsval) \<Rightarrow> 'b http \<Rightarrow> string \<Rightarrow> auth_call \<Rightarrow> 'b \<Rightarrow> bool" where
  "accepted_login exn http prefix c b \<longleftrightarrow>
     (\<exists>p. c = CallLogin p \<and> fst (with_csrf exn http prefix ''POST'' ''login''
        (VObj [(''username'', VStr ''admin''), (''password'', VStr p)]) (new_options\<lparr>ignoreAuth := True\<rparr>) b) = Inr (VBool True))"

lemma auth_called_open:
  assumes "\<not> fst (auth_called exn http prefix c (True, b))"
  shows "accepted_login exn http prefix c b"
proof (cases c)
  case (CallLogin p)
  obtain r n b' where r: "with_csrf exn http prefix ''POST'' ''login''
      (VObj [(''username'', VStr ''admin''), (''password'', VStr p)]) (new_options\<lparr>ignoreAuth := True\<rparr>) b = (r, n, b')"
    by (metis prod_cases3)
  then show ?thesis
    using assms by (cases r) (auto simp: CallLogin accepted_login_def auth_login_def confirmed_status_def split: if_splits)
next
  case CallLogout
  then show ?thesis
    using assms by (auto simp: auth_logout_def confirmed_status_def split: prod.splits sum.splits if_splits)
next
  case CallCheck
  then show ?thesis
    using assms by (auto simp: checkLogin_def split: prod.splits sum.splits if_splits)
qed

text \<open>
  Property C24. Once the guard is closed, because the user logged out or the visor said that the
  session is not valid, every protected page sends the user to the login page until the visor accepts
  a password: whatever is called in between, an open guard means that one of the calls was a login
  that the visor answered with \<open>true\<close>.
\<close>

theorem guard_needs_login:
  assumes "fold (auth_called exn http prefix) calls (True, b) = (ff, b')"
  shows "checkIfCanActivate ff = (False, [[''login'']]) \<or>
    (\<exists>before c rest b1. calls = before @ c # rest \<and> fold (auth_called exn http prefix) before (True, b) = (True, b1) \<and>
       accepted_login exn http prefix c b1)"
  using assms
proof (induction calls arbitrary: b)
  case Nil
  then show ?case by (simp add: checkIfCanActivate_def)
next
  case (Cons c cs)
  obtain f1 b1 where 1: "auth_called exn http prefix c (True, b) = (f1, b1)" by (cases "auth_called exn http prefix c (True, b)")
  show ?case
  proof (cases f1)
    case True
    have "fold (auth_called exn http prefix) cs (True, b1) = (ff, b')" using Cons.prems 1 True by simp
    from Cons.IH [OF this] show ?thesis
    proof (elim disjE exE conjE)
      fix before c' rest b2
      assume "cs = before @ c' # rest" "fold (auth_called exn http prefix) before (True, b1) = (True, b2)"
        "accepted_login exn http prefix c' b2"
      then show ?thesis
        using 1 True by (intro disjI2 exI [of _ "c # before"] exI [of _ c'] exI [of _ rest] exI [of _ b2]) simp
    qed simp
  next
    case False
    then have "accepted_login exn http prefix c b" using auth_called_open [of exn http prefix c b] 1 by simp
    then show ?thesis by (intro disjI2 exI [of _ "[]"] exI [of _ c] exI [of _ cs] exI [of _ b]) simp
  qed
qed

text \<open>A change of the password after which the visor answered with a text or with an error.\<close>

lemma processed_again:
  assumes "processServiceError e = Inr r" and "\<not> (val_truthy e \<and> val_truthy (val_prop e ''type''))"
    and "is_string (getErrorMsg e) \<or> \<not> val_truthy (getErrorMsg e)"
  shows "processServiceError r = Inr r \<and> val_prop r ''originalError'' = e"
proof -
  have ne: "Unknown_type \<noteq> []" "NoConnection_type \<noteq> []" by (simp_all add: Unknown_type_def NoConnection_type_def)
  obtain t m u where "r = operation_error t e m u" "t \<noteq> []"
    using assms(1,2) ne by (auto simp: processServiceError_def bindR_Inr_iff split: if_splits)
  then show ?thesis by (simp add: processed_unchanged)
qed

lemma set_prop_get: "val_prop (set_prop k v (VObj ms)) k' = (if k' = k then v else val_prop (VObj ms) k')"
  by (simp add: val_prop_def map_set_def update_conv')

text \<open>
  The change of the password succeeds exactly for the text \<open>true\<close>, and the refusal of the old password
  is told apart from the other errors.
\<close>

theorem change_password_answers:
  assumes "http \<lparr>rq_method = ''GET'', rq_url = prefix @ ''csrf'', rq_headers = getRequestOptions new_options,
      rq_text = False, rq_body = VObj []\<rparr> b = (Inr (VObj [(''csrf_token'', VStr t)]), b1)" and "t \<noteq> []"
    and "http \<lparr>rq_method = ''POST'', rq_url = prefix @ ''change-password'',
      rq_headers = [(''Content-Type'', ''application/json''), (''X-CSRF-Token'', t)], rq_text = True,
      rq_body = VObj [(''old_password'', VStr old), (''new_password'', VStr new)]\<rparr> b1 = (answer, b2)"
  shows "(\<forall>s. answer = Inr (VStr s) \<longrightarrow> s \<noteq> ''manager token is null'' \<longrightarrow>
      ((\<exists>v. fst (changePassword exn translate http prefix old new b) = Inr v) \<longleftrightarrow> trim s = ''true'')) \<and>
    (\<forall>ms. answer = Inl (VObj ms) \<longrightarrow> val_prop (VObj ms) ''status'' = VNum 401 \<longrightarrow>
      \<not> val_truthy (val_prop (VObj ms) ''type'') \<longrightarrow> (\<exists>r. processServiceError (VObj ms) = Inr r) \<longrightarrow>
      is_string (getErrorMsg (VObj ms)) \<or> \<not> val_truthy (getErrorMsg (VObj ms)) \<longrightarrow>
      (\<exists>e. fst (changePassword exn translate http prefix old new b) = Inl e \<and>
         val_prop e ''translatableErrorMsg'' = VStr ''settings.password.errors.bad-old-password''))"
proof -
  have urls: "\<not> starts_with ''csrf'' ''/''" "\<not> starts_with ''change-password'' ''/''" by code_simp+
  have to: "textResponse new_options = False" by (simp add: new_options_def)
  have csrf: "api_get exn http prefix ''csrf'' new_options b = (Inr (VObj [(''csrf_token'', VStr t)]), [], b1)"
    using assms(1) urls to by (simp add: api_get_def api_request_def successHandler_def)
  have hd: "getRequestOptions (new_options\<lparr>textResponse := True, ignoreAuth := True, csrfToken := VStr t\<rparr>) =
      [(''Content-Type'', ''application/json''), (''X-CSRF-Token'', t)]"
    using assms(2) by (simp add: getRequestOptions_def)
  have post: "with_csrf exn http prefix ''POST'' ''change-password''
      (VObj [(''old_password'', VStr old), (''new_password'', VStr new)]) (new_options\<lparr>textResponse := True, ignoreAuth := True\<rparr>) b =
    (case (case answer of Inl e \<Rightarrow> Inl e | Inr v \<Rightarrow> (case successHandler v of Inl x \<Rightarrow> Inl (exn x) | Inr w \<Rightarrow> Inr w)) of
       Inr w \<Rightarrow> (Inr w, [], b2) | Inl e \<Rightarrow> (Inl (thrown exn (processServiceError e)), [], b2))"
    using urls assms(3) by (simp add: with_csrf_def csrf api_request_def hd auth_redirects_def split: sum.split)
  have texts: "(\<exists>v. fst (changePassword exn translate http prefix old new b) = Inr v) \<longleftrightarrow> trim s = ''true''"
    if "answer = Inr (VStr s)" "s \<noteq> ''manager token is null''" for s
    using that by (simp add: changePassword_def post successHandler_def is_true_text_def)
  have bad: "\<exists>e. fst (changePassword exn translate http prefix old new b) = Inl e \<and>
      val_prop e ''translatableErrorMsg'' = VStr ''settings.password.errors.bad-old-password''"
    if a: "answer = Inl (VObj ms)" "val_prop (VObj ms) ''status'' = VNum 401" "\<not> val_truthy (val_prop (VObj ms) ''type'')"
      and r: "processServiceError (VObj ms) = Inr r" and m: "is_string (getErrorMsg (VObj ms)) \<or> \<not> val_truthy (getErrorMsg (VObj ms))"
    for ms r
  proof -
    have again: "processServiceError r = Inr r" "val_prop r ''originalError'' = VObj ms"
      using processed_again [OF r _ m] a(3) by simp_all
    obtain rs where rs: "r = VObj rs" using again(2) by (cases r) (simp_all add: val_prop_def)
    have "unauthorized r" using again(2) a(2) by (simp add: unauthorized_def)
    then show ?thesis
      using again(1) r rs by (simp add: changePassword_def post a(1) thrown_def password_error_def set_prop_get del: set_prop.simps)
  qed
  show ?thesis using texts bad by blast
qed

section \<open>Examples\<close>

text \<open>A visor that gives tokens, accepts one password and forgets the sessions.\<close>

definition demo_http :: "unit http" where
  "demo_http q b =
     (if rq_url q = ''api/csrf'' then (Inr (VObj [(''csrf_token'', VStr ''t'')]), b)
      else if rq_url q = ''api/login'' then (Inr (VBool (val_prop (rq_body q) ''password'' = VStr ''pw'')), b)
      else (Inl (VObj [(''status'', VNum 401)]), b))"

definition demo_exn :: "js_error \<Rightarrow> jsval" where "demo_exn x = VObj [(''message'', VStr ''failed'')]"


lemma demo_refused: "fst (auth_called demo_exn demo_http ''api/'' (CallLogin ''x'') (True, ()))"
  by (simp add: auth_login_def with_csrf_def api_get_def api_request_def demo_http_def successHandler_def confirmed_status_def
      starts_with_def val_prop_def)

theorem guard_needs_login_witness:
  "checkIfCanActivate (fst (auth_called demo_exn demo_http ''api/'' (CallLogin ''x'') (True, ()))) = (False, [[''login'']])"
proof -
  obtain ff b' where 1: "auth_called demo_exn demo_http ''api/'' (CallLogin ''x'') (True, ()) = (ff, b')"
    by (cases "auth_called demo_exn demo_http ''api/'' (CallLogin ''x'') (True, ())")
  then have "ff" using demo_refused by simp
  moreover have "fold (auth_called demo_exn demo_http ''api/'') [CallLogin ''x''] (True, ()) = (ff, b')" using 1 by simp
  from guard_needs_login [OF this] 1 calculation show ?thesis
    by (auto simp: checkIfCanActivate_def)
qed

end
