(* ===== verification/App_Start.thy ===== *)
theory App_Start
  imports Auth Storage_Service List_Operations
begin

text \<open>
  The start of the application (\<open>src/app/app.component.ts\<close>), the login page
  (\<open>components/pages/login/login.component.ts\<close>) and the form for the password
  (\<open>components/pages/settings/password/password.component.ts\<close>). The application first asks the visor for
  its public key; the storage can only be used after that.
\<close>

section \<open>The root component\<close>

record app_root =
  inVpnClient :: bool
  inLoginPage :: bool
  hypervisorPkObtained :: bool
  pkErrorShown :: bool
  pkErrorsFound :: int
  ar_dataProblem :: bool
  obtainPk :: "int option"
  ar_snackbar :: snackbar_service
  ar_storage :: storage_service
  ar_title :: string

definition checkHypervisorPk :: "int \<Rightarrow> app_root \<Rightarrow> app_root" where
  "checkHypervisorPk delayMs a = a\<lparr>obtainPk := Some delayMs\<rparr>"

definition app_created :: "snackbar_service \<Rightarrow> storage_service \<Rightarrow> app_root" where
  "app_created sn st =
     checkHypervisorPk 0
       \<lparr>inVpnClient = False, inLoginPage = False, hypervisorPkObtained = False, pkErrorShown = False, pkErrorsFound = 0,
        ar_dataProblem = False, obtainPk = None, ar_snackbar = sn, ar_storage = st, ar_title = []\<rparr>"

text \<open>An event of the router, with the address of the router and, for some events, one of their own.\<close>

definition router_event :: "string \<Rightarrow> string option \<Rightarrow> app_root \<Rightarrow> app_root" where
  "router_event routerUrl eventUrl a =
     (let vpn = str_includes routerUrl ''/vpn/'' \<or> str_includes routerUrl ''vpnlogin'';
          a1 = a\<lparr>inVpnClient := vpn\<rparr>;
          a2 = (case eventUrl of
                  Some u \<Rightarrow>
                    if u = [] then a1
                    else let b = a1\<lparr>inLoginPage := str_includes u ''login''\<rparr>
                         in if inLoginPage a1 \<and> \<not> inLoginPage b \<and> \<not> hypervisorPkObtained b then checkHypervisorPk 0 b else b
                | None \<Rightarrow> a1)
      in if length routerUrl > 2 then a2\<lparr>ar_title := (if vpn then ''Skywire VPN'' else ''Skywire Manager'')\<rparr> else a2)"

definition processLoginDone :: "app_root \<Rightarrow> app_root" where
  "processLoginDone a =
     (let b = a\<lparr>inLoginPage := False\<rparr> in if \<not> hypervisorPkObtained b then checkHypervisorPk 0 b else b)"

text \<open>The answer of the visor; an exception in a handler ends the attempt.\<close>

definition pk_received :: "jsval \<Rightarrow> app_root \<Rightarrow> app_root js_result" where
  "pk_received result a =
     (let a1 = a\<lparr>obtainPk := None\<rparr> in
      bindR (get_prop result ''public_key'') (\<lambda>k.
        if val_truthy k then
          bindR (initialize (val_to_string k) (ar_storage a1)) (\<lambda>st.
            Inr (a1\<lparr>ar_storage := st, hypervisorPkObtained := True\<rparr>))
        else
          bindR (if \<not> pkErrorShown a1
                 then bindR (snackbar_showError (VStr ''start.loading-error'') VNull True VNull VNull (ar_snackbar a1))
                        (\<lambda>sn. Inr (a1\<lparr>ar_snackbar := sn, pkErrorShown := True\<rparr>))
                 else Inr a1) (\<lambda>a2. Inr (checkHypervisorPk 1000 a2))))"

definition pk_failed :: "jsval \<Rightarrow> app_root \<Rightarrow> app_root js_result" where
  "pk_failed err a =
     (let a1 = a\<lparr>obtainPk := None, pkErrorsFound := pkErrorsFound a + 1\<rparr> in
      bindR (if pkErrorsFound a1 > 4 \<and> \<not> pkErrorShown a1
             then bindR (processServiceError err) (\<lambda>e.
                    bindR (snackbar_showError (VStr ''start.loading-error'') VNull True e VNull (ar_snackbar a1))
                      (\<lambda>sn. Inr (a1\<lparr>ar_snackbar := sn, pkErrorShown := True\<rparr>)))
             else Inr a1)
        (\<lambda>a2. Inr (if \<not> inLoginPage a2 then checkHypervisorPk 1000 a2 else a2)))"

text \<open>A navigation that ended closes the messages, and so does opening a dialog; closing the dialogs
  closes only the message of a temporary error.\<close>

definition navigation_end :: "app_root \<Rightarrow> app_root" where
  "navigation_end a = a\<lparr>ar_snackbar := closeCurrent (ar_snackbar a)\<rparr>"

definition dialogs_closed :: "app_root \<Rightarrow> app_root" where
  "dialogs_closed a = a\<lparr>ar_snackbar := closeCurrentIfTemporaryError (ar_snackbar a)\<rparr>"

definition data_problem :: "bool \<Rightarrow> app_root \<Rightarrow> app_root" where
  "data_problem v a = a\<lparr>ar_dataProblem := v\<rparr>"

subsection \<open>The start as a transition system\<close>

inductive app_step :: "app_root \<Rightarrow> app_root \<Rightarrow> bool" where
  route: "app_step a (router_event r u a)"
| login: "app_step a (processLoginDone a)"
| received: "obtainPk a \<noteq> None \<Longrightarrow> pk_received v a = Inr a' \<Longrightarrow> app_step a a'"
| failed: "obtainPk a \<noteq> None \<Longrightarrow> pk_failed e a = Inr a' \<Longrightarrow> app_step a a'"
| messages: "app_step a (a\<lparr>ar_snackbar := sn\<rparr>)"
| problem: "app_step a (data_problem v a)"
| storage: "hypervisorPkObtained a \<Longrightarrow> app_step a (a\<lparr>ar_storage := st\<rparr>)"

definition startup_ok :: "storage_service \<Rightarrow> app_root \<Rightarrow> bool" where
  "startup_ok st a \<longleftrightarrow>
     (\<not> hypervisorPkObtained a \<longrightarrow> ar_storage a = st \<and> (\<not> inLoginPage a \<longrightarrow> obtainPk a \<noteq> None)) \<and>
     (hypervisorPkObtained a \<longrightarrow> obtainPk a = None) \<and> (pkErrorsFound a \<ge> 0)"

lemma app_step_ok: "app_step a a' \<Longrightarrow> startup_ok st a \<Longrightarrow> startup_ok st a'"
proof (induction rule: app_step.induct)
  case (route a r u)
  then show ?case by (auto simp: router_event_def startup_ok_def checkHypervisorPk_def split: option.splits)
next
  case (received a v a')
  then show ?case
    by (auto simp: pk_received_def startup_ok_def checkHypervisorPk_def bindR_Inr_iff split: if_splits)
next
  case (failed a e a')
  then show ?case
    by (auto simp: pk_failed_def startup_ok_def checkHypervisorPk_def bindR_Inr_iff split: if_splits)
qed (auto simp: processLoginDone_def startup_ok_def checkHypervisorPk_def data_problem_def)


text \<open>
  When the storage can not be initialised the handler ends in an exception: the key is not kept as
  obtained and, since the request is over, nothing asks for it again.
\<close>

theorem failed_initialization_ends_start:
  assumes "val_truthy k" and "initialize (val_to_string k) (ar_storage a) = Inl x"
  shows "pk_received (VObj [(''public_key'', k)]) a = Inl x"
  using assms by (simp add: pk_received_def)

section \<open>The login page\<close>

record login_page =
  lp_loading :: bool
  isForVpn :: bool
  lp_vpnKey :: jsstr

datatype login_effect = LoginDone | GoTo "jsstr list" | LoginMessage jsval

definition login_opened :: "string \<Rightarrow> jsstr \<Rightarrow> login_page \<Rightarrow> login_page" where
  "login_opened href key p = p\<lparr>lp_vpnKey := key, isForVpn := str_includes href ''vpnlogin''\<rparr>"

definition after_login :: "login_page \<Rightarrow> login_effect list" where
  "after_login p =
     [LoginDone, GoTo (if \<not> isForVpn p then [Str ''nodes''] else [Str ''vpn'', lp_vpnKey p, Str ''status''])]"

definition login_checked :: "jsval + AuthStates \<Rightarrow> login_page \<Rightarrow> login_effect list" where
  "login_checked r p = (case r of Inr s \<Rightarrow> if s \<noteq> NotLogged then after_login p else [] | Inl e \<Rightarrow> [])"

text \<open>The second component says whether the password is sent.\<close>

definition login_clicked :: "string \<Rightarrow> login_page \<Rightarrow> login_page \<times> bool" where
  "login_clicked password p = (if password = [] \<or> lp_loading p then (p, False) else (p\<lparr>lp_loading := True\<rparr>, True))"

definition login_answered :: "jsval + jsval \<Rightarrow> login_page \<Rightarrow> (login_page \<times> login_effect list) js_result" where
  "login_answered r p =
     (case r of
        Inr v \<Rightarrow> Inr (p, after_login p)
      | Inl e \<Rightarrow>
          bindR (processServiceError e) (\<lambda>err.
            Inr (p\<lparr>lp_loading := False\<rparr>,
                 [LoginMessage (if unauthorized err then VStr ''login.incorrect-password''
                                else val_prop err ''translatableErrorMsg'')])))"

section \<open>The form for the password\<close>

definition password_form_valid :: "bool \<Rightarrow> string \<Rightarrow> string \<Rightarrow> string \<Rightarrow> bool" where
  "password_form_valid forInitialConfig oldPassword newPassword newPasswordConfirmation \<longleftrightarrow>
     (forInitialConfig \<or> oldPassword \<noteq> []) \<and>
     (newPassword \<noteq> [] \<and> 6 \<le> length newPassword \<and> length newPassword \<le> 64) \<and>
     (newPasswordConfirmation \<noteq> [] \<and> newPassword = newPasswordConfirmation)"

datatype password_request = ChangeRequest string string | CreateRequest string

record password_form =
  pf_button :: button
  workingState :: bool

definition change_clicked ::
  "bool \<Rightarrow> string \<Rightarrow> string \<Rightarrow> string \<Rightarrow> password_form \<Rightarrow> password_form \<times> password_request option" where
  "change_clicked forInitialConfig oldPassword newPassword confirmation f =
     (if password_form_valid forInitialConfig oldPassword newPassword confirmation \<and> \<not> disabled (pf_button f)
      then (f\<lparr>pf_button := showLoading (pf_button f), workingState := True\<rparr>,
            Some (if \<not> forInitialConfig then ChangeRequest oldPassword newPassword else CreateRequest newPassword))
      else (f, None))"

text \<open>\<open>ButtonComponent.showError\<close>.\<close>

definition button_error :: "button \<Rightarrow> button" where
  "button_error b = b\<lparr>button_state := ButtonError, disabled := False\<rparr>"

datatype password_effect = ToNodes | CloseAll | PasswordDone string

definition password_changed ::
  "bool \<Rightarrow> jsval option \<Rightarrow> snackbar_service \<Rightarrow> password_form \<Rightarrow> (password_form \<times> password_effect list \<times> snackbar_service) js_result" where
  "password_changed forInitialConfig failure sn f =
     (case failure of
        None \<Rightarrow>
          if \<not> forInitialConfig
          then Inr (f\<lparr>workingState := False\<rparr>, [ToNodes], snackbar_showDone ''settings.password.password-changed'' VNull sn)
          else Inr (f\<lparr>workingState := False\<rparr>, [CloseAll], snackbar_showDone ''settings.password.initial-config.done'' VNull sn)
      | Some err \<Rightarrow>
          bindR (processServiceError err) (\<lambda>e.
          bindR (snackbar_showError e VNull forInitialConfig VNull VNull sn) (\<lambda>sn1.
            Inr (f\<lparr>pf_button := button_error (pf_button f), workingState := False\<rparr>, [], sn1))))"

text \<open>
  The login page sends at most one password at a time, never an empty one, and after an
  answer with an error the user can try again; after the visor accepted it or when the session is
  already open, the application goes on with its start and to the page the user came for.
\<close>

theorem login_page_correct:
  "(snd (login_clicked password p) \<longleftrightarrow> password \<noteq> [] \<and> \<not> lp_loading p) \<and>
   (snd (login_clicked password p) \<longrightarrow> \<not> snd (login_clicked other (fst (login_clicked password p)))) \<and>
   (\<forall>v. login_answered (Inr v) p = Inr (p, after_login p)) \<and>
   (\<forall>e q fx. login_answered (Inl e) p = Inr (q, fx) \<longrightarrow> \<not> lp_loading q \<and> GoTo d \<notin> set fx) \<and>
   (\<forall>s. login_checked (Inr s) p = (if s = NotLogged then [] else after_login p)) \<and>
   after_login (login_opened href key p) =
     [LoginDone, GoTo (if str_includes href ''vpnlogin'' then [Str ''vpn'', key, Str ''status''] else [Str ''nodes''])]"
  by (auto simp: login_clicked_def login_answered_def login_checked_def login_opened_def after_login_def bindR_Inr_iff)

section \<open>Examples\<close>


end
