(* ===== verification/Settings_Windows.thy ===== *)
theory Settings_Windows
  imports Apps_List Node_List General_Utils App_Start
begin

text \<open>
  The windows that change one group of settings with one request: \<open>vpn-dns-config.component.ts\<close>,
  \<open>router-config.component.ts\<close>, \<open>rewards-address-config.component.ts\<close>, \<open>skysocks-settings.component.ts\<close>,
  \<open>user-app-settings.component.ts\<close> and \<open>skychat-settings.component.ts\<close>. They repeat the same steps
  (the button, the request, closing, the message), which are stated once; the form of each is a type of
  its own. The validity of a form is the one after the window is shown. What the windows have in common
  is proved in a locale and holds for each of them by interpretation.
\<close>

section \<open>What the windows repeat\<close>

record 'f settings_window =
  sw_form :: 'f
  sw_button :: button
  sw_operation :: "http_request option"
  sw_questions :: "string list"
  sw_requests :: "http_request list"
  sw_closed :: bool
  sw_refreshed :: nat
  sw_snackbar :: snackbar_service

definition window_opened :: "'f \<Rightarrow> string list \<Rightarrow> snackbar_service \<Rightarrow> 'f settings_window" where
  "window_opened f qs sn =
     \<lparr>sw_form = f, sw_button = \<lparr>button_state = ButtonNormal, disabled = False\<rparr>, sw_operation = None, sw_questions = qs,
      sw_requests = [], sw_closed = False, sw_refreshed = 0, sw_snackbar = sn\<rparr>"

text \<open>The request of an operation, and its two answers. Some windows also refresh the page behind them.\<close>

definition window_request :: "http_request \<Rightarrow> 'f settings_window \<Rightarrow> 'f settings_window" where
  "window_request r w =
     w\<lparr>sw_button := showLoading (sw_button w), sw_operation := Some r, sw_requests := sw_requests w @ [r]\<rparr>"

definition window_saved :: "bool \<Rightarrow> string \<Rightarrow> 'f settings_window \<Rightarrow> 'f settings_window" where
  "window_saved refresh msg w =
     w\<lparr>sw_closed := True, sw_operation := None, sw_refreshed := sw_refreshed w + (if refresh then 1 else 0),
       sw_snackbar := snackbar_showDone msg VNull (sw_snackbar w)\<rparr>"

definition window_failed :: "jsval \<Rightarrow> 'f settings_window \<Rightarrow> 'f settings_window js_result" where
  "window_failed err w =
     bindR (processServiceError err) (\<lambda>e.
     bindR (snackbar_showError e VNull False VNull VNull (sw_snackbar w)) (\<lambda>sn.
       Inr (w\<lparr>sw_button := button_error (sw_button w), sw_operation := None, sw_snackbar := sn\<rparr>)))"

definition window_ask :: "string \<Rightarrow> 'f settings_window \<Rightarrow> 'f settings_window" where
  "window_ask q w = w\<lparr>sw_questions := q # sw_questions w\<rparr>"

definition question_closed :: "'f settings_window \<Rightarrow> 'f settings_window" where
  "question_closed w = w\<lparr>sw_questions := tl (sw_questions w)\<rparr>"

definition window_dismissable :: "'f settings_window \<Rightarrow> bool" where
  "window_dismissable w \<longleftrightarrow> button_state (sw_button w) \<noteq> ButtonLoading"

section \<open>The address of the name server\<close>

definition dns_form_valid :: "jsstr \<Rightarrow> bool" where
  "dns_form_valid a \<longleftrightarrow> (case a of Str s \<Rightarrow> length s \<le> 15 | _ \<Rightarrow> True) \<and> checkIfIpValidOrEmpty a"

definition dns_request :: "string \<Rightarrow> jsstr \<Rightarrow> http_request" where
  "dns_request nodePk a = changeAppSettings nodePk ''vpn-client'' [(''dns'', jsstr_value a)]"

definition dns_save :: "string \<Rightarrow> jsstr settings_window \<Rightarrow> jsstr settings_window" where
  "dns_save nodePk w =
     (if \<not> dns_form_valid (sw_form w) \<or> sw_operation w \<noteq> None then w
      else window_request (dns_request nodePk (sw_form w)) w)"

definition dns_saved :: "jsstr settings_window \<Rightarrow> jsstr settings_window" where
  "dns_saved = window_saved False ''vpn.dns-config.done''"

section \<open>The minimum of hops\<close>

text \<open>The value of the visor is a number, what the user types is a text.\<close>

definition min_hops_valid :: "jsval \<Rightarrow> bool" where
  "min_hops_valid v \<longleftrightarrow>
     (case v of
        VStr s \<Rightarrow> s \<noteq> [] \<and> length s \<le> 3 \<and> list_all is_digit s
      | VNum n \<Rightarrow> list_all is_digit (int_to_string n)
      | _ \<Rightarrow> False)"

definition setMinHops :: "string \<Rightarrow> int option \<Rightarrow> http_request" where
  "setMinHops nodeKey n =
     \<lparr>http_method = ''POST'', http_url = ''visors/'' @ nodeKey @ ''/min-hops'',
      http_body = SettingsBody [(''min_hops'', case n of Some i \<Rightarrow> VNum i | None \<Rightarrow> VNull)]\<rparr>"

definition min_hops_request :: "string \<Rightarrow> jsval \<Rightarrow> http_request" where
  "min_hops_request nodePk v = setMinHops nodePk (parse_int (val_to_string v))"

definition router_save :: "string \<Rightarrow> jsval settings_window \<Rightarrow> jsval settings_window" where
  "router_save nodePk w =
     (if \<not> min_hops_valid (sw_form w) \<or> sw_operation w \<noteq> None then w
      else window_request (min_hops_request nodePk (sw_form w)) w)"

definition router_saved :: "jsval settings_window \<Rightarrow> jsval settings_window" where
  "router_saved = window_saved False ''router-config.done''"

section \<open>The address for rewards\<close>

definition reward_address_valid :: "jsstr \<Rightarrow> bool" where
  "reward_address_valid a \<longleftrightarrow> (case a of Str s \<Rightarrow> s = [] \<or> 20 \<le> length s \<and> length s \<le> 40 | _ \<Rightarrow> True)"

definition setRewardsAddress :: "string \<Rightarrow> jsstr \<Rightarrow> http_request" where
  "setRewardsAddress nodeKey a =
     \<lparr>http_method = ''PUT'', http_url = ''visors/'' @ nodeKey @ ''/reward'',
      http_body = SettingsBody [(''reward_address'', jsstr_value a)]\<rparr>"

definition deleteRewardsAddress :: "string \<Rightarrow> http_request" where
  "deleteRewardsAddress nodeKey =
     \<lparr>http_method = ''DELETE'', http_url = ''visors/'' @ nodeKey @ ''/reward'', http_body = NoBody\<rparr>"

definition getRewardsAddress :: "string \<Rightarrow> http_request" where
  "getRewardsAddress nodeKey =
     \<lparr>http_method = ''GET'', http_url = ''visors/'' @ nodeKey @ ''/reward'', http_body = NoBody\<rparr>"

definition reward_request :: "string \<Rightarrow> jsstr \<Rightarrow> http_request" where
  "reward_request nodePk a = (if truthy a then setRewardsAddress nodePk a else deleteRewardsAddress nodePk)"

definition reward_finishSaving :: "string \<Rightarrow> jsstr settings_window \<Rightarrow> jsstr settings_window" where
  "reward_finishSaving nodePk w = window_request (reward_request nodePk (sw_form w)) w"

definition reward_startSaving :: "string \<Rightarrow> jsstr settings_window \<Rightarrow> jsstr settings_window" where
  "reward_startSaving nodePk w =
     (if \<not> reward_address_valid (sw_form w) \<or> sw_operation w \<noteq> None then w
      else if truthy (sw_form w) then reward_finishSaving nodePk w
      else window_ask ''rewards-address-config.empty-warning'' w)"

definition reward_accepted :: "string \<Rightarrow> jsstr settings_window \<Rightarrow> jsstr settings_window" where
  "reward_accepted nodePk w = reward_finishSaving nodePk (question_closed w)"

definition reward_saved :: "jsstr settings_window \<Rightarrow> jsstr settings_window" where
  "reward_saved = window_saved False ''rewards-address-config.done''"

section \<open>The servers of the VPN and of the proxy\<close>

record skysocks_form =
  sk_password :: string
  sk_confirmation :: string
  sk_netifc :: string
  secureMode :: bool

definition configuringVpn :: "string \<Rightarrow> bool" where
  "configuringVpn appName = str_includes (to_lower appName) ''vpn''"

text \<open>The loop over the arguments of the app.\<close>

fun server_args :: "string list \<Rightarrow> skysocks_form \<Rightarrow> skysocks_form" where
  "server_args [] f = f"
| "server_args (arg # rest) f =
     (let f1 = (if str_includes (to_lower arg) ''-secure'' then f\<lparr>secureMode := str_includes (to_lower arg) ''true''\<rparr> else f);
          f2 = (if str_includes (to_lower arg) ''-netifc''
                then (case rest of v # _ \<Rightarrow> f1\<lparr>sk_netifc := v\<rparr> | [] \<Rightarrow> f1) else f1)
      in server_args rest f2)"

definition new_skysocks_form :: "string list option \<Rightarrow> skysocks_form" where
  "new_skysocks_form args =
     (let f = \<lparr>sk_password = [], sk_confirmation = [], sk_netifc = [], secureMode = False\<rparr>
      in case args of Some l \<Rightarrow> server_args l f | None \<Rightarrow> f)"

definition passwords_agree :: "skysocks_form \<Rightarrow> bool" where
  "passwords_agree f \<longleftrightarrow> sk_password f = sk_confirmation f"

definition setSecureMode :: "bool \<Rightarrow> skysocks_form settings_window \<Rightarrow> skysocks_form settings_window" where
  "setSecureMode checked w =
     (if \<not> disabled (sw_button w) then w\<lparr>sw_form := (sw_form w)\<lparr>secureMode := checked\<rparr>\<rparr> else w)"

definition skysocks_request :: "string \<Rightarrow> string \<Rightarrow> skysocks_form \<Rightarrow> http_request" where
  "skysocks_request nodeKey appName f =
     changeAppSettings nodeKey appName
       ([(''passcode'', VStr (sk_password f))] @
        (if configuringVpn appName then [(''secure'', VBool (secureMode f)), (''netifc'', VStr (sk_netifc f))] else []))"

definition skysocks_save :: "skysocks_form settings_window \<Rightarrow> skysocks_form settings_window" where
  "skysocks_save w =
     (if \<not> passwords_agree (sw_form w) \<or> disabled (sw_button w) then w
      else window_ask (if sk_password (sw_form w) \<noteq> [] then ''apps.vpn-socks-server-settings.change-passowrd-confirmation''
                       else ''apps.vpn-socks-server-settings.remove-passowrd-confirmation'') w)"

definition skysocks_accepted ::
  "string \<Rightarrow> string \<Rightarrow> skysocks_form settings_window \<Rightarrow> skysocks_form settings_window" where
  "skysocks_accepted nodeKey appName w =
     window_request (skysocks_request nodeKey appName (sw_form w)) (question_closed w)"

definition skysocks_saved :: "skysocks_form settings_window \<Rightarrow> skysocks_form settings_window" where
  "skysocks_saved = window_saved True ''apps.vpn-socks-server-settings.changes-made''"

section \<open>The settings of an app of the user\<close>

type_synonym settings_rows = "(string \<times> string) list"

text \<open>The arguments are pairs of a name and a value; an argument that is left over is dropped.\<close>

fun app_rows :: "string list \<Rightarrow> settings_rows" where
  "app_rows (n # v # rest) = ((if starts_with n ''-'' then drop 1 n else n), v) # app_rows rest"
| "app_rows _ = []"

definition addSetting :: "settings_rows \<Rightarrow> settings_rows" where "addSetting rows = rows @ [([], [])]"

definition removeSetting :: "nat \<Rightarrow> settings_rows \<Rightarrow> settings_rows" where
  "removeSetting i rows = take i rows @ drop (i + 1) rows"

text \<open>The settings with a name, whether a row has none, and how many were added.\<close>

definition collect_setting ::
  "string \<times> string \<Rightarrow> (string, string) jsmap \<times> bool \<times> nat \<Rightarrow> (string, string) jsmap \<times> bool \<times> nat" where
  "collect_setting row acc =
     (case acc of (settings, hasEmpty, added) \<Rightarrow>
        let n = trim (fst row); v = trim (snd row)
        in if n \<noteq> [] then (map_set n v settings, hasEmpty, added + 1) else (settings, True, added))"

definition collect_settings :: "settings_rows \<Rightarrow> (string, string) jsmap \<times> bool \<times> nat" where
  "collect_settings rows = fold collect_setting rows ([], False, 0)"

definition user_app_request :: "string \<Rightarrow> string \<Rightarrow> settings_rows \<Rightarrow> http_request" where
  "user_app_request nodeKey appName rows =
     changeAppSettings nodeKey appName
       [(''custom_setting'', VObj (map (\<lambda>(k, v). (k, VStr v)) (fst (collect_settings rows))))]"

definition user_app_save :: "string \<Rightarrow> string \<Rightarrow> settings_rows settings_window \<Rightarrow> settings_rows settings_window" where
  "user_app_save nodeKey appName w =
     (if disabled (sw_button w) then w
      else case collect_settings (sw_form w) of
             (settings, hasEmpty, added) \<Rightarrow>
               if hasEmpty \<or> added = 0
               then window_ask (''apps.user-app-settings.'' @ (if added = 0 then ''empty-confirmation'' else ''invalid-confirmation'')) w
               else window_request (user_app_request nodeKey appName (sw_form w)) w)"

definition user_app_accepted ::
  "string \<Rightarrow> string \<Rightarrow> settings_rows settings_window \<Rightarrow> settings_rows settings_window" where
  "user_app_accepted nodeKey appName w =
     window_request (user_app_request nodeKey appName (sw_form w)) (question_closed w)"

definition user_app_saved :: "settings_rows settings_window \<Rightarrow> settings_rows settings_window" where
  "user_app_saved = window_saved True ''apps.user-app-settings.changes-made''"

section \<open>The settings of Skychat\<close>

text \<open>
  \<open>parseFloat\<close> over exact numbers; \<open>Infinity\<close> is a number above all the others that the language has.
\<close>

definition signed_part :: "string \<Rightarrow> bool \<times> string" where
  "signed_part s = (case s of c # r \<Rightarrow> if c = CHR ''-'' then (True, r) else if c = CHR ''+'' then (False, r) else (False, s) | [] \<Rightarrow> (False, []))"

definition exponent_of :: "string \<Rightarrow> int" where
  "exponent_of s =
     (if s \<noteq> [] \<and> hd s \<in> {CHR ''e'', CHR ''E''}
      then case signed_part (tl s) of (neg, u) \<Rightarrow> (if neg then -1 else 1) * int (digits_val (takeWhile is_digit u))
      else 0)"

definition parse_float :: "string \<Rightarrow> rat option" where
  "parse_float s =
     (case signed_part (dropWhile is_ws s) of (neg, u) \<Rightarrow>
        let i = takeWhile is_digit u; r = dropWhile is_digit u;
            f = (if r \<noteq> [] \<and> hd r = CHR ''.'' then takeWhile is_digit (tl r) else []);
            r2 = (if r \<noteq> [] \<and> hd r = CHR ''.'' then dropWhile is_digit (tl r) else r);
            m = of_nat (digits_val (i @ f)) / 10 ^ length f; e = exponent_of r2;
            v = (if 0 \<le> e then m * 10 ^ nat e else m / 10 ^ nat (- e))
        in if starts_with u ''Infinity'' then Some (if neg then - (10 ^ 309) else 10 ^ 309)
           else if i = [] \<and> f = [] then None else Some (if neg then - v else v))"

record skychat_form =
  localhostOnly :: bool
  chat_port :: jsval

definition non_localhost_question :: string where
  "non_localhost_question = ''apps.skychat-settings.non-localhost-confirmation''"

text \<open>The subscription to the changes of the value: \<open>false\<close> is taken back until the user confirms it.\<close>

definition localhost_changed :: "bool \<Rightarrow> skychat_form settings_window \<Rightarrow> skychat_form settings_window" where
  "localhost_changed v w =
     (let w1 = w\<lparr>sw_form := (sw_form w)\<lparr>localhostOnly := True\<rparr>\<rparr>
      in if v then w1 else window_ask non_localhost_question w1)"

definition localhost_accepted :: "skychat_form settings_window \<Rightarrow> skychat_form settings_window" where
  "localhost_accepted w = (question_closed w)\<lparr>sw_form := (sw_form w)\<lparr>localhostOnly := False\<rparr>\<rparr>"

fun skychat_args :: "string list \<Rightarrow> skychat_form settings_window \<Rightarrow> skychat_form settings_window" where
  "skychat_args [] w = w"
| "skychat_args (a # rest) w =
     skychat_args rest
       (if a = ''-addr''
        then (case rest of
                v # _ \<Rightarrow>
                  let parts = split_on CHR '':'' v;
                      w1 = (if hd parts = ''*'' then localhost_changed False w else w)
                  in w1\<lparr>sw_form := (sw_form w1)\<lparr>chat_port := (case parts of _ # p # _ \<Rightarrow> VStr p | _ \<Rightarrow> VUndef)\<rparr>\<rparr>
              | [] \<Rightarrow> w)
        else w)"

definition skychat_opened :: "string list option \<Rightarrow> snackbar_service \<Rightarrow> skychat_form settings_window" where
  "skychat_opened args sn =
     (let w = window_opened \<lparr>localhostOnly = True, chat_port = VStr []\<rparr> [] sn
      in case args of Some l \<Rightarrow> skychat_args l w | None \<Rightarrow> w)"

text \<open>The limits of the port only count for a value that is a number.\<close>

definition chat_port_number :: "jsval \<Rightarrow> rat option" where
  "chat_port_number v = (case v of VNum n \<Rightarrow> Some (of_int n) | VStr s \<Rightarrow> parse_float s | _ \<Rightarrow> None)"

definition chat_port_valid :: "jsval \<Rightarrow> bool" where
  "chat_port_valid v \<longleftrightarrow>
     v \<notin> {VUndef, VNull, VStr []} \<and> (case chat_port_number v of Some n \<Rightarrow> 1025 \<le> n \<and> n \<le> 65536 | None \<Rightarrow> True)"

definition skychat_request :: "string \<Rightarrow> string \<Rightarrow> skychat_form \<Rightarrow> http_request" where
  "skychat_request nodeKey appName f =
     changeAppSettings nodeKey appName
       [(''address'', VStr ((if localhostOnly f then '':'' else ''*:'') @ val_to_string (chat_port f)))]"

definition skychat_save :: "string \<Rightarrow> string \<Rightarrow> skychat_form settings_window \<Rightarrow> skychat_form settings_window" where
  "skychat_save nodeKey appName w =
     (if \<not> chat_port_valid (chat_port (sw_form w)) \<or> disabled (sw_button w) then w
      else window_request (skychat_request nodeKey appName (sw_form w)) w)"

definition skychat_saved :: "skychat_form settings_window \<Rightarrow> skychat_form settings_window" where
  "skychat_saved = window_saved True ''apps.skychat-settings.changes-made''"

section \<open>The steps of a window\<close>

text \<open>While a question is open the user can only answer it.\<close>

inductive window_step ::
  "('f settings_window \<Rightarrow> 'f settings_window \<Rightarrow> bool) \<Rightarrow> ('f settings_window \<Rightarrow> 'f settings_window) \<Rightarrow>
    ('f settings_window \<Rightarrow> 'f settings_window) \<Rightarrow> ('f settings_window \<Rightarrow> 'f settings_window) \<Rightarrow>
    'f settings_window \<Rightarrow> 'f settings_window \<Rightarrow> bool"
  for edits save accept saved where
  edit: "sw_questions w = [] \<Longrightarrow> edits w w' \<Longrightarrow> window_step edits save accept saved w w'"
| save: "\<not> sw_closed w \<Longrightarrow> sw_questions w = [] \<Longrightarrow> window_step edits save accept saved w (save w)"
| accept: "sw_questions w \<noteq> [] \<Longrightarrow> window_step edits save accept saved w (accept w)"
| decline: "window_step edits save accept saved w (question_closed w)"
| saved: "sw_operation w = Some r \<Longrightarrow> window_step edits save accept saved w (saved w)"
| failed: "sw_operation w = Some r \<Longrightarrow> window_failed err w = Inr w' \<Longrightarrow> window_step edits save accept saved w w'"

definition form_edit :: "'f settings_window \<Rightarrow> 'f settings_window \<Rightarrow> bool" where
  "form_edit w w' \<longleftrightarrow> (\<exists>f. w' = w\<lparr>sw_form := f\<rparr>)"

definition skychat_edit :: "skychat_form settings_window \<Rightarrow> skychat_form settings_window \<Rightarrow> bool" where
  "skychat_edit w w' \<longleftrightarrow>
     (\<exists>p. w' = w\<lparr>sw_form := (sw_form w)\<lparr>chat_port := p\<rparr>\<rparr>) \<or> (\<exists>v. w' = localhost_changed v w)"

text \<open>The request in flight, the button and the open window fit together.\<close>

definition window_ok :: "'f settings_window \<Rightarrow> bool" where
  "window_ok w \<longleftrightarrow>
     (case sw_operation w of
        Some r \<Rightarrow> disabled (sw_button w) \<and> \<not> window_dismissable w \<and> \<not> sw_closed w \<and> sw_requests w \<noteq> [] \<and> last (sw_requests w) = r
      | None \<Rightarrow> sw_closed w \<or> \<not> disabled (sw_button w))"

lemma window_request_ok: "\<not> sw_closed w \<Longrightarrow> window_ok (window_request r w)"
  by (simp add: window_ok_def window_request_def showLoading_def window_dismissable_def)

lemma window_failed_result:
  "window_failed err w = Inr w' \<Longrightarrow>
     \<exists>sn. w' = w\<lparr>sw_button := button_error (sw_button w), sw_operation := None, sw_snackbar := sn\<rparr>"
  by (auto simp: window_failed_def bindR_Inr_iff)

lemma window_ok_fields: "window_ok (w\<lparr>sw_form := f, sw_questions := qs\<rparr>) = window_ok w"
  by (simp add: window_ok_def window_dismissable_def split: option.split)

locale saving_window =
  fixes edits :: "'f settings_window \<Rightarrow> 'f settings_window \<Rightarrow> bool"
    and save accept saved :: "'f settings_window \<Rightarrow> 'f settings_window"
    and request :: "'f \<Rightarrow> http_request"
    and form_ok :: "'f \<Rightarrow> bool"
    and asks :: bool
  assumes edits_only: "edits w w' \<Longrightarrow> \<exists>f qs. w' = w\<lparr>sw_form := f, sw_questions := qs\<rparr>"
    and edits_questions: "edits w w' \<Longrightarrow> asks \<Longrightarrow> sw_questions w' = sw_questions w"
    and save_blocked: "window_ok w \<Longrightarrow> sw_operation w \<noteq> None \<Longrightarrow> save w = w"
    and save_cases: "save w = w \<or> form_ok (sw_form w) \<and>
      (save w = window_request (request (sw_form w)) w \<or> asks \<and> (\<exists>q. save w = window_ask q w))"
    and accept_request: "asks \<Longrightarrow> accept w = window_request (request (sw_form w)) (question_closed w)"
    and accept_edit: "\<not> asks \<Longrightarrow> \<exists>f. accept w = (question_closed w)\<lparr>sw_form := f\<rparr>"
    and saved_closes: "\<exists>b m. saved w = window_saved b m w"
begin

definition promised :: "'f settings_window \<Rightarrow> bool" where
  "promised w \<longleftrightarrow> window_ok w \<and> (\<forall>r \<in> set (sw_requests w). \<exists>f. form_ok f \<and> r = request f) \<and>
     (asks \<and> sw_questions w \<noteq> [] \<longrightarrow> form_ok (sw_form w) \<and> sw_operation w = None \<and> \<not> sw_closed w \<and> length (sw_questions w) = 1)"

lemma step_promised: "window_step edits save accept saved w w' \<Longrightarrow> promised w \<Longrightarrow> promised w'"
proof (induction rule: window_step.induct)
  case (edit w w')
  from edits_only [OF edit(2)] obtain f qs where "w' = w\<lparr>sw_form := f, sw_questions := qs\<rparr>" by blast
  then show ?case using edit(1,3) edits_questions [OF edit(2)] by (auto simp: promised_def window_ok_fields)
next
  case (save w)
  show ?case
  proof (cases "sw_operation w = None")
    case True
    then show ?thesis using save_cases [of w] save
      by (auto simp: promised_def window_request_ok) (auto simp: window_request_def window_ask_def window_ok_def window_dismissable_def)
  next
    case False
    then show ?thesis using save_blocked [of w] save by (simp add: promised_def)
  qed
next
  case (accept w)
  show ?case
  proof (cases asks)
    case True
    then have acc: "accept w = window_request (request (sw_form w)) (question_closed w)" by (rule accept_request)
    have len: "length (sw_questions w) = 1" using accept True unfolding promised_def by blast
    show ?thesis using accept True len
      unfolding promised_def acc
      by (auto simp: window_request_ok question_closed_def) (auto simp: window_request_def length_Suc_conv)
  next
    case False
    then obtain f where "accept w = (question_closed w)\<lparr>sw_form := f\<rparr>" using accept_edit [of w] by blast
    then show ?thesis using accept False
      unfolding promised_def
      by (auto simp: question_closed_def window_ok_def window_dismissable_def split: option.splits)
  qed
next
  case (decline w)
  then show ?case
    by (auto simp: promised_def question_closed_def window_ok_def window_dismissable_def length_Suc_conv
        split: option.splits)
next
  case (saved w r)
  obtain b m where "saved w = window_saved b m w" using saved_closes by blast
  then show ?case using saved by (auto simp: promised_def window_saved_def window_ok_def)
next
  case (failed w r err w')
  then show ?case using window_failed_result [OF failed(2)]
    by (auto simp: promised_def window_ok_def button_error_def)
qed

lemma reachable_promised:
  assumes "(window_step edits save accept saved)\<^sup>*\<^sup>* (window_opened f [] sn) w"
  shows "window_ok w" and "\<And>r. r \<in> set (sw_requests w) \<Longrightarrow> \<exists>f. form_ok f \<and> r = request f"
proof -
  have "promised w"
    using assms
  proof (induction rule: rtranclp_induct)
    case base
    show ?case by (simp add: promised_def window_opened_def window_ok_def)
  next
    case (step x y)
    then show ?case using step_promised by blast
  qed
  then show "window_ok w" and "\<And>r. r \<in> set (sw_requests w) \<Longrightarrow> \<exists>f. form_ok f \<and> r = request f"
    by (simp_all add: promised_def)
qed

end

lemma window_blocked: "window_ok w \<Longrightarrow> sw_operation w \<noteq> None \<Longrightarrow> disabled (sw_button w)"
  by (auto simp: window_ok_def split: option.splits)

lemma form_edit_only:
  assumes "form_edit w w'"
  shows "\<exists>f qs. w' = w\<lparr>sw_form := f, sw_questions := qs\<rparr>"
proof -
  obtain f qs where "sw_form w' = f" "sw_questions w' = qs" by blast
  then have "w' = w\<lparr>sw_form := f, sw_questions := qs\<rparr>" using assms by (auto simp: form_edit_def)
  then show ?thesis by blast
qed

lemma form_edit_questions: "form_edit w w' \<Longrightarrow> sw_questions w' = sw_questions w"
  by (auto simp: form_edit_def)

lemma accept_closes: "\<exists>f. question_closed w = (question_closed w)\<lparr>sw_form := f\<rparr>"
  by (intro exI [of _ "sw_form w"]) (simp add: question_closed_def)

interpretation dns_window: saving_window form_edit "dns_save k" question_closed dns_saved "dns_request k" dns_form_valid False for k
  by unfold_locales (auto simp: dns_save_def dns_saved_def accept_closes intro: form_edit_only form_edit_questions)

interpretation router_window: saving_window form_edit "router_save k" question_closed router_saved "min_hops_request k" min_hops_valid False
  for k
  by unfold_locales (auto simp: router_save_def router_saved_def accept_closes intro: form_edit_only form_edit_questions)

interpretation reward_window: saving_window form_edit "reward_startSaving k" "reward_accepted k" reward_saved "reward_request k"
  reward_address_valid True for k
  by unfold_locales
    (auto simp: reward_startSaving_def reward_accepted_def reward_finishSaving_def reward_saved_def question_closed_def intro: form_edit_only form_edit_questions)

interpretation skysocks_window: saving_window form_edit skysocks_save "skysocks_accepted k a" skysocks_saved "skysocks_request k a"
  passwords_agree True for k a
  by unfold_locales
    (auto simp: skysocks_save_def skysocks_accepted_def skysocks_saved_def dest: window_blocked intro: form_edit_only form_edit_questions)

interpretation user_app_window: saving_window form_edit "user_app_save k a" "user_app_accepted k a" user_app_saved "user_app_request k a"
  "\<lambda>f. True" True for k a
  by unfold_locales
    (auto simp: user_app_save_def user_app_accepted_def user_app_saved_def split: prod.split dest: window_blocked intro: form_edit_only form_edit_questions)

lemma skychat_edit_only:
  assumes "skychat_edit w w'"
  shows "\<exists>f qs. w' = w\<lparr>sw_form := f, sw_questions := qs\<rparr>"
proof -
  obtain f qs where "sw_form w' = f" "sw_questions w' = qs" by blast
  then have "w' = w\<lparr>sw_form := f, sw_questions := qs\<rparr>"
    using assms by (auto simp: skychat_edit_def localhost_changed_def window_ask_def Let_def)
  then show ?thesis by blast
qed

interpretation skychat_window: saving_window skychat_edit "skychat_save k a" localhost_accepted skychat_saved "skychat_request k a"
  "\<lambda>f. chat_port_valid (chat_port f)" False for k a
  by unfold_locales (auto simp: skychat_save_def skychat_saved_def localhost_accepted_def dest: window_blocked intro: skychat_edit_only)

section \<open>What the requests say\<close>

lemma parse_int_digits:
  assumes "s \<noteq> []" and "list_all is_digit s"
  shows "parse_int s = Some (int (digits_val s))"
proof -
  obtain c r where s: "s = c # r" using assms(1) by (cases s) auto
  then have "is_digit c" using assms(2) by simp
  then have "dropWhile is_ws s = s" "c \<noteq> CHR ''-''" "c \<noteq> CHR ''+''"
    using is_digit_not_ws [of c] is_digit_not_sign [of c] s by simp_all
  moreover have "takeWhile is_digit s = s" using assms(2) by (simp add: takeWhile_eq_all_conv list_all_iff)
  ultimately show ?thesis by (simp add: parse_int_def s Let_def)
qed

lemma min_hops_number:
  assumes "min_hops_valid v"
  shows "\<exists>n \<ge> 0. parse_int (val_to_string v) = Some n"
proof (cases v)
  case (VNum n)
  then have "list_all is_digit (int_to_string n)" using assms by (simp add: min_hops_valid_def)
  then have "0 \<le> n" by (cases "n < 0") (auto simp: int_to_string_def is_digit_def)
  then show ?thesis by (simp add: VNum)
next
  case (VStr s)
  then have "s \<noteq> []" "list_all is_digit s" using assms by (auto simp: min_hops_valid_def)
  then show ?thesis by (simp add: VStr parse_int_digits)
qed (use assms in \<open>auto simp: min_hops_valid_def\<close>)

lemma reward_request_cases:
  "reward_address_valid a \<Longrightarrow> reward_request k a = deleteRewardsAddress k \<or>
     (\<exists>s. reward_request k a = setRewardsAddress k (Str s) \<and> 20 \<le> length s \<and> length s \<le> 40)"
  by (cases a) (auto simp: reward_request_def reward_address_valid_def)

text \<open>
  Property C30. The windows for the name server, the hops and the rewards, whatever the user does and the
  visor answers. Every request for the name server carries a missing or empty text or a valid
  address, every request for the hops a number that is not negative, and every request for the
  rewards removes the address or sets one of 20 to 40 characters. While a request waits for its
  answer, saving again does nothing and the windows for the hops and the rewards cannot be
  dismissed; after the answer the window is closed or its button works again.
\<close>

theorem settings_requests:
  assumes "(window_step form_edit (dns_save k) question_closed dns_saved)\<^sup>*\<^sup>* (window_opened a [] sn) w1"
    and "(window_step form_edit (router_save k) question_closed router_saved)\<^sup>*\<^sup>* (window_opened v [] sn) w2"
    and "(window_step form_edit (reward_startSaving k) (reward_accepted k) reward_saved)\<^sup>*\<^sup>* (window_opened b [] sn) w3"
  shows "(\<forall>r \<in> set (sw_requests w1). \<exists>x. r = dns_request k x \<and> checkIfIpValidOrEmpty x) \<and>
    (\<forall>r \<in> set (sw_requests w2). \<exists>n \<ge> 0. r = setMinHops k (Some n)) \<and>
    (\<forall>r \<in> set (sw_requests w3). r = deleteRewardsAddress k \<or>
       (\<exists>s. r = setRewardsAddress k (Str s) \<and> 20 \<le> length s \<and> length s \<le> 40)) \<and>
    (sw_operation w1 \<noteq> None \<longrightarrow> dns_save k w1 = w1) \<and>
    (sw_operation w2 \<noteq> None \<longrightarrow> router_save k w2 = w2 \<and> \<not> window_dismissable w2) \<and>
    (sw_operation w3 \<noteq> None \<longrightarrow> reward_startSaving k w3 = w3 \<and> \<not> window_dismissable w3) \<and>
    (\<forall>w \<in> {w1, w3}. sw_operation w = None \<longrightarrow> sw_closed w \<or> \<not> disabled (sw_button w))"
proof -
  note ok = dns_window.reachable_promised(1) [OF assms(1)] router_window.reachable_promised(1) [OF assms(2)]
    reward_window.reachable_promised(1) [OF assms(3)]
  have "\<exists>x. r = dns_request k x \<and> checkIfIpValidOrEmpty x" if "r \<in> set (sw_requests w1)" for r
    using dns_window.reachable_promised(2) [OF assms(1) that] by (auto simp: dns_form_valid_def)
  moreover have "\<exists>n \<ge> 0. r = setMinHops k (Some n)" if "r \<in> set (sw_requests w2)" for r
    using router_window.reachable_promised(2) [OF assms(2) that] min_hops_number by (fastforce simp: min_hops_request_def)
  moreover have "r = deleteRewardsAddress k \<or> (\<exists>s. r = setRewardsAddress k (Str s) \<and> 20 \<le> length s \<and> length s \<le> 40)"
    if "r \<in> set (sw_requests w3)" for r
    using reward_window.reachable_promised(2) [OF assms(3) that] reward_request_cases by blast
  moreover have "dns_save k w1 = w1" if "sw_operation w1 \<noteq> None" using that by (simp add: dns_save_def)
  moreover have "router_save k w2 = w2 \<and> \<not> window_dismissable w2" if "sw_operation w2 \<noteq> None"
    using that ok(2) by (auto simp: router_save_def window_ok_def)
  moreover have "reward_startSaving k w3 = w3 \<and> \<not> window_dismissable w3" if "sw_operation w3 \<noteq> None"
    using that ok(3) by (auto simp: reward_startSaving_def window_ok_def)
  moreover have "sw_closed w \<or> \<not> disabled (sw_button w)" if "w \<in> {w1, w3}" "sw_operation w = None" for w
    using that ok(1,3) by (auto simp: window_ok_def)
  ultimately show ?thesis by blast
qed

lemma app_rows_pairs:
  "app_rows (concat (map (\<lambda>(n, v). [CHR ''-'' # n, v]) settings)) = settings"
  by (induction settings) (auto simp: starts_with_def)

lemma collect_settings_named:
  assumes "list_all (\<lambda>(n, v). n \<noteq> [] \<and> trim n = n \<and> trim v = v) settings"
  shows "fold collect_setting settings (m, e, k) = (fold (\<lambda>(n, v). map_set n v) settings m, e, k + length settings)"
  using assms by (induction settings arbitrary: m k) (auto simp: collect_setting_def)

lemma map_sets_pairs: "distinct (map fst l) \<Longrightarrow> fold (\<lambda>(n, v). map_set n v) l [] = l"
  using map_sets_empty [of fst l snd] by (simp add: case_prod_unfold)


section \<open>What goes wrong\<close>

text \<open>
  A Skychat that serves other machines: opening its settings at once asks for the confirmation of that,
  and until the user gives it the window shows, and would save, the opposite.
\<close>

theorem non_localhost_shown_as_localhost:
  assumes "CHR '':'' \<notin> set p"
  shows "let w = skychat_opened (Some [''-addr'', ''*:'' @ p]) sn
         in sw_questions w = [non_localhost_question] \<and> localhostOnly (sw_form w) \<and>
            skychat_request k a (sw_form (question_closed w)) = changeAppSettings k a [(''address'', VStr ('':'' @ p))]"
proof -
  have "split_on CHR '':'' (''*:'' @ p) = [''*'', p]"
    using split_on_append [of "CHR '':''" "''*''" p] assms by (simp add: split_on_single)
  then show ?thesis
    by (simp add: skychat_opened_def localhost_changed_def window_opened_def window_ask_def question_closed_def skychat_request_def)
qed

text \<open>The port 65536, which does not exist, and texts that are no numbers are accepted.\<close>

theorem chat_port_limits: "chat_port_valid (VNum 65536)" "chat_port_valid (VStr ''x'')" "\<not> chat_port_valid (VNum 1024)"
  by (simp_all add: chat_port_valid_def chat_port_number_def parse_float_def signed_part_def is_ws_def is_digit_def starts_with_def)

section \<open>Examples\<close>

definition example_dns :: "jsstr settings_window" where
  "example_dns = window_opened (Str ''1.1.1.1'') [] new_snackbar_service"

theorem settings_requests_witness:
  "dns_save ''k'' (dns_save ''k'' example_dns) = dns_save ''k'' example_dns \<and> sw_operation (dns_save ''k'' example_dns) \<noteq> None"
proof -
  have valid: "dns_form_valid (Str ''1.1.1.1'')"
    by code_simp
  then have op: "sw_operation (dns_save ''k'' example_dns) \<noteq> None"
    by (simp add: dns_save_def example_dns_def window_opened_def window_request_def)
  have "window_step form_edit (dns_save ''k'') question_closed dns_saved example_dns (dns_save ''k'' example_dns)"
    by (rule window_step.save) (simp_all add: example_dns_def window_opened_def)
  then have reach: "(window_step form_edit (dns_save ''k'') question_closed dns_saved)\<^sup>*\<^sup>* (window_opened (Str ''1.1.1.1'') [] new_snackbar_service)
      (dns_save ''k'' example_dns)"
    by (simp add: example_dns_def)
  from settings_requests [OF this rtranclp.rtrancl_refl rtranclp.rtrancl_refl, of "VNum 0" "Str []"] op
  show ?thesis by simp
qed


end
