(* ===== verification/Terminal.thy ===== *)
theory Terminal
  imports Settings_Windows
begin

text \<open>
  The terminal of a visor: the emulator of \<open>src/assets/scripts/terminal.js\<close>, as far as the application
  uses it, and the window \<open>node/actions/basic-terminal/basic-terminal.component.ts\<close> that sends what the user
  types and prints the answers. The output is the list of the HTML texts of its lines. Colours, sizes and
  the cursor are left out, and the field has the focus when the flag says so.
\<close>

section \<open>The emulator\<close>

record terminal =
  tm_output :: "(string \<times> bool) list"
  tm_inputLine :: string
  tm_field :: "string option"
  tm_focused :: bool

definition new_terminal :: terminal where
  "new_terminal = \<lparr>tm_output = [], tm_inputLine = [], tm_field = None, tm_focused = False\<rparr>"

definition terminal_print :: "string \<Rightarrow> bool \<Rightarrow> terminal \<Rightarrow> terminal" where
  "terminal_print message useColor t = t\<lparr>tm_output := tm_output t @ [(message, useColor)]\<rparr>"

definition promptInput :: "string \<Rightarrow> terminal \<Rightarrow> terminal" where
  "promptInput message t =
     (let t1 = t\<lparr>tm_inputLine := [], tm_field := Some []\<rparr>
      in if message \<noteq> [] then terminal_print message True t1 else t1)"

definition changeInputContent :: "string \<Rightarrow> terminal \<Rightarrow> terminal" where
  "changeInputContent newContent t =
     (case tm_field t of Some old \<Rightarrow> t\<lparr>tm_field := Some newContent, tm_inputLine := newContent\<rparr> | None \<Rightarrow> t)"

definition getInputContent :: "terminal \<Rightarrow> string" where
  "getInputContent t = (case tm_field t of Some v \<Rightarrow> v | None \<Rightarrow> [])"

definition terminal_hasFocus :: "terminal \<Rightarrow> bool" where
  "terminal_hasFocus t \<longleftrightarrow> tm_field t \<noteq> None \<and> tm_focused t"

text \<open>Typing, and the Enter key, which prints what was typed and takes the field away.\<close>

definition terminal_typed :: "string \<Rightarrow> terminal \<Rightarrow> terminal" where
  "terminal_typed s t = (case tm_field t of Some old \<Rightarrow> t\<lparr>tm_field := Some s, tm_inputLine := s\<rparr> | None \<Rightarrow> t)"

definition terminal_enter :: "terminal \<Rightarrow> (terminal \<times> string) option" where
  "terminal_enter t =
     (case tm_field t of Some v \<Rightarrow> Some ((terminal_print v False t)\<lparr>tm_field := None\<rparr>, v) | None \<Rightarrow> None)"

section \<open>The window\<close>

record basic_terminal =
  bt_terminal :: terminal
  bt_history :: "string list"
  historyIndex :: nat
  currentInputText :: string
  bt_waiting :: bool
  bt_requests :: "http_request list"

definition replace_char :: "char \<Rightarrow> string \<Rightarrow> string \<Rightarrow> string" where
  "replace_char c r s = concat (map (\<lambda>d. if d = c then r else [d]) s)"

definition processed_text :: "string \<Rightarrow> string" where
  "processed_text t =
     replace_char CHR '' '' ''&nbsp;'' (replace_char CHR 0x09 ''&emsp;'' (replace_char CHR 0x0A ''<br/>''
       (replace_char CHR ''>'' ''&gt;'' (replace_char CHR ''<'' ''&lt;'' t))))"

definition printLines :: "string \<Rightarrow> basic_terminal \<Rightarrow> basic_terminal" where
  "printLines t b = b\<lparr>bt_terminal := terminal_print (processed_text t) False (bt_terminal b)\<rparr>"

definition exec_request :: "string \<Rightarrow> string \<Rightarrow> http_request" where
  "exec_request pk input =
     \<lparr>http_method = ''POST'', http_url = ''/visors/'' @ pk @ ''/exec'', http_body = SettingsBody [(''command'', VStr input)]\<rparr>"

definition waitForInput :: "string \<Rightarrow> basic_terminal \<Rightarrow> basic_terminal" where
  "waitForInput header b = b\<lparr>bt_terminal := promptInput header (bt_terminal b), bt_waiting := False\<rparr>"

definition basic_terminal_opened :: "string \<Rightarrow> basic_terminal" where
  "basic_terminal_opened header =
     waitForInput header \<lparr>bt_terminal = new_terminal, bt_history = [], historyIndex = 0, currentInputText = [], bt_waiting = False,
       bt_requests = []\<rparr>"

text \<open>The callback of the input.\<close>

definition input_entered :: "string \<Rightarrow> basic_terminal \<Rightarrow> basic_terminal" where
  "input_entered pk b =
     (case terminal_enter (bt_terminal b) of
        None \<Rightarrow> b
      | Some (t, input) \<Rightarrow>
          b\<lparr>bt_terminal := t, bt_history := bt_history b @ [input], historyIndex := length (bt_history b) + 1,
            currentInputText := [], bt_waiting := True, bt_requests := bt_requests b @ [exec_request pk input]\<rparr>)"

definition answer_text :: "(string \<Rightarrow> string) \<Rightarrow> jsval + jsstr \<Rightarrow> string js_result" where
  "answer_text instant r =
     (case r of
        Inr output \<Rightarrow> Inr (case output of Str s \<Rightarrow> if s \<noteq> [] then s else instant ''actions.terminal.error'' | _ \<Rightarrow> instant ''actions.terminal.error'')
      | Inl err \<Rightarrow>
          bindR (processServiceError err) (\<lambda>e.
            let original = val_prop e ''originalServerErrorMsg'' in
            Inr (if val_truthy original \<and> is_string original
                 then if val_prop e ''type'' = VStr Unknown_type then val_to_string original
                      else instant (val_to_string (val_prop e ''translatableErrorMsg''))
                 else instant ''actions.terminal.error'')))"

definition exec_answered :: "(string \<Rightarrow> string) \<Rightarrow> string \<Rightarrow> jsval + jsstr \<Rightarrow> basic_terminal \<Rightarrow> basic_terminal js_result" where
  "exec_answered instant header r b =
     bindR (answer_text instant r) (\<lambda>t. Inr (waitForInput header (printLines '' '' (printLines t b))))"

text \<open>The arrow keys.\<close>

definition key_up :: "basic_terminal \<Rightarrow> basic_terminal" where
  "key_up b =
     (if terminal_hasFocus (bt_terminal b) \<and> bt_history b \<noteq> []
      then let b1 = (if historyIndex b = length (bt_history b)
                     then b\<lparr>currentInputText := getInputContent (bt_terminal b)\<rparr> else b);
               i = (if historyIndex b1 > 0 then historyIndex b1 - 1 else 0)
           in b1\<lparr>historyIndex := i, bt_terminal := changeInputContent (bt_history b1 ! i) (bt_terminal b1)\<rparr>
      else b)"

definition key_down :: "basic_terminal \<Rightarrow> basic_terminal" where
  "key_down b =
     (if terminal_hasFocus (bt_terminal b) \<and> bt_history b \<noteq> []
      then let i = (if historyIndex b < length (bt_history b) then historyIndex b + 1 else length (bt_history b));
               c = (if i \<noteq> length (bt_history b) then bt_history b ! i else currentInputText b)
           in b\<lparr>historyIndex := i, bt_terminal := changeInputContent c (bt_terminal b)\<rparr>
      else b)"

section \<open>The history\<close>

definition browsing :: "string list \<Rightarrow> string \<Rightarrow> nat \<Rightarrow> basic_terminal \<Rightarrow> bool" where
  "browsing h w n b \<longleftrightarrow>
     bt_history b = h \<and> n \<le> length h \<and> historyIndex b = length h - n \<and> (n > 0 \<longrightarrow> currentInputText b = w) \<and>
     tm_focused (bt_terminal b) \<and>
     tm_field (bt_terminal b) = Some (if n = 0 then w else h ! (length h - n))"

lemma up_browses:
  assumes "browsing h w n b" and "n < length h"
  shows "browsing h w (n + 1) (key_up b)"
  using assms
  by (cases "n = 0") (auto simp: browsing_def key_up_def terminal_hasFocus_def changeInputContent_def getInputContent_def Let_def Suc_le_eq)

lemma up_stops: "browsing h w (length h) b \<Longrightarrow> h \<noteq> [] \<Longrightarrow> browsing h w (length h) (key_up b)"
  by (auto simp: browsing_def key_up_def terminal_hasFocus_def changeInputContent_def Let_def)

lemma down_browses:
  assumes "browsing h w (n + 1) b"
  shows "browsing h w n (key_down b)"
proof -
  have "length h - Suc n + 1 = length h - n" "h \<noteq> []" using assms by (auto simp: browsing_def)
  then show ?thesis
    using assms by (auto simp: browsing_def key_down_def terminal_hasFocus_def changeInputContent_def Let_def)
qed

lemma ups: "browsing h w k b \<Longrightarrow> k + n \<le> length h \<Longrightarrow> browsing h w (k + n) ((key_up ^^ n) b)"
proof (induction n)
  case (Suc n)
  then show ?case using up_browses [of h w "k + n" "(key_up ^^ n) b"] by simp
qed simp

lemma more_ups: "browsing h w (length h) b \<Longrightarrow> h \<noteq> [] \<Longrightarrow> browsing h w (length h) ((key_up ^^ n) b)"
  by (induction n) (simp_all add: up_stops)

lemma downs: "browsing h w (m + n) b \<Longrightarrow> browsing h w m ((key_down ^^ n) b)"
proof (induction n arbitrary: b)
  case (Suc n)
  then show ?case using down_browses [of h w "m + n" b] by (simp add: funpow_swap1)
qed simp

text \<open>
  The arrow keys in the terminal of a visor. While the user is writing a command, going up
  shows the commands sent before, the latest first, and stops at the first one; going down as often
  as one went up gives back exactly the text that was being written.
\<close>

theorem terminal_history_roundtrip:
  assumes "tm_field (bt_terminal b) = Some w" and "tm_focused (bt_terminal b)" and "historyIndex b = length (bt_history b)"
    and "0 < n" and "bt_history b \<noteq> []"
  shows "getInputContent (bt_terminal ((key_up ^^ n) b)) = bt_history b ! (length (bt_history b) - n) \<and>
    (n \<le> length (bt_history b) \<longrightarrow>
       getInputContent (bt_terminal ((key_down ^^ n) ((key_up ^^ n) b))) = w \<and>
       historyIndex ((key_down ^^ n) ((key_up ^^ n) b)) = length (bt_history b))"
proof -
  let ?h = "bt_history b"
  have start: "browsing ?h w 0 b" using assms by (simp add: browsing_def)
  show ?thesis
  proof (cases "n \<le> length ?h")
    case True
    from ups [OF start, of n] True have up: "browsing ?h w n ((key_up ^^ n) b)" by simp
    with downs [of ?h w 0 n] have "browsing ?h w 0 ((key_down ^^ n) ((key_up ^^ n) b))" by simp
    then show ?thesis using up assms(4) by (simp add: browsing_def getInputContent_def)
  next
    case False
    then obtain m where n: "n = m + length ?h" by (metis add.commute le_add_diff_inverse nat_le_linear)
    from ups [OF start, of "length ?h"] have "browsing ?h w (length ?h) ((key_up ^^ length ?h) b)" by simp
    from more_ups [OF this assms(5), of m] have "browsing ?h w (length ?h) ((key_up ^^ n) b)" by (simp add: n funpow_add)
    then show ?thesis using False assms(5) by (simp add: browsing_def getInputContent_def)
  qed
qed

section \<open>What is printed\<close>

definition html_of_char :: "char \<Rightarrow> string" where
  "html_of_char c =
     (if c = CHR ''<'' then ''&lt;'' else if c = CHR ''>'' then ''&gt;'' else if c = CHR 0x0A then ''<br/>''
      else if c = CHR 0x09 then ''&emsp;'' else if c = CHR '' '' then ''&nbsp;'' else [c])"

lemma replace_char_simps:
  "replace_char c r [] = []" "replace_char c r (d # s) = (if d = c then r else [d]) @ replace_char c r s"
  "replace_char c r (s @ t) = replace_char c r s @ replace_char c r t"
  by (simp_all add: replace_char_def)

lemma processed_text_chars: "processed_text t = concat (map html_of_char t)"
  by (induction t) (auto simp: processed_text_def replace_char_simps html_of_char_def)

text \<open>
  The text of an answer never brings its own markup into the page: the only marks in the HTML that is
  printed are line breaks, one for each end of a line of the text.
\<close>

theorem answers_are_escaped:
  "count_list (processed_text t) CHR ''<'' = count_list t CHR 0x0A \<and>
   count_list (processed_text t) CHR ''>'' = count_list t CHR 0x0A"
  by (induction t) (auto simp: processed_text_chars html_of_char_def)

text \<open>What the user types is printed as it is, so it is interpreted as HTML.\<close>

theorem commands_are_not_escaped:
  assumes "tm_field (bt_terminal b) = Some v"
  shows "last (tm_output (bt_terminal (input_entered pk b))) = (v, False)"
  using assms by (simp add: input_entered_def terminal_enter_def terminal_print_def)

section \<open>The dialogue\<close>

inductive terminal_step :: "(string \<Rightarrow> string) \<Rightarrow> string \<Rightarrow> string \<Rightarrow> basic_terminal \<Rightarrow> basic_terminal \<Rightarrow> bool" for instant header pk where
  typing: "terminal_step instant header pk b (b\<lparr>bt_terminal := terminal_typed s (bt_terminal b)\<rparr>)"
| focus: "terminal_step instant header pk b (b\<lparr>bt_terminal := (bt_terminal b)\<lparr>tm_focused := f\<rparr>\<rparr>)"
| up: "terminal_step instant header pk b (key_up b)"
| down: "terminal_step instant header pk b (key_down b)"
| enter: "terminal_step instant header pk b (input_entered pk b)"
| answer: "bt_waiting b \<Longrightarrow> exec_answered instant header r b = Inr b' \<Longrightarrow> terminal_step instant header pk b b'"

definition terminal_ok :: "string \<Rightarrow> basic_terminal \<Rightarrow> bool" where
  "terminal_ok pk b \<longleftrightarrow>
     (bt_waiting b \<longleftrightarrow> tm_field (bt_terminal b) = None) \<and> historyIndex b \<le> length (bt_history b) \<and>
     bt_requests b = map (exec_request pk) (bt_history b) \<and> (bt_waiting b \<longrightarrow> bt_history b \<noteq> [])"

lemma waited_again:
  "exec_answered instant header r b = Inr b' \<longleftrightarrow>
     (\<exists>t. answer_text instant r = Inr t \<and> b' = waitForInput header (printLines '' '' (printLines t b)))"
  by (auto simp: exec_answered_def bindR_Inr_iff)

lemma waitForInput_fields:
  "tm_field (bt_terminal (waitForInput header b)) = Some []"
  "bt_waiting (waitForInput header b) \<longleftrightarrow> False"
  "set (tm_output (bt_terminal b)) \<subseteq> set (tm_output (bt_terminal (waitForInput header b)))"
  by (auto simp: waitForInput_def promptInput_def terminal_print_def Let_def)

lemma printed_line: "(processed_text t, False) \<in> set (tm_output (bt_terminal (printLines s (printLines t b))))"
  by (simp add: printLines_def terminal_print_def)

lemma printed_waited:
  "(processed_text t, False) \<in> set (tm_output (bt_terminal (waitForInput header (printLines s (printLines t b)))))"
  using printed_line [of t s b] waitForInput_fields(3) [of "printLines s (printLines t b)" header] by blast

lemma terminal_step_ok: "terminal_step instant header pk b b' \<Longrightarrow> terminal_ok pk b \<Longrightarrow> terminal_ok pk b'"
proof (induction rule: terminal_step.induct)
  case (typing b s)
  then show ?case by (auto simp: terminal_ok_def terminal_typed_def split: option.splits)
next
  case (up b)
  then show ?case by (auto simp: terminal_ok_def key_up_def changeInputContent_def Let_def split: option.splits)
next
  case (down b)
  then show ?case by (auto simp: terminal_ok_def key_down_def changeInputContent_def Let_def split: option.splits)
next
  case (enter b)
  then show ?case by (auto simp: terminal_ok_def input_entered_def terminal_enter_def terminal_print_def split: option.splits)
next
  case (answer b r b')
  then show ?case
    by (auto simp: terminal_ok_def waited_again waitForInput_fields) (simp_all add: waitForInput_def printLines_def)
qed (simp add: terminal_ok_def)

lemma example_enter:
  "(terminal_step (\<lambda>x. x) ''>'' ''k'')\<^sup>*\<^sup>* (basic_terminal_opened ''>'') (input_entered ''k'' (basic_terminal_opened ''>''))"
  by (rule r_into_rtranclp) (rule terminal_step.enter)

text \<open>
  Property C34. The dialogue of the terminal, whatever the user types and the visor answers: the requests
  are exactly the commands of the history, in order; the field to type in is there exactly when no
  answer is awaited, so there is at most one request at a time; the position in the history is valid;
  and every answer, also an error, brings the field back when its message can be processed.
\<close>

theorem terminal_dialogue:
  assumes "(terminal_step instant header pk)\<^sup>*\<^sup>* (basic_terminal_opened header) b"
  shows "bt_requests b = map (exec_request pk) (bt_history b) \<and> (bt_waiting b \<longleftrightarrow> tm_field (bt_terminal b) = None) \<and>
    historyIndex b \<le> length (bt_history b) \<and>
    (\<forall>r t. bt_waiting b \<and> answer_text instant r = Inr t \<longrightarrow>
       (\<exists>b'. exec_answered instant header r b = Inr b' \<and> \<not> bt_waiting b' \<and> getInputContent (bt_terminal b') = [] \<and>
          tm_field (bt_terminal b') \<noteq> None \<and> (processed_text t, False) \<in> set (tm_output (bt_terminal b'))))"
proof -
  have "terminal_ok pk b"
    using assms
  proof (induction rule: rtranclp_induct)
    case base
    show ?case by (simp add: terminal_ok_def basic_terminal_opened_def waitForInput_def promptInput_def terminal_print_def Let_def)
  next
    case (step x y)
    then show ?case using terminal_step_ok by blast
  qed
  then show ?thesis by (auto simp: terminal_ok_def waited_again waitForInput_fields printed_waited getInputContent_def)
qed

section \<open>Examples\<close>

definition example_terminal :: basic_terminal where
  "example_terminal =
     \<lparr>bt_terminal = \<lparr>tm_output = [], tm_inputLine = ''l'', tm_field = Some ''l'', tm_focused = True\<rparr>, bt_history = [''a'', ''b''],
      historyIndex = 2, currentInputText = [], bt_waiting = False, bt_requests = []\<rparr>"

theorem terminal_history_roundtrip_witness:
  "getInputContent (bt_terminal (key_up (key_up example_terminal))) = ''a'' \<and>
   getInputContent (bt_terminal (key_down (key_down (key_up (key_up example_terminal))))) = ''l''"
  using terminal_history_roundtrip [of example_terminal "''l''" 2]
  by (simp add: example_terminal_def numeral_2_eq_2)

theorem terminal_dialogue_witness:
  "bt_requests (input_entered ''k'' (basic_terminal_opened ''>'')) = [exec_request ''k'' []]"
  using terminal_dialogue [OF example_enter]
  by (simp add: input_entered_def basic_terminal_opened_def waitForInput_def promptInput_def terminal_enter_def terminal_print_def
      Let_def new_terminal_def)

end
