(* ===== verification/Auto_Scale.thy ===== *)
theory Auto_Scale
  imports Complex_Main JS_Strings
begin

text \<open>
  \<open>src/app/pipes/auto-scale.pipe.ts\<close>: how an amount of data is shown, with the unit that fits it. The number
  is a rational; the operations of the BigNumber library are parameters: the division by 1024, which
  rounds to 20 decimals, and the two ways of printing. The loop may in principle not end, so it is
  a partial function.
\<close>

section \<open>The pipe\<close>

record AutoScalePipeParams =
  showValue :: bool
  showUnit :: bool
  showPerSecond :: bool
  limitDecimals :: bool
  useBits :: bool

record scale_numbers =
  by1024 :: "rat \<Rightarrow> rat"
  toFixed2 :: "rat \<Rightarrow> string"
  oneDecimal :: "rat \<Rightarrow> string"

definition accumulatedMeasurements :: "string list" where
  "accumulatedMeasurements = [''B'', ''KB'', ''MB'', ''GB'', ''TB'', ''PB'', ''EB'', ''ZB'', ''YB'']"

definition measurementsPerSec :: "string list" where
  "measurementsPerSec = [''B/s'', ''KB/s'', ''MB/s'', ''GB/s'', ''TB/s'', ''PB/s'', ''EB/s'', ''ZB/s'', ''YB/s'']"

definition accumulatedMeasurementsInBits :: "string list" where
  "accumulatedMeasurementsInBits = [''b'', ''Kb'', ''Mb'', ''Gb'', ''Tb'', ''Pb'', ''Eb'', ''Zb'', ''Yb'']"

definition measurementsPerSecInBits :: "string list" where
  "measurementsPerSecInBits = [''b/s'', ''Kb/s'', ''Mb/s'', ''Gb/s'', ''Tb/s'', ''Pb/s'', ''Eb/s'', ''Zb/s'', ''Yb/s'']"

definition measurements_of :: "AutoScalePipeParams option \<Rightarrow> string list \<times> bool" where
  "measurements_of params =
     (case params of
        None \<Rightarrow> (accumulatedMeasurements, True)
      | Some p \<Rightarrow>
          if showPerSecond p
          then if useBits p then (measurementsPerSecInBits, False) else (measurementsPerSec, True)
          else if useBits p then (accumulatedMeasurementsInBits, False) else (accumulatedMeasurements, True))"

partial_function (option) scale_loop :: "(rat \<Rightarrow> rat) \<Rightarrow> nat \<Rightarrow> rat \<Rightarrow> (nat \<times> rat) option" where
  "scale_loop dv i v = (if dv v > 1 then scale_loop dv (i + 1) (dv v) else Some (i, v))"

text \<open>An index past the end of the array of the units gives \<open>undefined\<close>.\<close>

definition measurement_at :: "string list \<Rightarrow> nat \<Rightarrow> string" where
  "measurement_at ms i = (if i < length ms then ms ! i else ''undefined'')"

definition auto_scale :: "scale_numbers \<Rightarrow> rat \<Rightarrow> AutoScalePipeParams option \<Rightarrow> string option" where
  "auto_scale nums value params =
     (case measurements_of params of (measurements, useBytes) \<Rightarrow>
        case scale_loop (by1024 nums) 0 (if useBytes then value else value * 8) of
          None \<Rightarrow> None
        | Some (i, v) \<Rightarrow>
            let number = (if (case params of None \<Rightarrow> True | Some p \<Rightarrow> showValue p)
                          then (case params of Some p \<Rightarrow> if limitDecimals p then oneDecimal nums v else toFixed2 nums v | None \<Rightarrow> toFixed2 nums v)
                          else []);
                space = (if (case params of None \<Rightarrow> True | Some p \<Rightarrow> showValue p \<and> showUnit p) then '' '' else []);
                unit = (if (case params of None \<Rightarrow> True | Some p \<Rightarrow> showUnit p) then measurement_at measurements i else [])
            in Some (number @ space @ unit))"

section \<open>The loop ends\<close>

text \<open>The division of the library: within half a unit of the last of 20 decimals.\<close>

definition decimal_division :: "(rat \<Rightarrow> rat) \<Rightarrow> bool" where
  "decimal_division dv \<longleftrightarrow> (\<forall>x. \<bar>dv x - x / 1024\<bar> \<le> 1 / 10 ^ 20)"

lemma division_bounds:
  assumes "decimal_division dv"
  shows "dv v \<le> v / 1024 + 1 / 10 ^ 20" and "v / 1024 - 1 / 10 ^ 20 \<le> dv v"
proof -
  have "\<bar>dv v - v / 1024\<bar> \<le> 1 / 10 ^ 20" using assms by (simp only: decimal_division_def)
  then show "dv v \<le> v / 1024 + 1 / 10 ^ 20" and "v / 1024 - 1 / 10 ^ 20 \<le> dv v" by (simp_all only: abs_le_iff) linarith+
qed

lemma tiny: "(1 :: rat) / 10 ^ 20 \<le> 1 / 2" "(0 :: rat) \<le> 1 / 10 ^ 20"
  by (simp_all add: field_simps)

lemma division_shrinks:
  assumes "decimal_division dv" and "dv v > 1"
  shows "nat \<lceil>dv v\<rceil> < nat \<lceil>v\<rceil>" and "v > 100"
proof -
  have v: "v > 100" using division_bounds(1) [OF assms(1), of v] assms(2) tiny(1) by linarith
  have "dv v \<le> v - 1" using division_bounds(1) [OF assms(1), of v] v tiny(1) by linarith
  then have "\<lceil>dv v\<rceil> \<le> \<lceil>v\<rceil> - 1" by linarith
  moreover have "0 < \<lceil>v\<rceil>" using v by linarith
  ultimately show "nat \<lceil>dv v\<rceil> < nat \<lceil>v\<rceil>" by linarith
  show "v > 100" by (rule v)
qed

definition scale_error :: "nat \<Rightarrow> rat" where
  "scale_error k = 2 * (1024 ^ k - 1) / 10 ^ 20"

lemma scale_error_step: "1024 / 10 ^ 20 + 1024 * scale_error k \<le> scale_error (Suc k)"
  by (simp add: scale_error_def field_simps)

lemma scale_loop_result:
  assumes "decimal_division dv"
  shows "\<exists>k r. scale_loop dv i v = Some (i + k, r) \<and> dv r \<le> 1 \<and> (k = 0 \<longrightarrow> r = v) \<and> (k \<noteq> 0 \<longrightarrow> r > 1) \<and>
    \<bar>r * 1024 ^ k - v\<bar> \<le> scale_error k"
proof (induction "nat \<lceil>v\<rceil>" arbitrary: i v rule: less_induct)
  case less
  show ?case
  proof (cases "dv v > 1")
    case True
    from less [OF division_shrinks(1) [OF assms True], of "i + 1"] obtain k r where
      k: "scale_loop dv (i + 1) (dv v) = Some (i + 1 + k, r)" "dv r \<le> 1" "k = 0 \<longrightarrow> r = dv v" "k \<noteq> 0 \<longrightarrow> r > 1"
        "\<bar>r * 1024 ^ k - dv v\<bar> \<le> scale_error k"
      by blast
    have "\<bar>1024 * dv v - v\<bar> \<le> 1024 / 10 ^ 20" using division_bounds [OF assms, of v] by linarith
    then have "\<bar>1024 * (r * 1024 ^ k) - v\<bar> \<le> 1024 / 10 ^ 20 + 1024 * scale_error k" using k(5) by linarith
    then have "\<bar>r * 1024 ^ Suc k - v\<bar> \<le> scale_error (Suc k)" using scale_error_step [of k] by (simp add: algebra_simps)
    moreover have "scale_loop dv i v = Some (i + Suc k, r)" using True k(1) by (subst scale_loop.simps) simp
    moreover have "r > 1" using k(3,4) True by (cases "k = 0") simp_all
    ultimately show ?thesis using k(2) by (intro exI [of _ "Suc k"] exI [of _ r]) simp
  next
    case False
    then have "scale_loop dv i v = Some (i + 0, v)" by (subst scale_loop.simps) simp
    with False show ?thesis by (intro exI [of _ 0] exI [of _ v]) (simp add: scale_error_def)
  qed
qed

lemma scale_index_bound:
  assumes "r > 1" and "\<bar>r * 1024 ^ k - v\<bar> \<le> scale_error k" and "v \<le> 1000 * 1024 ^ 8"
  shows "k \<le> 8"
proof (rule ccontr)
  assume "\<not> k \<le> 8"
  then have "(1024 :: rat) ^ 9 \<le> 1024 ^ k" by (intro power_increasing) simp_all
  moreover have "(1024 :: rat) ^ k < v + scale_error k"
  proof -
    have "(1024 :: rat) ^ k < r * 1024 ^ k" using assms(1) by simp
    then show ?thesis using assms(2) by linarith
  qed
  moreover have "scale_error k * 50000000000000000000 \<le> 1024 ^ k" by (simp add: scale_error_def field_simps)
  ultimately show False using assms(3) by simp
qed

text \<open>The parts of the text for the number and the unit.\<close>

definition shown_amount :: "scale_numbers \<Rightarrow> AutoScalePipeParams option \<Rightarrow> nat \<Rightarrow> rat \<Rightarrow> string" where
  "shown_amount nums params k r =
     (let unit = measurement_at (fst (measurements_of params)) k
      in case params of
           None \<Rightarrow> toFixed2 nums r @ '' '' @ unit
         | Some p \<Rightarrow>
             (if showValue p then if limitDecimals p then oneDecimal nums r else toFixed2 nums r else []) @
             (if showValue p \<and> showUnit p then '' '' else []) @ (if showUnit p then unit else []))"

text \<open>
  Property C35. Showing an amount of data always ends, whatever the amount is, when the division is
  right up to 20 decimals. The number that is shown does not reach 1024 of its unit, apart from the last
  decimals, and is more than one of its unit unless the unit is the smallest; number and unit give
  the amount back up to an error of 2 in the 20th decimal of the number; amounts up to a thousand of the
  largest unit have a unit; and the text has exactly the parts that were asked for.
\<close>

theorem auto_scale_correct:
  fixes v :: rat
  assumes "decimal_division (by1024 nums)" and "v = (if snd (measurements_of params) then value else value * 8)"
  shows "\<exists>k r t. scale_loop (by1024 nums) 0 v = Some (k, r) \<and> auto_scale nums value params = Some t \<and>
    r \<le> 1024 * (1 + 1 / 10 ^ 20) \<and> (k \<noteq> 0 \<longrightarrow> r > 1) \<and>
    \<bar>r * 1024 ^ k - v\<bar> \<le> 2 * (1024 ^ k - 1) / 10 ^ 20 \<and>
    t = shown_amount nums params k r \<and>
    (v \<le> 1000 * 1024 ^ 8 \<longrightarrow> measurement_at (fst (measurements_of params)) k = fst (measurements_of params) ! k \<and> k \<le> 8)"
proof -
  from scale_loop_result [OF assms(1), of 0 v] obtain k r where
    k: "scale_loop (by1024 nums) 0 v = Some (k, r)" "by1024 nums r \<le> 1" "k = 0 \<longrightarrow> r = v" "k \<noteq> 0 \<longrightarrow> r > 1"
      "\<bar>r * 1024 ^ k - v\<bar> \<le> scale_error k"
    by auto
  have "r / 1024 \<le> 1 + 1 / 10 ^ 20" using division_bounds(2) [OF assms(1), of r] k(2) by linarith
  then have limit: "r \<le> 1024 * (1 + 1 / 10 ^ 20)" by (simp add: field_simps)
  have few: "k \<le> 8" if "v \<le> 1000 * 1024 ^ 8"
    using scale_index_bound [of r k v] k(4,5) that by (cases "k = 0") simp_all
  have nine: "length (fst (measurements_of params)) = 9"
    by (simp add: measurements_of_def accumulatedMeasurements_def measurementsPerSec_def accumulatedMeasurementsInBits_def
        measurementsPerSecInBits_def split: option.split)
  have unit: "v \<le> 1000 * 1024 ^ 8 \<longrightarrow> measurement_at (fst (measurements_of params)) k = fst (measurements_of params) ! k \<and> k \<le> 8"
  proof
    assume "v \<le> 1000 * 1024 ^ 8"
    from few [OF this] nine show "measurement_at (fst (measurements_of params)) k = fst (measurements_of params) ! k \<and> k \<le> 8"
      by (simp add: measurement_at_def)
  qed
  have t: "auto_scale nums value params = Some (shown_amount nums params k r)"
    using k(1) assms(2) by (cases "measurements_of params") (auto simp: auto_scale_def shown_amount_def Let_def split: option.splits)
  show ?thesis
    by (intro exI [of _ k] exI [of _ r] exI [of _ "shown_amount nums params k r"] conjI refl k(1) t limit k(4) unit) (use k(5) in \<open>simp add: scale_error_def\<close>)
qed

text \<open>More than a thousand of the largest unit may be shown without a unit.\<close>

theorem too_large_has_no_unit:
  assumes "by1024 nums = (\<lambda>x. x / 1024)"
  shows "auto_scale nums (2 * 1024 ^ 9) (Some \<lparr>showValue = False, showUnit = True, showPerSecond = False, limitDecimals = False, useBits = False\<rparr>)
    = Some ''undefined''"
proof -
  have step: "scale_loop (\<lambda>x. x / 1024) i v = (if v > 1024 then scale_loop (\<lambda>x. x / 1024) (Suc i) (v / 1024) else Some (i, v))" for i v
    by (subst scale_loop.simps) (simp add: field_simps)
  have "scale_loop (\<lambda>x. x / 1024) 0 (2 * 1024 ^ 9) = Some (9, 2)"
    by (simp add: step)
  then show ?thesis by (simp add: auto_scale_def assms measurements_of_def measurement_at_def accumulatedMeasurements_def)
qed

section \<open>Examples\<close>

definition exact_numbers :: scale_numbers where
  "exact_numbers = \<lparr>by1024 = (\<lambda>x. x / 1024), toFixed2 = (\<lambda>x. int_to_string \<lfloor>x\<rfloor> @ ''.00''), oneDecimal = (\<lambda>x. int_to_string \<lfloor>x\<rfloor>)\<rparr>"

theorem auto_scale_correct_witness:
  "\<exists>k r t. scale_loop (by1024 exact_numbers) 0 3000000 = Some (k, r) \<and> auto_scale exact_numbers 3000000 None = Some t \<and> k \<le> 8"
proof -
  have "decimal_division (by1024 exact_numbers)" by (simp add: decimal_division_def exact_numbers_def)
  from auto_scale_correct [OF this, of 3000000 None 3000000] show ?thesis
    by (auto simp: measurements_of_def)
qed

end
