(* ===== verification/Node_Actions.thy ===== *)
theory Node_Actions
  imports List_Operations Node_Data General_Utils
begin

text \<open>
  \<open>src/app/components/pages/node/actions/node-actions-helper.ts\<close>: the options of the menu of a visor,
  and what selecting one does. The protocol and the host of the page are parameters.
\<close>

section \<open>The menu\<close>

record MenuOptionData =
  mo_name :: string
  mo_icon :: string
  actionName :: string

record node_actions_helper =
  ah_showingFullList :: bool
  ah_currentNode :: "Node option"
  ah_currentNodeKey :: "string option"
  canBeUpdated :: bool
  canOpenTerminal :: bool
  menu_options :: "MenuOptionData list"
  returnButtonText :: string

definition updateOptions :: "node_actions_helper \<Rightarrow> node_actions_helper" where
  "updateOptions h =
     h\<lparr>menu_options :=
        (if canOpenTerminal h
         then [\<lparr>mo_name = ''actions.menu.terminal'', mo_icon = ''laptop'', actionName = ''terminal''\<rparr>] else []) @
        [\<lparr>mo_name = ''actions.menu.logs'', mo_icon = ''subject'', actionName = ''logs''\<rparr>,
         \<lparr>mo_name = ''actions.menu.turn-off'', mo_icon = ''power_settings_new'', actionName = ''shutdown''\<rparr>]\<rparr>"

definition new_node_actions_helper :: "bool \<Rightarrow> node_actions_helper" where
  "new_node_actions_helper full =
     updateOptions
       \<lparr>ah_showingFullList = full, ah_currentNode = None, ah_currentNodeKey = None, canBeUpdated = False,
        canOpenTerminal = False, menu_options = [],
        returnButtonText = (if \<not> full then ''nodes.title'' else ''node.title'')\<rparr>"

definition setCurrentNode :: "Node \<Rightarrow> node_actions_helper \<Rightarrow> node_actions_helper" where
  "setCurrentNode n h =
     updateOptions (h\<lparr>ah_currentNode := Some n, canBeUpdated := checkIfTagIsUpdatable (buildTag n),
       canOpenTerminal := checkIfTagCanOpenterminal (buildTag n)\<rparr>)"

definition setCurrentNodeKey :: "string option \<Rightarrow> node_actions_helper \<Rightarrow> node_actions_helper" where
  "setCurrentNodeKey k h = h\<lparr>ah_currentNodeKey := k\<rparr>"

text \<open>What a page holds: the node and the key it was given, and options that fit the node.\<close>

definition helper_for :: "bool \<Rightarrow> string option \<Rightarrow> Node option \<Rightarrow> node_actions_helper" where
  "helper_for full k n =
     (let h = setCurrentNodeKey k (new_node_actions_helper full)
      in case n of Some v \<Rightarrow> setCurrentNode v h | None \<Rightarrow> h)"

lemma setCurrentNode_helper: "setCurrentNode v (helper_for full k n) = helper_for full k (Some v)"
  by (simp add: helper_for_def setCurrentNode_def setCurrentNodeKey_def new_node_actions_helper_def updateOptions_def
      split: option.split)

lemma setCurrentNodeKey_helper: "setCurrentNodeKey k' (helper_for full k n) = helper_for full k' n"
  by (simp add: helper_for_def setCurrentNode_def setCurrentNodeKey_def new_node_actions_helper_def updateOptions_def
      split: option.split)

section \<open>The actions\<close>

text \<open>\<open>host.replace(a, b)\<close> replaces the first occurrence.\<close>

fun replace_first :: "string \<Rightarrow> string \<Rightarrow> string \<Rightarrow> string" where
  "replace_first a b [] = (if a = [] then b else [])"
| "replace_first a b (c # s) =
     (if starts_with (c # s) a then b @ drop (length a) (c # s) else c # replace_first a b s)"

datatype action_request =
    OpenWindow string
  | OpenLogs
  | AskConfirmation string
  | NavigateTo "string option list"
  | MessageDone string
  | ShutdownRequest "string option"
  | ActionError js_error

definition key_text :: "string option \<Rightarrow> string" where
  "key_text k = (case k of Some s \<Rightarrow> s | None \<Rightarrow> ''undefined'')"

definition pty_url :: "string \<Rightarrow> string \<Rightarrow> string option \<Rightarrow> string" where
  "pty_url protocol host k =
     protocol @ ''//'' @ replace_first ''localhost:4200'' ''127.0.0.1:8000'' host @ ''/pty/'' @ key_text k"

definition go_back :: "node_actions_helper \<Rightarrow> action_request" where
  "go_back h =
     (if \<not> ah_showingFullList h then NavigateTo [Some ''nodes''] else NavigateTo [Some ''nodes'', ah_currentNodeKey h])"

text \<open>\<open>performAction\<close>; the missing name is the back button.\<close>

definition performNodeAction :: "string \<Rightarrow> string \<Rightarrow> string option \<Rightarrow> node_actions_helper \<Rightarrow> action_request list" where
  "performNodeAction protocol host name h =
     (case name of
        None \<Rightarrow> [go_back h]
      | Some a \<Rightarrow>
          if a = ''terminal'' then [OpenWindow (pty_url protocol host (ah_currentNodeKey h))]
          else if a = ''update'' then [AskConfirmation ''actions.update.confirmation'']
          else if a = ''logs'' then [OpenLogs]
          else if a = ''shutdown'' then [AskConfirmation ''actions.turn-off.confirmation'']
          else [])"

definition update_accepted :: "string \<Rightarrow> string \<Rightarrow> node_actions_helper \<Rightarrow> confirmation \<Rightarrow> confirmation \<times> action_request list" where
  "update_accepted protocol host h c =
     (closeModal c, [OpenWindow (pty_url protocol host (ah_currentNodeKey h) @ ''?commands=update'')])"

definition shutdown_accepted :: "node_actions_helper \<Rightarrow> confirmation \<Rightarrow> confirmation \<times> action_request list" where
  "shutdown_accepted h c = (showProcessing c, [ShutdownRequest (ah_currentNodeKey h)])"

definition shutdown_answered :: "jsval option \<Rightarrow> confirmation \<Rightarrow> confirmation \<times> action_request list" where
  "shutdown_answered answer c =
     (case answer of
        None \<Rightarrow> (closeModal c, [MessageDone ''actions.turn-off.done'', NavigateTo [Some ''nodes'']])
      | Some err \<Rightarrow>
          (case processServiceError err of
             Inr e \<Rightarrow> (showDone ''confirmation.error-header-text'' (val_prop e ''translatableErrorMsg'') c, [])
           | Inl x \<Rightarrow> (c, [ActionError x])))"

section \<open>Properties\<close>

text \<open>
  The menu of a visor offers only actions that do something, it always offers the logs and the
  shutdown, and it offers the terminal exactly when the visor is known and its build allows one.
\<close>

theorem menu_correct:
  "(\<forall>a \<in> actionName ` set (menu_options (helper_for full k n)).
      performNodeAction protocol host (Some a) (helper_for full k n) \<noteq> []) \<and>
   {''logs'', ''shutdown''} \<subseteq> actionName ` set (menu_options (helper_for full k n)) \<and>
   (''terminal'' \<in> actionName ` set (menu_options (helper_for full k n)) \<longleftrightarrow>
      (\<exists>v. n = Some v \<and> checkIfTagCanOpenterminal (buildTag v))) \<and>
   distinct (map actionName (menu_options (helper_for full k n)))"
  by (cases n) (simp_all add: helper_for_def setCurrentNode_def setCurrentNodeKey_def new_node_actions_helper_def
      updateOptions_def performNodeAction_def)

text \<open>
  Shutting a visor down: the request is for the visor of the page and is only made after the user has
  confirmed; while it runs the dialog can not be left; its end closes the dialog or shows the error in
  it, with which the user can close it.
\<close>

theorem shutdown_correct:
  assumes "reachable_dialog c" and "conf_state c = Asking"
  shows "performNodeAction protocol host (Some ''shutdown'') h = [AskConfirmation ''actions.turn-off.confirmation''] \<and>
    snd (shutdown_accepted h c) = [ShutdownRequest (ah_currentNodeKey h)] \<and>
    (\<forall>c'. user_step (fst (shutdown_accepted h c)) c' \<longrightarrow> c' = fst (shutdown_accepted h c)) \<and>
    (let r = shutdown_answered answer (fst (shutdown_accepted h c))
     in (\<exists>x. snd r = [ActionError x]) \<or> conf_closed (closePopup (fst r)))"
proof -
  have r: "reachable_dialog (showProcessing c)"
    by (rule reachable_dialog.code [OF assms(1) code_step.intros(1) [OF assms(2)]])
  have p: "conf_state (showProcessing c) = Processing" by (simp add: showProcessing_def)
  have "locked (showProcessing c)" using processing_locked [OF r] p by simp
  moreover have "conf_closed (closePopup (closeModal d))" "conf_closed (closePopup (showDone title t d))" for d title t
    by (simp_all add: dialog_defs)
  ultimately show ?thesis
    using locked_user
    by (auto simp: performNodeAction_def shutdown_accepted_def shutdown_answered_def split: option.split sum.split)
qed

theorem shutdown_correct_witness:
  "snd (shutdown_accepted (helper_for False (Some ''02ab'') None) (new_confirmation ''h'' False True)) = [ShutdownRequest (Some ''02ab'')]"
  using shutdown_correct [OF reachable_dialog.opened, of "''h''" False True "''http:''" "''h''" "helper_for False (Some ''02ab'') None" None]
  by (simp add: helper_for_def setCurrentNodeKey_def new_node_actions_helper_def updateOptions_def new_confirmation_def)

end
