(* ===== verification/Node_Page.thy ===== *)
theory Node_Page
  imports Node_Actions Ui_Base
begin

text \<open>
  \<open>src/app/components/pages/node/node.component.ts\<close>: the page of a visor. It follows the data of the
  visor and publishes it for its subpages through static members of the class, so those members, the
  state of the browser history, the message bar, the box about data problems and the service are a
  world that several instances of the page share. The saved answer of the page is a typed value.
\<close>

section \<open>The state\<close>

record TabButtonData =
  linkParts :: "string list option"
  tab_icon :: string
  tab_label :: string
  onlyIfLessThanLg :: bool

record node_world =
  currentInstance :: "nat option"
  currentNodeKey :: "string option"
  nodeSubject :: "Node list option"
  trafficDataSubject :: "TrafficData list option"
  nw_saved :: "SingleNodeBackendData option option"
  nw_snackbar :: snackbar_service
  showingDataProblemMsg :: bool
  nw_service :: node_data_service

datatype node_source = SavedNodeData | ServiceNodeData

record node_page =
  np_id :: nat
  np_node :: "Node option"
  np_trafficData :: "TrafficData option"
  np_notFound :: bool
  titleParts :: "string list"
  tabsData :: "TabButtonData list"
  selectedTabIndex :: int
  showingInfo :: bool
  showingFullList :: bool
  np_lastUrl :: "string option"
  initialRouteEventFired :: bool
  np_dataSubscription :: "node_source option"
  np_listening :: bool
  waitingForRoute :: bool
  np_secondsSinceLastUpdate :: "int option"
  np_lastUpdate :: "int option"
  np_updating :: bool
  np_errorsUpdating :: bool
  np_requestedManually :: bool
  nodeActionsHelper :: "node_actions_helper option"

text \<open>The constructor replaces the static members by those of the new instance.\<close>

definition node_page_created :: "nat \<Rightarrow> int \<Rightarrow> node_world \<Rightarrow> node_page \<times> node_world" where
  "node_page_created i now w =
     (\<lparr>np_id = i, np_node = None, np_trafficData = None, np_notFound = False, titleParts = [], tabsData = [],
       selectedTabIndex = -1, showingInfo = False, showingFullList = False, np_lastUrl = None,
       initialRouteEventFired = False, np_dataSubscription = None, np_listening = False, waitingForRoute = True,
       np_secondsSinceLastUpdate = Some 0, np_lastUpdate = Some now, np_updating = False, np_errorsUpdating = False,
       np_requestedManually = False, nodeActionsHelper = None\<rparr>,
      w\<lparr>nodeSubject := Some [], trafficDataSubject := Some [], currentInstance := Some i\<rparr>)"

subsection \<open>The tabs\<close>

definition tab :: "string \<Rightarrow> string \<Rightarrow> bool \<Rightarrow> string list option \<Rightarrow> TabButtonData" where
  "tab icon lbl small link = \<lparr>linkParts = link, tab_icon = icon, tab_label = lbl, onlyIfLessThanLg = small\<rparr>"

definition url_has :: "string option \<Rightarrow> string \<Rightarrow> bool" where
  "url_has u p = (case u of Some s \<Rightarrow> str_includes s p | None \<Rightarrow> False)"

definition updateTabBar :: "string option \<Rightarrow> node_page \<Rightarrow> node_page" where
  "updateTabBar key p =
     (let has = url_has (np_lastUrl p);
          link = (\<lambda>part. case key of Some k \<Rightarrow> if k \<noteq> [] then Some [''/nodes'', k, part] else None | None \<Rightarrow> None)
      in if has ''/info'' \<or> has ''/routing'' \<or> (has ''/apps'' \<and> \<not> has ''/apps-list'') then
           p\<lparr>titleParts := [''nodes.title'', ''node.title''],
             tabsData := [tab ''info'' ''node.tabs.info'' True (link ''info''),
                          tab ''shuffle'' ''node.tabs.routing'' False (link ''routing''),
                          tab ''apps'' ''node.tabs.apps'' False (link ''apps'')],
             selectedTabIndex := (if has ''/apps'' then 2 else if has ''/info'' then 0 else 1),
             showingInfo := has ''/info'', showingFullList := False,
             nodeActionsHelper := Some (helper_for False key (np_node p))\<rparr>
         else if has ''/transports'' \<or> has ''/routes'' \<or> has ''/apps-list'' then
           let prefix = (if has ''/routes'' then ''routes'' else if has ''/apps-list'' then ''apps.apps-list'' else ''transports'')
           in p\<lparr>showingFullList := True, showingInfo := False,
                nodeActionsHelper := Some (helper_for True key (np_node p)),
                titleParts := [''nodes.title'', ''node.title'', prefix @ ''.title''],
                tabsData := [tab ''view_headline'' (prefix @ ''.list-title'') False (Some [])],
                selectedTabIndex := 0\<rparr>
         else p\<lparr>titleParts := [], tabsData := []\<rparr>)"

subsection \<open>The data\<close>

definition result_error :: "SingleNodeBackendData \<Rightarrow> jsval option" where
  "result_error r = (case sd_error r of Some e \<Rightarrow> if val_truthy e then Some e else None | None \<Rightarrow> None)"

definition node_seconds :: "int \<Rightarrow> int option \<Rightarrow> int option" where
  "node_seconds now moment = map_option (\<lambda>m. (now - m) div 1000) moment"

text \<open>The branch for correct data. The subjects are gone when no page is open.\<close>

definition node_data_shown :: "int \<Rightarrow> Node \<Rightarrow> SingleNodeBackendData \<Rightarrow> node_page \<Rightarrow> node_world \<Rightarrow> (node_page \<times> node_world) js_result" where
  "node_data_shown now n r p w =
     (case (nodeSubject w, trafficDataSubject w) of
        (Some ns, Some ts) \<Rightarrow>
          Inr (p\<lparr>np_node := Some n, np_trafficData := Some (trafficData r),
                 nodeActionsHelper := map_option (setCurrentNode n) (nodeActionsHelper p),
                 np_lastUpdate := momentOfLastCorrectUpdate r,
                 np_secondsSinceLastUpdate := node_seconds now (momentOfLastCorrectUpdate r),
                 np_errorsUpdating := False, np_requestedManually := False\<rparr>,
               w\<lparr>nodeSubject := Some (ns @ [n]), trafficDataSubject := Some (ts @ [trafficData r]),
                 showingDataProblemMsg := False,
                 nw_snackbar := (let s = closeCurrentIfTemporaryError (nw_snackbar w) in
                   if np_requestedManually p then snackbar_showDone ''common.refreshed'' VNull s else s)\<rparr>)
      | _ \<Rightarrow> Inl TypeError)"

definition node_error_shown :: "jsval \<Rightarrow> node_page \<Rightarrow> node_world \<Rightarrow> (node_page \<times> node_world) js_result" where
  "node_error_shown e p w =
     bindR (if \<not> np_errorsUpdating p
            then snackbar_showError (VStr (if np_node p = None then ''common.loading-error'' else ''node.error-load''))
                   VNull True e VNull (nw_snackbar w)
            else Inr (nw_snackbar w)) (\<lambda>s.
       Inr (p\<lparr>np_errorsUpdating := True\<rparr>, w\<lparr>nw_snackbar := s, showingDataProblemMsg := True\<rparr>))"

text \<open>
  The handler; the first component of the result says whether it returned early, which skips the
  repetition after saved data. The status 400 means that there is no such visor.
\<close>

definition node_received ::
  "int \<Rightarrow> SingleNodeBackendData option \<Rightarrow> node_page \<Rightarrow> node_world \<Rightarrow> (bool \<times> node_page \<times> node_world) js_result" where
  "node_received now result p w =
     (case result of
        None \<Rightarrow> Inr (False, p\<lparr>np_updating := True\<rparr>, w)
      | Some r \<Rightarrow>
          let p1 = p\<lparr>np_updating := updating r\<rparr> in
          if updating r then Inr (False, p1, w)
          else case (sd_data r, result_error r) of
                 (Some n, None) \<Rightarrow> bindR (node_data_shown now n r p1 w) (\<lambda>q. Inr (False, q))
               | (_, Some e) \<Rightarrow>
                   if visor_not_found e then Inr (True, p1\<lparr>np_notFound := True\<rparr>, w)
                   else bindR (node_error_shown e p1 w) (\<lambda>q. Inr (False, q))
               | (None, None) \<Rightarrow> Inr (False, p1, w))"

text \<open>An answer of the service is saved first; this is done for whatever page is in the history.\<close>

definition service_answered ::
  "int \<Rightarrow> SingleNodeBackendData option \<Rightarrow> node_page \<Rightarrow> node_world \<Rightarrow> (node_page \<times> node_world) js_result" where
  "service_answered now result p w =
     bindR (node_received now result p (w\<lparr>nw_saved := Some result\<rparr>)) (\<lambda>q. Inr (snd q))"

text \<open>
  \<open>startGettingData\<close>. The service starts to work for the visor in any case. With a saved answer the
  handler runs inside the call of \<open>subscribe\<close>, and the subscription it makes is then replaced by the
  one of the saved answer, which has ended.
\<close>

definition subscribe_node :: "node_page \<Rightarrow> node_world \<Rightarrow> node_page \<times> node_world" where
  "subscribe_node p w =
     (p\<lparr>np_listening := True, np_dataSubscription := Some ServiceNodeData\<rparr>,
      w\<lparr>nw_service := startRequestingData (key_text (currentNodeKey w)) (nw_service w)\<rparr>)"

definition start_getting_node :: "int \<Rightarrow> node_page \<Rightarrow> node_world \<Rightarrow> (node_page \<times> node_world) js_result" where
  "start_getting_node now p w =
     (case nw_saved w of
        None \<Rightarrow> Inr (subscribe_node p w)
      | Some result \<Rightarrow>
          let w1 = w\<lparr>nw_service := startRequestingData (key_text (currentNodeKey w)) (nw_service w)\<rparr> in
          bindR (node_received now result p w1) (\<lambda>(returned, p1, w2).
            let q = (if returned then (p1, w2) else subscribe_node p1 w2)
            in Inr ((fst q)\<lparr>np_dataSubscription := Some SavedNodeData\<rparr>, snd q)))"

definition processRouteUpdate :: "string option \<Rightarrow> int \<Rightarrow> node_page \<Rightarrow> node_world \<Rightarrow> (node_page \<times> node_world) js_result" where
  "processRouteUpdate key now p w =
     (let w1 = w\<lparr>currentNodeKey := key\<rparr>;
          p1 = p\<lparr>nodeActionsHelper := map_option (setCurrentNodeKey key) (nodeActionsHelper p)\<rparr>
      in start_getting_node now ((updateTabBar key p1)\<lparr>waitingForRoute := False\<rparr>) w1)"

text \<open>The end of a navigation, and the wait of half a second in case there was none.\<close>

definition route_event :: "string \<Rightarrow> string option \<Rightarrow> int \<Rightarrow> node_page \<Rightarrow> node_world \<Rightarrow> (node_page \<times> node_world) js_result" where
  "route_event url key now p w =
     (if \<not> waitingForRoute p then Inr (p, w)
      else bindR (processRouteUpdate key now (p\<lparr>np_lastUrl := Some url\<rparr>) w) (\<lambda>q.
             Inr ((fst q)\<lparr>initialRouteEventFired := True\<rparr>, snd q)))"

definition initial_wait_over :: "string \<Rightarrow> string option \<Rightarrow> int \<Rightarrow> node_page \<Rightarrow> node_world \<Rightarrow> (node_page \<times> node_world) js_result" where
  "initial_wait_over href key now p w =
     (if \<not> initialRouteEventFired p then processRouteUpdate key now (p\<lparr>np_lastUrl := Some href\<rparr>) w else Inr (p, w))"

definition time_passed :: "int \<Rightarrow> node_page \<Rightarrow> node_page" where
  "time_passed now p = p\<lparr>np_secondsSinceLastUpdate := node_seconds now (np_lastUpdate p)\<rparr>"

definition forceNodeRefresh :: "bool \<Rightarrow> node_page \<Rightarrow> node_world \<Rightarrow> node_page \<times> node_world" where
  "forceNodeRefresh requestedManually p w =
     (if requestedManually then p\<lparr>np_requestedManually := True\<rparr> else p,
      w\<lparr>nw_service := forceSpecificNodeRefresh (key_text (currentNodeKey w)) (nw_service w)\<rparr>)"

text \<open>\<open>ngOnDestroy\<close> fails when the page has no subscription or no helper yet.\<close>

definition node_page_destroyed :: "int \<Rightarrow> node_page \<Rightarrow> node_world \<Rightarrow> (node_page \<times> node_world) js_result" where
  "node_page_destroyed now p w =
     (let w1 = w\<lparr>nw_service := stopRequestingSpecificNode now (key_text (currentNodeKey w)) (nw_service w),
                 currentInstance := None, currentNodeKey := None, nodeSubject := None, trafficDataSubject := None\<rparr>
      in case (np_dataSubscription p, nodeActionsHelper p) of
           (Some s, Some h) \<Rightarrow>
             Inr (p\<lparr>np_listening := (np_listening p \<and> s \<noteq> ServiceNodeData), waitingForRoute := False\<rparr>, w1)
         | _ \<Rightarrow> Inl TypeError)"

section \<open>The life of a page\<close>

text \<open>While the page is open: the events of the router, the answers of the service, the clock and the user;
  the messages and the work of the service are free. The wait is only over while the page waits.\<close>

inductive node_step :: "node_page \<times> node_world \<Rightarrow> node_page \<times> node_world \<Rightarrow> bool" where
  route: "route_event url key now p w = Inr q \<Longrightarrow> node_step (p, w) q"
| wait: "waitingForRoute p \<Longrightarrow> initial_wait_over href key now p w = Inr q \<Longrightarrow> node_step (p, w) q"
| answer: "np_listening p \<Longrightarrow> service_answered now result p w = Inr q \<Longrightarrow> node_step (p, w) q"
| time: "node_step (p, w) (time_passed now p, w)"
| refresh: "node_step (p, w) (forceNodeRefresh m p w)"
| messages: "node_step (p, w) (p, w\<lparr>nw_snackbar := s\<rparr>)"
| service: "nd_step fd (nw_service w) s \<Longrightarrow> node_step (p, w) (p, w\<lparr>nw_service := s\<rparr>)"

definition published :: "node_page \<Rightarrow> node_world \<Rightarrow> bool" where
  "published p w \<longleftrightarrow>
     (\<exists>ns ts. nodeSubject w = Some ns \<and> trafficDataSubject w = Some ts \<and> length ns = length ts \<and>
        np_node p = (if ns = [] then None else Some (last ns)) \<and>
        np_trafficData p = (if ts = [] then None else Some (last ts)))"

definition tabs_ok :: "node_page \<Rightarrow> bool" where
  "tabs_ok p \<longleftrightarrow> (tabsData p \<noteq> [] \<longrightarrow>
     0 \<le> selectedTabIndex p \<and> selectedTabIndex p < int (length (tabsData p)) \<and> nodeActionsHelper p \<noteq> None)"

definition node_page_ok :: "node_page \<Rightarrow> node_world \<Rightarrow> bool" where
  "node_page_ok p w \<longleftrightarrow> published p w \<and> tabs_ok p \<and>
     (\<forall>h. nodeActionsHelper p = Some h \<longrightarrow> h = helper_for (showingFullList p) (currentNodeKey w) (np_node p)) \<and>
     (np_errorsUpdating p \<longrightarrow> showingDataProblemMsg w) \<and>
     (waitingForRoute p \<longrightarrow> nodeActionsHelper p = None \<and> tabsData p = []) \<and>
     (waitingForRoute p \<longrightarrow> np_dataSubscription p = None \<and> \<not> np_listening p)"

lemma node_data_shown_page:
  assumes "node_page_ok p w"
  shows "\<exists>p' w'. node_data_shown now n r p w = Inr (p', w') \<and> node_page_ok p' w' \<and> np_node p' = Some n \<and>
    \<not> np_errorsUpdating p' \<and> \<not> showingDataProblemMsg w'"
proof -
  obtain ns ts where s: "nodeSubject w = Some ns" "trafficDataSubject w = Some ts" "length ns = length ts"
    using assms by (auto simp: node_page_ok_def published_def)
  have "tabs_ok p" "\<And>h. nodeActionsHelper p = Some h \<Longrightarrow> h = helper_for (showingFullList p) (currentNodeKey w) (np_node p)"
    "waitingForRoute p \<longrightarrow> nodeActionsHelper p = None \<and> tabsData p = []"
    "waitingForRoute p \<longrightarrow> np_dataSubscription p = None \<and> \<not> np_listening p"
    using assms by (simp_all add: node_page_ok_def)
  then show ?thesis
    by (cases "nodeActionsHelper p")
      (simp_all add: node_data_shown_def s node_page_ok_def published_def tabs_ok_def setCurrentNode_helper)
qed

lemma node_error_shown_page:
  assumes "node_error_shown e p w = Inr (p', w')" and "node_page_ok p w"
  shows "node_page_ok p' w' \<and> np_errorsUpdating p' \<and> showingDataProblemMsg w' \<and> np_node p' = np_node p"
proof -
  obtain s where s: "p' = p\<lparr>np_errorsUpdating := True\<rparr>" "w' = w\<lparr>nw_snackbar := s, showingDataProblemMsg := True\<rparr>"
    using assms(1) [unfolded node_error_shown_def bindR_Inr_iff] by (elim exE conjE) (auto simp only: sum.inject prod.inject)
  show ?thesis using assms(2) by (simp add: s node_page_ok_def published_def tabs_ok_def)
qed

lemma node_page_ok_fields:
  "node_page_ok (p\<lparr>np_updating := b\<rparr>) w = node_page_ok p w" "node_page_ok (p\<lparr>np_notFound := b\<rparr>) w = node_page_ok p w"
  "node_page_ok p (w\<lparr>nw_saved := v\<rparr>) = node_page_ok p w" "node_page_ok p (w\<lparr>nw_service := sv\<rparr>) = node_page_ok p w"
  "node_page_ok p (w\<lparr>nw_snackbar := sn\<rparr>) = node_page_ok p w" "node_page_ok (p\<lparr>np_requestedManually := b\<rparr>) w = node_page_ok p w"
  "node_page_ok (p\<lparr>np_lastUrl := u\<rparr>) w = node_page_ok p w" "node_page_ok (p\<lparr>initialRouteEventFired := b\<rparr>) w = node_page_ok p w"
  "node_page_ok (p\<lparr>np_secondsSinceLastUpdate := i\<rparr>) w = node_page_ok p w"
  by (simp_all add: node_page_ok_def published_def tabs_ok_def)

lemma node_received_page:
  assumes "node_received now result p w = Inr (b, p', w')" and "node_page_ok p w"
  shows "node_page_ok p' w'"
proof (cases result)
  case None
  then show ?thesis using assms by (auto simp: node_received_def node_page_ok_fields)
next
  case (Some r)
  let ?p = "p\<lparr>np_updating := updating r\<rparr>"
  have ok: "node_page_ok ?p w" using assms(2) by (simp add: node_page_ok_fields)
  show ?thesis
  proof (cases "updating r")
    case True
    then show ?thesis using assms(1) ok by (simp add: Some node_received_def)
  next
    case upd: False
    show ?thesis
    proof (cases "result_error r")
      case err: None
      show ?thesis
      proof (cases "sd_data r")
        case None
        then show ?thesis using assms(1) ok upd err by (simp add: Some node_received_def)
      next
        case data: (Some n)
        then show ?thesis
          using assms(1) upd err node_data_shown_page [OF ok, of now n r] by (auto simp: Some node_received_def)
      qed
    next
      case err: (Some e)
      show ?thesis
      proof (cases "visor_not_found e")
        case True
        then show ?thesis using assms(1) ok upd err by (auto simp: Some node_received_def node_page_ok_fields split: option.splits)
      next
        case False
        then have "bindR (node_error_shown e ?p w) (\<lambda>q. Inr (False, q)) = Inr (b, p', w')"
          using assms(1) upd err by (simp add: Some node_received_def split: option.splits)
        then show ?thesis using node_error_shown_page [OF _ ok] by (auto simp: bindR_Inr_iff)
      qed
    qed
  qed
qed

lemma node_received_other:
  assumes "node_received now result p w = Inr (b, p', w')"
  shows "waitingForRoute p' = waitingForRoute p \<and> np_dataSubscription p' = np_dataSubscription p \<and>
    np_listening p' = np_listening p \<and> currentInstance w' = currentInstance w \<and> currentNodeKey w' = currentNodeKey w"
  using assms
  by (auto simp: node_received_def node_data_shown_def node_error_shown_def bindR_Inr_iff split: if_splits option.splits)

lemma subscribe_node_page:
  "node_page_ok p w \<Longrightarrow> \<not> waitingForRoute p \<Longrightarrow> node_page_ok (fst (subscribe_node p w)) (snd (subscribe_node p w))"
  by (simp add: subscribe_node_def node_page_ok_def published_def tabs_ok_def)

text \<open>A page that has processed its navigation has a subscription.\<close>

definition node_page_live :: "nat \<Rightarrow> node_page \<times> node_world \<Rightarrow> bool" where
  "node_page_live i q \<longleftrightarrow> node_page_ok (fst q) (snd q) \<and> (waitingForRoute (fst q) \<or> np_dataSubscription (fst q) \<noteq> None) \<and>
     currentInstance (snd q) = Some i"

lemma start_getting_page:
  assumes "start_getting_node now p w = Inr q" and "node_page_ok p w" and "\<not> waitingForRoute p"
  shows "node_page_ok (fst q) (snd q) \<and> np_dataSubscription (fst q) \<noteq> None \<and> currentInstance (snd q) = currentInstance w"
proof (cases "nw_saved w")
  case None
  then have q: "q = subscribe_node p w" using assms(1) by (simp add: start_getting_node_def)
  show ?thesis using subscribe_node_page [OF assms(2,3)] unfolding q by (simp add: subscribe_node_def)
next
  case (Some result)
  let ?w = "w\<lparr>nw_service := startRequestingData (key_text (currentNodeKey w)) (nw_service w)\<rparr>"
  have w: "node_page_ok p ?w" using assms(2) by (simp add: node_page_ok_fields)
  from assms(1) Some obtain b p1 w2 where r: "node_received now result p ?w = Inr (b, p1, w2)"
    and q: "q = (let q = (if b then (p1, w2) else subscribe_node p1 w2) in ((fst q)\<lparr>np_dataSubscription := Some SavedNodeData\<rparr>, snd q))"
    by (auto simp: start_getting_node_def bindR_Inr_iff)
  have ok: "node_page_ok p1 w2" by (rule node_received_page [OF r w])
  have other: "\<not> waitingForRoute p1" "currentInstance w2 = currentInstance w"
    using node_received_other [OF r] assms(3) by simp_all
  have sub: "node_page_ok (p1'\<lparr>np_dataSubscription := Some SavedNodeData\<rparr>) w'"
    if "node_page_ok p1' w'" "\<not> waitingForRoute p1'" for p1' w'
    using that by (simp add: node_page_ok_def published_def tabs_ok_def)
  show ?thesis
  proof (cases b)
    case True
    then show ?thesis using sub [OF ok other(1)] other(2) by (simp add: q)
  next
    case False
    have "\<not> waitingForRoute (fst (subscribe_node p1 w2))" using other(1) by (simp add: subscribe_node_def)
    from sub [OF subscribe_node_page [OF ok other(1)] this] False other(2) show ?thesis by (simp add: q) (simp add: subscribe_node_def)
  qed
qed

lemma updateTabBar_page:
  assumes "node_page_ok p w" and "waitingForRoute p"
    and "nodeSubject w' = nodeSubject w" "trafficDataSubject w' = trafficDataSubject w"
      "showingDataProblemMsg w' = showingDataProblemMsg w"
  shows "node_page_ok ((updateTabBar (currentNodeKey w') p)\<lparr>waitingForRoute := False\<rparr>) w'"
  using assms
  by (simp add: updateTabBar_def node_page_ok_def published_def tabs_ok_def)

lemma processRouteUpdate_page:
  assumes "processRouteUpdate key now p w = Inr q" and "node_page_ok p w" and "waitingForRoute p"
  shows "node_page_ok (fst q) (snd q) \<and> np_dataSubscription (fst q) \<noteq> None \<and> currentInstance (snd q) = currentInstance w"
proof -
  let ?w = "w\<lparr>currentNodeKey := key\<rparr>"
  let ?p = "(updateTabBar (currentNodeKey ?w) p)\<lparr>waitingForRoute := False\<rparr>"
  have "nodeActionsHelper p = None" using assms(2,3) by (simp add: node_page_ok_def)
  then have "p\<lparr>nodeActionsHelper := map_option (setCurrentNodeKey key) (nodeActionsHelper p)\<rparr> = p" by simp
  with assms(1) have run: "start_getting_node now ?p ?w = Inr q" by (simp add: processRouteUpdate_def)
  have ok: "node_page_ok ?p ?w" using updateTabBar_page [OF assms(2,3), of ?w] by simp
  from start_getting_page [OF run ok] show ?thesis by simp
qed

lemma node_step_live: "node_step q q' \<Longrightarrow> node_page_live i q \<Longrightarrow> node_page_live i q'"
proof (induction rule: node_step.induct)
  case (route url key now p w q)
  show ?case
  proof (cases "waitingForRoute p")
    case True
    from route(1) True obtain r where r: "processRouteUpdate key now (p\<lparr>np_lastUrl := Some url\<rparr>) w = Inr r"
      and q: "q = ((fst r)\<lparr>initialRouteEventFired := True\<rparr>, snd r)"
      by (auto simp: route_event_def bindR_Inr_iff)
    have "node_page_ok (p\<lparr>np_lastUrl := Some url\<rparr>) w" using route(2) by (simp add: node_page_live_def node_page_ok_fields)
    from processRouteUpdate_page [OF r this] True route(2) show ?thesis
      by (simp add: q node_page_live_def node_page_ok_fields)
  next
    case False
    then show ?thesis using route by (auto simp: route_event_def)
  qed
next
  case (wait p href key now w q)
  show ?case
  proof (cases "initialRouteEventFired p")
    case True
    then show ?thesis using wait by (auto simp: initial_wait_over_def)
  next
    case False
    then have r: "processRouteUpdate key now (p\<lparr>np_lastUrl := Some href\<rparr>) w = Inr q" using wait(2) by (simp add: initial_wait_over_def)
    have "node_page_ok (p\<lparr>np_lastUrl := Some href\<rparr>) w" using wait(3) by (simp add: node_page_live_def node_page_ok_fields)
    from processRouteUpdate_page [OF r this] wait(1,3) show ?thesis by (simp add: node_page_live_def)
  qed
next
  case (answer p now result w q)
  then obtain b where r: "node_received now result p (w\<lparr>nw_saved := Some result\<rparr>) = Inr (b, q)"
    by (auto simp: service_answered_def bindR_Inr_iff)
  obtain p' w' where q: "q = (p', w')" by (cases q)
  have "node_page_ok p (w\<lparr>nw_saved := Some result\<rparr>)" using answer(3) by (simp add: node_page_live_def node_page_ok_fields)
  from node_received_page [OF r [unfolded q] this] node_received_other [OF r [unfolded q]] answer(3)
  show ?case by (simp add: q node_page_live_def)
qed (simp_all add: node_page_live_def time_passed_def forceNodeRefresh_def node_page_ok_fields)

text \<open>
  Property C14. The page of a visor, from its creation on, whatever the router, the service, the clock
  and the user do: the node and the traffic it shows are the last ones it has published for its
  subpages; its menu is the one for that node, key and kind of subpage; when it has tabs one of them
  is selected; the box about data problems is shown while it has an error; it listens to the service
  only after it knows its visor; and then it can be destroyed unless its address has no known subpage.
\<close>

theorem node_page_invariant:
  assumes "node_step\<^sup>*\<^sup>* (node_page_created i now w) (p, w')"
  shows "published p w' \<and> tabs_ok p \<and> (np_errorsUpdating p \<longrightarrow> showingDataProblemMsg w') \<and>
    (\<forall>h. nodeActionsHelper p = Some h \<longrightarrow> h = helper_for (showingFullList p) (currentNodeKey w') (np_node p)) \<and>
    (waitingForRoute p \<longrightarrow> \<not> np_listening p) \<and> currentInstance w' = Some i \<and>
    (tabsData p \<noteq> [] \<longrightarrow> (\<exists>q. node_page_destroyed t p w' = Inr q))"
proof -
  have "node_page_live i (p, w')"
    using assms
  proof (induction rule: rtranclp_induct)
    case base
    show ?case
      by (simp add: node_page_created_def node_page_live_def node_page_ok_def published_def tabs_ok_def)
  next
    case (step q q')
    then show ?case using node_step_live by blast
  qed
  then show ?thesis
    by (auto simp: node_page_live_def node_page_ok_def node_page_destroyed_def tabs_ok_def split: option.split)
qed

section \<open>What an answer changes\<close>

definition error_object :: "jsval \<Rightarrow> bool" where
  "error_object e \<longleftrightarrow> val_truthy e \<and> val_truthy (val_prop e ''type'') \<and> \<not> val_truthy (val_prop e ''srcElement'')"

text \<open>
  What an answer of the service changes on the page of a visor. Correct data is shown
  and published, it ends the error state and closes the message about it, and it confirms a refresh
  the user has asked for. An error keeps the data that is shown and publishes nothing; its message is
  only opened for the first one after correct data. The error for a visor that does not exist shows just that.
  Every answer is kept in the history, and while the service is working nothing changes.
\<close>

theorem node_answer_correct:
  assumes "node_page_ok p w" and "\<forall>e. result_error r = Some e \<longrightarrow> error_object e"
  shows "\<exists>p' w'. service_answered now (Some r) p w = Inr (p', w') \<and> nw_saved w' = Some (Some r) \<and> np_updating p' = updating r \<and>
    (if updating r \<or> (sd_data r = None \<and> result_error r = None)
     then np_node p' = np_node p \<and> nodeSubject w' = nodeSubject w \<and> nw_snackbar w' = nw_snackbar w
     else case result_error r of
       None \<Rightarrow> np_node p' = sd_data r \<and> nodeSubject w' = map_option (\<lambda>ns. ns @ [the (sd_data r)]) (nodeSubject w) \<and>
         \<not> np_errorsUpdating p' \<and> \<not> showingDataProblemMsg w' \<and>
         (if np_requestedManually p
          then nw_snackbar w' = snackbar_showDone ''common.refreshed'' VNull (closeCurrentIfTemporaryError (nw_snackbar w))
          else nw_snackbar w' = closeCurrentIfTemporaryError (nw_snackbar w))
     | Some e \<Rightarrow> np_node p' = np_node p \<and> nodeSubject w' = nodeSubject w \<and>
         (if visor_not_found e then np_notFound p' \<and> nw_snackbar w' = nw_snackbar w
          else np_errorsUpdating p' \<and> showingDataProblemMsg w' \<and>
            (np_errorsUpdating p \<longrightarrow> nw_snackbar w' = nw_snackbar w) \<and>
            (\<not> np_errorsUpdating p \<longrightarrow> lastWasTemporaryError (nw_snackbar w') \<and>
               (\<exists>m. currentSnack (nw_snackbar w') = Some m \<and> smallText m = val_prop e ''translatableErrorMsg'' \<and>
                  sn_text m = VStr (if np_node p = None then ''common.loading-error'' else ''node.error-load'')))))"
proof -
  obtain ns ts where s: "nodeSubject w = Some ns" "trafficDataSubject w = Some ts"
    using assms(1) by (auto simp: node_page_ok_def published_def)
  show ?thesis
  proof (cases "updating r")
    case True
    then show ?thesis by (simp add: service_answered_def node_received_def)
  next
    case upd: False
    show ?thesis
    proof (cases "result_error r")
      case None
      then show ?thesis
        using upd by (cases "sd_data r") (simp_all add: service_answered_def node_received_def node_data_shown_def s)
    next
      case (Some e)
      note obj = assms(2) [rule_format, OF Some, unfolded error_object_def]
      show ?thesis
      proof (cases "visor_not_found e")
        case True
        then show ?thesis using upd Some by (cases "sd_data r") (simp_all add: service_answered_def node_received_def)
      next
        case False
        have "snackbar_showError (VStr t) VNull True e VNull sn =
            Inr (open_snack (VStr t) VNull (val_prop e ''translatableErrorMsg'') VNull IconError Red 15000 (sn\<lparr>lastWasTemporaryError := True\<rparr>))"
          if "t \<noteq> []" for t sn
          using that obj by (simp add: snackbar_showError_text)
        then show ?thesis
          using False upd Some
          by (cases "sd_data r"; cases "np_errorsUpdating p"; cases "np_node p")
            (simp_all add: service_answered_def node_received_def node_error_shown_def open_snack_def)
      qed
    qed
  qed
qed

section \<open>What goes wrong\<close>

text \<open>
  When the page is restored from an answer that says that there is no such visor, it never asks the
  service again: the early return skips the repetition without saved data.
\<close>

theorem restored_not_found_never_asks:
  assumes "nw_saved w = Some (Some r)" and "\<not> updating r" and "result_error r = Some e" and "visor_not_found e"
    and "\<not> np_listening p"
  shows "\<exists>p' w'. start_getting_node now p w = Inr (p', w') \<and> np_notFound p' \<and> \<not> np_listening p'"
  using assms by (cases "sd_data r") (simp_all add: start_getting_node_def node_received_def)

text \<open>
  A page that was restored from correct data keeps listening after it was destroyed, and the next
  answer for its visor is published to the subpages of the page that is open then, and saved in its history.
\<close>

theorem restored_page_publishes_to_others:
  assumes "node_page_ok p w" and "nw_saved w = Some (Some r)" and "\<not> updating r" and "result_error r = None" and "sd_data r = Some n"
    and "start_getting_node now p w = Inr (p1, w1)" and "node_page_destroyed t p1 w1 = Inr (p2, w2)"
    and "\<not> updating r2" and "result_error r2 = None" and "sd_data r2 = Some m"
  shows "np_listening p2 \<and> nodeSubject w2 = None \<and>
    (\<exists>p3 w3. service_answered t2 (Some r2) p2 (snd (node_page_created i t1 w2)) = Inr (p3, w3) \<and>
       nodeSubject w3 = Some [m] \<and> nw_saved w3 = Some (Some r2) \<and> currentInstance w3 = Some i)"
proof -
  obtain ns ts where s: "nodeSubject w = Some ns" "trafficDataSubject w = Some ts"
    using assms(1) by (auto simp: node_page_ok_def published_def)
  have "np_listening p1 \<and> np_dataSubscription p1 = Some SavedNodeData"
    using assms(2-6) by (auto simp: start_getting_node_def node_received_def node_data_shown_def s subscribe_node_def)
  then have "np_listening p2" "nodeSubject w2 = None"
    using assms(7) by (auto simp: node_page_destroyed_def split: option.splits)
  then show ?thesis
    using assms(8-10) by (simp add: service_answered_def node_received_def node_data_shown_def node_page_created_def)
qed

section \<open>Examples\<close>

definition example_world :: node_world where
  "example_world =
     \<lparr>currentInstance = None, currentNodeKey = None, nodeSubject = None, trafficDataSubject = None, nw_saved = None,
      nw_snackbar = new_snackbar_service, showingDataProblemMsg = False, nw_service = new_node_data_service 10\<rparr>"

definition example_result :: SingleNodeBackendData where
  "example_result = \<lparr>sd_data = Some new_node, sd_error = None, momentOfLastCorrectUpdate = Some 5, updating = False, trafficData = new_traffic\<rparr>"

theorem node_answer_correct_witness:
  "\<exists>p' w'. service_answered 9 (Some example_result) (fst (node_page_created 1 0 example_world)) (snd (node_page_created 1 0 example_world)) =
     Inr (p', w') \<and> np_node p' = Some new_node"
  using node_answer_correct [of "fst (node_page_created 1 0 example_world)" "snd (node_page_created 1 0 example_world)" example_result 9]
  by (auto simp: node_page_created_def node_page_ok_def published_def tabs_ok_def example_result_def result_error_def)

lemma example_route:
  "\<exists>q. node_step (node_page_created 1 0 example_world) q \<and> tabsData (fst q) \<noteq> []"
proof -
  obtain p w where c: "node_page_created 1 0 example_world = (p, w)" by (cases "node_page_created 1 0 example_world")
  have "\<exists>q. route_event ''/nodes/02ab/routing'' (Some ''02ab'') 3 p w = Inr q \<and> tabsData (fst q) \<noteq> []"
    using c by (auto simp: node_page_created_def example_world_def route_event_def processRouteUpdate_def updateTabBar_def
        url_has_def start_getting_node_def subscribe_node_def starts_with_def)
  then show ?thesis unfolding c using node_step.route by blast
qed

theorem node_page_invariant_witness:
  "\<exists>p w. node_step\<^sup>*\<^sup>* (node_page_created 1 0 example_world) (p, w) \<and> published p w \<and> (\<exists>q. node_page_destroyed 9 p w = Inr q)"
proof -
  from example_route obtain p w where q: "node_step (node_page_created 1 0 example_world) (p, w)" "tabsData p \<noteq> []" by auto
  from node_page_invariant [OF r_into_rtranclp, of 1 0 example_world p w 9, OF q(1)] q show ?thesis by blast
qed

end
