(* ===== verification/Vpn_Saved_Data.thy ===== *)
theory Vpn_Saved_Data
  imports Hv_Store JS_Arrays
begin

text \<open>
  \<open>src/app/services/vpn-saved-data.service.ts\<close>: the VPN servers the user knows (the selected one,
  the history, favourites, blocked ones, names and notes), kept in the persistent storage. Several
  instances of the application share that storage; a version number in the stored data tells an
  instance that another one has written. The theory models every operation over the storage and
  shows the guarantees of that protocol for any number of instances.

  The objects of the server map are values here: an operation that changes an object of the map
  changes the entry of the map. The lists that were handed to subscribers are snapshots.
  An operation that throws gives the error alone.
\<close>

section \<open>Data\<close>

datatype ServerFlags = FlagNone | Favorite | Blocked

fun flag_string :: "ServerFlags \<Rightarrow> string" where
  "flag_string FlagNone = ''None''"
| "flag_string Favorite = ''Favorite''"
| "flag_string Blocked = ''Blocked''"

definition flag_of :: "string \<Rightarrow> ServerFlags js_result" where
  "flag_of s =
     (if s = ''None'' then Inr FlagNone
      else if s = ''Favorite'' then Inr Favorite
      else if s = ''Blocked'' then Inr Blocked
      else Inl TypeError)"

record LocalServerData =
  countryCode :: string
  server_name :: string
  customName :: jsstr
  server_pk :: string
  lastUsed :: int
  inHistory :: bool
  flag :: ServerFlags
  server_location :: string
  server_note :: string
  personalNote :: jsstr
  usedWithPassword :: bool
  enteredManually :: bool

text \<open>A server of the discovery service and a server the user entered.\<close>

record VpnServer =
  vs_countryCode :: string
  vs_name :: string
  vs_location :: string
  vs_pk :: string
  vs_note :: string

record ManualVpnServerData =
  man_pk :: string
  man_password :: jsstr
  man_name :: jsstr
  man_note :: jsstr

record SavedServersData =
  saved_version :: int
  serverList :: "LocalServerData list"
  selectedServerPk :: jsstr

datatype DataUnits = BitsSpeedAndBytesVolume | OnlyBytes | OnlyBits

fun units_string :: "DataUnits \<Rightarrow> string" where
  "units_string BitsSpeedAndBytesVolume = ''BitsSpeedAndBytesVolume''"
| "units_string OnlyBytes = ''OnlyBytes''"
| "units_string OnlyBits = ''OnlyBits''"

text \<open>
  The state of the service. Of each subject the list of the values it has emitted is kept, and of
  the router the number of times it was sent to the page that reports a storage problem.
\<close>

record vpn_saved_data =
  store :: hv_store
  currentServerPk :: jsstr
  serversMap :: "(string, LocalServerData) jsmap"
  savedDataVersion :: int
  currentServerEvents :: "LocalServerData option list"
  historyEvents :: "LocalServerData list list"
  favoritesEvents :: "LocalServerData list list"
  blockedEvents :: "LocalServerData list list"
  storageProblems :: nat

definition maxHistoryElements :: nat where "maxHistoryElements = 30"
definition savedServersStorageKey :: string where "savedServersStorageKey = ''VpnServers''"
definition checkIpSettingStorageKey :: string where "checkIpSettingStorageKey = ''VpnGetIp''"
definition dataUnitsSettingStorageKey :: string where "dataUnitsSettingStorageKey = ''VpnDataUnits''"

lemmas vpn_keys =
  savedServersStorageKey_def checkIpSettingStorageKey_def dataUnitsSettingStorageKey_def

section \<open>The JSON form of the data\<close>

definition enc_server :: "LocalServerData \<Rightarrow> json" where
  "enc_server v = JObj (
     [(''countryCode'', JStr (countryCode v)), (''name'', JStr (server_name v))] @
     put_jsstr ''customName'' (customName v) @
     [(''pk'', JStr (server_pk v)), (''lastUsed'', JNum (lastUsed v)),
      (''inHistory'', JBool (inHistory v)), (''flag'', JStr (flag_string (flag v))),
      (''location'', JStr (server_location v))] @
     put_jsstr ''personalNote'' (personalNote v) @
     [(''note'', JStr (server_note v)), (''enteredManually'', JBool (enteredManually v)),
      (''usedWithPassword'', JBool (usedWithPassword v))])"

definition dec_server :: "json \<Rightarrow> LocalServerData js_result" where
  "dec_server j =
     (case j of
        JObj ms \<Rightarrow>
          bindR (get_string ms ''countryCode'') (\<lambda>c.
          bindR (get_string ms ''name'') (\<lambda>n.
          bindR (get_jsstr ms ''customName'') (\<lambda>cn.
          bindR (get_string ms ''pk'') (\<lambda>p.
          bindR (get_num ms ''lastUsed'') (\<lambda>lu.
          bindR (get_bool ms ''inHistory'') (\<lambda>ih.
          bindR (bindR (get_string ms ''flag'') flag_of) (\<lambda>f.
          bindR (get_string ms ''location'') (\<lambda>l.
          bindR (get_string ms ''note'') (\<lambda>nt.
          bindR (get_jsstr ms ''personalNote'') (\<lambda>pn.
          bindR (get_bool ms ''usedWithPassword'') (\<lambda>up.
          bindR (get_bool ms ''enteredManually'') (\<lambda>em.
          Inr \<lparr>countryCode = c, server_name = n, customName = cn, server_pk = p, lastUsed = lu,
               inHistory = ih, flag = f, server_location = l, server_note = nt, personalNote = pn,
               usedWithPassword = up, enteredManually = em\<rparr>))))))))))))
      | _ \<Rightarrow> Inl TypeError)"

definition enc_saved :: "SavedServersData \<Rightarrow> json" where
  "enc_saved d = JObj (
     [(''version'', JNum (saved_version d)), (''serverList'', JArr (map enc_server (serverList d)))] @
     put_jsstr ''selectedServerPk'' (selectedServerPk d))"

definition dec_saved :: "json \<Rightarrow> SavedServersData js_result" where
  "dec_saved j =
     (case j of
        JObj ms \<Rightarrow>
          bindR (get_num ms ''version'') (\<lambda>v.
          bindR (case obj_get ms ''serverList'' of Some l \<Rightarrow> dec_list dec_server l | None \<Rightarrow> Inl TypeError) (\<lambda>l.
          bindR (get_jsstr ms ''selectedServerPk'') (\<lambda>p.
          Inr \<lparr>saved_version = v, serverList = l, selectedServerPk = p\<rparr>)))
      | _ \<Rightarrow> Inl TypeError)"

lemma flag_of_string [simp]: "flag_of (flag_string f) = Inr f"
  by (cases f) (simp_all add: flag_of_def)

lemma dec_enc_server: "dec_server (enc_server v) = Inr v"
  by (cases "customName v"; cases "personalNote v")
    (simp_all add: enc_server_def dec_server_def get_member_defs)

interpretation server_codec: json_codec enc_server dec_server
  by unfold_locales (rule dec_enc_server)

interpretation saved_codec: json_codec enc_saved dec_saved
proof unfold_locales
  fix d :: SavedServersData
  show "dec_saved (enc_saved d) = Inr d"
    by (cases "selectedServerPk d")
      (simp_all add: enc_saved_def dec_saved_def get_member_defs server_codec.dec_list_enc)
qed

text \<open>
  The stored data, as \<open>initialize\<close>, \<open>saveData\<close> and \<open>checkIfDataWasChanged\<close> read it: a missing or
  empty text means that nothing is saved.
\<close>

definition read_saved :: "hv_store \<Rightarrow> SavedServersData option js_result" where
  "read_saved st =
     (case getDataForHv st savedServersStorageKey of
        None \<Rightarrow> Inr None
      | Some t \<Rightarrow>
          if t = [] then Inr None
          else bindR (bindR (json_parse t) dec_saved) (\<lambda>d. Inr (Some d)))"

definition write_saved :: "SavedServersData \<Rightarrow> hv_store \<Rightarrow> hv_store" where
  "write_saved d st = setDataForHv savedServersStorageKey (stringify (enc_saved d)) st"

lemma stringify_enc_saved_ne: "stringify (enc_saved d) \<noteq> []"
  by (simp add: enc_saved_def stringify.simps)

lemma read_write_saved [simp]: "read_saved (write_saved d st) = Inr (Some d)"
  by (simp add: read_saved_def write_saved_def hvs.get_put stringify_enc_saved_ne
      saved_codec.dec_stringify)


section \<open>Reading the state\<close>

definition server_of :: "(string, LocalServerData) jsmap \<Rightarrow> jsstr \<Rightarrow> LocalServerData option" where
  "server_of m k = (case k of Str x \<Rightarrow> map_get m x | _ \<Rightarrow> None)"

definition currentServer :: "vpn_saved_data \<Rightarrow> LocalServerData option" where
  "currentServer s = server_of (serversMap s) (currentServerPk s)"

definition launchListEvents :: "vpn_saved_data \<Rightarrow> vpn_saved_data" where
  "launchListEvents s =
     s\<lparr>historyEvents := historyEvents s @ [filter inHistory (map_values (serversMap s))],
       favoritesEvents := favoritesEvents s @
         [filter (\<lambda>v. flag v = Favorite) (map_values (serversMap s))],
       blockedEvents := blockedEvents s @
         [filter (\<lambda>v. flag v = Blocked) (map_values (serversMap s))]\<rparr>"

definition emitCurrentServer :: "vpn_saved_data \<Rightarrow> vpn_saved_data" where
  "emitCurrentServer s = s\<lparr>currentServerEvents := currentServerEvents s @ [currentServer s]\<rparr>"

definition updateCurrentServerPk :: "string \<Rightarrow> vpn_saved_data \<Rightarrow> vpn_saved_data" where
  "updateCurrentServerPk k s = emitCurrentServer (s\<lparr>currentServerPk := Str k\<rparr>)"

section \<open>Loading and saving\<close>

definition migrate_key :: "string \<Rightarrow> hv_store \<Rightarrow> hv_store" where
  "migrate_key key st =
     (case getItem st key of
        Some t \<Rightarrow> if t \<noteq> [] then removeItem key (setDataForHv key t st) else st
      | None \<Rightarrow> st)"

definition migrateVpnDataToHvStorage :: "vpn_saved_data \<Rightarrow> vpn_saved_data" where
  "migrateVpnDataToHvStorage s =
     s\<lparr>store := migrate_key dataUnitsSettingStorageKey
         (migrate_key checkIpSettingStorageKey (migrate_key savedServersStorageKey (store s)))\<rparr>"

definition load_servers :: "LocalServerData list \<Rightarrow> (string, LocalServerData) jsmap" where
  "load_servers vs = fold (\<lambda>v. map_set (server_pk v) v) vs []"

definition initializeVpnData :: "vpn_saved_data \<Rightarrow> vpn_saved_data js_result" where
  "initializeVpnData s =
     (let s1 = (migrateVpnDataToHvStorage s)\<lparr>serversMap := []\<rparr> in
      bindR (read_saved (store s1)) (\<lambda>r.
        Inr (launchListEvents
          (case r of
             None \<Rightarrow> s1
           | Some d \<Rightarrow>
               let s2 = s1\<lparr>serversMap := load_servers (serverList d), savedDataVersion := saved_version d\<rparr>
               in (case selectedServerPk d of
                     Str k \<Rightarrow> if k \<noteq> [] then updateCurrentServerPk k s2 else s2
                   | _ \<Rightarrow> s2)))))"

definition stored_version :: "SavedServersData option \<Rightarrow> int" where
  "stored_version r = (case r of None \<Rightarrow> 0 | Some d \<Rightarrow> saved_version d)"

definition checkIfDataWasChanged :: "vpn_saved_data \<Rightarrow> vpn_saved_data js_result" where
  "checkIfDataWasChanged s =
     bindR (read_saved (store s)) (\<lambda>r.
       if stored_version r \<noteq> savedDataVersion s then initializeVpnData s else Inr s)"

definition saveData :: "vpn_saved_data \<Rightarrow> vpn_saved_data js_result" where
  "saveData s =
     bindR (read_saved (store s)) (\<lambda>r.
       if stored_version r \<noteq> savedDataVersion s then
         Inr (s\<lparr>storageProblems := storageProblems s + 1\<rparr>)
       else
         let s1 = s\<lparr>savedDataVersion := savedDataVersion s + 1\<rparr>;
             data = \<lparr>saved_version = savedDataVersion s1, serverList = map_values (serversMap s1),
                     selectedServerPk = currentServerPk s1\<rparr>
         in Inr (launchListEvents (s1\<lparr>store := write_saved data (store s1)\<rparr>)))"

definition unneeded :: "jsstr \<Rightarrow> LocalServerData \<Rightarrow> bool" where
  "unneeded current v \<longleftrightarrow> \<not> inHistory v \<and> flag v = FlagNone \<and> Str (server_pk v) \<noteq> current \<and>
     \<not> truthy (customName v) \<and> \<not> truthy (personalNote v)"

definition cleanServers :: "vpn_saved_data \<Rightarrow> vpn_saved_data" where
  "cleanServers s =
     s\<lparr>serversMap := fold map_delete
         (map server_pk (filter (unneeded (currentServerPk s)) (map_values (serversMap s)))) (serversMap s)\<rparr>"

section \<open>Operations\<close>

definition getSavedVersion ::
  "string \<Rightarrow> bool \<Rightarrow> vpn_saved_data \<Rightarrow> (vpn_saved_data \<times> LocalServerData option) js_result" where
  "getSavedVersion k updateFromPersistentStorage s =
     bindR (if updateFromPersistentStorage then checkIfDataWasChanged s else Inr s) (\<lambda>s1.
       Inr (s1, map_get (serversMap s1) k))"

definition getCheckIpSetting :: "vpn_saved_data \<Rightarrow> bool" where
  "getCheckIpSetting s =
     (case getDataForHv (store s) checkIpSettingStorageKey of None \<Rightarrow> True | Some v \<Rightarrow> v \<noteq> ''false'')"

definition setCheckIpSetting :: "bool \<Rightarrow> vpn_saved_data \<Rightarrow> vpn_saved_data" where
  "setCheckIpSetting b s =
     s\<lparr>store := setDataForHv checkIpSettingStorageKey (if b then ''true'' else ''false'') (store s)\<rparr>"

text \<open>The text is cast to the enumeration without a check, so the setting is the stored text.\<close>

definition getDataUnitsSetting :: "vpn_saved_data \<Rightarrow> string" where
  "getDataUnitsSetting s =
     (case getDataForHv (store s) dataUnitsSettingStorageKey of
        None \<Rightarrow> units_string BitsSpeedAndBytesVolume
      | Some v \<Rightarrow> v)"

definition setDataUnitsSetting :: "DataUnits \<Rightarrow> vpn_saved_data \<Rightarrow> vpn_saved_data" where
  "setDataUnitsSetting u s =
     s\<lparr>store := setDataForHv dataUnitsSettingStorageKey (units_string u) (store s)\<rparr>"

text \<open>A change of the object that is saved under a key, if there is one.\<close>

definition modify_saved ::
  "string \<Rightarrow> (LocalServerData \<Rightarrow> LocalServerData) \<Rightarrow> vpn_saved_data \<Rightarrow> vpn_saved_data" where
  "modify_saved k f s =
     (case map_get (serversMap s) k of
        None \<Rightarrow> s
      | Some v \<Rightarrow> s\<lparr>serversMap := map_set k (f v) (serversMap s)\<rparr>)"

definition with_discovery_data :: "VpnServer \<Rightarrow> LocalServerData \<Rightarrow> LocalServerData" where
  "with_discovery_data n v =
     v\<lparr>countryCode := vs_countryCode n, server_name := vs_name n, server_location := vs_location n,
       server_note := vs_note n\<rparr>"

definition updateFromDiscovery :: "VpnServer list \<Rightarrow> vpn_saved_data \<Rightarrow> vpn_saved_data js_result" where
  "updateFromDiscovery servers s =
     bindR (checkIfDataWasChanged s) (\<lambda>s1.
       saveData (fold (\<lambda>n. modify_saved (vs_pk n) (with_discovery_data n)) servers s1))"

definition updateServer :: "LocalServerData \<Rightarrow> vpn_saved_data \<Rightarrow> vpn_saved_data js_result" where
  "updateServer v s =
     saveData (cleanServers (s\<lparr>serversMap := map_set (server_pk v) v (serversMap s)\<rparr>))"

definition processFromDiscovery ::
  "VpnServer \<Rightarrow> vpn_saved_data \<Rightarrow> (vpn_saved_data \<times> LocalServerData) js_result" where
  "processFromDiscovery n s =
     bindR (checkIfDataWasChanged s) (\<lambda>s1.
       case map_get (serversMap s1) (vs_pk n) of
         Some v \<Rightarrow>
           bindR (saveData (modify_saved (vs_pk n) (with_discovery_data n) s1)) (\<lambda>s2.
             Inr (s2, with_discovery_data n v))
       | None \<Rightarrow>
           Inr (s1, \<lparr>countryCode = vs_countryCode n, server_name = vs_name n, customName = Null,
                     server_pk = vs_pk n, lastUsed = 0, inHistory = False, flag = FlagNone,
                     server_location = vs_location n, server_note = vs_note n, personalNote = Null,
                     usedWithPassword = False, enteredManually = False\<rparr>))"

definition with_manual_data :: "ManualVpnServerData \<Rightarrow> LocalServerData \<Rightarrow> LocalServerData" where
  "with_manual_data n v =
     v\<lparr>customName := man_name n, personalNote := man_note n, enteredManually := True\<rparr>"

definition processFromManual ::
  "ManualVpnServerData \<Rightarrow> vpn_saved_data \<Rightarrow> (vpn_saved_data \<times> LocalServerData) js_result" where
  "processFromManual n s =
     bindR (checkIfDataWasChanged s) (\<lambda>s1.
       case map_get (serversMap s1) (man_pk n) of
         Some v \<Rightarrow>
           bindR (saveData (modify_saved (man_pk n) (with_manual_data n) s1)) (\<lambda>s2.
             Inr (s2, with_manual_data n v))
       | None \<Rightarrow>
           Inr (s1, \<lparr>countryCode = ''zz'', server_name = [], customName = man_name n,
                     server_pk = man_pk n, lastUsed = 0, inHistory = False, flag = FlagNone,
                     server_location = [], server_note = [], personalNote = man_note n,
                     usedWithPassword = False, enteredManually = True\<rparr>))"

definition changeFlag :: "LocalServerData \<Rightarrow> ServerFlags \<Rightarrow> vpn_saved_data \<Rightarrow> vpn_saved_data js_result" where
  "changeFlag server f s =
     bindR (checkIfDataWasChanged s) (\<lambda>s1.
       let v = (case map_get (serversMap s1) (server_pk server) of Some r \<Rightarrow> r | None \<Rightarrow> server) in
       if flag v = f then Inr s1
       else saveData (cleanServers
         (s1\<lparr>serversMap := map_set (server_pk server) (v\<lparr>flag := f\<rparr>) (serversMap s1)\<rparr>)))"

definition removeFromHistory :: "string \<Rightarrow> vpn_saved_data \<Rightarrow> vpn_saved_data js_result" where
  "removeFromHistory k s =
     bindR (checkIfDataWasChanged s) (\<lambda>s1.
       case map_get (serversMap s1) k of
         None \<Rightarrow> Inr s1
       | Some v \<Rightarrow>
           if \<not> inHistory v then Inr s1
           else saveData (cleanServers (modify_saved k (\<lambda>v. v\<lparr>inHistory := False\<rparr>) s1)))"

definition modifyCurrentServer :: "LocalServerData \<Rightarrow> vpn_saved_data \<Rightarrow> vpn_saved_data js_result" where
  "modifyCurrentServer new s =
     bindR (checkIfDataWasChanged s) (\<lambda>s1.
       if Str (server_pk new) = currentServerPk s1 then Inr s1
       else
         let s2 = (if \<not> map_has (serversMap s1) (server_pk new)
                   then s1\<lparr>serversMap := map_set (server_pk new) new (serversMap s1)\<rparr> else s1)
         in saveData (cleanServers (updateCurrentServerPk (server_pk new) s2)))"

definition compareCurrentServer :: "jsstr \<Rightarrow> vpn_saved_data \<Rightarrow> vpn_saved_data js_result" where
  "compareCurrentServer k s =
     bindR (checkIfDataWasChanged s) (\<lambda>s1.
       if truthy k then
         if \<not> truthy (currentServerPk s1) \<or> currentServerPk s1 \<noteq> k then
           let s2 = s1\<lparr>currentServerPk := k\<rparr>;
               kk = (case k of Str x \<Rightarrow> x | _ \<Rightarrow> []) in
           bindR (if map_get (serversMap s2) kk = None then
                    bindR (processFromManual \<lparr>man_pk = kk, man_password = Undefined,
                             man_name = Undefined, man_note = Undefined\<rparr> s2) (\<lambda>(s3, v).
                      Inr (cleanServers (s3\<lparr>serversMap := map_set (server_pk v) v (serversMap s3)\<rparr>)))
                  else Inr s2) (\<lambda>s4.
           bindR (saveData s4) (\<lambda>s5. Inr (emitCurrentServer s5)))
         else Inr s1
       else if truthy (currentServerPk s1) then
         bindR (saveData (s1\<lparr>currentServerPk := Null\<rparr>)) (\<lambda>s2. Inr (emitCurrentServer s2))
       else Inr s1)"

text \<open>
  \<open>updateHistory\<close>. The history list holds references to the objects of the map; it is a list of
  entries of the map here. The argument \<open>now\<close> is \<open>Date.now()\<close>.
\<close>

definition by_last_use :: "string \<times> LocalServerData \<Rightarrow> string \<times> LocalServerData \<Rightarrow> int" where
  "by_last_use a b = lastUsed (snd b) - lastUsed (snd a)"

definition historyList :: "(string, LocalServerData) jsmap \<Rightarrow> (string \<times> LocalServerData) list" where
  "historyList m = js_sort by_last_use (filter (\<lambda>e. inHistory (snd e)) m)"

definition limit_history :: "(string, LocalServerData) jsmap \<Rightarrow> (string, LocalServerData) jsmap" where
  "limit_history m =
     map (\<lambda>(k, v). if k \<in> fst ` set (drop maxHistoryElements (historyList m))
                   then (k, v\<lparr>inHistory := False\<rparr>) else (k, v)) m"

definition updateHistory :: "int \<Rightarrow> vpn_saved_data \<Rightarrow> vpn_saved_data js_result" where
  "updateHistory now s =
     bindR (checkIfDataWasChanged s) (\<lambda>s1.
       case (currentServer s1, currentServerPk s1) of
         (Some v, Str k) \<Rightarrow>
           let s2 = modify_saved k (\<lambda>v. v\<lparr>lastUsed := now, inHistory := True\<rparr>) s1
           in saveData (cleanServers (s2\<lparr>serversMap := limit_history (serversMap s2)\<rparr>))
       | _ \<Rightarrow> Inl TypeError)"


section \<open>The invariant of an instance\<close>

definition data_ok :: "(string, LocalServerData) jsmap \<Rightarrow> bool" where
  "data_ok m \<longleftrightarrow> map_wf m \<and> keyed server_pk m"

text \<open>The storage: it can be read, the versions are counted from 1, nothing is left to migrate.\<close>

definition saved_ok :: "SavedServersData option \<Rightarrow> bool" where
  "saved_ok r \<longleftrightarrow>
     (case r of None \<Rightarrow> True | Some d \<Rightarrow> 1 \<le> saved_version d \<and> distinct (map server_pk (serverList d)))"

definition store_ok :: "hv_store \<Rightarrow> bool" where
  "store_ok st \<longleftrightarrow> hypervisorPk st \<noteq> [] \<and>
     getItem st savedServersStorageKey = None \<and> getItem st checkIpSettingStorageKey = None \<and>
     getItem st dataUnitsSettingStorageKey = None \<and>
     (case read_saved st of Inr r \<Rightarrow> saved_ok r | Inl e \<Rightarrow> False)"

definition stored :: "hv_store \<Rightarrow> SavedServersData option" where
  "stored st = (case read_saved st of Inr r \<Rightarrow> r | Inl e \<Rightarrow> None)"

text \<open>What an instance that has seen the last version knows.\<close>

definition agrees_with :: "SavedServersData option \<Rightarrow> vpn_saved_data \<Rightarrow> bool" where
  "agrees_with r s \<longleftrightarrow>
     (case r of
        None \<Rightarrow> serversMap s = []
      | Some d \<Rightarrow> map_values (serversMap s) = serverList d \<and>
          (truthy (selectedServerPk d) \<longrightarrow> currentServerPk s = selectedServerPk d))"

definition instance_ok :: "hv_store \<Rightarrow> vpn_saved_data \<Rightarrow> bool" where
  "instance_ok st s \<longleftrightarrow> data_ok (serversMap s) \<and>
     0 \<le> savedDataVersion s \<and> savedDataVersion s \<le> stored_version (stored st) \<and>
     (savedDataVersion s = stored_version (stored st) \<longrightarrow> agrees_with (stored st) s)"

definition up_to_date :: "vpn_saved_data \<Rightarrow> bool" where
  "up_to_date s \<longleftrightarrow> store_ok (store s) \<and> instance_ok (store s) s \<and>
     savedDataVersion s = stored_version (stored (store s))"

lemma store_ok_read: "store_ok st \<Longrightarrow> read_saved st = Inr (stored st)"
  by (auto simp: store_ok_def stored_def split: sum.splits)

lemma store_ok_saved: "store_ok st \<Longrightarrow> saved_ok (stored st)"
  by (auto simp: store_ok_def stored_def split: sum.splits)

lemma stored_write [simp]: "stored (write_saved d st) = Some d"
  by (simp add: stored_def)

lemma prefixed_key:
  "p \<noteq> [] \<Longrightarrow> k \<in> {savedServersStorageKey, checkIpSettingStorageKey, dataUnitsSettingStorageKey} \<Longrightarrow>
    k \<noteq> p @ savedServersStorageKey"
proof
  assume "p \<noteq> []" and k: "k \<in> {savedServersStorageKey, checkIpSettingStorageKey, dataUnitsSettingStorageKey}"
    and "k = p @ savedServersStorageKey"
  then have "rev k = rev savedServersStorageKey @ rev p" by simp
  with k \<open>p \<noteq> []\<close> show False by (auto simp: vpn_keys)
qed

lemma store_ok_write:
  assumes "store_ok st" and "1 \<le> saved_version d" and "distinct (map server_pk (serverList d))"
  shows "store_ok (write_saved d st)"
proof -
  have pk: "hypervisorPk st \<noteq> []" using assms(1) by (simp add: store_ok_def)
  have "getItem (write_saved d st) k = getItem st k"
    if "k \<in> {savedServersStorageKey, checkIpSettingStorageKey, dataUnitsSettingStorageKey}" for k
    using prefixed_key [OF pk that] by (simp add: write_saved_def hv_defs)
  then show ?thesis
    using assms by (simp add: store_ok_def saved_ok_def) (simp add: write_saved_def)
qed

lemma migrate_nothing: "store_ok (store s) \<Longrightarrow> migrateVpnDataToHvStorage s = s"
  by (simp add: migrateVpnDataToHvStorage_def store_ok_def migrate_key_def)

lemma launch_simps [simp]:
  "store (launchListEvents s) = store s" "serversMap (launchListEvents s) = serversMap s"
  "currentServerPk (launchListEvents s) = currentServerPk s"
  "savedDataVersion (launchListEvents s) = savedDataVersion s"
  "storageProblems (launchListEvents s) = storageProblems s"
  "store (emitCurrentServer s) = store s" "serversMap (emitCurrentServer s) = serversMap s"
  "currentServerPk (emitCurrentServer s) = currentServerPk s"
  "savedDataVersion (emitCurrentServer s) = savedDataVersion s"
  "storageProblems (emitCurrentServer s) = storageProblems s"
  "currentServerPk (updateCurrentServerPk k s) = Str k" "store (updateCurrentServerPk k s) = store s"
  "serversMap (updateCurrentServerPk k s) = serversMap s"
  "savedDataVersion (updateCurrentServerPk k s) = savedDataVersion s"
  "storageProblems (updateCurrentServerPk k s) = storageProblems s"
  by (simp_all add: launchListEvents_def emitCurrentServer_def updateCurrentServerPk_def)

lemma load_servers_data:
  assumes "distinct (map server_pk vs)"
  shows "data_ok (load_servers vs)" and "map_values (load_servers vs) = vs"
proof -
  show "data_ok (load_servers vs)"
    by (simp add: data_ok_def load_servers_def map_wf_sets keyed_sets)
  show "map_values (load_servers vs) = vs"
    using assms by (simp add: load_servers_def map_sets_empty map_values_def comp_def)
qed

section \<open>Reading before writing\<close>

text \<open>
  The first half of the protocol: after \<open>checkIfDataWasChanged\<close> the instance has the last version.
\<close>

lemma initialize_up_to_date:
  assumes "store_ok (store s)" and "stored (store s) = Some d"
  obtains s1 where "initializeVpnData s = Inr s1" and "up_to_date s1" and "store s1 = store s"
    and "serversMap s1 = load_servers (serverList d)" and "storageProblems s1 = storageProblems s"
    and "currentServerPk s1 = (if truthy (selectedServerPk d) then selectedServerPk d else currentServerPk s)"
proof -
  have d: "1 \<le> saved_version d" "distinct (map server_pk (serverList d))"
    using store_ok_saved [OF assms(1)] assms(2) by (simp_all add: saved_ok_def)
  note load = load_servers_data [OF d(2)]
  define s2 where "s2 = s\<lparr>serversMap := load_servers (serverList d), savedDataVersion := saved_version d\<rparr>"
  define s1 where "s1 = launchListEvents
    (case selectedServerPk d of Str k \<Rightarrow> if k \<noteq> [] then updateCurrentServerPk k s2 else s2 | _ \<Rightarrow> s2)"
  have init: "initializeVpnData s = Inr s1"
    unfolding s1_def s2_def using assms store_ok_read [OF assms(1)]
    by (simp add: initializeVpnData_def migrate_nothing)
  have fields: "store s1 = store s" "serversMap s1 = load_servers (serverList d)"
    "savedDataVersion s1 = saved_version d" "storageProblems s1 = storageProblems s"
    "currentServerPk s1 = (if truthy (selectedServerPk d) then selectedServerPk d else currentServerPk s)"
    by (cases "selectedServerPk d"; simp add: s1_def s2_def)+
  show thesis
    using assms d load
    by (intro that [OF init]) (simp_all add: fields up_to_date_def instance_ok_def agrees_with_def stored_version_def)
qed

lemma check_up_to_date:
  assumes "store_ok (store s)" and "instance_ok (store s) s"
  obtains s1 where "checkIfDataWasChanged s = Inr s1" and "up_to_date s1" and "store s1 = store s"
    and "storageProblems s1 = storageProblems s"
proof (cases "stored_version (stored (store s)) = savedDataVersion s")
  case True
  then show ?thesis
    using that [of s] assms store_ok_read [OF assms(1)]
    by (simp add: checkIfDataWasChanged_def up_to_date_def)
next
  case False
  then obtain d where d: "stored (store s) = Some d"
    using assms(2) by (cases "stored (store s)") (auto simp: instance_ok_def stored_version_def)
  show ?thesis
    by (rule initialize_up_to_date [OF assms(1) d])
      (use False that store_ok_read [OF assms(1)] in \<open>simp add: checkIfDataWasChanged_def\<close>)
qed


section \<open>Writing what was read\<close>

text \<open>
  The second half: a change of the server map in memory, followed by \<open>saveData\<close>. The changes the
  operations make share this contract.
\<close>

locale server_update =
  fixes upd :: "vpn_saved_data \<Rightarrow> vpn_saved_data"
  assumes upd_store: "store (upd s) = store s"
    and upd_version: "savedDataVersion (upd s) = savedDataVersion s"
    and upd_problems: "storageProblems (upd s) = storageProblems s"
    and upd_data: "data_ok (serversMap s) \<Longrightarrow> data_ok (serversMap (upd s))"

definition saved_state :: "vpn_saved_data \<Rightarrow> SavedServersData" where
  "saved_state s =
     \<lparr>saved_version = savedDataVersion s, serverList = map_values (serversMap s),
      selectedServerPk = currentServerPk s\<rparr>"

text \<open>The outcome of a save that was accepted.\<close>

definition saved_as :: "vpn_saved_data \<Rightarrow> vpn_saved_data \<Rightarrow> bool" where
  "saved_as s s' \<longleftrightarrow>
     serversMap s' = serversMap s \<and> currentServerPk s' = currentServerPk s \<and>
     savedDataVersion s' = savedDataVersion s + 1 \<and> storageProblems s' = storageProblems s \<and>
     stored (store s') = Some (saved_state s') \<and>
     last (historyEvents s') = filter inHistory (map_values (serversMap s)) \<and>
     last (favoritesEvents s') = filter (\<lambda>v. flag v = Favorite) (map_values (serversMap s)) \<and>
     last (blockedEvents s') = filter (\<lambda>v. flag v = Blocked) (map_values (serversMap s))"

lemma data_ok_distinct: "data_ok m \<Longrightarrow> distinct (map server_pk (map_values m))"
  by (simp add: data_ok_def keyed_values_distinct)

lemma saveData_accepts:
  assumes "store_ok (store s)" and "data_ok (serversMap s)"
    and "savedDataVersion s = stored_version (stored (store s))"
  obtains s' where "saveData s = Inr s'" and "up_to_date s'" and "saved_as s s'"
proof -
  define s1 where "s1 = s\<lparr>savedDataVersion := savedDataVersion s + 1\<rparr>"
  define s' where "s' = launchListEvents (s1\<lparr>store := write_saved (saved_state s1) (store s)\<rparr>)"
  have save: "saveData s = Inr s'"
    using assms(3) store_ok_read [OF assms(1)] by (simp add: saveData_def s'_def s1_def saved_state_def)
  have "0 \<le> savedDataVersion s"
    using assms(3) store_ok_saved [OF assms(1)]
    by (cases "stored (store s)") (auto simp: stored_version_def saved_ok_def)
  then have "up_to_date s'"
    using assms(1,2) data_ok_distinct [OF assms(2)]
    by (simp add: s'_def s1_def up_to_date_def instance_ok_def agrees_with_def stored_version_def
        saved_state_def store_ok_write)
  moreover have "saved_as s s'"
    by (simp add: saved_as_def s'_def s1_def saved_state_def) (simp add: launchListEvents_def)
  ultimately show thesis using that [OF save] by simp
qed

context server_update
begin

lemma save_update:
  assumes "up_to_date s"
  obtains s' where "saveData (upd s) = Inr s'" and "up_to_date s'" and "saved_as (upd s) s'"
proof (rule saveData_accepts)
  show "store_ok (store (upd s))" and "data_ok (serversMap (upd s))"
    and "savedDataVersion (upd s) = stored_version (stored (store (upd s)))"
    using assms by (simp_all add: up_to_date_def instance_ok_def upd_store upd_version upd_data)
qed (rule that)

text \<open>The whole operation: check, change, save. It never ends in the storage problem page.\<close>

lemma transaction:
  assumes "store_ok (store s)" and "instance_ok (store s) s"
  obtains s1 s' where "checkIfDataWasChanged s = Inr s1" and "up_to_date s1" and "store s1 = store s"
    and "saveData (upd s1) = Inr s'" and "up_to_date s'" and "saved_as (upd s1) s'"
    and "storageProblems s' = storageProblems s"
proof -
  obtain s1 where s1: "checkIfDataWasChanged s = Inr s1" "up_to_date s1" "store s1 = store s"
    "storageProblems s1 = storageProblems s"
    by (rule check_up_to_date [OF assms])
  obtain s' where "saveData (upd s1) = Inr s'" "up_to_date s'" "saved_as (upd s1) s'"
    by (rule save_update [OF s1(2)])
  then show thesis using that s1 by (simp add: saved_as_def upd_problems)
qed

end

lemma server_update_comp:
  "server_update f \<Longrightarrow> server_update g \<Longrightarrow> server_update (\<lambda>s. g (f s))"
  by (simp add: server_update_def)


section \<open>The changes the operations make\<close>

lemma data_ok_empty [simp]: "data_ok []"
  by (simp add: data_ok_def)

lemma data_ok_set: "data_ok m \<Longrightarrow> data_ok (map_set (server_pk v) v m)"
  by (simp add: data_ok_def keyed_set)

lemma data_ok_dels: "data_ok m \<Longrightarrow> data_ok (fold map_delete ks m)"
proof (induction ks arbitrary: m)
  case (Cons k ks)
  have "data_ok (map_delete k m)"
    using Cons.prems by (simp add: data_ok_def keyed_delete)
  then show ?case using Cons by simp
qed simp

lemma data_ok_key: "data_ok m \<Longrightarrow> map_get m k = Some v \<Longrightarrow> server_pk v = k"
  by (auto simp: data_ok_def keyed_def map_get_def dest!: map_of_SomeD)

definition put_server :: "LocalServerData \<Rightarrow> vpn_saved_data \<Rightarrow> vpn_saved_data" where
  "put_server v s = s\<lparr>serversMap := map_set (server_pk v) v (serversMap s)\<rparr>"

interpretation clean: server_update cleanServers
  by unfold_locales (simp_all add: cleanServers_def data_ok_dels)

interpretation put: server_update "put_server v" for v
  by unfold_locales (simp_all add: put_server_def data_ok_set)

interpretation select: server_update "updateCurrentServerPk k" for k
  by unfold_locales simp_all

interpretation current: server_update "\<lambda>s. s\<lparr>currentServerPk := k\<rparr>" for k
  by unfold_locales simp_all

lemma modify_saved_update:
  assumes "\<And>v. server_pk (f v) = server_pk v"
  shows "server_update (modify_saved k f)"
proof unfold_locales
  fix s :: vpn_saved_data
  assume ok: "data_ok (serversMap s)"
  have "server_pk (f v) = k" if "map_get (serversMap s) k = Some v" for v
    using data_ok_key [OF ok that] assms by simp
  then show "data_ok (serversMap (modify_saved k f s))"
    using ok data_ok_set [OF ok] by (auto simp: modify_saved_def split: option.split)
qed (simp_all add: modify_saved_def split: option.split)

interpretation hide_history: server_update "modify_saved k (\<lambda>v. v\<lparr>inHistory := False\<rparr>)" for k
  by (rule modify_saved_update) simp

interpretation discovery: server_update "modify_saved (vs_pk n) (with_discovery_data n)" for n
  by (rule modify_saved_update) (simp add: with_discovery_data_def)

interpretation manual: server_update "modify_saved (man_pk n) (with_manual_data n)" for n
  by (rule modify_saved_update) (simp add: with_manual_data_def)

interpretation use: server_update "modify_saved k (\<lambda>v. v\<lparr>lastUsed := now, inHistory := True\<rparr>)" for k now
  by (rule modify_saved_update) simp

lemma limit_history_keys: "map fst (limit_history m) = map fst m"
  by (simp add: limit_history_def case_prod_beta comp_def if_distrib cong: if_cong)

interpretation limit: server_update "\<lambda>s. s\<lparr>serversMap := limit_history (serversMap s)\<rparr>"
proof unfold_locales
  fix s :: vpn_saved_data
  assume "data_ok (serversMap s)"
  then show "data_ok (serversMap (s\<lparr>serversMap := limit_history (serversMap s)\<rparr>))"
    by (auto simp: data_ok_def map_wf_def limit_history_keys keyed_def)
      (auto simp: limit_history_def split: if_splits)
qed simp_all

text \<open>What is left after \<open>cleanServers\<close>: exactly the servers that are needed.\<close>

lemma clean_lookup:
  assumes "data_ok (serversMap s)"
  shows "map_get (serversMap (cleanServers s)) k =
    (case map_get (serversMap s) k of
       Some v \<Rightarrow> if unneeded (currentServerPk s) v then None else Some v
     | None \<Rightarrow> None)"
proof -
  let ?m = "serversMap s" and ?c = "currentServerPk s"
  let ?ks = "map server_pk (filter (unneeded ?c) (map_values ?m))"
  have "k \<in> set ?ks \<longleftrightarrow> unneeded ?c v" if "map_get ?m k = Some v" for v
  proof
    assume "k \<in> set ?ks"
    then obtain w where "w \<in> set (map_values ?m)" "server_pk w = k" "unneeded ?c w" by auto
    moreover from this have "w = v"
      using find_key_distinct [OF data_ok_distinct [OF assms], of k w] that assms
      by (simp add: keyed_values_find data_ok_def)
    ultimately show "unneeded ?c v" by simp
  next
    assume "unneeded ?c v"
    then show "k \<in> set ?ks"
      using map_get_in_values [OF that] data_ok_key [OF assms that] by auto
  qed
  then show ?thesis
    by (auto simp: cleanServers_def jm.get_dels split: option.split)
qed


section \<open>Every operation keeps the protocol\<close>

text \<open>What an operation does to an instance that has the last version, and to any instance.\<close>

definition committed :: "vpn_saved_data \<Rightarrow> vpn_saved_data \<Rightarrow> bool" where
  "committed s s' \<longleftrightarrow> up_to_date s' \<and> storageProblems s' = storageProblems s \<and>
     (store s' = store s \<or>
      stored_version (stored (store s')) = stored_version (stored (store s)) + 1)"

definition op_ok :: "vpn_saved_data \<Rightarrow> vpn_saved_data \<Rightarrow> bool" where
  "op_ok s s' \<longleftrightarrow> store_ok (store s') \<and> instance_ok (store s') s' \<and>
     (store s' = store s \<or>
      stored_version (stored (store s')) = stored_version (stored (store s)) + 1)"

lemma committed_refl: "up_to_date s \<Longrightarrow> committed s s"
  by (simp add: committed_def)

lemma committed_op_ok: "committed s s' \<Longrightarrow> op_ok s s'"
  by (auto simp: committed_def op_ok_def up_to_date_def)

lemma saved_committed:
  assumes "up_to_date s" and "server_update upd" and "up_to_date s'" and "saved_as (upd s) s'"
  shows "committed s s'"
  using assms
  by (auto simp: committed_def saved_as_def up_to_date_def server_update_def)

lemma commit:
  assumes "server_update upd" and "up_to_date s"
  shows "\<exists>s'. saveData (upd s) = Inr s' \<and> committed s s'"
  by (rule server_update.save_update [OF assms]) (use assms saved_committed in blast)

lemma committed_emit:
  "committed s s' \<Longrightarrow> committed s (emitCurrentServer s')"
  by (auto simp: committed_def up_to_date_def instance_ok_def agrees_with_def split: option.split)

lemma checked_op:
  assumes "store_ok (store s)" and "instance_ok (store s) s"
    and "\<And>s1. up_to_date s1 \<Longrightarrow> store s1 = store s \<Longrightarrow> \<exists>s'. body s1 = Inr s' \<and> committed s1 s'"
  shows "\<exists>s'. bindR (checkIfDataWasChanged s) body = Inr s' \<and> committed s s'"
proof -
  obtain s1 where s1: "checkIfDataWasChanged s = Inr s1" "up_to_date s1" "store s1 = store s"
    "storageProblems s1 = storageProblems s"
    by (rule check_up_to_date [OF assms(1,2)])
  then show ?thesis
    using assms(3) [OF s1(2,3)] by (auto simp: committed_def)
qed

lemma check_noop:
  "read_saved (store s) = Inr r \<Longrightarrow> stored_version r = savedDataVersion s \<Longrightarrow> checkIfDataWasChanged s = Inr s"
  by (simp add: checkIfDataWasChanged_def)

lemma fold_update:
  assumes "\<And>x. server_update (f x)"
  shows "server_update (\<lambda>s. fold f xs s)"
proof (induction xs)
  case Nil
  show ?case by unfold_locales simp_all
next
  case (Cons x xs)
  show ?case using server_update_comp [OF assms Cons.IH, of x] by simp
qed

lemma updateFromDiscovery_ok:
  assumes "store_ok (store s)" and "instance_ok (store s) s"
  shows "\<exists>s'. updateFromDiscovery vs s = Inr s' \<and> committed s s'"
  unfolding updateFromDiscovery_def
  by (rule checked_op [OF assms], rule commit)
    (auto intro: fold_update discovery.server_update_axioms)

lemma processFromDiscovery_ok:
  assumes "store_ok (store s)" and "instance_ok (store s) s"
  shows "\<exists>s' v. processFromDiscovery n s = Inr (s', v) \<and> committed s s'"
proof -
  obtain s1 where s1: "checkIfDataWasChanged s = Inr s1" "up_to_date s1" "store s1 = store s"
    "storageProblems s1 = storageProblems s"
    by (rule check_up_to_date [OF assms])
  have "\<exists>s'. saveData (modify_saved (vs_pk n) (with_discovery_data n) s1) = Inr s' \<and> committed s1 s'"
    by (rule commit [OF discovery.server_update_axioms s1(2)])
  then show ?thesis
    using s1 by (auto simp: processFromDiscovery_def committed_def split: option.split)
qed

lemma processFromManual_ok:
  assumes "store_ok (store s)" and "instance_ok (store s) s"
  shows "\<exists>s' v. processFromManual n s = Inr (s', v) \<and> committed s s'"
proof -
  obtain s1 where s1: "checkIfDataWasChanged s = Inr s1" "up_to_date s1" "store s1 = store s"
    "storageProblems s1 = storageProblems s"
    by (rule check_up_to_date [OF assms])
  have "\<exists>s'. saveData (modify_saved (man_pk n) (with_manual_data n) s1) = Inr s' \<and> committed s1 s'"
    by (rule commit [OF manual.server_update_axioms s1(2)])
  then show ?thesis
    using s1 by (auto simp: processFromManual_def committed_def split: option.split)
qed

lemmas clean_after = server_update_comp [OF _ clean.server_update_axioms]

lemma changeFlag_ok:
  assumes "store_ok (store s)" and "instance_ok (store s) s"
  shows "\<exists>s'. changeFlag v f s = Inr s' \<and> committed s s'"
  unfolding changeFlag_def
proof (rule checked_op [OF assms])
  fix s1 :: vpn_saved_data
  assume s1: "up_to_date s1" "store s1 = store s"
  let ?w = "case map_get (serversMap s1) (server_pk v) of Some r \<Rightarrow> r | None \<Rightarrow> v"
  have "server_pk (?w\<lparr>flag := f\<rparr>) = server_pk v"
    using s1(1) by (auto simp: up_to_date_def instance_ok_def dest: data_ok_key split: option.split)
  then show "\<exists>s'. (let w = ?w in if flag w = f then Inr s1
      else saveData (cleanServers (s1\<lparr>serversMap := map_set (server_pk v) (w\<lparr>flag := f\<rparr>) (serversMap s1)\<rparr>)))
      = Inr s' \<and> committed s1 s'"
    using commit [OF clean_after [OF put.server_update_axioms] s1(1), of "?w\<lparr>flag := f\<rparr>"]
      committed_refl [OF s1(1)]
    by (simp add: put_server_def)
qed

lemma removeFromHistory_ok:
  assumes "store_ok (store s)" and "instance_ok (store s) s"
  shows "\<exists>s'. removeFromHistory k s = Inr s' \<and> committed s s'"
  unfolding removeFromHistory_def
proof (rule checked_op [OF assms])
  fix s1 :: vpn_saved_data
  assume s1: "up_to_date s1" "store s1 = store s"
  show "\<exists>s'. (case map_get (serversMap s1) k of None \<Rightarrow> Inr s1
      | Some v \<Rightarrow> if \<not> inHistory v then Inr s1
          else saveData (cleanServers (modify_saved k (\<lambda>v. v\<lparr>inHistory := False\<rparr>) s1))) = Inr s' \<and>
      committed s1 s'"
    using commit [OF clean_after [OF hide_history.server_update_axioms] s1(1)] committed_refl [OF s1(1)]
    by (simp split: option.split)
qed

lemma modifyCurrentServer_ok:
  assumes "store_ok (store s)" and "instance_ok (store s) s"
  shows "\<exists>s'. modifyCurrentServer v s = Inr s' \<and> committed s s'"
  unfolding modifyCurrentServer_def
proof (rule checked_op [OF assms])
  fix s1 :: vpn_saved_data
  assume s1: "up_to_date s1" "store s1 = store s"
  note sel = clean_after [OF select.server_update_axioms]
  show "\<exists>s'. (if Str (server_pk v) = currentServerPk s1 then Inr s1
      else let s2 = (if \<not> map_has (serversMap s1) (server_pk v)
               then s1\<lparr>serversMap := map_set (server_pk v) v (serversMap s1)\<rparr> else s1)
        in saveData (cleanServers (updateCurrentServerPk (server_pk v) s2))) = Inr s' \<and> committed s1 s'"
    using commit [OF sel s1(1), of "server_pk v"] committed_refl [OF s1(1)]
      commit [OF server_update_comp [OF put.server_update_axioms sel] s1(1), of "server_pk v" v]
    by (simp add: put_server_def)
qed

text \<open>
  \<open>compareCurrentServer\<close> checks the storage a second time inside \<open>processFromManual\<close>; that check
  finds nothing new.
\<close>

definition unknown_server :: "string \<Rightarrow> LocalServerData" where
  "unknown_server k =
     \<lparr>countryCode = ''zz'', server_name = [], customName = Undefined, server_pk = k, lastUsed = 0,
      inHistory = False, flag = FlagNone, server_location = [], server_note = [],
      personalNote = Undefined, usedWithPassword = False, enteredManually = True\<rparr>"

lemma processFromManual_unknown:
  assumes "up_to_date s1" and "map_get (serversMap s1) k = None"
  shows "processFromManual \<lparr>man_pk = k, man_password = Undefined, man_name = Undefined, man_note = Undefined\<rparr>
      (s1\<lparr>currentServerPk := c\<rparr>) = Inr (s1\<lparr>currentServerPk := c\<rparr>, unknown_server k)"
proof -
  have "read_saved (store s1) = Inr (stored (store s1))"
    "stored_version (stored (store s1)) = savedDataVersion s1"
    using assms(1) store_ok_read by (auto simp: up_to_date_def)
  then have "checkIfDataWasChanged (s1\<lparr>currentServerPk := c\<rparr>) = Inr (s1\<lparr>currentServerPk := c\<rparr>)"
    by (intro check_noop) simp_all
  then show ?thesis
    using assms(2) by (simp add: processFromManual_def unknown_server_def)
qed

definition select_compared :: "string \<Rightarrow> vpn_saved_data \<Rightarrow> vpn_saved_data" where
  "select_compared k s =
     (let s2 = s\<lparr>currentServerPk := Str k\<rparr> in
      if map_get (serversMap s2) k = None then cleanServers (put_server (unknown_server k) s2) else s2)"

interpretation compared: server_update "select_compared k" for k
  by unfold_locales
    (simp_all add: select_compared_def clean.upd_store clean.upd_version clean.upd_problems
      clean.upd_data put.upd_store put.upd_version put.upd_problems put.upd_data)

lemma compareCurrentServer_up_to_date:
  assumes "store_ok (store s)" and "checkIfDataWasChanged s = Inr s1" and "up_to_date s1"
  shows "compareCurrentServer k s =
    (case k of
       Str x \<Rightarrow>
         if x \<noteq> [] then
           if currentServerPk s1 \<noteq> k
           then bindR (saveData (select_compared x s1)) (\<lambda>s2. Inr (emitCurrentServer s2)) else Inr s1
         else if truthy (currentServerPk s1)
         then bindR (saveData (s1\<lparr>currentServerPk := Null\<rparr>)) (\<lambda>s2. Inr (emitCurrentServer s2)) else Inr s1
     | _ \<Rightarrow> if truthy (currentServerPk s1)
         then bindR (saveData (s1\<lparr>currentServerPk := Null\<rparr>)) (\<lambda>s2. Inr (emitCurrentServer s2)) else Inr s1)"
proof (cases "truthy k")
  case True
  then obtain x where x: "k = Str x" "x \<noteq> []" by (auto simp: truthy_iff)
  then show ?thesis
    using assms(2,3)
    by (auto simp: compareCurrentServer_def select_compared_def processFromManual_unknown put_server_def
        unknown_server_def truthy_iff)
next
  case False
  then show ?thesis
    using assms(2) by (cases k) (auto simp: compareCurrentServer_def)
qed

lemma compareCurrentServer_ok:
  assumes "store_ok (store s)" and "instance_ok (store s) s"
  shows "\<exists>s'. compareCurrentServer k s = Inr s' \<and> committed s s'"
proof -
  obtain s1 where s1: "checkIfDataWasChanged s = Inr s1" "up_to_date s1" "store s1 = store s"
    "storageProblems s1 = storageProblems s"
    by (rule check_up_to_date [OF assms])
  have commit1: "\<exists>s'. bindR (saveData (upd s1)) (\<lambda>s2. Inr (emitCurrentServer s2)) = Inr s' \<and> committed s s'"
    if "server_update upd" for upd
    using commit [OF that s1(2)] s1(3,4) committed_emit [of s1]
    by (auto simp: committed_def)
  have "committed s s1" using s1 by (simp add: committed_def)
  then show ?thesis
    unfolding compareCurrentServer_up_to_date [OF assms(1) s1(1,2)]
    using commit1 [OF compared.server_update_axioms] commit1 [OF current.server_update_axioms]
    by (simp split: jsstr.split)
qed


definition record_use :: "string \<Rightarrow> int \<Rightarrow> vpn_saved_data \<Rightarrow> vpn_saved_data" where
  "record_use k now s =
     (let s2 = modify_saved k (\<lambda>v. v\<lparr>lastUsed := now, inHistory := True\<rparr>) s
      in s2\<lparr>serversMap := limit_history (serversMap s2)\<rparr>)"

interpretation record_use: server_update "record_use k now" for k now
  unfolding record_use_def Let_def
  by (rule server_update_comp [OF use.server_update_axioms limit.server_update_axioms])

lemma updateHistory_ok:
  assumes "store_ok (store s)" and "instance_ok (store s) s"
    and "checkIfDataWasChanged s = Inr s1" and "currentServerPk s1 = Str k" and "currentServer s1 = Some v"
  shows "\<exists>s'. updateHistory now s = Inr s' \<and> committed s s'"
proof -
  have s1: "up_to_date s1" "store s1 = store s" "storageProblems s1 = storageProblems s"
    using check_up_to_date [OF assms(1,2)] assms(3) by (metis sum.inject(2))+
  show ?thesis
    using commit [OF clean_after [OF record_use.server_update_axioms] s1(1), of k now] assms(3-5) s1(2,3)
    by (auto simp: updateHistory_def record_use_def committed_def)
qed

text \<open>
  \<open>updateServer\<close> is the only operation that writes without checking first: it works on the data
  the caller has shown to the user. When another instance has written in between, nothing is
  stored and the problem is reported.
\<close>

lemma updateServer_put: "updateServer v s = saveData (cleanServers (put_server v s))"
  by (simp add: updateServer_def put_server_def)

lemma updateServer_cases:
  assumes "store_ok (store s)" and "instance_ok (store s) s"
  shows "\<exists>s'. updateServer v s = Inr s' \<and> op_ok s s' \<and>
    (if savedDataVersion s = stored_version (stored (store s)) then committed s s'
     else store s' = store s \<and> storageProblems s' = storageProblems s + 1)"
proof -
  let ?u = "\<lambda>s. cleanServers (put_server v s)"
  have u: "server_update ?u" by (rule clean_after [OF put.server_update_axioms])
  have upd: "updateServer v s = saveData (?u s)"
    by (rule updateServer_put)
  show ?thesis
  proof (cases "savedDataVersion s = stored_version (stored (store s))")
    case True
    then have "up_to_date s" using assms by (simp add: up_to_date_def)
    from commit [OF u this] show ?thesis using committed_op_ok upd True by auto
  next
    case False
    let ?s' = "(?u s)\<lparr>storageProblems := storageProblems (?u s) + 1\<rparr>"
    have store: "store (?u s) = store s" and ver: "savedDataVersion (?u s) = savedDataVersion s"
      and prob: "storageProblems (?u s) = storageProblems s" and data: "data_ok (serversMap (?u s))"
      using u assms(2) by (simp_all add: server_update_def instance_ok_def)
    have "saveData (?u s) = Inr ?s'"
      using False store_ok_read [OF assms(1)] by (simp add: saveData_def store ver)
    moreover have "instance_ok (store s) ?s'"
      using False assms(2) data by (auto simp: instance_ok_def ver)
    ultimately show ?thesis
      using False assms(1) upd by (simp add: op_ok_def store prob)
  qed
qed

lemma initializeVpnData_ok:
  assumes "store_ok (store s)" and "instance_ok (store s) s"
  shows "\<exists>s'. initializeVpnData s = Inr s' \<and> committed s s'"
proof (cases "stored (store s)")
  case None
  have "up_to_date (launchListEvents (s\<lparr>serversMap := []\<rparr>))"
    using assms None by (auto simp: up_to_date_def instance_ok_def agrees_with_def stored_version_def)
  then show ?thesis
    using None store_ok_read [OF assms(1)] assms(1)
    by (simp add: initializeVpnData_def migrate_nothing committed_def)
next
  case (Some d)
  show ?thesis
    by (rule initialize_up_to_date [OF assms(1) Some]) (auto simp: committed_def)
qed

section \<open>Several instances over one storage\<close>

datatype vpn_op =
    OpInitialize
  | OpGetSavedVersion string bool
  | OpUpdateFromDiscovery "VpnServer list"
  | OpUpdateServer LocalServerData
  | OpProcessFromDiscovery VpnServer
  | OpProcessFromManual ManualVpnServerData
  | OpChangeFlag LocalServerData ServerFlags
  | OpRemoveFromHistory string
  | OpModifyCurrentServer LocalServerData
  | OpCompareCurrentServer jsstr
  | OpUpdateHistory int

fun run_op :: "vpn_op \<Rightarrow> vpn_saved_data \<Rightarrow> vpn_saved_data js_result" where
  "run_op OpInitialize s = initializeVpnData s"
| "run_op (OpGetSavedVersion k u) s = bindR (getSavedVersion k u s) (\<lambda>(s', _). Inr s')"
| "run_op (OpUpdateFromDiscovery vs) s = updateFromDiscovery vs s"
| "run_op (OpUpdateServer v) s = updateServer v s"
| "run_op (OpProcessFromDiscovery n) s = bindR (processFromDiscovery n s) (\<lambda>(s', _). Inr s')"
| "run_op (OpProcessFromManual n) s = bindR (processFromManual n s) (\<lambda>(s', _). Inr s')"
| "run_op (OpChangeFlag v f) s = changeFlag v f s"
| "run_op (OpRemoveFromHistory k) s = removeFromHistory k s"
| "run_op (OpModifyCurrentServer v) s = modifyCurrentServer v s"
| "run_op (OpCompareCurrentServer k) s = compareCurrentServer k s"
| "run_op (OpUpdateHistory now) s = updateHistory now s"

lemma getSavedVersion_ok:
  assumes "store_ok (store s)" and "instance_ok (store s) s"
  shows "\<exists>s' r. getSavedVersion k u s = Inr (s', r) \<and> op_ok s s' \<and> storageProblems s' = storageProblems s"
proof (cases u)
  case True
  show ?thesis
    by (rule check_up_to_date [OF assms])
      (use True in \<open>auto simp: getSavedVersion_def op_ok_def up_to_date_def\<close>)
next
  case False
  then show ?thesis using assms by (simp add: getSavedVersion_def op_ok_def)
qed

lemma run_op_ok:
  assumes "store_ok (store s)" and "instance_ok (store s) s" and "run_op op s = Inr s'"
  shows "op_ok s s'"
proof (cases op)
  case OpInitialize
  then show ?thesis using assms initializeVpnData_ok committed_op_ok by fastforce
next
  case (OpGetSavedVersion k u)
  then show ?thesis using assms(3) getSavedVersion_ok [OF assms(1,2), of k u] by auto
next
  case (OpUpdateFromDiscovery vs)
  then show ?thesis using assms(3) updateFromDiscovery_ok [OF assms(1,2), of vs] committed_op_ok by auto
next
  case (OpUpdateServer v)
  then show ?thesis using assms(3) updateServer_cases [OF assms(1,2), of v] by auto
next
  case (OpProcessFromDiscovery n)
  then show ?thesis using assms(3) processFromDiscovery_ok [OF assms(1,2), of n] committed_op_ok by auto
next
  case (OpProcessFromManual n)
  then show ?thesis using assms(3) processFromManual_ok [OF assms(1,2), of n] committed_op_ok by auto
next
  case (OpChangeFlag v f)
  then show ?thesis using assms(3) changeFlag_ok [OF assms(1,2), of v f] committed_op_ok by auto
next
  case (OpRemoveFromHistory k)
  then show ?thesis using assms(3) removeFromHistory_ok [OF assms(1,2), of k] committed_op_ok by auto
next
  case (OpModifyCurrentServer v)
  then show ?thesis using assms(3) modifyCurrentServer_ok [OF assms(1,2), of v] committed_op_ok by auto
next
  case (OpCompareCurrentServer k)
  then show ?thesis using assms(3) compareCurrentServer_ok [OF assms(1,2), of k] committed_op_ok by auto
next
  case (OpUpdateHistory now)
  obtain s1 where s1: "checkIfDataWasChanged s = Inr s1" "up_to_date s1" "store s1 = store s"
    "storageProblems s1 = storageProblems s"
    by (rule check_up_to_date [OF assms(1,2)])
  then obtain k v where "currentServerPk s1 = Str k" "currentServer s1 = Some v"
    using assms(3) OpUpdateHistory
    by (auto simp: updateHistory_def split: option.splits jsstr.splits)
  from updateHistory_ok [OF assms(1,2) s1(1) this, of now] show ?thesis
    using assms(3) OpUpdateHistory committed_op_ok by auto
qed


record vpn_world =
  shared :: hv_store
  instances :: "vpn_saved_data list"

text \<open>The service as it is created; \<open>initialize\<close> has still to run.\<close>

definition fresh_vpn_data :: "hv_store \<Rightarrow> vpn_saved_data" where
  "fresh_vpn_data st =
     \<lparr>store = st, currentServerPk = Undefined, serversMap = [], savedDataVersion = 0,
      currentServerEvents = [], historyEvents = [], favoritesEvents = [], blockedEvents = [],
      storageProblems = 0\<rparr>"

text \<open>
  One step: the user opens the application in another window, or one of the instances runs one of
  the operations to its end on the storage they share.
\<close>

inductive world_step :: "vpn_world \<Rightarrow> vpn_world \<Rightarrow> bool" where
  open_instance:
    "world_step w (w\<lparr>instances := instances w @ [fresh_vpn_data (shared w)]\<rparr>)"
| run_instance:
    "i < length (instances w) \<Longrightarrow> run_op op ((instances w ! i)\<lparr>store := shared w\<rparr>) = Inr s' \<Longrightarrow>
     world_step w (w\<lparr>shared := store s', instances := (instances w)[i := s']\<rparr>)"

inductive reachable_world :: "hv_store \<Rightarrow> vpn_world \<Rightarrow> bool" for st where
  world_start: "reachable_world st \<lparr>shared = st, instances = []\<rparr>"
| world_next: "reachable_world st w \<Longrightarrow> world_step w w' \<Longrightarrow> reachable_world st w'"

definition world_ok :: "vpn_world \<Rightarrow> bool" where
  "world_ok w \<longleftrightarrow> store_ok (shared w) \<and> (\<forall>s \<in> set (instances w). instance_ok (shared w) s)"

lemma fresh_instance_ok: "store_ok st \<Longrightarrow> instance_ok st (fresh_vpn_data st)"
  using store_ok_saved [of st]
  by (auto simp: instance_ok_def fresh_vpn_data_def agrees_with_def stored_version_def saved_ok_def
      split: option.splits)

lemma instance_ok_store [simp]: "instance_ok st (s\<lparr>store := st'\<rparr>) = instance_ok st s"
  by (simp add: instance_ok_def agrees_with_def split: option.split)

lemma world_step_ok:
  assumes "world_step w w'" and "world_ok w"
  shows "world_ok w'"
  using assms(1)
proof (cases rule: world_step.cases)
  case open_instance
  then show ?thesis using assms(2) by (auto simp: world_ok_def fresh_instance_ok)
next
  case (run_instance i op s')
  let ?s = "(instances w ! i)\<lparr>store := shared w\<rparr>"
  have "store_ok (store ?s)" "instance_ok (store ?s) ?s"
    using assms(2) run_instance(2) by (auto simp: world_ok_def)
  then have ok: "op_ok ?s s'" using run_instance(3) by (rule run_op_ok)
  have "instance_ok (store s') s" if "instance_ok (shared w) s" for s
    using ok that by (auto simp: op_ok_def instance_ok_def)
  then show ?thesis
    using ok assms(2) run_instance(1) set_update_subset_insert [of "instances w" i s']
    by (auto simp: world_ok_def op_ok_def)
qed

lemma reachable_world_ok:
  assumes "reachable_world st w" and "store_ok st"
  shows "world_ok w"
  using assms
proof (induction rule: reachable_world.induct)
  case world_start
  then show ?case by (simp add: world_ok_def)
next
  case (world_next w w')
  then show ?case using world_step_ok by blast
qed

text \<open>
  Property C1. The version protocol is an invariant of any number of instances that share the
  storage and run any operations in any order: the storage always holds readable data without
  repeated servers, no instance ever believes in a version newer than the stored one, and an
  instance whose version is the stored one holds exactly the stored servers.
\<close>

theorem vpn_world_invariant:
  assumes "reachable_world st w" and "store_ok st" and "s \<in> set (instances w)"
  shows "store_ok (shared w) \<and> savedDataVersion s \<le> stored_version (stored (shared w)) \<and>
    map_wf (serversMap s) \<and>
    (savedDataVersion s = stored_version (stored (shared w)) \<longrightarrow>
      map_values (serversMap s) = (case stored (shared w) of None \<Rightarrow> [] | Some d \<Rightarrow> serverList d))"
proof -
  have "instance_ok (shared w) s" "store_ok (shared w)"
    using reachable_world_ok [OF assms(1,2)] assms(3) by (auto simp: world_ok_def)
  then show ?thesis
    by (auto simp: instance_ok_def data_ok_def agrees_with_def map_values_def split: option.splits)
qed

text \<open>The operations that check the storage before they write.\<close>

fun checks_first :: "vpn_op \<Rightarrow> bool" where
  "checks_first (OpUpdateServer v) = False"
| "checks_first (OpUpdateHistory now) = False"
| "checks_first (OpGetSavedVersion k u) = u"
| "checks_first op = True"

lemma run_checked_op:
  assumes "store_ok (store s)" and "instance_ok (store s) s" and "checks_first op"
  shows "\<exists>s'. run_op op s = Inr s' \<and> committed s s'"
proof (cases op)
  case OpInitialize
  then show ?thesis using initializeVpnData_ok [OF assms(1,2)] by simp
next
  case (OpGetSavedVersion k u)
  show ?thesis
    by (rule check_up_to_date [OF assms(1,2)])
      (use assms(3) OpGetSavedVersion in \<open>auto simp: getSavedVersion_def committed_def\<close>)
next
  case (OpProcessFromDiscovery n)
  then show ?thesis using processFromDiscovery_ok [OF assms(1,2), of n] by auto
next
  case (OpProcessFromManual n)
  then show ?thesis using processFromManual_ok [OF assms(1,2), of n] by auto
qed (use assms updateFromDiscovery_ok changeFlag_ok removeFromHistory_ok modifyCurrentServer_ok
      compareCurrentServer_ok in auto)


text \<open>
  Property C28. The write without a check is refused when it would overwrite what another instance
  has stored: the storage stays as it is and the problem page is opened once. With the last version
  at hand it is stored.
\<close>

theorem updateServer_no_overwrite:
  assumes "reachable_world st w" and "store_ok st" and "i < length (instances w)"
  shows "\<exists>s'. updateServer v ((instances w ! i)\<lparr>store := shared w\<rparr>) = Inr s' \<and>
    (if savedDataVersion (instances w ! i) = stored_version (stored (shared w))
     then stored (store s') = Some (saved_state s') \<and> storageProblems s' = storageProblems (instances w ! i)
     else store s' = shared w \<and> storageProblems s' = storageProblems (instances w ! i) + 1)"
proof -
  let ?s = "(instances w ! i)\<lparr>store := shared w\<rparr>"
  have ok: "store_ok (store ?s)" "instance_ok (store ?s) ?s"
    using reachable_world_ok [OF assms(1,2)] assms(3) by (auto simp: world_ok_def)
  have u: "server_update (\<lambda>s. cleanServers (put_server v s))"
    by (rule clean_after [OF put.server_update_axioms])
  show ?thesis
  proof (cases "savedDataVersion ?s = stored_version (stored (store ?s))")
    case True
    then have "up_to_date ?s" using ok by (simp add: up_to_date_def)
    then obtain s' where "saveData (cleanServers (put_server v ?s)) = Inr s'"
      "saved_as (cleanServers (put_server v ?s)) s'"
      by (rule server_update.save_update [OF u])
    moreover have "storageProblems (cleanServers (put_server v ?s)) = storageProblems (instances w ! i)"
      by (simp add: clean.upd_problems put.upd_problems)
    ultimately show ?thesis
      using True by (auto simp: updateServer_put saved_as_def)
  next
    case False
    then show ?thesis using updateServer_cases [OF ok, of v] by auto
  qed
qed


section \<open>What the operations store\<close>

definition stored_lookup :: "hv_store \<Rightarrow> string \<Rightarrow> LocalServerData option" where
  "stored_lookup st k =
     (case stored st of None \<Rightarrow> None | Some d \<Rightarrow> find (\<lambda>v. server_pk v = k) (serverList d))"

text \<open>A server survives an operation unless nothing makes it worth keeping.\<close>

definition keep_needed :: "jsstr \<Rightarrow> LocalServerData option \<Rightarrow> LocalServerData option" where
  "keep_needed current r =
     (case r of None \<Rightarrow> None | Some v \<Rightarrow> if unneeded current v then None else Some v)"

lemma up_to_date_lookup:
  assumes "up_to_date s"
  shows "map_get (serversMap s) k = stored_lookup (store s) k"
proof -
  have "keyed server_pk (serversMap s)" and agrees: "agrees_with (stored (store s)) s"
    using assms by (auto simp: up_to_date_def instance_ok_def data_ok_def)
  from keyed_values_find [OF this(1), of k] show ?thesis
    using agrees by (auto simp: stored_lookup_def agrees_with_def map_get_def split: option.splits)
qed

lemma cleaned_save_lookup:
  assumes "server_update upd" and "up_to_date s" and "up_to_date s'" and "saved_as (cleanServers (upd s)) s'"
  shows "stored_lookup (store s') k = keep_needed (currentServerPk (upd s)) (map_get (serversMap (upd s)) k)"
    and "currentServerPk s' = currentServerPk (upd s)"
proof -
  have "data_ok (serversMap (upd s))"
    using assms(1,2) by (simp add: server_update_def up_to_date_def instance_ok_def)
  from clean_lookup [OF this, of k] show "stored_lookup (store s') k =
      keep_needed (currentServerPk (upd s)) (map_get (serversMap (upd s)) k)"
    using assms(3,4) up_to_date_lookup [OF assms(3), of k] by (simp add: saved_as_def keep_needed_def)
  show "currentServerPk s' = currentServerPk (upd s)"
    using assms(4) by (simp add: saved_as_def) (simp add: cleanServers_def)
qed

lemma changeFlag_effect:
  assumes "store_ok (store s)" and "instance_ok (store s) s"
    and "v = (case stored_lookup (store s) (server_pk server) of Some r \<Rightarrow> r | None \<Rightarrow> server)"
    and "flag v \<noteq> f"
  shows "\<exists>s'. changeFlag server f s = Inr s' \<and> up_to_date s' \<and>
    stored_version (stored (store s')) = stored_version (stored (store s)) + 1 \<and>
    (\<forall>k. stored_lookup (store s') k = keep_needed (currentServerPk s')
      (if k = server_pk server then Some (v\<lparr>flag := f\<rparr>) else stored_lookup (store s) k))"
proof -
  obtain s1 where s1: "checkIfDataWasChanged s = Inr s1" "up_to_date s1" "store s1 = store s"
    "storageProblems s1 = storageProblems s"
    by (rule check_up_to_date [OF assms(1,2)])
  have look: "map_get (serversMap s1) k = stored_lookup (store s) k" for k
    using up_to_date_lookup [OF s1(2)] s1(3) by simp
  have pk: "server_pk (v\<lparr>flag := f\<rparr>) = server_pk server"
    using assms(3) look [symmetric] s1(2)
    by (auto simp: up_to_date_def instance_ok_def dest: data_ok_key split: option.split)
  let ?u = "put_server (v\<lparr>flag := f\<rparr>)"
  obtain s' where s': "saveData (cleanServers (?u s1)) = Inr s'" "up_to_date s'"
    "saved_as (cleanServers (?u s1)) s'"
    by (rule server_update.save_update [OF clean_after [OF put.server_update_axioms] s1(2)])
  have run: "changeFlag server f s = Inr s'"
    using s1(1) s'(1) assms(3,4) pk by (simp add: changeFlag_def look put_server_def)
  have ver: "stored_version (stored (store s')) = stored_version (stored (store s)) + 1"
    using s'(2,3) s1(2,3) clean.upd_version put.upd_version by (auto simp: saved_as_def up_to_date_def)
  note stored = cleaned_save_lookup [OF put.server_update_axioms s1(2) s'(2,3)]
  have "stored_lookup (store s') k = keep_needed (currentServerPk s')
      (if k = server_pk server then Some (v\<lparr>flag := f\<rparr>) else stored_lookup (store s) k)" for k
    unfolding stored using pk look by (simp add: put_server_def js_map_simps)
  with run s'(2) ver show ?thesis by blast
qed

text \<open>
  Property C3. Changing the flag of a server stores exactly that change, on top of whatever the
  other instances have stored meanwhile: the server is looked up in the stored data (the copy the
  caller holds only counts for a server that is not stored), its flag is replaced, every other
  stored server stays, and servers that nothing makes worth keeping are dropped.
\<close>

theorem changeFlag_correct:
  assumes "store_ok (store s)" and "instance_ok (store s) s"
    and "v = (case stored_lookup (store s) (server_pk server) of Some r \<Rightarrow> r | None \<Rightarrow> server)"
    and "flag v \<noteq> f"
  shows "\<exists>s'. changeFlag server f s = Inr s' \<and> up_to_date s' \<and>
    stored_version (stored (store s')) = stored_version (stored (store s)) + 1 \<and>
    (\<forall>k. stored_lookup (store s') k = keep_needed (currentServerPk s')
      (if k = server_pk server then Some (v\<lparr>flag := f\<rparr>) else stored_lookup (store s) k))"
  using changeFlag_effect [OF assms] .

text \<open>
  Removing a server from the history clears its mark in the stored data and drops the
  server when nothing else makes it worth keeping; no other server is touched.
\<close>

theorem removeFromHistory_correct:
  assumes "store_ok (store s)" and "instance_ok (store s) s"
    and "stored_lookup (store s) pk = Some v" and "inHistory v"
  shows "\<exists>s'. removeFromHistory pk s = Inr s' \<and> up_to_date s' \<and>
    (\<forall>k. stored_lookup (store s') k = keep_needed (currentServerPk s')
      (if k = pk then Some (v\<lparr>inHistory := False\<rparr>) else stored_lookup (store s) k))"
proof -
  obtain s1 where s1: "checkIfDataWasChanged s = Inr s1" "up_to_date s1" "store s1 = store s"
    "storageProblems s1 = storageProblems s"
    by (rule check_up_to_date [OF assms(1,2)])
  have look: "map_get (serversMap s1) k = stored_lookup (store s) k" for k
    using up_to_date_lookup [OF s1(2)] s1(3) by simp
  let ?u = "modify_saved pk (\<lambda>v. v\<lparr>inHistory := False\<rparr>)"
  obtain s' where s': "saveData (cleanServers (?u s1)) = Inr s'" "up_to_date s'"
    "saved_as (cleanServers (?u s1)) s'"
    by (rule server_update.save_update [OF clean_after [OF hide_history.server_update_axioms] s1(2)])
  have run: "removeFromHistory pk s = Inr s'"
    using s1(1) s'(1) assms(3,4) by (simp add: removeFromHistory_def look)
  note stored = cleaned_save_lookup [OF hide_history.server_update_axioms s1(2) s'(2,3)]
  have "stored_lookup (store s') k = keep_needed (currentServerPk s')
      (if k = pk then Some (v\<lparr>inHistory := False\<rparr>) else stored_lookup (store s) k)" for k
    unfolding stored using look assms(3) by (simp add: modify_saved_def js_map_simps)
  with run s'(2) show ?thesis by blast
qed


section \<open>The history\<close>

interpretation last_use: js_comparator by_last_use "\<lambda>_. True"
  by unfold_locales (auto simp: by_last_use_def)

definition old_entries :: "(string, LocalServerData) jsmap \<Rightarrow> (string \<times> LocalServerData) list" where
  "old_entries m = drop maxHistoryElements (historyList m)"

definition recent_entries :: "(string, LocalServerData) jsmap \<Rightarrow> (string \<times> LocalServerData) list" where
  "recent_entries m = take maxHistoryElements (historyList m)"

lemma history_split: "historyList m = recent_entries m @ old_entries m"
  by (simp add: recent_entries_def old_entries_def)

lemma set_historyList: "set (historyList m) = {e \<in> set m. inHistory (snd e)}"
  by (auto simp: historyList_def)

lemma recent_before_old:
  assumes "a \<in> set (recent_entries m)" and "b \<in> set (old_entries m)"
  shows "lastUsed (snd b) \<le> lastUsed (snd a)"
proof -
  have "sorted_wrt (\<lambda>a b. by_last_use a b \<le> 0) (recent_entries m @ old_entries m)"
    using last_use.sorted_sort [of "filter (\<lambda>e. inHistory (snd e)) m"]
    by (simp add: history_split [symmetric] historyList_def)
  then show ?thesis
    using assms by (auto simp: sorted_wrt_append by_last_use_def)
qed

lemma distinct_history_keys: "map_wf m \<Longrightarrow> distinct (map fst (historyList m))"
  by (simp add: historyList_def distinct_map map_wf_def distinct_map_filter inj_on_def)

lemma limit_history_get:
  "map_get (limit_history m) k =
     map_option (\<lambda>v. if k \<in> fst ` set (old_entries m) then v\<lparr>inHistory := False\<rparr> else v) (map_get m k)"
proof -
  have "map_of (map (\<lambda>(k, v). if k \<in> K then (k, f v) else (k, v)) xs) k =
      map_option (\<lambda>v. if k \<in> K then f v else v) (map_of xs k)"
    for K :: "string set" and f :: "LocalServerData \<Rightarrow> LocalServerData" and xs
    by (induction xs) auto
  then show ?thesis
    by (simp add: limit_history_def map_get_def old_entries_def)
qed

lemma limited_entries:
  assumes "map_wf m"
  shows "set (filter (\<lambda>e. inHistory (snd e)) (limit_history m)) = set (recent_entries m)"
proof -
  have keys: "fst ` set (recent_entries m) \<inter> fst ` set (old_entries m) = {}"
    using distinct_history_keys [OF assms] by (simp add: history_split)
  have all: "e \<in> set m \<and> inHistory (snd e) \<longleftrightarrow> e \<in> set (recent_entries m) \<or> e \<in> set (old_entries m)" for e
    using set_historyList [of m] by (auto simp: history_split)
  have "filter (\<lambda>e. inHistory (snd e))
        (map (\<lambda>(k, v). if k \<in> K then (k, v\<lparr>inHistory := False\<rparr>) else (k, v)) xs) =
      filter (\<lambda>e. inHistory (snd e) \<and> fst e \<notin> K) xs"
    for K and xs :: "(string, LocalServerData) jsmap"
    by (induction xs) (auto split: if_splits)
  then have "set (filter (\<lambda>e. inHistory (snd e)) (limit_history m)) =
      {e \<in> set m. inHistory (snd e) \<and> fst e \<notin> fst ` set (old_entries m)}"
    by (simp add: limit_history_def old_entries_def)
  then show ?thesis using keys all by blast
qed

lemma limited_count:
  assumes "map_wf m"
  shows "length (filter (\<lambda>e. inHistory (snd e)) (limit_history m)) \<le> maxHistoryElements"
proof -
  have "distinct (map fst (filter (\<lambda>e. inHistory (snd e)) (limit_history m)))"
    using assms by (intro distinct_map_filter) (simp add: limit_history_keys map_wf_def)
  then have "length (filter (\<lambda>e. inHistory (snd e)) (limit_history m)) = card (set (recent_entries m))"
    using limited_entries [OF assms] by (metis distinct_card distinct_map)
  also have "\<dots> \<le> maxHistoryElements"
    using card_length [of "recent_entries m"] by (simp add: recent_entries_def)
  finally show ?thesis .
qed

lemma dels_filter: "fold map_delete ks m = filter (\<lambda>e. fst e \<notin> set ks) m"
  by (induction ks arbitrary: m)
    (auto simp: map_delete_def AList.delete_eq case_prod_beta intro!: filter_cong)

lemma cleaned_history_count:
  "length (filter inHistory (map_values (serversMap (cleanServers s)))) \<le>
     length (filter (\<lambda>e. inHistory (snd e)) (serversMap s))"
proof -
  have "length (filter inHistory (map snd (filter P xs))) \<le> length (filter (\<lambda>e. inHistory (snd e)) xs)"
    for P :: "string \<times> LocalServerData \<Rightarrow> bool" and xs
    by (induction xs) auto
  then show ?thesis by (simp add: cleanServers_def dels_filter map_values_def)
qed

lemma last_used_is_recent:
  assumes "map_wf m" and "(k, v) \<in> set m" and "inHistory v"
    and "\<And>e. e \<in> set m \<Longrightarrow> fst e \<noteq> k \<Longrightarrow> lastUsed (snd e) < lastUsed v"
  shows "k \<notin> fst ` set (old_entries m)"
proof
  assume "k \<in> fst ` set (old_entries m)"
  then obtain b where b: "b \<in> set (old_entries m)" "fst b = k" by auto
  then obtain a where a: "a \<in> set (recent_entries m)"
    by (cases "historyList m") (auto simp: old_entries_def recent_entries_def maxHistoryElements_def)
  have mem: "a \<in> set m" "b \<in> set m"
    using a b set_historyList [of m] by (auto simp: history_split)
  have "snd b = v"
    using assms(1,2) b mem map_get_entry [OF assms(1)] by (metis option.inject prod.collapse)
  moreover have "fst a \<noteq> k"
    using distinct_history_keys [OF assms(1)] a b by (force simp: history_split)
  ultimately show False
    using recent_before_old [OF a b(1)] assms(4) [OF mem(1)] by simp
qed


lemma kept_after_dropped:
  assumes "map_wf m" and a: "map_get m ka = Some a" "inHistory a" "ka \<notin> fst ` set (old_entries m)"
    and b: "map_get m kb = Some b" "kb \<in> fst ` set (old_entries m)"
  shows "lastUsed b \<le> lastUsed a"
proof -
  from b(2) obtain c where c: "(kb, c) \<in> set (old_entries m)" by auto
  then have "(kb, c) \<in> set m" using set_historyList [of m] by (auto simp: history_split)
  then have inb: "(kb, b) \<in> set (old_entries m)" using c b(1) map_get_entry [OF assms(1)] by simp
  have "(ka, a) \<in> set (recent_entries m)"
    using a map_get_entry [OF assms(1), of ka a] set_historyList [of m] by (force simp: history_split)
  from recent_before_old [OF this inb] show ?thesis by simp
qed

lemma used_now_is_recent:
  assumes "data_ok m" and "\<forall>w \<in> set (map_values m). server_pk w \<noteq> k \<longrightarrow> lastUsed w < lastUsed v" and "inHistory v"
    and wf: "map_wf (map_set k v m)"
  shows "k \<notin> fst ` set (old_entries (map_set k v m))"
proof -
  have "lastUsed (snd e) < lastUsed v" if "e \<in> set (map_set k v m)" "fst e \<noteq> k" for e
  proof -
    have g: "map_get m (fst e) = Some (snd e)"
      using that map_get_entry [OF wf, of "fst e" "snd e"] by (simp add: jm.get_put)
    show ?thesis using assms(2) map_get_in_values [OF g] data_ok_key [OF assms(1) g] that(2) by auto
  qed
  then show ?thesis
    using map_get_entry [OF wf, of k v] assms(3) by (intro last_used_is_recent [OF wf]) (auto simp: jm.get_put)
qed

text \<open>
  Property C5. Recording the use of the current server keeps the history short and recent: at
  most 30 servers are in the history afterwards, what subscribers receive is that history, every
  server that was dropped from it was used no later than every server that stayed, and the current
  server is in it with the present time, provided the clock has advanced since the other servers
  were used.
\<close>

theorem updateHistory_correct:
  assumes "store_ok (store s)" and "instance_ok (store s) s"
    and "checkIfDataWasChanged s = Inr s1" and "currentServerPk s1 = Str k" and "currentServer s1 = Some v"
  shows "\<exists>s'. updateHistory now s = Inr s' \<and> up_to_date s' \<and>
    length (filter inHistory (map_values (serversMap s'))) \<le> maxHistoryElements \<and>
    last (historyEvents s') = filter inHistory (map_values (serversMap s')) \<and>
    (\<forall>ka a kb b. map_get (serversMap s') ka = Some a \<and> inHistory a \<and>
       kb \<noteq> k \<and> map_get (serversMap s1) kb = Some b \<and> inHistory b \<and>
       (case map_get (serversMap s') kb of None \<Rightarrow> True | Some b' \<Rightarrow> \<not> inHistory b') \<longrightarrow>
       lastUsed b \<le> lastUsed a) \<and>
    ((\<forall>w \<in> set (map_values (serversMap s1)). server_pk w \<noteq> k \<longrightarrow> lastUsed w < now) \<longrightarrow>
       map_get (serversMap s') k = Some (v\<lparr>lastUsed := now, inHistory := True\<rparr>))"
proof -
  have s1: "up_to_date s1"
    using check_up_to_date [OF assms(1,2)] assms(3) by (metis sum.inject(2))
  then have ok1: "data_ok (serversMap s1)" by (simp add: up_to_date_def instance_ok_def)
  have get1: "map_get (serversMap s1) k = Some v"
    using assms(4,5) by (simp add: currentServer_def server_of_def)
  let ?new = "v\<lparr>lastUsed := now, inHistory := True\<rparr>"
  define m2 where "m2 = map_set k ?new (serversMap s1)"
  have m2: "data_ok m2"
    using data_ok_set [OF ok1, of ?new] data_ok_key [OF ok1 get1] by (simp add: m2_def)
  then have wf2: "map_wf m2" by (simp add: data_ok_def)
  define s2 where "s2 = record_use k now s1"
  have s2: "serversMap s2 = limit_history m2" "currentServerPk s2 = Str k"
    using assms(4) by (simp_all add: s2_def record_use_def modify_saved_def get1 m2_def)
  have ok2: "data_ok (serversMap s2)"
    unfolding s2_def by (rule record_use.upd_data [OF ok1])
  obtain s' where s': "saveData (cleanServers s2) = Inr s'" "up_to_date s'" "saved_as (cleanServers s2) s'"
    unfolding s2_def
    by (rule server_update.save_update [OF clean_after [OF record_use.server_update_axioms] s1])
  have map': "serversMap s' = serversMap (cleanServers s2)"
    "last (historyEvents s') = filter inHistory (map_values (serversMap s'))"
    using s'(3) by (simp_all add: saved_as_def)
  have run: "updateHistory now s = Inr s'"
    using s'(1) assms(3-5) by (simp add: updateHistory_def s2_def record_use_def)
  have count: "length (filter inHistory (map_values (serversMap s'))) \<le> maxHistoryElements"
    using cleaned_history_count [of s2] limited_count [OF wf2] unfolding map'(1) s2(1) by linarith
  note clean = clean_lookup [OF ok2, unfolded s2 limit_history_get, folded map'(1)]
  have recent: "lastUsed b \<le> lastUsed a"
    if a: "map_get (serversMap s') ka = Some a" "inHistory a" and b: "kb \<noteq> k"
      "map_get (serversMap s1) kb = Some b" "inHistory b"
      "case map_get (serversMap s') kb of None \<Rightarrow> True | Some b' \<Rightarrow> \<not> inHistory b'" for ka a kb b
  proof (rule kept_after_dropped [OF wf2])
    show "kb \<in> fst ` set (old_entries m2)"
      using b clean [of kb] by (auto simp: m2_def jm.get_put unneeded_def split: if_splits)
    show "map_get m2 ka = Some a" "ka \<notin> fst ` set (old_entries m2)"
      using a clean [of ka] by (auto split: option.splits if_splits)
  qed (use a b in \<open>simp_all add: m2_def jm.get_put\<close>)
  have cur: "map_get (serversMap s') k = Some ?new"
    if newer: "\<forall>w \<in> set (map_values (serversMap s1)). server_pk w \<noteq> k \<longrightarrow> lastUsed w < now"
    using used_now_is_recent [OF ok1, of k ?new] newer wf2 clean [of k] by (simp add: m2_def jm.get_put unneeded_def)
  show ?thesis
    using run s'(2) count map'(2) recent cur by (intro exI [of _ s'] conjI) blast+
qed


section \<open>The selected server\<close>

lemma check_current:
  assumes "store_ok (store s)" and "instance_ok (store s) s" and "checkIfDataWasChanged s = Inr s1"
  shows "currentServerPk s1 = currentServerPk s \<or>
    (\<exists>d. stored (store s) = Some d \<and> currentServerPk s1 = selectedServerPk d)"
proof (cases "stored_version (stored (store s)) = savedDataVersion s")
  case True
  then show ?thesis
    using assms(3) store_ok_read [OF assms(1)] by (simp add: checkIfDataWasChanged_def)
next
  case False
  then obtain d where d: "stored (store s) = Some d"
    using assms(2) by (cases "stored (store s)") (auto simp: instance_ok_def stored_version_def)
  have "initializeVpnData s = Inr s1"
    using False assms(3) store_ok_read [OF assms(1)] by (simp add: checkIfDataWasChanged_def)
  then show ?thesis
    using initialize_up_to_date [OF assms(1) d] d by (metis sum.inject(2))
qed

lemma saved_selection:
  assumes "saved_as u s'"
  shows "\<exists>d. stored (store s') = Some d \<and> selectedServerPk d = currentServerPk u"
  using assms by (simp add: saved_as_def saved_state_def)

text \<open>
  When the visor reports that the VPN client works with a server that neither the
  instance nor the storage has selected, that server becomes the selected one in the storage and it
  is known there: with the data it had if it was saved, as a manually entered server of unknown
  country otherwise.
\<close>

theorem compareCurrentServer_correct:
  assumes "store_ok (store s)" and "instance_ok (store s) s" and "k \<noteq> []"
    and "currentServerPk s \<noteq> Str k"
    and "\<forall>d. stored (store s) = Some d \<longrightarrow> selectedServerPk d \<noteq> Str k"
  shows "\<exists>s' d. compareCurrentServer (Str k) s = Inr s' \<and> up_to_date s' \<and>
    stored (store s') = Some d \<and> selectedServerPk d = Str k \<and>
    stored_lookup (store s') k =
      (case stored_lookup (store s) k of None \<Rightarrow> Some (unknown_server k) | Some v \<Rightarrow> Some v) \<and>
    last (currentServerEvents s') = stored_lookup (store s') k"
proof -
  obtain s1 where s1: "checkIfDataWasChanged s = Inr s1" "up_to_date s1" "store s1 = store s"
    "storageProblems s1 = storageProblems s"
    by (rule check_up_to_date [OF assms(1,2)])
  have cur1: "currentServerPk s1 \<noteq> Str k"
    using check_current [OF assms(1,2) s1(1)] assms(4,5) by auto
  obtain s2 where s2: "saveData (select_compared k s1) = Inr s2" "up_to_date s2"
    "saved_as (select_compared k s1) s2"
    by (rule compared.save_update [OF s1(2)])
  have ok: "data_ok (serversMap s1)" using s1(2) by (simp add: up_to_date_def instance_ok_def)
  have look: "map_get (serversMap s1) k = stored_lookup (store s) k"
    using up_to_date_lookup [OF s1(2)] s1(3) by simp
  have sel: "currentServerPk (select_compared k s1) = Str k"
    by (simp add: select_compared_def cleanServers_def put_server_def)
  have get: "map_get (serversMap (select_compared k s1)) k =
      (case stored_lookup (store s) k of None \<Rightarrow> Some (unknown_server k) | Some v \<Rightarrow> Some v)"
  proof (cases "map_get (serversMap s1) k")
    case None
    let ?s = "put_server (unknown_server k) (s1\<lparr>currentServerPk := Str k\<rparr>)"
    have pk: "server_pk (unknown_server k) = k" by (simp add: unknown_server_def)
    have "data_ok (serversMap ?s)" using put.upd_data [of "s1\<lparr>currentServerPk := Str k\<rparr>"] ok by simp
    from clean_lookup [OF this, of k] have "map_get (serversMap (cleanServers ?s)) k = Some (unknown_server k)"
      by (simp add: put_server_def jm.get_put pk unneeded_def)
    then show ?thesis using None look by (simp add: select_compared_def)
  next
    case (Some v)
    then show ?thesis using look by (simp add: select_compared_def)
  qed
  let ?s' = "emitCurrentServer s2"
  have run: "compareCurrentServer (Str k) s = Inr ?s'"
    using compareCurrentServer_up_to_date [OF assms(1) s1(1,2), of "Str k"] s2(1) cur1 assms(3) by simp
  have up: "up_to_date ?s'"
    using s2(2) by (simp add: up_to_date_def instance_ok_def agrees_with_def split: option.splits)
  have stored': "stored_lookup (store ?s') k = map_get (serversMap s2) k"
    using up_to_date_lookup [OF s2(2), of k] by simp
  have same: "serversMap s2 = serversMap (select_compared k s1)" "currentServerPk s2 = Str k"
    using s2(3) sel by (simp_all add: saved_as_def)
  have "last (currentServerEvents ?s') = map_get (serversMap s2) k"
    by (simp add: emitCurrentServer_def currentServer_def server_of_def same(2))
  then show ?thesis
    using run up saved_selection [OF s2(3)] sel stored' get same(1) by auto
qed

text \<open>
  A selection that another instance has cleared comes back: when the stored data has
  no selected server, reloading it keeps the selection the instance had before, and the next change
  it makes writes that stale selection into the storage again.
\<close>

theorem stale_selection_restored:
  assumes "store_ok (store s)" and "instance_ok (store s) s"
    and "stored (store s) = Some d" and "\<not> truthy (selectedServerPk d)"
    and "savedDataVersion s \<noteq> saved_version d" and "currentServerPk s = Str old"
  shows "\<exists>s' d'. updateFromDiscovery [] s = Inr s' \<and> stored (store s') = Some d' \<and>
    saved_version d' = saved_version d + 1 \<and> selectedServerPk d' = Str old"
proof -
  obtain s1 where s1: "initializeVpnData s = Inr s1" "up_to_date s1" "store s1 = store s"
    "currentServerPk s1 = (if truthy (selectedServerPk d) then selectedServerPk d else currentServerPk s)"
    by (rule initialize_up_to_date [OF assms(1,3)])
  have check: "checkIfDataWasChanged s = Inr s1"
    using s1(1) store_ok_read [OF assms(1)] assms(3,5)
    by (simp add: checkIfDataWasChanged_def stored_version_def)
  have id: "server_update (\<lambda>s. s)" by unfold_locales simp_all
  obtain s' where s': "saveData s1 = Inr s'" "up_to_date s'" "saved_as s1 s'"
    by (rule server_update.save_update [OF id s1(2)])
  have "savedDataVersion s1 = saved_version d"
    using s1(2,3) assms(3) by (simp add: up_to_date_def stored_version_def)
  then show ?thesis
    using check s' s1(4) assms(4,6)
    by (simp add: updateFromDiscovery_def saved_as_def saved_state_def)
qed

text \<open>
  When the stored data disappears while an instance is open (the user clears the
  storage of the browser), the instance can never save again: its expected version stays above 0
  and every attempt is refused with the storage problem page, because the reload does not reset the
  expected version.
\<close>

theorem cleared_storage_blocks_saving:
  assumes "read_saved (store s) = Inr None" and "savedDataVersion s \<noteq> 0"
    and "getItem (store s) savedServersStorageKey = None" and "getItem (store s) checkIpSettingStorageKey = None"
    and "getItem (store s) dataUnitsSettingStorageKey = None" and "flag server \<noteq> f"
  shows "\<exists>s'. changeFlag server f s = Inr s' \<and> store s' = store s \<and>
    savedDataVersion s' = savedDataVersion s \<and> storageProblems s' = storageProblems s + 1"
proof -
  have mig: "migrateVpnDataToHvStorage s = s"
    using assms(3-5) by (simp add: migrateVpnDataToHvStorage_def migrate_key_def)
  let ?s1 = "launchListEvents (s\<lparr>serversMap := []\<rparr>)"
  have check: "checkIfDataWasChanged s = Inr ?s1"
    using assms(1,2) mig by (simp add: checkIfDataWasChanged_def initializeVpnData_def stored_version_def)
  let ?s2 = "cleanServers (?s1\<lparr>serversMap := map_set (server_pk server) (server\<lparr>flag := f\<rparr>) (serversMap ?s1)\<rparr>)"
  have "store ?s2 = store s" "savedDataVersion ?s2 = savedDataVersion s"
    "storageProblems ?s2 = storageProblems s"
    by (simp_all add: clean.upd_store clean.upd_version clean.upd_problems)
  then have "saveData ?s2 = Inr (?s2\<lparr>storageProblems := storageProblems ?s2 + 1\<rparr>)"
    using assms(1,2) by (simp add: saveData_def stored_version_def)
  then show ?thesis
    using check assms(6) \<open>store ?s2 = store s\<close> \<open>savedDataVersion ?s2 = savedDataVersion s\<close>
      \<open>storageProblems ?s2 = storageProblems s\<close>
    by (simp add: changeFlag_def map_get_def)
qed

section \<open>Settings and restart\<close>

text \<open>
  The two settings are read back as they were set and do not disturb the saved
  servers; without a stored value the IP is looked up and the units are bits for the speed and
  bytes for the volume.
\<close>

theorem vpn_settings_roundtrip:
  "getCheckIpSetting (setCheckIpSetting b s) = b \<and>
   getDataUnitsSetting (setDataUnitsSetting u s) = units_string u \<and>
   getCheckIpSetting (setDataUnitsSetting u s) = getCheckIpSetting s \<and>
   getDataUnitsSetting (setCheckIpSetting b s) = getDataUnitsSetting s \<and>
   stored (store (setCheckIpSetting b s)) = stored (store s) \<and>
   stored (store (setDataUnitsSetting u s)) = stored (store s) \<and>
   getCheckIpSetting (fresh_vpn_data \<lparr>localStorage = Map.empty, hypervisorPk = p\<rparr>) = True \<and>
   getDataUnitsSetting (fresh_vpn_data \<lparr>localStorage = Map.empty, hypervisorPk = p\<rparr>) =
     ''BitsSpeedAndBytesVolume''"
  by (auto simp: getCheckIpSetting_def setCheckIpSetting_def getDataUnitsSetting_def
      setDataUnitsSetting_def stored_def read_saved_def hv_defs vpn_keys fresh_vpn_data_def)

text \<open>
  A new instance over the storage of a running one that has the last version comes
  up with the same servers, the same expected version and, when a server is selected, the same
  selection.
\<close>

theorem vpn_restart_recovers:
  assumes "up_to_date s" and "stored (store s) = Some d"
  shows "\<exists>s'. initializeVpnData (fresh_vpn_data (store s)) = Inr s' \<and> up_to_date s' \<and>
    savedDataVersion s' = savedDataVersion s \<and>
    (\<forall>k. map_get (serversMap s') k = map_get (serversMap s) k) \<and>
    (truthy (selectedServerPk d) \<longrightarrow> currentServer s' = currentServer s) \<and>
    store s' = store s"
proof -
  let ?f = "fresh_vpn_data (store s)"
  have ok: "store_ok (store ?f)" "stored (store ?f) = Some d"
    using assms by (simp_all add: up_to_date_def fresh_vpn_data_def)
  obtain s' where s': "initializeVpnData ?f = Inr s'" "up_to_date s'" "store s' = store ?f"
    "currentServerPk s' = (if truthy (selectedServerPk d) then selectedServerPk d else currentServerPk ?f)"
    by (rule initialize_up_to_date [OF ok])
  have store: "store s' = store s" using s'(3) by (simp add: fresh_vpn_data_def)
  have look: "map_get (serversMap s') k = map_get (serversMap s) k" for k
    using up_to_date_lookup [OF s'(2)] up_to_date_lookup [OF assms(1)] store by simp
  have "currentServerPk s = selectedServerPk d" if "truthy (selectedServerPk d)"
    using assms that by (simp add: up_to_date_def instance_ok_def agrees_with_def)
  then show ?thesis
    using s' store look assms(1)
    by (auto simp: up_to_date_def currentServer_def server_of_def split: jsstr.split)
qed


section \<open>Examples\<close>

text \<open>
  An instance that has loaded a storage with one used server, the same instance with an old
  version, and an empty storage.
\<close>

definition used_server :: LocalServerData where
  "used_server =
     \<lparr>countryCode = ''us'', server_name = ''one'', customName = Null, server_pk = ''02ab'', lastUsed = 5,
      inHistory = True, flag = FlagNone, server_location = [], server_note = [], personalNote = Null,
      usedWithPassword = False, enteredManually = False\<rparr>"

definition used_data :: "jsstr \<Rightarrow> SavedServersData" where
  "used_data sel = \<lparr>saved_version = 3, serverList = [used_server], selectedServerPk = sel\<rparr>"

definition blank_store :: hv_store where
  "blank_store = \<lparr>localStorage = Map.empty, hypervisorPk = ''hv''\<rparr>"

definition used_store :: "jsstr \<Rightarrow> hv_store" where
  "used_store sel = write_saved (used_data sel) blank_store"

definition used_state :: "jsstr \<Rightarrow> vpn_saved_data" where
  "used_state sel = (fresh_vpn_data (used_store sel))\<lparr>currentServerPk := Str ''02ab'',
     serversMap := [(''02ab'', used_server)], savedDataVersion := 3\<rparr>"

lemma blank_store_ok: "store_ok blank_store"
  by (simp add: store_ok_def blank_store_def getItem_def read_saved_def getDataForHv_def saved_ok_def)

lemma used_store_ok: "store_ok (used_store sel)"
  unfolding used_store_def by (rule store_ok_write [OF blank_store_ok]) (simp_all add: used_data_def)

lemma used_state_ok:
  "store (used_state sel) = used_store sel" "stored (used_store sel) = Some (used_data sel)"
  "stored_lookup (used_store sel) ''02ab'' = Some used_server"
  by (simp_all add: used_state_def fresh_vpn_data_def used_store_def stored_lookup_def used_data_def
      used_server_def)

lemma used_state_instance: "instance_ok (used_store (Str ''02ab'')) (used_state (Str ''02ab''))"
  by (simp add: instance_ok_def used_state_ok stored_version_def agrees_with_def)
    (simp add: used_state_def used_data_def fresh_vpn_data_def data_ok_def map_wf_def keyed_def
      map_values_def used_server_def)

lemma used_state_old: "instance_ok (used_store Null) ((used_state Null)\<lparr>savedDataVersion := 2\<rparr>)"
  by (simp add: instance_ok_def used_state_ok stored_version_def)
    (simp add: used_state_def used_data_def fresh_vpn_data_def data_ok_def map_wf_def keyed_def
      used_server_def)

lemma used_state_up_to_date: "up_to_date (used_state (Str ''02ab''))"
  using used_state_instance used_store_ok
  by (simp add: up_to_date_def used_state_ok stored_version_def)
    (simp add: used_state_def used_data_def)

text \<open>Two windows are opened on the empty storage.\<close>

definition two_windows :: vpn_world where
  "two_windows = \<lparr>shared = blank_store, instances = [fresh_vpn_data blank_store, fresh_vpn_data blank_store]\<rparr>"

lemma two_windows_reachable: "reachable_world blank_store two_windows"
proof -
  have one: "reachable_world blank_store \<lparr>shared = blank_store, instances = [fresh_vpn_data blank_store]\<rparr>"
    using world_next [OF world_start open_instance, of blank_store] by simp
  show ?thesis
    using world_next [OF one open_instance] by (simp add: two_windows_def)
qed

theorem vpn_world_invariant_witness:
  "store_ok (shared two_windows) \<and> savedDataVersion (fresh_vpn_data blank_store) \<le> stored_version (stored (shared two_windows))"
  using vpn_world_invariant [OF two_windows_reachable blank_store_ok, of "fresh_vpn_data blank_store"]
  by (simp add: two_windows_def)


theorem updateServer_no_overwrite_witness:
  "\<exists>s'. updateServer used_server ((instances two_windows ! 0)\<lparr>store := shared two_windows\<rparr>) = Inr s'"
  using updateServer_no_overwrite [OF two_windows_reachable blank_store_ok, of 0 used_server]
  by (auto simp: two_windows_def)

theorem changeFlag_correct_witness:
  "\<exists>s'. changeFlag used_server Favorite (used_state (Str ''02ab'')) = Inr s' \<and>
    stored_lookup (store s') ''02ab'' = Some (used_server\<lparr>flag := Favorite\<rparr>)"
proof -
  have pk: "server_pk used_server = ''02ab''" "flag used_server \<noteq> Favorite"
    by (simp_all add: used_server_def)
  show ?thesis
    using changeFlag_correct [of "used_state (Str ''02ab'')" used_server used_server Favorite]
      used_store_ok used_state_instance pk
    by (auto simp: used_state_ok keep_needed_def unneeded_def)
qed

theorem removeFromHistory_correct_witness:
  "\<exists>s'. removeFromHistory ''02ab'' (used_state (Str ''02ab'')) = Inr s' \<and> up_to_date s'"
proof -
  have "inHistory used_server" by (simp add: used_server_def)
  then show ?thesis
    using removeFromHistory_correct [of "used_state (Str ''02ab'')" "''02ab''" used_server]
      used_store_ok used_state_instance
    by (auto simp: used_state_ok)
qed

theorem updateHistory_correct_witness:
  "\<exists>s'. updateHistory 9 (used_state (Str ''02ab'')) = Inr s' \<and>
    map_get (serversMap s') ''02ab'' = Some (used_server\<lparr>lastUsed := 9, inHistory := True\<rparr>)"
proof -
  let ?s = "used_state (Str ''02ab'')"
  have "checkIfDataWasChanged ?s = Inr ?s"
    using check_noop [of ?s "Some (used_data (Str ''02ab''))"] store_ok_read [OF used_store_ok]
    by (simp add: used_state_ok stored_version_def) (simp add: used_state_def used_data_def)
  moreover have "currentServerPk ?s = Str ''02ab''" "currentServer ?s = Some used_server"
    "serversMap ?s = [(''02ab'', used_server)]"
    by (simp_all add: used_state_def currentServer_def server_of_def map_get_def)
  ultimately show ?thesis
    using updateHistory_correct [of ?s ?s "''02ab''" used_server 9] used_store_ok used_state_instance
    by (auto simp: used_state_ok map_values_def) (simp add: used_server_def)
qed

theorem compareCurrentServer_correct_witness:
  "\<exists>s' d. compareCurrentServer (Str ''03cd'') (used_state (Str ''02ab'')) = Inr s' \<and>
    stored (store s') = Some d \<and> selectedServerPk d = Str ''03cd''"
proof -
  have "currentServerPk (used_state (Str ''02ab'')) \<noteq> Str ''03cd''"
    by (simp add: used_state_def)
  then show ?thesis
    using compareCurrentServer_correct [of "used_state (Str ''02ab'')" "''03cd''"]
      used_store_ok used_state_instance
    by (auto simp: used_state_ok used_data_def)
qed

theorem stale_selection_restored_witness:
  "\<exists>s' d'. updateFromDiscovery [] ((used_state Null)\<lparr>savedDataVersion := 2\<rparr>) = Inr s' \<and>
    stored (store s') = Some d' \<and> selectedServerPk d' = Str ''02ab''"
proof -
  let ?s = "(used_state Null)\<lparr>savedDataVersion := 2\<rparr>"
  have "store ?s = used_store Null" "currentServerPk ?s = Str ''02ab''"
    by (simp_all add: used_state_ok) (simp add: used_state_def)
  then show ?thesis
    using stale_selection_restored [of ?s "used_data Null" "''02ab''"] used_store_ok used_state_old
    by (auto simp: used_state_ok used_data_def)
qed

theorem cleared_storage_blocks_saving_witness:
  "\<exists>s'. changeFlag used_server Blocked ((fresh_vpn_data blank_store)\<lparr>savedDataVersion := 3\<rparr>) = Inr s' \<and>
    storageProblems s' = 1"
proof -
  let ?s = "(fresh_vpn_data blank_store)\<lparr>savedDataVersion := 3\<rparr>"
  have "store ?s = blank_store" "storageProblems ?s = 0" "flag used_server \<noteq> Blocked"
    by (simp_all add: fresh_vpn_data_def used_server_def)
  then show ?thesis
    using cleared_storage_blocks_saving [of ?s used_server Blocked]
    by (auto simp: blank_store_def getItem_def read_saved_def getDataForHv_def)
qed

theorem vpn_restart_recovers_witness:
  "\<exists>s'. initializeVpnData (fresh_vpn_data (used_store (Str ''02ab''))) = Inr s' \<and>
    map_get (serversMap s') ''02ab'' = map_get (serversMap (used_state (Str ''02ab''))) ''02ab''"
  using vpn_restart_recovers [OF used_state_up_to_date, of "used_data (Str ''02ab'')"]
  by (auto simp: used_state_ok)

end
