(* ===== verification/Vpn_Client.thy ===== *)
theory Vpn_Client
  imports Complex_Main Vpn_Saved_Data
begin

text \<open>
  \<open>src/app/services/vpn-client.service.ts\<close>: the service that starts and stops the VPN client app of
  the local visor, changes its server and polls its state. Its methods and its response handlers are
  functions on the state of the service; the answers of the visor arrive as events. Of the two
  subscriptions the service holds, the state keeps the request that is still unanswered. The retries
  and delays of rxjs belong to the environment: an event is the final outcome of a request.
\<close>

section \<open>Data\<close>

datatype AppState = Stopped | Connecting | AppRunning | ShuttingDown | Reconnecting

fun app_state_string :: "AppState \<Rightarrow> string" where
  "app_state_string Stopped = ''stopped''"
| "app_state_string Connecting = ''Connecting''"
| "app_state_string AppRunning = ''Running''"
| "app_state_string ShuttingDown = ''Shutting down''"
| "app_state_string Reconnecting = ''Connection failed, reconnecting''"

datatype VpnServiceStates = PerformingInitialCheck | Off | Starting | Running | Disconnecting

fun state_num :: "VpnServiceStates \<Rightarrow> nat" where
  "state_num PerformingInitialCheck = 1"
| "state_num Off = 10"
| "state_num Starting = 20"
| "state_num Running = 100"
| "state_num Disconnecting = 200"

datatype CheckPkResults = Busy | Ok | MustStop | SamePkRunning | SamePkStopped

text \<open>Speeds and latencies are averages; they are rational numbers until they are rounded.\<close>

record VpnClientConnectionsData =
  latency :: rat
  uploadSpeed :: rat
  downloadSpeed :: rat
  totalUploaded :: rat
  totalDownloaded :: rat
  conn_connectionDuration :: rat
  conn_error :: string
  downloadSpeedHistory :: "rat list"
  uploadSpeedHistory :: "rat list"
  latencyHistory :: "rat list"

record VpnClientAppData =
  running :: bool
  serverPk :: jsstr
  killswitch :: bool
  appState :: AppState
  connectionData :: "VpnClientConnectionsData option"
  minHops :: int
  lastErrorMsg :: jsstr
  connectionDuration :: "int option"
  dns :: jsstr

record BackendState =
  updateDate :: int
  serviceState :: "VpnServiceStates option"
  busy :: bool
  vpnClientAppData :: "VpnClientAppData option"

text \<open>What the visor answers: the entry of an app, the summary of the visor, a connection.\<close>

record app_json =
  aj_name :: string
  aj_status :: "int option"
  aj_detailed_status :: jsstr
  aj_connection_duration :: "int option"
  aj_args :: "string list option"

record node_info =
  ni_apps :: "app_json list option"
  ni_min_hops :: "int option"

record connection_json =
  cj_latency :: rat
  cj_upload_speed :: rat
  cj_download_speed :: rat
  cj_bandwidth_sent :: rat
  cj_bandwidth_received :: rat
  cj_error :: jsstr
  cj_connection_duration :: rat

definition vpnClientAppName :: string where "vpnClientAppName = ''vpn-client''"

section \<open>The state of the app\<close>

text \<open>The loop over the arguments of the app; the second argument holds those that follow.\<close>

fun arg_after :: "string list \<Rightarrow> jsstr" where
  "arg_after [] = Undefined"
| "arg_after (a # rest) = Str a"

definition process_arg :: "string \<Rightarrow> string list \<Rightarrow> VpnClientAppData \<Rightarrow> VpnClientAppData" where
  "process_arg a rest d =
     (let d1 = (if a = ''-srv'' \<and> rest \<noteq> [] then d\<lparr>serverPk := arg_after rest\<rparr> else d);
          d2 = (if str_includes (to_lower a) ''-killswitch''
                then d1\<lparr>killswitch := str_includes (to_lower a) ''true''\<rparr> else d1)
      in if str_includes (to_lower a) ''-dns'' then d2\<lparr>dns := arg_after rest\<rparr> else d2)"

fun process_args :: "string list \<Rightarrow> VpnClientAppData \<Rightarrow> VpnClientAppData" where
  "process_args [] d = d"
| "process_args (a # rest) d = process_args rest (process_arg a rest d)"

lemma process_args_running [simp]: "running (process_args args d) = running d"
  by (induction args arbitrary: d) (auto simp: process_arg_def)

text \<open>\<open>processAppData\<close>; \<open>unknown_error\<close> is the translated text for a missing error message.\<close>

definition app_state_of :: "app_json \<Rightarrow> AppState" where
  "app_state_of a =
     (if aj_detailed_status a = Str (app_state_string Connecting) \<or> aj_status a = Some 3 then Connecting
      else if aj_detailed_status a = Str (app_state_string AppRunning) then AppRunning
      else if aj_detailed_status a = Str (app_state_string ShuttingDown) then ShuttingDown
      else if aj_detailed_status a = Str (app_state_string Reconnecting) then Reconnecting
      else Stopped)"

definition app_running :: "app_json \<Rightarrow> bool" where
  "app_running a \<longleftrightarrow> aj_status a \<noteq> Some 0 \<and> aj_status a \<noteq> Some 2"

definition processAppData :: "string \<Rightarrow> app_json \<Rightarrow> VpnClientAppData" where
  "processAppData unknown_error a =
     (let d = \<lparr>running = app_running a, serverPk = Undefined, killswitch = False,
               appState = (if app_running a then app_state_of a else Stopped),
               connectionData = None, minHops = 0,
               lastErrorMsg =
                 (if \<not> app_running a \<and> aj_status a = Some 2
                  then if truthy (aj_detailed_status a) then aj_detailed_status a else Str unknown_error
                  else Undefined),
               connectionDuration = aj_connection_duration a, dns = Undefined\<rparr>
      in case aj_args a of None \<Rightarrow> d | Some args \<Rightarrow> process_args args d)"

text \<open>
  The value \<open>true\<close>, which the error recovery of \<open>changeAppState\<close> emits in place of the data of
  the app: every property of it is \<open>undefined\<close>.
\<close>

definition true_as_app :: app_json where
  "true_as_app = \<lparr>aj_name = [], aj_status = None, aj_detailed_status = Undefined,
     aj_connection_duration = None, aj_args = None\<rparr>"

text \<open>
  The first part of \<open>getVpnClientState\<close>: the data of the app from the summary of the visor. When
  the app is missing, the assignment to \<open>minHops\<close> of an undefined value throws.
\<close>

definition find_vpn_app :: "node_info option \<Rightarrow> app_json option" where
  "find_vpn_app ni =
     (case ni of
        None \<Rightarrow> None
      | Some n \<Rightarrow>
          (case ni_apps n of
             None \<Rightarrow> None
           | Some apps \<Rightarrow> find (\<lambda>a. aj_name a = vpnClientAppName) (rev apps)))"

definition client_data :: "string \<Rightarrow> node_info option \<Rightarrow> VpnClientAppData js_result" where
  "client_data unknown_error ni =
     (case (find_vpn_app ni, ni) of
        (Some a, Some n) \<Rightarrow>
          Inr ((processAppData unknown_error a)
                 \<lparr>minHops := (case ni_min_hops n of None \<Rightarrow> 0 | Some h \<Rightarrow> h)\<rparr>)
      | _ \<Rightarrow> Inl TypeError)"

section \<open>Transmission statistics\<close>

definition js_round :: "rat \<Rightarrow> rat" where
  "js_round x = of_int \<lfloor>x + 1 / 2\<rfloor>"

definition add_connection ::
  "rat \<Rightarrow> connection_json \<Rightarrow> VpnClientConnectionsData \<Rightarrow> VpnClientConnectionsData" where
  "add_connection n c d =
     (let d1 = d\<lparr>latency := latency d + cj_latency c / n,
                 uploadSpeed := uploadSpeed d + cj_upload_speed c / n,
                 downloadSpeed := downloadSpeed d + cj_download_speed c / n,
                 totalUploaded := totalUploaded d + cj_bandwidth_sent c,
                 totalDownloaded := totalDownloaded d + cj_bandwidth_received c\<rparr>;
          d2 = (case cj_error c of Str e \<Rightarrow> if e \<noteq> [] then d1\<lparr>conn_error := e\<rparr> else d1 | _ \<Rightarrow> d1)
      in if cj_connection_duration c > conn_connectionDuration d2
         then d2\<lparr>conn_connectionDuration := cj_connection_duration c\<rparr> else d2)"

definition no_traffic :: VpnClientConnectionsData where
  "no_traffic = \<lparr>latency = 0, uploadSpeed = 0, downloadSpeed = 0, totalUploaded = 0, totalDownloaded = 0,
     conn_connectionDuration = 0, conn_error = [], downloadSpeedHistory = [], uploadSpeedHistory = [],
     latencyHistory = []\<rparr>"

definition round_data :: "VpnClientConnectionsData \<Rightarrow> VpnClientConnectionsData" where
  "round_data d = d\<lparr>latency := js_round (latency d), uploadSpeed := js_round (uploadSpeed d),
     downloadSpeed := js_round (downloadSpeed d), totalUploaded := js_round (totalUploaded d),
     totalDownloaded := js_round (totalDownloaded d)\<rparr>"

text \<open>The history arrays of the service and the server they belong to.\<close>

record traffic_history =
  th_upload :: "rat list"
  th_download :: "rat list"
  th_latency :: "rat list"
  connectionHistoryPk :: jsstr

definition ten_zeros :: "rat list" where "ten_zeros = replicate 10 0"

definition reset_history :: "jsstr \<Rightarrow> traffic_history \<Rightarrow> traffic_history" where
  "reset_history k h =
     (if \<not> truthy (connectionHistoryPk h) \<or> connectionHistoryPk h \<noteq> k
      then \<lparr>th_upload = ten_zeros, th_download = ten_zeros, th_latency = ten_zeros, connectionHistoryPk = k\<rparr>
      else h)"

definition push_history :: "VpnClientConnectionsData \<Rightarrow> traffic_history \<Rightarrow> traffic_history" where
  "push_history d h =
     h\<lparr>th_upload := drop 1 (th_upload h) @ [uploadSpeed d],
       th_download := drop 1 (th_download h) @ [downloadSpeed d],
       th_latency := drop 1 (th_latency h) @ [latency d]\<rparr>"

definition add_traffic ::
  "connection_json list option \<Rightarrow> VpnClientAppData \<Rightarrow> traffic_history \<Rightarrow> VpnClientAppData \<times> traffic_history" where
  "add_traffic conns d h =
     (case conns of
        None \<Rightarrow> (d, h)
      | Some cs \<Rightarrow>
          if cs = [] then (d, h)
          else
            let t = round_data (fold (add_connection (of_nat (length cs))) cs no_traffic);
                h2 = push_history t (reset_history (serverPk d) h)
            in (d\<lparr>connectionData := Some (t\<lparr>uploadSpeedHistory := th_upload h2,
                     downloadSpeedHistory := th_download h2, latencyHistory := th_latency h2\<rparr>)\<rparr>, h2))"


section \<open>The service\<close>

datatype data_request = ChangeState bool | ChangeServer

record vpn_client =
  nodeKey :: jsstr
  currentEventData :: BackendState
  lastServiceState :: VpnServiceStates
  working :: bool
  requestedServer :: "LocalServerData option"
  requestedPassword :: jsstr
  updatesStopped :: bool
  traffic :: traffic_history
  dataRequest :: "data_request option"
  updateRetries :: "nat option"
  savedData :: vpn_saved_data
  stateEvents :: "BackendState list"
  errorEvents :: "bool list"
  shownErrors :: "string list"
  visitedProblems :: "string list"

text \<open>
  \<open>dataRequest\<close> is the unanswered request of \<open>dataSubscription\<close>; \<open>updateRetries\<close> is the number of
  retries of \<open>continuousUpdateSubscription\<close> while it is active. \<open>visitedProblems\<close> records the
  visits to the page that says that the service is unavailable.
\<close>

definition sendUpdate :: "vpn_client \<Rightarrow> vpn_client" where
  "sendUpdate c =
     (let e = (currentEventData c)\<lparr>serviceState := Some (lastServiceState c), busy := working c\<rparr>
      in c\<lparr>currentEventData := e, stateEvents := stateEvents c @ [e]\<rparr>)"

definition stopContinuallyUpdatingData :: "vpn_client \<Rightarrow> vpn_client" where
  "stopContinuallyUpdatingData c = c\<lparr>updateRetries := None\<rparr>"

definition continuallyUpdateData :: "vpn_client \<Rightarrow> vpn_client" where
  "continuallyUpdateData c =
     (if working c \<and> lastServiceState c \<noteq> PerformingInitialCheck then c
      else c\<lparr>updateRetries := Some 0\<rparr>)"

definition updateData :: "vpn_client \<Rightarrow> vpn_client" where
  "updateData c = continuallyUpdateData c"

definition initializeClient :: "jsstr \<Rightarrow> vpn_client \<Rightarrow> vpn_client js_result" where
  "initializeClient k c =
     (if \<not> truthy k then Inr c
      else if \<not> truthy (nodeKey c) then
        bindR (initializeVpnData (savedData c)) (\<lambda>d. Inr (updateData (c\<lparr>nodeKey := k, savedData := d\<rparr>)))
      else if k \<noteq> nodeKey c then Inr (c\<lparr>visitedProblems := visitedProblems c @ [''pkChange'']\<rparr>)
      else if updatesStopped c then Inr (updateData (c\<lparr>updatesStopped := False\<rparr>))
      else Inr c)"

definition changeAppState :: "bool \<Rightarrow> vpn_client \<Rightarrow> vpn_client" where
  "changeAppState startApp c =
     (if working c then c
      else
        let c1 = sendUpdate ((stopContinuallyUpdatingData c)\<lparr>working := True\<rparr>);
            c2 = (if startApp
                  then c1\<lparr>lastServiceState := Starting, traffic := (traffic c1)\<lparr>connectionHistoryPk := Null\<rparr>\<rparr>
                  else c1\<lparr>lastServiceState := Disconnecting\<rparr>)
        in c2\<lparr>dataRequest := Some (ChangeState startApp)\<rparr>)"

definition start :: "vpn_client \<Rightarrow> vpn_client \<times> bool" where
  "start c =
     (if \<not> working c \<and> state_num (lastServiceState c) < 20 then (changeAppState True c, True)
      else (c, False))"

definition stop :: "vpn_client \<Rightarrow> vpn_client \<times> bool" where
  "stop c =
     (if \<not> working c \<and> state_num (lastServiceState c) \<ge> 20 \<and> state_num (lastServiceState c) < 200
      then (changeAppState False c, True) else (c, False))"

text \<open>The texts that \<open>getIpData\<close> gives; \<open>unknown\<close> is the translated text for missing data.\<close>

definition getIpData :: "string \<Rightarrow> (jsstr \<times> jsstr) option \<Rightarrow> string list" where
  "getIpData unknown data =
     (let txt1 = (\<lambda>v. case v of Str x \<Rightarrow> if x \<noteq> [] then x else unknown | _ \<Rightarrow> unknown)
      in case data of
           None \<Rightarrow> [unknown, unknown]
         | Some (ip_address, country_name) \<Rightarrow> [txt1 ip_address, txt1 country_name])"

definition checkNewPk :: "string \<Rightarrow> vpn_client \<Rightarrow> CheckPkResults js_result" where
  "checkNewPk newPk c =
     (if working c then Inr Busy
      else if lastServiceState c \<noteq> Off then
        (case currentServer (savedData c) of
           None \<Rightarrow> Inl TypeError
         | Some v \<Rightarrow> Inr (if newPk = server_pk v then SamePkRunning else MustStop))
      else
        (case currentServer (savedData c) of
           Some v \<Rightarrow> Inr (if newPk = server_pk v then SamePkStopped else Ok)
         | None \<Rightarrow> Inr Ok))"

text \<open>
  \<open>processServerChange\<close> reads the requested server when it builds the request, so it throws
  without one.
\<close>

definition processServerChange :: "vpn_client \<Rightarrow> vpn_client js_result" where
  "processServerChange c =
     (case requestedServer c of
        None \<Rightarrow> Inl TypeError
      | Some v \<Rightarrow>
          let c1 = sendUpdate ((stopContinuallyUpdatingData c)\<lparr>working := True\<rparr>)
          in Inr (c1\<lparr>dataRequest := Some ChangeServer\<rparr>))"

text \<open>The body of that request: the key of the server and the password or the empty text.\<close>

definition server_change_data :: "vpn_client \<Rightarrow> (string \<times> string) option" where
  "server_change_data c =
     (case requestedServer c of
        None \<Rightarrow> None
      | Some v \<Rightarrow> Some (server_pk v, case requestedPassword c of Str p \<Rightarrow> p | _ \<Rightarrow> []))"

definition changeServer :: "vpn_client \<Rightarrow> (vpn_client \<times> bool) js_result" where
  "changeServer c =
     (if \<not> working c then
        (case stop c of
           (c1, True) \<Rightarrow> Inr (c1, True)
         | (c1, False) \<Rightarrow> bindR (processServerChange c1) (\<lambda>c2. Inr (c2, True)))
      else Inr (c, False))"

definition updateRequestedServerPasswordSetting :: "vpn_client \<Rightarrow> vpn_client js_result" where
  "updateRequestedServerPasswordSetting c =
     (case requestedServer c of
        None \<Rightarrow> Inl TypeError
      | Some v \<Rightarrow>
          let used = truthy (requestedPassword c);
              c1 = c\<lparr>requestedServer := Some (v\<lparr>usedWithPassword := used\<rparr>)\<rparr> in
          bindR (getSavedVersion (server_pk v) True (savedData c1)) (\<lambda>(d, saved).
            case saved of
              None \<Rightarrow> Inr (c1\<lparr>savedData := d\<rparr>)
            | Some w \<Rightarrow>
                bindR (updateServer (w\<lparr>usedWithPassword := used\<rparr>) d) (\<lambda>d2. Inr (c1\<lparr>savedData := d2\<rparr>))))"

definition requestServer :: "LocalServerData \<Rightarrow> jsstr \<Rightarrow> vpn_client \<Rightarrow> (vpn_client \<times> bool) js_result" where
  "requestServer v password c =
     bindR (updateRequestedServerPasswordSetting (c\<lparr>requestedServer := Some v, requestedPassword := password\<rparr>))
       changeServer"

definition changeServerUsingHistory ::
  "LocalServerData \<Rightarrow> jsstr \<Rightarrow> vpn_client \<Rightarrow> (vpn_client \<times> bool) js_result" where
  "changeServerUsingHistory v password c = requestServer v password c"

definition changeServerUsingDiscovery ::
  "VpnServer \<Rightarrow> jsstr \<Rightarrow> vpn_client \<Rightarrow> (vpn_client \<times> bool) js_result" where
  "changeServerUsingDiscovery n password c =
     bindR (processFromDiscovery n (savedData c)) (\<lambda>(d, v). requestServer v password (c\<lparr>savedData := d\<rparr>))"

definition changeServerManually ::
  "ManualVpnServerData \<Rightarrow> jsstr \<Rightarrow> vpn_client \<Rightarrow> (vpn_client \<times> bool) js_result" where
  "changeServerManually n password c =
     bindR (processFromManual n (savedData c)) (\<lambda>(d, v). requestServer v password (c\<lparr>savedData := d\<rparr>))"

section \<open>Answers of the visor\<close>

text \<open>The two handlers of \<open>processServerChange\<close>.\<close>

definition serverChanged :: "vpn_client \<Rightarrow> vpn_client js_result" where
  "serverChanged c =
     (case requestedServer c of
        None \<Rightarrow> Inl TypeError
      | Some v \<Rightarrow>
          bindR (modifyCurrentServer v (savedData c)) (\<lambda>d.
            Inr (fst (start (c\<lparr>savedData := d, requestedServer := None, requestedPassword := Null,
                               working := False, dataRequest := None\<rparr>)))))"

definition serverChangeFailed :: "vpn_client \<Rightarrow> vpn_client" where
  "serverChangeFailed c =
     updateData (sendUpdate (c\<lparr>shownErrors := shownErrors c @ [''vpn.server-change.backend-error''],
       working := False, requestedServer := None, requestedPassword := Null, dataRequest := None\<rparr>))"

text \<open>
  The recovery after an error answer to \<open>changeAppState\<close>: when the state of the app is already
  the wanted one, the value \<open>true\<close> takes the place of the answer.
\<close>

definition recover_change :: "bool \<Rightarrow> VpnClientAppData js_result \<Rightarrow> app_json option" where
  "recover_change startApp r =
     (case r of
        Inr d \<Rightarrow> if startApp = running d then Some true_as_app else None
      | Inl e \<Rightarrow> None)"

definition appStateChanged :: "string \<Rightarrow> int \<Rightarrow> bool \<Rightarrow> app_json \<Rightarrow> vpn_client \<Rightarrow> vpn_client js_result" where
  "appStateChanged unknown_error now startApp a c =
     (let d = processAppData unknown_error a;
          c1 = c\<lparr>working := False, dataRequest := None,
                 lastServiceState := (if running d then Running else Off),
                 currentEventData := (currentEventData c)\<lparr>vpnClientAppData := Some d, updateDate := now\<rparr>\<rparr>;
          c2 = updateData (sendUpdate c1)
      in if \<not> startApp \<and> requestedServer c2 \<noteq> None then processServerChange c2 else Inr c2)"

definition appStateChangeFailed :: "vpn_client \<Rightarrow> vpn_client" where
  "appStateChangeFailed c =
     (let msg = (if lastServiceState c = Starting then ''vpn.status-page.problem-starting-error''
                 else if lastServiceState c = Disconnecting then ''vpn.status-page.problem-stopping-error''
                 else ''vpn.status-page.generic-problem-error'')
      in updateData (sendUpdate (c\<lparr>shownErrors := shownErrors c @ [msg], working := False, dataRequest := None\<rparr>)))"

text \<open>The handlers of \<open>continuallyUpdateData\<close>: new data, an error that is retried, a final error.\<close>

definition updateReceived :: "int \<Rightarrow> VpnClientAppData \<Rightarrow> vpn_client \<Rightarrow> vpn_client js_result" where
  "updateReceived now d c =
     (let c1 = c\<lparr>errorEvents := errorEvents c @ [False], updateRetries := None,
                 working := (if lastServiceState c = PerformingInitialCheck then False else working c)\<rparr> in
      bindR (compareCurrentServer (serverPk d) (savedData c1)) (\<lambda>sd.
        Inr (continuallyUpdateData (sendUpdate
          (c1\<lparr>savedData := sd, lastServiceState := (if running d then Running else Off),
              currentEventData := (currentEventData c1)\<lparr>vpnClientAppData := Some d, updateDate := now\<rparr>\<rparr>)))))"

definition updateFailed :: "int option \<Rightarrow> nat \<Rightarrow> vpn_client \<Rightarrow> vpn_client" where
  "updateFailed status retries c =
     (let c1 = c\<lparr>errorEvents := errorEvents c @ [True]\<rparr> in
      if status = Some 401 then c1\<lparr>updateRetries := None, updatesStopped := True\<rparr>
      else if lastServiceState c1 \<noteq> PerformingInitialCheck \<or> retries < 4
      then c1\<lparr>updateRetries := Some (retries + 1)\<rparr>
      else c1\<lparr>updateRetries := None, visitedProblems := visitedProblems c1 @ [''unavailable''],
              nodeKey := Null, updatesStopped := True\<rparr>)"

text \<open>The answer to the requests of \<open>getVpnClientState\<close>, with the history arrays it updates.\<close>

definition getVpnClientState ::
  "string \<Rightarrow> node_info option \<Rightarrow> connection_json list option \<Rightarrow> vpn_client \<Rightarrow>
     (vpn_client \<times> VpnClientAppData) js_result" where
  "getVpnClientState unknown_error ni conns c =
     bindR (client_data unknown_error ni) (\<lambda>d.
       let (d2, h) = add_traffic (if running d then conns else None) d (traffic c)
       in Inr (c\<lparr>traffic := h\<rparr>, d2))"


section \<open>The service as a state machine\<close>

text \<open>
  A step is a call from the user interface or an answer to a request that is still open. The
  parameter is the translated text for an unknown error.
\<close>

inductive vpn_step :: "string \<Rightarrow> vpn_client \<Rightarrow> vpn_client \<Rightarrow> bool" for unk where
  call_initialize: "initializeClient k c = Inr c' \<Longrightarrow> vpn_step unk c c'"
| call_start: "vpn_step unk c (fst (start c))"
| call_stop: "vpn_step unk c (fst (stop c))"
| call_update: "vpn_step unk c (updateData c)"
| call_stop_updates: "vpn_step unk c (stopContinuallyUpdatingData c)"
| call_use_history: "changeServerUsingHistory v pw c = Inr (c', b) \<Longrightarrow> vpn_step unk c c'"
| call_use_discovery: "changeServerUsingDiscovery n pw c = Inr (c', b) \<Longrightarrow> vpn_step unk c c'"
| call_use_manual: "changeServerManually m pw c = Inr (c', b) \<Longrightarrow> vpn_step unk c c'"
| answer_app:
    "dataRequest c = Some (ChangeState b) \<Longrightarrow> appStateChanged unk now b a c = Inr c' \<Longrightarrow> vpn_step unk c c'"
| answer_recovered:
    "dataRequest c = Some (ChangeState b) \<Longrightarrow> getVpnClientState unk ni conns c = Inr (c1, d) \<Longrightarrow>
     recover_change b (Inr d) = Some a \<Longrightarrow> appStateChanged unk now b a c1 = Inr c' \<Longrightarrow> vpn_step unk c c'"
| answer_app_error:
    "dataRequest c = Some (ChangeState b) \<Longrightarrow> vpn_step unk c (appStateChangeFailed c)"
| answer_server: "dataRequest c = Some ChangeServer \<Longrightarrow> serverChanged c = Inr c' \<Longrightarrow> vpn_step unk c c'"
| answer_server_error: "dataRequest c = Some ChangeServer \<Longrightarrow> vpn_step unk c (serverChangeFailed c)"
| answer_update:
    "updateRetries c = Some r \<Longrightarrow> getVpnClientState unk ni conns c = Inr (c1, d) \<Longrightarrow>
     updateReceived now d c1 = Inr c' \<Longrightarrow> vpn_step unk c c'"
| answer_update_error: "updateRetries c = Some r \<Longrightarrow> vpn_step unk c (updateFailed st r c)"

text \<open>The service as it is created over the saved data; \<open>now\<close> is the time of its creation.\<close>

definition new_client :: "int \<Rightarrow> vpn_saved_data \<Rightarrow> vpn_client" where
  "new_client now d =
     \<lparr>nodeKey = Undefined,
      currentEventData = \<lparr>updateDate = now, serviceState = None, busy = True, vpnClientAppData = None\<rparr>,
      lastServiceState = PerformingInitialCheck, working = True, requestedServer = None,
      requestedPassword = Null, updatesStopped = False,
      traffic = \<lparr>th_upload = [], th_download = [], th_latency = [], connectionHistoryPk = Undefined\<rparr>,
      dataRequest = None, updateRetries = None, savedData = d, stateEvents = [], errorEvents = [False],
      shownErrors = [], visitedProblems = []\<rparr>"

inductive reachable_client :: "string \<Rightarrow> vpn_client \<Rightarrow> bool" for unk where
  client_start: "reachable_client unk (new_client now d)"
| client_next: "reachable_client unk c \<Longrightarrow> vpn_step unk c c' \<Longrightarrow> reachable_client unk c'"

definition client_ok :: "vpn_client \<Rightarrow> bool" where
  "client_ok c \<longleftrightarrow>
     (working c \<longleftrightarrow> lastServiceState c = PerformingInitialCheck \<or> dataRequest c \<noteq> None) \<and>
     (dataRequest c \<noteq> None \<longrightarrow> lastServiceState c \<noteq> PerformingInitialCheck \<and> updateRetries c = None) \<and>
     (dataRequest c = Some ChangeServer \<longrightarrow> requestedServer c \<noteq> None) \<and>
     (dataRequest c = Some (ChangeState True) \<longrightarrow> lastServiceState c = Starting) \<and>
     (dataRequest c = Some (ChangeState False) \<longrightarrow> lastServiceState c = Disconnecting) \<and>
     (lastServiceState c = PerformingInitialCheck \<longrightarrow> (\<forall>r. updateRetries c = Some r \<longrightarrow> r \<le> 4)) \<and>
     (truthy (connectionHistoryPk (traffic c)) \<longrightarrow>
        length (th_upload (traffic c)) = 10 \<and> length (th_download (traffic c)) = 10 \<and>
        length (th_latency (traffic c)) = 10)"

lemmas client_defs = sendUpdate_def stopContinuallyUpdatingData_def continuallyUpdateData_def
  updateData_def changeAppState_def

lemma add_traffic_ok:
  assumes "truthy (connectionHistoryPk h) \<longrightarrow>
      length (th_upload h) = 10 \<and> length (th_download h) = 10 \<and> length (th_latency h) = 10"
    and "add_traffic conns d h = (d', h')"
  shows "truthy (connectionHistoryPk h') \<longrightarrow>
      length (th_upload h') = 10 \<and> length (th_download h') = 10 \<and> length (th_latency h') = 10"
  using assms
  by (auto simp: add_traffic_def push_history_def reset_history_def ten_zeros_def
      split: option.splits if_splits)

lemma getVpnClientState_keeps:
  assumes "getVpnClientState unk ni conns c = Inr (c1, d)"
  shows "\<exists>h. c1 = c\<lparr>traffic := h\<rparr> \<and> (client_ok c \<longrightarrow> client_ok c1)"
proof -
  obtain d0 where d0: "client_data unk ni = Inr d0"
    using assms by (auto simp: getVpnClientState_def bindR_Inr_iff)
  obtain d2 h where h: "add_traffic (if running d0 then conns else None) d0 (traffic c) = (d2, h)"
    by (rule prod.exhaust)
  have "c1 = c\<lparr>traffic := h\<rparr>"
    using assms h by (simp add: getVpnClientState_def d0)
  then show ?thesis
    using add_traffic_ok [OF _ h] by (auto simp: client_ok_def)
qed

lemma changeAppState_ok:
  assumes "client_ok c" and "lastServiceState c \<noteq> PerformingInitialCheck"
  shows "client_ok (changeAppState b c)"
  using assms by (auto simp: client_ok_def client_defs)

lemma start_ok: "client_ok c \<Longrightarrow> client_ok (fst (start c))"
  using changeAppState_ok [of c True] by (auto simp: start_def client_ok_def)

lemma stop_ok: "client_ok c \<Longrightarrow> client_ok (fst (stop c))"
  using changeAppState_ok [of c False] by (auto simp: stop_def client_ok_def)

lemma processServerChange_ok:
  assumes "client_ok c" and "lastServiceState c \<noteq> PerformingInitialCheck" and "processServerChange c = Inr c'"
  shows "client_ok c'"
  using assms by (auto simp: processServerChange_def client_ok_def client_defs split: option.splits)

lemma changeServer_ok:
  assumes "client_ok c" and "changeServer c = Inr (c', b)"
  shows "client_ok c'"
proof (cases "working c")
  case True
  then show ?thesis using assms by (simp add: changeServer_def)
next
  case False
  then have "lastServiceState c \<noteq> PerformingInitialCheck" using assms(1) by (auto simp: client_ok_def)
  then show ?thesis
    using assms False stop_ok [OF assms(1)] processServerChange_ok [OF assms(1)]
    by (auto simp: changeServer_def stop_def bindR_Inr_iff split: if_splits)
qed

lemma client_ok_request:
  "client_ok c \<Longrightarrow> client_ok (c\<lparr>requestedPassword := pw, requestedServer := Some v, savedData := d\<rparr>)"
  by (auto simp: client_ok_def)

lemma requestServer_ok:
  assumes "client_ok c" and "requestServer v pw c = Inr (c', b)"
  shows "client_ok c'"
proof -
  obtain c1 where c1: "updateRequestedServerPasswordSetting
      (c\<lparr>requestedServer := Some v, requestedPassword := pw\<rparr>) = Inr c1" "changeServer c1 = Inr (c', b)"
    using assms(2) by (auto simp: requestServer_def bindR_Inr_iff)
  have "\<exists>w d. c1 = c\<lparr>requestedPassword := pw, requestedServer := Some w, savedData := d\<rparr>"
    using c1(1)
    by (auto simp: updateRequestedServerPasswordSetting_def bindR_Inr_iff split: option.splits) blast+
  then have "client_ok c1" using client_ok_request [OF assms(1)] by auto
  then show ?thesis using changeServer_ok c1(2) by blast
qed

lemma client_ok_saved [simp]: "client_ok (c\<lparr>savedData := d\<rparr>) = client_ok c"
  by (simp add: client_ok_def)

lemma appStateChanged_ok:
  assumes "client_ok c" and "dataRequest c = Some (ChangeState b)"
    and "appStateChanged unk now b a c = Inr c'"
  shows "client_ok c'"
proof -
  define d where "d = processAppData unk a"
  define c2 where "c2 = updateData (sendUpdate (c\<lparr>working := False, dataRequest := None,
       lastServiceState := (if running d then Running else Off),
       currentEventData := (currentEventData c)\<lparr>vpnClientAppData := Some d, updateDate := now\<rparr>\<rparr>))"
  have "client_ok c2" "lastServiceState c2 \<noteq> PerformingInitialCheck"
    using assms(1) by (auto simp: c2_def client_ok_def client_defs)
  moreover have "appStateChanged unk now b a c =
      (if \<not> b \<and> requestedServer c2 \<noteq> None then processServerChange c2 else Inr c2)"
    by (simp add: appStateChanged_def c2_def d_def)
  ultimately show ?thesis
    using assms(3) processServerChange_ok by (auto split: if_splits)
qed


lemma appStateChangeFailed_ok:
  "client_ok c \<Longrightarrow> dataRequest c = Some (ChangeState b) \<Longrightarrow> client_ok (appStateChangeFailed c)"
  by (auto simp: appStateChangeFailed_def client_ok_def client_defs)

lemma serverChangeFailed_ok:
  "client_ok c \<Longrightarrow> dataRequest c = Some ChangeServer \<Longrightarrow> client_ok (serverChangeFailed c)"
  by (auto simp: serverChangeFailed_def client_ok_def client_defs)

lemma serverChanged_ok:
  assumes "client_ok c" and "dataRequest c = Some ChangeServer" and "serverChanged c = Inr c'"
  shows "client_ok c'"
proof -
  obtain v d where "requestedServer c = Some v" "modifyCurrentServer v (savedData c) = Inr d"
    "c' = fst (start (c\<lparr>savedData := d, requestedServer := None, requestedPassword := Null,
                        working := False, dataRequest := None\<rparr>))"
    using assms(3) by (auto simp: serverChanged_def bindR_Inr_iff split: option.splits)
  moreover have "client_ok (c\<lparr>savedData := d, requestedServer := None, requestedPassword := Null,
                        working := False, dataRequest := None\<rparr>)"
    using assms(1,2) by (auto simp: client_ok_def)
  ultimately show ?thesis using start_ok by simp
qed

lemma updateReceived_ok:
  assumes "client_ok c" and "updateRetries c = Some r" and "updateReceived now d c = Inr c'"
  shows "client_ok c'"
proof -
  obtain sd where c': "c' = continuallyUpdateData (sendUpdate
      (c\<lparr>errorEvents := errorEvents c @ [False], updateRetries := None,
         working := (if lastServiceState c = PerformingInitialCheck then False else working c),
         savedData := sd, lastServiceState := (if running d then Running else Off),
         currentEventData := (currentEventData c)\<lparr>vpnClientAppData := Some d, updateDate := now\<rparr>\<rparr>))"
    using assms(3) by (auto simp: updateReceived_def bindR_Inr_iff)
  have "dataRequest c = None" "\<not> working c \<or> lastServiceState c = PerformingInitialCheck"
    using assms(1,2) by (auto simp: client_ok_def)
  then show ?thesis
    using assms(1) unfolding c' by (auto simp: client_ok_def client_defs)
qed

lemma updateFailed_ok:
  "client_ok c \<Longrightarrow> updateRetries c = Some r \<Longrightarrow> client_ok (updateFailed st r c)"
  by (auto simp: updateFailed_def client_ok_def)

lemma updateData_ok: "client_ok c \<Longrightarrow> client_ok (updateData c)"
  by (auto simp: client_defs client_ok_def)

lemma initializeClient_ok:
  assumes "client_ok c" and "initializeClient k c = Inr c'"
  shows "client_ok c'"
proof -
  have "client_ok (c\<lparr>nodeKey := k, savedData := d\<rparr>)" "client_ok (c\<lparr>updatesStopped := False\<rparr>)"
    "client_ok (c\<lparr>visitedProblems := p\<rparr>)" for d p
    using assms(1) by (simp_all add: client_ok_def)
  then show ?thesis
    using assms updateData_ok by (auto simp: initializeClient_def bindR_Inr_iff split: if_splits)
qed

lemma vpn_step_ok:
  assumes "vpn_step unk c c'" and "client_ok c"
  shows "client_ok c'"
  using assms
proof (induction rule: vpn_step.induct)
  case (call_initialize k c c')
  then show ?case using initializeClient_ok by blast
next
  case (call_start c)
  then show ?case by (rule start_ok)
next
  case (call_stop c)
  then show ?case by (rule stop_ok)
next
  case (call_update c)
  then show ?case by (rule updateData_ok)
next
  case (call_stop_updates c)
  then show ?case by (auto simp: client_defs client_ok_def)
next
  case (call_use_history v pw c c' b)
  then show ?case using requestServer_ok by (auto simp: changeServerUsingHistory_def)
next
  case (call_use_discovery n pw c c' b)
  then obtain d v where "requestServer v pw (c\<lparr>savedData := d\<rparr>) = Inr (c', b)"
    by (auto simp: changeServerUsingDiscovery_def bindR_Inr_iff)
  then show ?case using requestServer_ok call_use_discovery.prems by (metis client_ok_saved)
next
  case (call_use_manual m pw c c' b)
  then obtain d v where "requestServer v pw (c\<lparr>savedData := d\<rparr>) = Inr (c', b)"
    by (auto simp: changeServerManually_def bindR_Inr_iff)
  then show ?case using requestServer_ok call_use_manual.prems by (metis client_ok_saved)
next
  case (answer_app c b now a c')
  then show ?case using appStateChanged_ok by blast
next
  case (answer_recovered c b ni conns c1 d a now c')
  from getVpnClientState_keeps [OF answer_recovered(2)] obtain h where
    "c1 = c\<lparr>traffic := h\<rparr>" "client_ok c1"
    using answer_recovered.prems by auto
  then show ?case using answer_recovered(1,4) appStateChanged_ok [of c1 b unk now a c'] by simp
next
  case (answer_app_error c b)
  then show ?case using appStateChangeFailed_ok by blast
next
  case (answer_server c c')
  then show ?case using serverChanged_ok by blast
next
  case (answer_server_error c)
  then show ?case using serverChangeFailed_ok by blast
next
  case (answer_update c r ni conns c1 d now c')
  from getVpnClientState_keeps [OF answer_update(2)] obtain h where
    "c1 = c\<lparr>traffic := h\<rparr>" "client_ok c1"
    using answer_update.prems by auto
  then show ?case using answer_update(1,3) updateReceived_ok [of c1 r now d c'] by simp
next
  case (answer_update_error c r st)
  then show ?case using updateFailed_ok by blast
qed

lemma reachable_client_ok: "reachable_client unk c \<Longrightarrow> client_ok c"
proof (induction rule: reachable_client.induct)
  case (client_start now d)
  then show ?case by (simp add: client_ok_def new_client_def)
next
  case (client_next c c')
  then show ?case using vpn_step_ok by blast
qed

text \<open>
  Property C4. In every state the service can reach, it is busy exactly while it performs the
  initial check or waits for the answer to one request; polling is suspended while a request is
  open; a request to start or stop the app is open exactly when the recorded state says so; a
  request to change the server always has a requested server; the initial check is retried at most
  four times; and the histories of the traffic have ten values.
\<close>

theorem vpn_client_invariant:
  assumes "reachable_client unk c"
  shows "(working c \<longleftrightarrow> lastServiceState c = PerformingInitialCheck \<or> dataRequest c \<noteq> None) \<and>
    (dataRequest c \<noteq> None \<longrightarrow> updateRetries c = None) \<and>
    (dataRequest c = Some (ChangeState True) \<longrightarrow> lastServiceState c = Starting) \<and>
    (dataRequest c = Some (ChangeState False) \<longrightarrow> lastServiceState c = Disconnecting) \<and>
    (dataRequest c = Some ChangeServer \<longrightarrow> requestedServer c \<noteq> None) \<and>
    (lastServiceState c = PerformingInitialCheck \<and> updateRetries c = Some r \<longrightarrow> r \<le> 4) \<and>
    (truthy (connectionHistoryPk (traffic c)) \<longrightarrow> length (th_upload (traffic c)) = 10)"
  using reachable_client_ok [OF assms] by (auto simp: client_ok_def)

text \<open>How many answers the service waits for, at most, before it is free again.\<close>

definition pending :: "vpn_client \<Rightarrow> nat" where
  "pending c =
     (case dataRequest c of
        None \<Rightarrow> 0
      | Some ChangeServer \<Rightarrow> 2
      | Some (ChangeState True) \<Rightarrow> 1
      | Some (ChangeState False) \<Rightarrow> if requestedServer c \<noteq> None then 3 else 1)"

lemma pending_start: "dataRequest c = None \<Longrightarrow> pending (fst (start c)) \<le> 1"
  by (simp add: start_def pending_def client_defs)

text \<open>
  Property C8. Every answer of the visor brings the service closer to being free: the number of
  answers it can still wait for, which is at most three (stop, change the server, start), decreases
  with every answer, an error answer ends the operation at once, and when the number is 0 the
  service accepts operations again.
\<close>

theorem vpn_answers_make_progress:
  assumes "reachable_client unk c"
  shows "pending c \<le> 3 \<and>
    (pending c = 0 \<longleftrightarrow> \<not> working c \<or> lastServiceState c = PerformingInitialCheck) \<and>
    (dataRequest c = Some (ChangeState b) \<and> appStateChanged unk now b a c = Inr c' \<longrightarrow> pending c' < pending c) \<and>
    (dataRequest c = Some (ChangeState b) \<longrightarrow> pending (appStateChangeFailed c) = 0) \<and>
    (dataRequest c = Some ChangeServer \<and> serverChanged c = Inr c'' \<longrightarrow> pending c'' < pending c) \<and>
    (dataRequest c = Some ChangeServer \<longrightarrow> pending (serverChangeFailed c) = 0)"
proof -
  have ok: "client_ok c" using assms by (rule reachable_client_ok)
  have app: "pending c' < pending c"
    if "dataRequest c = Some (ChangeState b)" "appStateChanged unk now b a c = Inr c'"
    using that
    by (auto simp: appStateChanged_def processServerChange_def pending_def client_defs
        split: if_splits option.splits bool.splits)
  have srv: "pending c'' < pending c" if a: "dataRequest c = Some ChangeServer" "serverChanged c = Inr c''"
  proof -
    obtain d where "c'' = fst (start (c\<lparr>savedData := d, requestedServer := None, requestedPassword := Null,
                        working := False, dataRequest := None\<rparr>))"
      using a(2) by (auto simp: serverChanged_def bindR_Inr_iff split: option.splits)
    then have "pending c'' \<le> 1" by (simp only:) (rule pending_start, simp)
    then show ?thesis using that(1) by (simp add: pending_def)
  qed
  have zero: "pending c = 0 \<longleftrightarrow> \<not> working c \<or> lastServiceState c = PerformingInitialCheck" and "pending c \<le> 3"
    using ok by (auto simp: pending_def client_ok_def split: option.splits data_request.splits bool.splits)
  moreover have "pending (appStateChangeFailed c) = 0" "pending (serverChangeFailed c) = 0"
    by (simp_all add: appStateChangeFailed_def serverChangeFailed_def pending_def client_defs)
  ultimately show ?thesis using app srv by simp
qed


section \<open>Changing the server\<close>

definition saved_fine :: "vpn_saved_data \<Rightarrow> bool" where
  "saved_fine d \<longleftrightarrow> store_ok (store d) \<and> instance_ok (store d) d"

lemma saveData_keeps: "saveData s = Inr s' \<Longrightarrow> currentServerPk s' = currentServerPk s"
  by (auto simp: saveData_def bindR_Inr_iff split: if_splits)

lemma modifyCurrentServer_selects:
  assumes "modifyCurrentServer v s = Inr s'"
  shows "currentServerPk s' = Str (server_pk v)"
  using assms
  by (auto simp: modifyCurrentServer_def bindR_Inr_iff cleanServers_def split: if_splits
      dest!: saveData_keeps)

lemma password_setting_result:
  assumes "saved_fine (savedData c)" and "requestedServer c = Some v"
  shows "\<exists>d. updateRequestedServerPasswordSetting c =
      Inr (c\<lparr>requestedServer := Some (v\<lparr>usedWithPassword := truthy (requestedPassword c)\<rparr>), savedData := d\<rparr>) \<and>
    saved_fine d"
proof -
  have ok: "store_ok (store (savedData c))" "instance_ok (store (savedData c)) (savedData c)"
    using assms(1) by (simp_all add: saved_fine_def)
  obtain d r where d: "getSavedVersion (server_pk v) True (savedData c) = Inr (d, r)" "op_ok (savedData c) d"
    using getSavedVersion_ok [OF ok] by blast
  have ok1: "store_ok (store d)" "instance_ok (store d) d"
    using d(2) by (simp_all add: op_ok_def)
  show ?thesis
  proof (cases r)
    case None
    then show ?thesis
      using assms(2) d ok1 by (auto simp: updateRequestedServerPasswordSetting_def saved_fine_def)
  next
    case (Some w)
    obtain d2 where "updateServer (w\<lparr>usedWithPassword := truthy (requestedPassword c)\<rparr>) d = Inr d2" "op_ok d d2"
      using updateServer_cases [OF ok1] by blast
    then show ?thesis
      using Some assms(2) d
      by (auto simp: updateRequestedServerPasswordSetting_def saved_fine_def op_ok_def)
  qed
qed

text \<open>
  Property C7. Changing the server while the VPN runs goes through the whole protocol: the app is
  stopped, then the visor is told the new server and the password, then the app is started, and at
  the end the service is free, runs, has no open request and the new server is the selected one.
\<close>

theorem change_server_protocol:
  assumes "client_ok c" and "\<not> working c" and "lastServiceState c = Running" and "saved_fine (savedData c)"
    and "\<not> app_running a0" and "app_running a1"
  shows "\<exists>c1 c2 c3 c4. changeServerUsingHistory v pw c = Inr (c1, True) \<and>
    dataRequest c1 = Some (ChangeState False) \<and>
    appStateChanged unk now0 False a0 c1 = Inr c2 \<and>
    dataRequest c2 = Some ChangeServer \<and>
    server_change_data c2 = Some (server_pk v, case pw of Str p \<Rightarrow> p | _ \<Rightarrow> []) \<and>
    serverChanged c2 = Inr c3 \<and> dataRequest c3 = Some (ChangeState True) \<and>
    appStateChanged unk now1 True a1 c3 = Inr c4 \<and>
    \<not> working c4 \<and> lastServiceState c4 = Running \<and> dataRequest c4 = None \<and>
    requestedServer c4 = None \<and> currentServerPk (savedData c4) = Str (server_pk v)"
proof -
  let ?c0 = "c\<lparr>requestedServer := Some v, requestedPassword := pw\<rparr>"
  let ?v = "v\<lparr>usedWithPassword := truthy pw\<rparr>"
  have "saved_fine (savedData ?c0)" "requestedServer ?c0 = Some v" using assms(4) by simp_all
  from password_setting_result [OF this] obtain d where
    d: "updateRequestedServerPasswordSetting ?c0 = Inr (?c0\<lparr>requestedServer := Some ?v, savedData := d\<rparr>)"
    "saved_fine d" by auto
  let ?c0' = "?c0\<lparr>requestedServer := Some ?v, savedData := d\<rparr>"
  define c1 where "c1 = changeAppState False ?c0'"
  have run1: "changeServerUsingHistory v pw c = Inr (c1, True)"
    using assms(2,3) d(1)
    by (simp add: changeServerUsingHistory_def requestServer_def changeServer_def stop_def c1_def)
  have c1: "dataRequest c1 = Some (ChangeState False)" "requestedServer c1 = Some ?v"
    "requestedPassword c1 = pw" "savedData c1 = d"
    using assms(2) by (simp_all add: c1_def client_defs)
  have off: "\<not> running (processAppData unk a0)" and on: "running (processAppData unk a1)"
    using assms(5,6) process_args_running by (simp_all add: processAppData_def split: option.split)
  obtain c2 where c2: "appStateChanged unk now0 False a0 c1 = Inr c2" "dataRequest c2 = Some ChangeServer"
    "requestedServer c2 = Some ?v" "requestedPassword c2 = pw" "savedData c2 = d" "lastServiceState c2 = Off"
    using c1 off by (simp add: appStateChanged_def processServerChange_def client_defs)
  obtain d' where d': "modifyCurrentServer ?v d = Inr d'"
    using modifyCurrentServer_ok d(2) unfolding saved_fine_def by blast
  define c3 where "c3 = changeAppState True (c2\<lparr>savedData := d', requestedServer := None,
      requestedPassword := Null, working := False, dataRequest := None\<rparr>)"
  have run3: "serverChanged c2 = Inr c3"
    using c2 d' by (simp add: serverChanged_def start_def c3_def)
  have c3: "dataRequest c3 = Some (ChangeState True)" "requestedServer c3 = None" "savedData c3 = d'"
    by (simp_all add: c3_def client_defs)
  obtain c4 where c4: "appStateChanged unk now1 True a1 c3 = Inr c4" "\<not> working c4"
    "lastServiceState c4 = Running" "dataRequest c4 = None" "requestedServer c4 = None" "savedData c4 = d'"
    using c3 on by (simp add: appStateChanged_def client_defs)
  show ?thesis
    using run1 c1(1) c2 run3 c3 c4 modifyCurrentServer_selects [OF d']
    by (auto simp: server_change_data_def)
qed


text \<open>
  A server change that fails while the app is being stopped leaves the requested
  server behind: when the user later just stops the VPN, the service changes to that server, and it
  will start the VPN again.
\<close>

theorem stale_request_after_failed_stop:
  assumes "\<not> working c" and "lastServiceState c = Running" and "requestedServer c = Some v"
    and "updateReceived now d (appStateChangeFailed (fst (stop c))) = Inr c1" and "running d"
    and "\<not> app_running a"
  shows "requestedServer c1 = Some v \<and> snd (stop c1) \<and>
    (\<exists>c2. appStateChanged unk now1 False a (fst (stop c1)) = Inr c2 \<and>
      dataRequest c2 = Some ChangeServer \<and> requestedServer c2 = Some v)"
proof -
  have off: "\<not> running (processAppData unk a)"
    using assms(6) by (simp add: processAppData_def split: option.split)
  let ?f = "appStateChangeFailed (fst (stop c))"
  have f: "\<not> working ?f" "requestedServer ?f = Some v" "lastServiceState ?f = Disconnecting"
    using assms(1-3) by (simp_all add: stop_def client_defs appStateChangeFailed_def)
  have c1: "\<not> working c1" "requestedServer c1 = Some v" "lastServiceState c1 = Running"
    using assms(4,5) f by (auto simp: updateReceived_def bindR_Inr_iff client_defs)
  then show ?thesis
    using off by (simp add: stop_def client_defs appStateChanged_def processServerChange_def)
qed

text \<open>
  A request for another server that is refused because the service is busy is
  remembered all the same: the call answers that nothing was started, but the requested server is
  replaced, so the operation that is under way ends with the refused server as the selected one.
\<close>

theorem refused_request_is_kept:
  assumes "working c" and "saved_fine (savedData c)" and "dataRequest c = Some ChangeServer"
  shows "\<exists>c1 c2. changeServerUsingHistory v pw c = Inr (c1, False) \<and>
    dataRequest c1 = Some ChangeServer \<and> serverChanged c1 = Inr c2 \<and>
    currentServerPk (savedData c2) = Str (server_pk v)"
proof -
  let ?c0 = "c\<lparr>requestedServer := Some v, requestedPassword := pw\<rparr>"
  have "saved_fine (savedData ?c0)" "requestedServer ?c0 = Some v" using assms(2) by simp_all
  from password_setting_result [OF this] obtain d where
    d: "updateRequestedServerPasswordSetting ?c0 =
      Inr (?c0\<lparr>requestedServer := Some (v\<lparr>usedWithPassword := truthy pw\<rparr>), savedData := d\<rparr>)"
    "saved_fine d" by auto
  obtain d' where d': "modifyCurrentServer (v\<lparr>usedWithPassword := truthy pw\<rparr>) d = Inr d'"
    using modifyCurrentServer_ok d(2) unfolding saved_fine_def by blast
  show ?thesis
    using assms(1,3) d(1) d' modifyCurrentServer_selects [OF d']
    by (simp add: changeServerUsingHistory_def requestServer_def changeServer_def serverChanged_def
        start_def client_defs)
qed

text \<open>
  When the order to stop the app is answered with an error although the app did stop,
  the recovery code confirms the change with the value \<open>true\<close>, and the handler reads that value as
  the data of a running app: the service records that the VPN is running.
\<close>

theorem recovered_stop_is_recorded_as_running:
  assumes "dataRequest c = Some (ChangeState False)" and "requestedServer c = None"
    and "getVpnClientState unk ni conns c = Inr (c1, d)" and "\<not> running d"
  shows "\<exists>a c2. recover_change False (Inr d) = Some a \<and> appStateChanged unk now False a c1 = Inr c2 \<and>
    lastServiceState c2 = Running \<and>
    map_option running (vpnClientAppData (currentEventData c2)) = Some True"
proof -
  obtain h where c1: "c1 = c\<lparr>traffic := h\<rparr>"
    using getVpnClientState_keeps [OF assms(3)] by blast
  have "running (processAppData unk true_as_app)"
    by (simp add: processAppData_def true_as_app_def app_running_def)
  then show ?thesis
    using assms(2,4) by (simp add: recover_change_def appStateChanged_def client_defs c1)
qed

section \<open>Operations from the user interface\<close>

text \<open>
  The answers of \<open>start\<close>, \<open>stop\<close> and \<open>checkNewPk\<close> tell the caller what happens: an
  operation is accepted exactly when the service is free and the VPN is in the right state, an
  accepted one makes the service busy and opens the request, a refused one changes nothing; and a
  new key is reported as usable without stopping exactly when the VPN is off and the key is not the
  current one.
\<close>

theorem client_calls:
  assumes "reachable_client unk c"
  shows "(snd (start c) \<longleftrightarrow> \<not> working c \<and> lastServiceState c = Off) \<and>
    (snd (stop c) \<longleftrightarrow> \<not> working c \<and> lastServiceState c \<in> {Starting, Running}) \<and>
    (if snd (start c) then working (fst (start c)) \<and> dataRequest (fst (start c)) = Some (ChangeState True)
     else fst (start c) = c) \<and>
    (if snd (stop c) then working (fst (stop c)) \<and> dataRequest (fst (stop c)) = Some (ChangeState False)
     else fst (stop c) = c) \<and>
    (checkNewPk k c = Inr Ok \<longleftrightarrow> \<not> working c \<and> lastServiceState c = Off \<and>
       (case currentServer (savedData c) of None \<Rightarrow> True | Some v \<Rightarrow> server_pk v \<noteq> k)) \<and>
    (checkNewPk k c = Inr Busy \<longleftrightarrow> working c)"
proof -
  have "lastServiceState c \<noteq> PerformingInitialCheck" if "\<not> working c"
    using reachable_client_ok [OF assms] that by (auto simp: client_ok_def)
  then show ?thesis
    by (cases "lastServiceState c")
      (auto simp: start_def stop_def client_defs checkNewPk_def split: option.splits if_splits)
qed


section \<open>Reading the data of the app\<close>

lemma serverPk_no_srv: "''-srv'' \<notin> set args \<Longrightarrow> serverPk (process_args args d) = serverPk d"
  by (induction args arbitrary: d) (auto simp: process_arg_def)

lemma serverPk_srv:
  "''-srv'' \<notin> set (k # post) \<Longrightarrow> serverPk (process_args (pre @ ''-srv'' # k # post) d) = Str k"
proof (induction pre arbitrary: d)
  case Nil
  then show ?case
    using serverPk_no_srv [of "k # post"] by (simp add: process_arg_def)
qed simp

text \<open>
  The data of the app: it runs unless its status is 0 or 2, only a running app has a
  state other than stopped, an app that failed always has an error message, the server is the
  argument after the last \<open>-srv\<close>, and without that argument there is no server.
\<close>

theorem processAppData_correct:
  "(running (processAppData unk a) \<longleftrightarrow> aj_status a \<notin> {Some 0, Some 2}) \<and>
   (aj_status a = Some 3 \<longrightarrow> appState (processAppData unk a) = Connecting) \<and>
   (\<not> running (processAppData unk a) \<longrightarrow> appState (processAppData unk a) = Stopped) \<and>
   (aj_status a = Some 2 \<and> unk \<noteq> [] \<longrightarrow> truthy (lastErrorMsg (processAppData unk a))) \<and>
   (aj_args a = Some (pre @ ''-srv'' # k # post) \<and> ''-srv'' \<notin> set (k # post) \<longrightarrow>
      serverPk (processAppData unk a) = Str k) \<and>
   (aj_args a = Some args \<and> ''-srv'' \<notin> set args \<longrightarrow> serverPk (processAppData unk a) = Undefined)"
proof -
  have keeps: "appState (process_args xs d) = appState d" "lastErrorMsg (process_args xs d) = lastErrorMsg d"
    for xs d by (induction xs arbitrary: d) (auto simp: process_arg_def)
  show ?thesis
    using serverPk_srv [of k post pre] serverPk_no_srv [of args]
    by (auto simp: processAppData_def keeps app_running_def app_state_of_def split: option.splits)
qed

lemma fold_add_connection:
  "latency (fold (add_connection n) cs d) = latency d + sum_list (map cj_latency cs) / n"
  "totalUploaded (fold (add_connection n) cs d) = totalUploaded d + sum_list (map cj_bandwidth_sent cs)"
  "totalDownloaded (fold (add_connection n) cs d) = totalDownloaded d + sum_list (map cj_bandwidth_received cs)"
  by (induction cs arbitrary: d)
    (simp_all add: add_connection_def add_divide_distrib split: jsstr.split)

text \<open>
  The statistics of several connections: bytes are summed, latency is averaged, the
  result is rounded, the history of the latency has ten values with the new one at the end, and a
  change of server starts it again from zeros.
\<close>

theorem add_traffic_correct:
  assumes "cs \<noteq> []" and "add_traffic (Some cs) d h = (d', h')"
    and "truthy (connectionHistoryPk h) \<longrightarrow> length (th_latency h) = 10"
  shows "\<exists>t. connectionData d' = Some t \<and>
    totalUploaded t = js_round (sum_list (map cj_bandwidth_sent cs)) \<and>
    totalDownloaded t = js_round (sum_list (map cj_bandwidth_received cs)) \<and>
    latency t = js_round (sum_list (map cj_latency cs) / of_nat (length cs)) \<and>
    latencyHistory t = th_latency h' \<and> length (th_latency h') = 10 \<and> last (th_latency h') = latency t \<and>
    connectionHistoryPk h' = serverPk d \<and>
    (connectionHistoryPk h \<noteq> serverPk d \<longrightarrow> th_latency h' = replicate 9 0 @ [latency t])"
proof -
  let ?f = "fold (add_connection (of_nat (length cs))) cs no_traffic"
  have sums: "latency ?f = sum_list (map cj_latency cs) / of_nat (length cs)"
    "totalUploaded ?f = sum_list (map cj_bandwidth_sent cs)"
    "totalDownloaded ?f = sum_list (map cj_bandwidth_received cs)"
    by (simp_all add: fold_add_connection) (simp_all add: no_traffic_def)
  let ?h = "reset_history (serverPk d) h"
  have h: "length (th_latency ?h) = 10" "connectionHistoryPk ?h = serverPk d"
    "connectionHistoryPk h \<noteq> serverPk d \<longrightarrow> th_latency ?h = replicate 10 0"
    using assms(3) by (auto simp: reset_history_def ten_zeros_def)
  have nine: "drop (Suc 0) (replicate 10 (0::rat)) = replicate 9 0" by simp
  show ?thesis
    using assms(1,2) sums h nine by (auto simp: add_traffic_def push_history_def round_data_def)
qed

section \<open>Examples\<close>

definition idle_client :: vpn_client where
  "idle_client = (new_client 0 (fresh_vpn_data blank_store))\<lparr>working := False, lastServiceState := Running\<rparr>"

definition stopped_app :: app_json where
  "stopped_app = \<lparr>aj_name = ''vpn-client'', aj_status = Some 0, aj_detailed_status = Undefined,
     aj_connection_duration = None, aj_args = None\<rparr>"

definition one_connection :: connection_json where
  "one_connection = \<lparr>cj_latency = 7, cj_upload_speed = 1, cj_download_speed = 1, cj_bandwidth_sent = 5,
     cj_bandwidth_received = 6, cj_error = Null, cj_connection_duration = 1\<rparr>"

lemma blank_saved_fine: "saved_fine (fresh_vpn_data blank_store)"
  using fresh_instance_ok [OF blank_store_ok] blank_store_ok
  by (simp add: saved_fine_def) (simp add: fresh_vpn_data_def)

lemma idle_client_ok:
  "client_ok idle_client" "\<not> working idle_client" "lastServiceState idle_client = Running"
  "saved_fine (savedData idle_client)"
  using blank_saved_fine by (simp_all add: idle_client_def new_client_def client_ok_def)

lemma example_apps: "\<not> app_running stopped_app" "app_running true_as_app"
  by (simp_all add: stopped_app_def true_as_app_def app_running_def)

lemma new_client_reachable: "reachable_client [] (new_client 0 (fresh_vpn_data blank_store))"
  by (rule client_start)

theorem vpn_client_invariant_witness:
  "working (new_client 0 (fresh_vpn_data blank_store))"
  using vpn_client_invariant [OF new_client_reachable]
  by (simp add: new_client_def)

theorem vpn_answers_make_progress_witness:
  "pending (new_client 0 (fresh_vpn_data blank_store)) \<le> 3"
  using vpn_answers_make_progress [OF new_client_reachable]
  by blast

theorem change_server_protocol_witness:
  "\<exists>c1 c2 c3 c4. changeServerUsingHistory used_server Null idle_client = Inr (c1, True) \<and>
    appStateChanged [] 1 False stopped_app c1 = Inr c2 \<and> serverChanged c2 = Inr c3 \<and>
    appStateChanged [] 2 True true_as_app c3 = Inr c4 \<and>
    currentServerPk (savedData c4) = Str (server_pk used_server)"
  using change_server_protocol [OF idle_client_ok example_apps, of used_server Null "[]" 1 2] by blast

theorem stale_request_after_failed_stop_witness:
  "\<exists>c1. requestedServer c1 = Some used_server \<and> snd (stop c1)"
proof -
  let ?c = "idle_client\<lparr>requestedServer := Some used_server\<rparr>"
  let ?d = "processAppData [] true_as_app"
  have d: "serverPk ?d = Undefined" "running ?d"
    by (simp_all add: processAppData_def true_as_app_def app_running_def)
  have "store_ok (store (fresh_vpn_data blank_store))"
    "instance_ok (store (fresh_vpn_data blank_store)) (fresh_vpn_data blank_store)"
    using blank_saved_fine by (simp_all add: saved_fine_def)
  then obtain sd where "compareCurrentServer Undefined (fresh_vpn_data blank_store) = Inr sd"
    using compareCurrentServer_ok by blast
  moreover have "savedData (appStateChangeFailed (fst (stop ?c))) = fresh_vpn_data blank_store"
    by (simp add: idle_client_def new_client_def stop_def client_defs appStateChangeFailed_def)
  ultimately obtain c1 where "updateReceived 0 ?d (appStateChangeFailed (fst (stop ?c))) = Inr c1"
    by (simp add: updateReceived_def d)
  then show ?thesis
    using stale_request_after_failed_stop [of ?c used_server 0 ?d c1 stopped_app "[]" 0]
      idle_client_ok d example_apps by auto
qed

theorem refused_request_is_kept_witness:
  "\<exists>c1. changeServerUsingHistory used_server Null
      (idle_client\<lparr>working := True, dataRequest := Some ChangeServer\<rparr>) = Inr (c1, False)"
  using refused_request_is_kept [of "idle_client\<lparr>working := True, dataRequest := Some ChangeServer\<rparr>" used_server Null]
    idle_client_ok by auto

theorem recovered_stop_is_recorded_as_running_witness:
  "\<exists>a c2. appStateChanged [] 0 False a (idle_client\<lparr>dataRequest := Some (ChangeState False)\<rparr>) = Inr c2 \<and>
    lastServiceState c2 = Running"
proof -
  let ?c = "idle_client\<lparr>dataRequest := Some (ChangeState False)\<rparr>"
  let ?ni = "Some \<lparr>ni_apps = Some [stopped_app], ni_min_hops = None\<rparr>"
  let ?d = "processAppData [] stopped_app"
  have d: "\<not> running ?d" "minHops ?d = 0"
    by (simp_all add: processAppData_def stopped_app_def app_running_def)
  have "getVpnClientState [] ?ni None ?c = Inr (?c\<lparr>traffic := traffic ?c\<rparr>, ?d\<lparr>minHops := 0\<rparr>)"
    using d by (simp add: getVpnClientState_def client_data_def find_vpn_app_def vpnClientAppName_def
        add_traffic_def) (simp add: stopped_app_def)
  moreover have "requestedServer ?c = None" by (simp add: idle_client_def new_client_def)
  ultimately show ?thesis
    using recovered_stop_is_recorded_as_running [of ?c "[]" ?ni None _ _ 0] d(1) by fastforce
qed

theorem client_calls_witness:
  "\<not> snd (start (new_client 0 (fresh_vpn_data blank_store))) \<and>
   checkNewPk ''02ab'' (new_client 0 (fresh_vpn_data blank_store)) = Inr Busy"
  using client_calls [OF new_client_reachable, of "''02ab''"]
  by (simp add: new_client_def)

theorem processAppData_correct_witness:
  "serverPk (processAppData ''x'' (stopped_app\<lparr>aj_args := Some [''-srv'', ''02ab'']\<rparr>)) = Str ''02ab'' \<and>
   appState (processAppData ''x'' stopped_app) = Stopped"
  using processAppData_correct [of "''x''" "stopped_app\<lparr>aj_args := Some [''-srv'', ''02ab'']\<rparr>" "[]" "''02ab''" "[]" "[]"]
    processAppData_correct [of "''x''" stopped_app "[]" "[]" "[]" "[]"]
  by (simp add: stopped_app_def)

theorem add_traffic_correct_witness:
  "\<exists>t. connectionData (fst (add_traffic (Some [one_connection]) (processAppData [] stopped_app)
      (traffic idle_client))) = Some t \<and> totalUploaded t = js_round 5"
proof -
  obtain d' h' where r: "add_traffic (Some [one_connection]) (processAppData [] stopped_app)
      (traffic idle_client) = (d', h')" by (rule prod.exhaust)
  have "\<not> truthy (connectionHistoryPk (traffic idle_client))"
    by (simp add: idle_client_def new_client_def)
  moreover have "cj_bandwidth_sent one_connection = 5" by (simp add: one_connection_def)
  ultimately show ?thesis
    unfolding r using add_traffic_correct [OF _ r] by auto
qed

end
