(* ===== verification/Vpn_Helpers.thy ===== *)
theory Vpn_Helpers
  imports Vpn_Client
begin

text \<open>
  \<open>src/app/components/vpn/vpn-helpers.ts\<close> with the dialogs it opens: how the pages of the VPN client
  change the server and how the options of a server work. A call that needs the confirmation of the
  user is in two parts, because the service may change while the question is open.
\<close>

section \<open>Changing the server\<close>

datatype new_server =
    FromHistory LocalServerData
  | FromDiscovery VpnServer
  | FromManual ManualVpnServerData

definition requested_server ::
  "LocalServerData option \<Rightarrow> VpnServer option \<Rightarrow> ManualVpnServerData option \<Rightarrow> new_server js_result" where
  "requested_server newServerFromHistory newServerFromDiscovery newServerManually =
     (case (newServerFromHistory, newServerFromDiscovery, newServerManually) of
        (Some h, None, None) \<Rightarrow> Inr (FromHistory h)
      | (None, Some d, None) \<Rightarrow> Inr (FromDiscovery d)
      | (None, None, Some m) \<Rightarrow> Inr (FromManual m)
      | _ \<Rightarrow> Inl (ThrownError ''Invalid call''))"

fun new_server_pk :: "new_server \<Rightarrow> string" where
  "new_server_pk (FromHistory h) = server_pk h"
| "new_server_pk (FromDiscovery d) = vs_pk d"
| "new_server_pk (FromManual m) = man_pk m"

definition passwordCouldHaveBeenChanged :: "LocalServerData option \<Rightarrow> jsstr \<Rightarrow> bool" where
  "passwordCouldHaveBeenChanged savedServer password =
     (case savedServer of None \<Rightarrow> False | Some v \<Rightarrow> truthy password \<or> usedWithPassword v)"

datatype change_plan = BusyError | AlreadySelected | ConfirmChange | ConfirmStart | ChangeAtOnce

definition change_plan_for :: "CheckPkResults \<Rightarrow> bool \<Rightarrow> change_plan" where
  "change_plan_for result mayChange =
     (if result = Busy then BusyError
      else if result = SamePkRunning \<and> \<not> mayChange then AlreadySelected
      else if result = MustStop \<or> (result = SamePkRunning \<and> mayChange) then ConfirmChange
      else if result = SamePkStopped \<and> \<not> mayChange then ConfirmStart
      else ChangeAtOnce)"

text \<open>The part before any question: the saved version of the server, and what is going to be done.\<close>

definition begin_server_change ::
  "new_server \<Rightarrow> jsstr \<Rightarrow> vpn_client \<Rightarrow> (vpn_client \<times> LocalServerData option \<times> change_plan) js_result" where
  "begin_server_change n password c =
     bindR (getSavedVersion (new_server_pk n) True (savedData c)) (\<lambda>(d, savedServer).
     bindR (checkNewPk (new_server_pk n) (c\<lparr>savedData := d\<rparr>)) (\<lambda>result.
       Inr (c\<lparr>savedData := d\<rparr>, savedServer,
            change_plan_for result (passwordCouldHaveBeenChanged savedServer password))))"

datatype vpn_ui =
    VpnError string
  | VpnWarning string
  | VpnDone string
  | AskUser string
  | CloseVpnDialog
  | OpenStatusPage string

definition redirectAfterServerChange :: "bool \<Rightarrow> string \<Rightarrow> vpn_ui list" where
  "redirectAfterServerChange hasDialog localPk =
     (if hasDialog then [CloseVpnDialog] else []) @ [OpenStatusPage localPk]"

fun change_to_server :: "new_server \<Rightarrow> jsstr \<Rightarrow> vpn_client \<Rightarrow> (vpn_client \<times> bool) js_result" where
  "change_to_server (FromHistory h) password c = changeServerUsingHistory h password c"
| "change_to_server (FromDiscovery d) password c = changeServerUsingDiscovery d password c"
| "change_to_server (FromManual m) password c = changeServerManually m password c"

text \<open>What happens at once, or when the user accepts.\<close>

definition finish_server_change ::
  "change_plan \<Rightarrow> new_server \<Rightarrow> LocalServerData option \<Rightarrow> jsstr \<Rightarrow> bool \<Rightarrow> string \<Rightarrow> vpn_client \<Rightarrow>
   (vpn_client \<times> vpn_ui list) js_result" where
  "finish_server_change plan n savedServer password hasDialog localPk c =
     (case plan of
        BusyError \<Rightarrow> Inr (c, [VpnError ''vpn.server-change.busy-error''])
      | AlreadySelected \<Rightarrow> Inr (c, [VpnWarning ''vpn.server-change.already-selected-warning''])
      | ConfirmStart \<Rightarrow>
          bindR (case (n, savedServer) of
                   (FromManual m, Some v) \<Rightarrow> bindR (processFromManual m (savedData c)) (\<lambda>(d, w). Inr (c\<lparr>savedData := d\<rparr>))
                 | _ \<Rightarrow> Inr c) (\<lambda>c1.
            Inr (fst (start c1), redirectAfterServerChange hasDialog localPk))
      | _ \<Rightarrow>
          bindR (change_to_server n password c) (\<lambda>(c1, b).
            Inr (c1, redirectAfterServerChange hasDialog localPk)))"

section \<open>The options of a server\<close>

definition option_codes :: "LocalServerData \<Rightarrow> (int \<times> string) list" where
  "option_codes server =
     (if usedWithPassword server
      then [(201, ''vpn.server-options.connect-without-password''), (202, ''vpn.server-options.connect-using-another-password'')]
      else if enteredManually server then [(202, ''vpn.server-options.connect-using-password'')] else []) @
     [(101, ''vpn.server-options.edit-name''), (102, ''vpn.server-options.edit-label'')] @
     (if flag server \<noteq> Favorite then [(1, ''vpn.server-options.make-favorite'')] else []) @
     (if flag server = Favorite then [(-1, ''vpn.server-options.remove-from-favorites'')] else []) @
     (if flag server \<noteq> Blocked then [(2, ''vpn.server-options.block'')] else []) @
     (if flag server = Blocked then [(-2, ''vpn.server-options.unblock'')] else []) @
     (if inHistory server then [(-3, ''vpn.server-options.remove-from-history'')] else [])"

text \<open>
  The answers the user gives to the dialogs that follow: the confirmations, the text of the password
  dialog (\<open>None\<close> when it is cancelled) and the value of the edit dialog.
\<close>

record user_answers =
  accepts :: bool
  accepts_change :: bool
  entered_password :: "string option"
  edited_value :: "string option"

definition changed_flag :: "LocalServerData \<Rightarrow> ServerFlags \<Rightarrow> string \<Rightarrow> vpn_client \<Rightarrow> (vpn_client \<times> bool \<times> vpn_ui list) js_result" where
  "changed_flag server f msg c =
     bindR (changeFlag server f (savedData c)) (\<lambda>d. Inr (c\<lparr>savedData := d\<rparr>, True, [VpnDone msg]))"

definition makeFavorite :: "LocalServerData \<Rightarrow> bool \<Rightarrow> vpn_client \<Rightarrow> (vpn_client \<times> bool \<times> vpn_ui list) js_result" where
  "makeFavorite server accepted c =
     (if flag server \<noteq> Blocked then changed_flag server Favorite ''vpn.server-options.make-favorite-done'' c
      else if accepted then changed_flag server Favorite ''vpn.server-options.make-favorite-done'' c
      else Inr (c, False, []))"

definition is_current :: "LocalServerData \<Rightarrow> vpn_client \<Rightarrow> bool" where
  "is_current server c =
     (case currentServer (savedData c) of None \<Rightarrow> False | Some v \<Rightarrow> server_pk v = server_pk server)"

definition block_question :: "LocalServerData \<Rightarrow> vpn_client \<Rightarrow> string" where
  "block_question server c =
     (if flag server \<noteq> Favorite then ''vpn.server-options.block-selected-confirmation''
      else if is_current server c then ''vpn.server-options.block-selected-favorite-confirmation''
      else ''vpn.server-options.block-confirmation'')"

definition blockServer :: "LocalServerData \<Rightarrow> bool \<Rightarrow> vpn_client \<Rightarrow> (vpn_client \<times> bool \<times> vpn_ui list) js_result" where
  "blockServer server accepted c =
     (if flag server \<noteq> Favorite \<and> \<not> is_current server c
      then changed_flag server Blocked ''vpn.server-options.block-done'' c
      else if accepted then
        bindR (changed_flag server Blocked ''vpn.server-options.block-done'' c) (\<lambda>(c1, r).
          Inr (if is_current server c then fst (stop c1) else c1, r))
      else Inr (c, False, []))"

definition removeServerFromHistory :: "LocalServerData \<Rightarrow> bool \<Rightarrow> vpn_client \<Rightarrow> (vpn_client \<times> bool \<times> vpn_ui list) js_result" where
  "removeServerFromHistory server accepted c =
     (if accepted then
        bindR (removeFromHistory (server_pk server) (savedData c)) (\<lambda>d.
          Inr (c\<lparr>savedData := d\<rparr>, True, [VpnDone ''vpn.server-options.remove-from-history-done'']))
      else Inr (c, False, []))"

text \<open>\<open>EditVpnServerValueComponent.process\<close>, with the server the dialog was opened for and the value of the form.\<close>

definition edit_server_value ::
  "bool \<Rightarrow> LocalServerData \<Rightarrow> string \<Rightarrow> vpn_client \<Rightarrow> (vpn_client \<times> bool \<times> vpn_ui list) js_result" where
  "edit_server_value editName server newValue c =
     bindR (getSavedVersion (server_pk server) True (savedData c)) (\<lambda>(d, saved).
       let updated = (case saved of Some v \<Rightarrow> v | None \<Rightarrow> server);
           currentValue = (if editName then customName server else personalNote server)
       in if Str newValue = currentValue then Inr (c\<lparr>savedData := d\<rparr>, False, [CloseVpnDialog])
          else
            bindR (updateServer (if editName then updated\<lparr>customName := Str newValue\<rparr>
                                 else updated\<lparr>personalNote := Str newValue\<rparr>) d) (\<lambda>d2.
              Inr (c\<lparr>savedData := d2\<rparr>, True,
                   [VpnDone ''vpn.server-options.edit-value.changes-made-confirmation'', CloseVpnDialog])))"

text \<open>
  A change of the server from the options: the question of \<open>processServerChange\<close>, if there is one,
  is answered before anything else happens.
\<close>

definition change_from_options ::
  "LocalServerData \<Rightarrow> jsstr \<Rightarrow> bool \<Rightarrow> string \<Rightarrow> vpn_client \<Rightarrow> (vpn_client \<times> vpn_ui list) js_result" where
  "change_from_options server password accepted localPk c =
     bindR (begin_server_change (FromHistory server) password c) (\<lambda>(c1, saved, plan).
       if plan \<in> {ConfirmChange, ConfirmStart} \<and> \<not> accepted then Inr (c1, [])
       else finish_server_change plan (FromHistory server) saved password False localPk c1)"

definition run_option ::
  "int \<Rightarrow> LocalServerData \<Rightarrow> user_answers \<Rightarrow> string \<Rightarrow> vpn_client \<Rightarrow> (vpn_client \<times> bool \<times> vpn_ui list) js_result" where
  "run_option code server a localPk c =
     (if code > 200 then
        if code = 201 then
          if accepts a then
            bindR (change_from_options server Null (accepts_change a) localPk c) (\<lambda>(c1, ev). Inr (c1, True, ev))
          else Inr (c, False, [])
        else
          (case entered_password a of
             Some p \<Rightarrow>
               if p \<noteq> [] \<and> p \<noteq> ''-'' then
                 bindR (change_from_options server (Str (drop 1 p)) (accepts_change a) localPk c) (\<lambda>(c1, ev). Inr (c1, True, ev))
               else Inr (c, False, [])
           | None \<Rightarrow> Inr (c, False, []))
      else if code > 100 then
        (case edited_value a of
           Some v \<Rightarrow> edit_server_value (code = 101) server v c
         | None \<Rightarrow> Inr (c, False, []))
      else if code = 1 then makeFavorite server (accepts a) c
      else if code = -1 then changed_flag server FlagNone ''vpn.server-options.remove-from-favorites-done'' c
      else if code = 2 then blockServer server (accepts a) c
      else if code = -2 then changed_flag server FlagNone ''vpn.server-options.unblock-done'' c
      else if code = -3 then removeServerFromHistory server (accepts a) c
      else Inr (c, False, []))"

text \<open>
  The number of the option counts from 1; \<open>None\<close> is a closed menu. The options are those of the server
  the caller had, the operation works on the saved version.
\<close>

definition openServerOptions ::
  "LocalServerData \<Rightarrow> nat option \<Rightarrow> user_answers \<Rightarrow> string \<Rightarrow> vpn_client \<Rightarrow> (vpn_client \<times> bool \<times> vpn_ui list) js_result" where
  "openServerOptions server selectedOption a localPk c =
     (case selectedOption of
        None \<Rightarrow> Inr (c, False, [])
      | Some 0 \<Rightarrow> Inr (c, False, [])
      | Some (Suc i) \<Rightarrow>
          bindR (getSavedVersion (server_pk server) True (savedData c)) (\<lambda>(d, saved).
            let v = (case saved of Some w \<Rightarrow> w | None \<Rightarrow> server) in
            if i < length (option_codes server)
            then run_option (fst (option_codes server ! i)) v a localPk (c\<lparr>savedData := d\<rparr>)
            else Inr (c\<lparr>savedData := d\<rparr>, False, [])))"

section \<open>Asking before a running connection is touched\<close>

lemma begin_result:
  assumes "begin_server_change n password c = Inr (c1, saved, plan)"
  obtains d result where "c1 = c\<lparr>savedData := d\<rparr>" and "checkNewPk (new_server_pk n) c1 = Inr result"
    and "plan = change_plan_for result (passwordCouldHaveBeenChanged saved password)"
  using assms by (auto simp: begin_server_change_def bindR_Inr_iff)

text \<open>
  Property C11. A change of the server asks before it interrupts anything. Before the user has
  answered, no request is sent to the visor and no server is marked as requested; when the service
  is busy the call only reports it; the change is made without a question only when the VPN is off;
  and while the VPN is running the call either asks or reports that the server is already in use.
\<close>

theorem server_change_asks_first:
  assumes "begin_server_change n password c = Inr (c1, saved, plan)"
  shows "dataRequest c1 = dataRequest c \<and> requestedServer c1 = requestedServer c \<and>
    lastServiceState c1 = lastServiceState c \<and> working c1 = working c \<and>
    (working c \<longleftrightarrow> plan = BusyError) \<and>
    (plan = ChangeAtOnce \<longrightarrow> lastServiceState c = Off) \<and>
    (\<not> working c \<and> lastServiceState c \<noteq> Off \<longrightarrow> plan \<in> {AlreadySelected, ConfirmChange}) \<and>
    (plan = AlreadySelected \<longrightarrow> (\<exists>v. currentServer (savedData c1) = Some v \<and> server_pk v = new_server_pk n))"
proof -
  obtain d result where r: "c1 = c\<lparr>savedData := d\<rparr>" "checkNewPk (new_server_pk n) c1 = Inr result"
    "plan = change_plan_for result (passwordCouldHaveBeenChanged saved password)"
    by (rule begin_result [OF assms])
  then show ?thesis
    by (auto simp: checkNewPk_def change_plan_for_def split: if_splits option.splits)
qed

section \<open>The server that is requested\<close>

lemma check_fine:
  assumes "saved_fine s" and "checkIfDataWasChanged s = Inr s1"
  shows "saved_fine s1 \<and> data_ok (serversMap s1)"
proof -
  have "up_to_date s1"
    using check_up_to_date [of s] assms by (metis saved_fine_def sum.inject(2))
  then show ?thesis by (simp add: up_to_date_def saved_fine_def instance_ok_def)
qed

lemma processFromDiscovery_pk:
  assumes "saved_fine s"
  obtains s' v where "processFromDiscovery n s = Inr (s', v)" and "server_pk v = vs_pk n" and "saved_fine s'"
proof -
  obtain s' v where r: "processFromDiscovery n s = Inr (s', v)" "committed s s'"
    using processFromDiscovery_ok [of s n] assms by (auto simp: saved_fine_def)
  have "server_pk v = vs_pk n"
    using r(1) check_fine [OF assms]
    by (auto simp: processFromDiscovery_def bindR_Inr_iff with_discovery_data_def split: option.splits) (erule data_ok_key, assumption)
  then show thesis using that r by (auto simp: committed_def up_to_date_def saved_fine_def)
qed

lemma processFromManual_pk:
  assumes "saved_fine s"
  obtains s' v where "processFromManual n s = Inr (s', v)" and "server_pk v = man_pk n" and "saved_fine s'"
proof -
  obtain s' v where r: "processFromManual n s = Inr (s', v)" "committed s s'"
    using processFromManual_ok [of s n] assms by (auto simp: saved_fine_def)
  have "server_pk v = man_pk n"
    using r(1) check_fine [OF assms]
    by (auto simp: processFromManual_def bindR_Inr_iff with_manual_data_def split: option.splits) (erule data_ok_key, assumption)
  then show thesis using that r by (auto simp: committed_def up_to_date_def saved_fine_def)
qed

definition first_request :: "vpn_client \<Rightarrow> data_request" where
  "first_request c = (if lastServiceState c \<in> {Starting, Running} then ChangeState False else ChangeServer)"

lemma requestServer_result:
  assumes "saved_fine (savedData c)" and "\<not> working c"
  shows "\<exists>c2. requestServer v pw c = Inr (c2, True) \<and> dataRequest c2 = Some (first_request c) \<and>
    server_change_data c2 = Some (server_pk v, case pw of Str p \<Rightarrow> p | _ \<Rightarrow> [])"
proof -
  let ?c0 = "c\<lparr>requestedServer := Some v, requestedPassword := pw\<rparr>"
  have "saved_fine (savedData ?c0)" "requestedServer ?c0 = Some v" using assms(1) by simp_all
  from password_setting_result [OF this] obtain d where
    d: "updateRequestedServerPasswordSetting ?c0 =
      Inr (?c0\<lparr>requestedServer := Some (v\<lparr>usedWithPassword := truthy (requestedPassword ?c0)\<rparr>), savedData := d\<rparr>)"
    by blast
  show ?thesis
    using d assms(2)
    by (cases "lastServiceState c")
      (simp_all add: requestServer_def changeServer_def stop_def processServerChange_def client_defs
        server_change_data_def first_request_def)
qed

lemma server_change_result:
  assumes "saved_fine (savedData c)" and "\<not> working c" and "plan \<in> {ConfirmChange, ChangeAtOnce}"
  shows "\<exists>c2. finish_server_change plan n saved pw hasDialog localPk c = Inr (c2, redirectAfterServerChange hasDialog localPk) \<and>
    dataRequest c2 = Some (first_request c) \<and>
    server_change_data c2 = Some (new_server_pk n, case pw of Str p \<Rightarrow> p | _ \<Rightarrow> [])"
proof -
  have finish: "finish_server_change plan n saved pw hasDialog localPk c =
      bindR (change_to_server n pw c) (\<lambda>(c1, b). Inr (c1, redirectAfterServerChange hasDialog localPk))"
    using assms(3) by (auto simp: finish_server_change_def)
  have first: "first_request (c\<lparr>savedData := d\<rparr>) = first_request c" for d by (simp add: first_request_def)
  have "\<exists>c2. change_to_server n pw c = Inr (c2, True) \<and> dataRequest c2 = Some (first_request c) \<and>
      server_change_data c2 = Some (new_server_pk n, case pw of Str p \<Rightarrow> p | _ \<Rightarrow> [])"
  proof (cases n)
    case (FromHistory h)
    then show ?thesis using requestServer_result [OF assms(1,2)] by (simp add: changeServerUsingHistory_def)
  next
    case (FromDiscovery x)
    obtain d v where d: "processFromDiscovery x (savedData c) = Inr (d, v)" "server_pk v = vs_pk x" "saved_fine d"
      by (rule processFromDiscovery_pk [OF assms(1)])
    then show ?thesis
      using requestServer_result [of "c\<lparr>savedData := d\<rparr>" v pw] assms(2) FromDiscovery
      by (simp add: changeServerUsingDiscovery_def first)
  next
    case (FromManual x)
    obtain d v where d: "processFromManual x (savedData c) = Inr (d, v)" "server_pk v = man_pk x" "saved_fine d"
      by (rule processFromManual_pk [OF assms(1)])
    then show ?thesis
      using requestServer_result [of "c\<lparr>savedData := d\<rparr>" v pw] assms(2) FromManual
      by (simp add: changeServerManually_def first)
  qed
  then show ?thesis unfolding finish by auto
qed

text \<open>
  What a change of the server asks of the visor. Once it is decided or confirmed and the
  service is free, the change never fails: when the VPN is running the first request is to stop it,
  otherwise it is the change itself; the request names the key of the chosen server, wherever its
  data comes from, and the given password; and the status page is opened.
\<close>

theorem server_change_requests:
  assumes "saved_fine (savedData c)" and "\<not> working c" and "plan \<in> {ConfirmChange, ChangeAtOnce}"
  shows "\<exists>c2. finish_server_change plan n saved pw hasDialog localPk c = Inr (c2, redirectAfterServerChange hasDialog localPk) \<and>
    dataRequest c2 = Some (first_request c) \<and>
    server_change_data c2 = Some (new_server_pk n, case pw of Str p \<Rightarrow> p | _ \<Rightarrow> [])"
  by (rule server_change_result [OF assms])

section \<open>Favourites and blocked servers\<close>

definition promised_flag :: "int \<Rightarrow> ServerFlags" where
  "promised_flag code = (if code = 1 then Favorite else if code = 2 then Blocked else FlagNone)"

definition must_ask :: "int \<Rightarrow> LocalServerData \<Rightarrow> vpn_client \<Rightarrow> bool" where
  "must_ask code v c \<longleftrightarrow> (code = 1 \<and> flag v = Blocked) \<or> (code = 2 \<and> (flag v = Favorite \<or> is_current v c))"

lemma changeFlag_stored:
  assumes "saved_fine (savedData c)" and "stored_lookup (store (savedData c)) (server_pk v) \<in> {None, Some v}" and "flag v \<noteq> f"
  shows "\<exists>d. changeFlag v f (savedData c) = Inr d \<and>
    (\<forall>k. stored_lookup (store d) k = keep_needed (currentServerPk d)
      (if k = server_pk v then Some (v\<lparr>flag := f\<rparr>) else stored_lookup (store (savedData c)) k))"
proof -
  have "v = (case stored_lookup (store (savedData c)) (server_pk v) of Some r \<Rightarrow> r | None \<Rightarrow> v)"
    using assms(2) by auto
  from changeFlag_effect [OF _ _ this assms(3)] assms(1) show ?thesis unfolding saved_fine_def by blast
qed

text \<open>
  The options for favourites and blocked servers do what their texts say: every option
  of the menu changes the stored flag of that server to the promised one and no other server; only
  making a blocked server a favourite, and blocking a favourite or the selected server, need a
  confirmation, without which nothing changes; and blocking the selected server while the VPN is
  running also stops it.
\<close>

theorem flag_options_correct:
  assumes "saved_fine (savedData c)" and "stored_lookup (store (savedData c)) (server_pk v) \<in> {None, Some v}"
    and "code \<in> {1, -1, 2, -2}" and "code \<in> fst ` set (option_codes v)"
  shows "\<exists>c' changed ev. run_option code v a localPk c = Inr (c', changed, ev) \<and>
    (changed \<longleftrightarrow> must_ask code v c \<longrightarrow> accepts a) \<and>
    (if changed
     then (\<forall>k. stored_lookup (store (savedData c')) k = keep_needed (currentServerPk (savedData c'))
         (if k = server_pk v then Some (v\<lparr>flag := promised_flag code\<rparr>) else stored_lookup (store (savedData c)) k)) \<and>
       (code = 2 \<and> is_current v c \<and> \<not> working c \<and> lastServiceState c = Running \<longrightarrow>
          dataRequest c' = Some (ChangeState False))
     else c' = c)"
proof -
  have new: "flag v \<noteq> promised_flag code"
    using assms(3,4) by (auto simp: option_codes_def promised_flag_def split: if_splits)
  obtain d where d: "\<And>msg. changed_flag v (promised_flag code) msg c = Inr (c\<lparr>savedData := d\<rparr>, True, [VpnDone msg])"
    "\<forall>k. stored_lookup (store d) k = keep_needed (currentServerPk d)
      (if k = server_pk v then Some (v\<lparr>flag := promised_flag code\<rparr>) else stored_lookup (store (savedData c)) k)"
  proof -
    obtain d where "changeFlag v (promised_flag code) (savedData c) = Inr d" "\<forall>k. stored_lookup (store d) k =
        keep_needed (currentServerPk d) (if k = server_pk v then Some (v\<lparr>flag := promised_flag code\<rparr>)
          else stored_lookup (store (savedData c)) k)"
      using changeFlag_stored [OF assms(1,2) new] by blast
    then show thesis using that by (simp add: changed_flag_def)
  qed
  have stop: "savedData (fst (stop (c\<lparr>savedData := d\<rparr>))) = d"
    "\<not> working c \<Longrightarrow> lastServiceState c = Running \<Longrightarrow> dataRequest (fst (stop (c\<lparr>savedData := d\<rparr>))) = Some (ChangeState False)"
    by (simp_all add: stop_def client_defs)
  show ?thesis
  proof (cases "must_ask code v c \<longrightarrow> accepts a")
    case True
    define c' where "c' = (if code = 2 \<and> is_current v c then fst (stop (c\<lparr>savedData := d\<rparr>)) else c\<lparr>savedData := d\<rparr>)"
    have "\<exists>msg. run_option code v a localPk c = Inr (c', True, [VpnDone msg])"
      using assms(3) True d(1) unfolding run_option_def makeFavorite_def blockServer_def must_ask_def promised_flag_def c'_def
      by (elim insertE emptyE) (simp_all split: if_splits)
    moreover have "savedData c' = d" by (simp add: c'_def stop(1))
    moreover have "code = 2 \<and> is_current v c \<and> \<not> working c \<and> lastServiceState c = Running \<longrightarrow>
        dataRequest c' = Some (ChangeState False)"
      by (simp add: c'_def stop(2))
    ultimately show ?thesis using True d(2) by (elim exE) (rule exI [of _ c'], rule exI [of _ True], simp)
  next
    case False
    then have "run_option code v a localPk c = Inr (c, False, [])"
      using assms(3) unfolding run_option_def makeFavorite_def blockServer_def must_ask_def
      by (elim insertE emptyE) auto
    then show ?thesis using False by (intro exI [of _ c] exI [of _ False] exI [of _ "[]"]) simp
  qed
qed

text \<open>
  The options of a server do not look at whether it is blocked: a blocked server that
  was used with a password has the option to connect without one, and the visor is told to use it,
  although the list of servers refuses to connect to blocked servers.
\<close>

theorem blocked_server_connects:
  assumes "saved_fine (savedData c)" and "\<not> working c" and "lastServiceState c = Off"
    and "stored_lookup (store (savedData c)) (server_pk v) = Some v" and "flag v = Blocked" and "usedWithPassword v"
    and "accepts a"
  shows "(201, ''vpn.server-options.connect-without-password'') \<in> set (option_codes v) \<and>
    (\<exists>c' ev. run_option 201 v a localPk c = Inr (c', True, ev) \<and> dataRequest c' = Some ChangeServer \<and>
      server_change_data c' = Some (server_pk v, []))"
proof -
  obtain d where d: "checkIfDataWasChanged (savedData c) = Inr d" "up_to_date d" "store d = store (savedData c)"
    using check_up_to_date [of "savedData c"] assms(1) by (auto simp: saved_fine_def)
  let ?c = "c\<lparr>savedData := d\<rparr>"
  have saved: "map_get (serversMap d) (server_pk v) = Some v" using up_to_date_lookup [OF d(2)] d(3) assms(4) by simp
  obtain result where r: "checkNewPk (server_pk v) ?c = Inr result" "result \<in> {Ok, SamePkStopped}"
    using assms(2,3) by (cases "currentServer d") (auto simp: checkNewPk_def)
  have "begin_server_change (FromHistory v) Null c = Inr (?c, Some v, ChangeAtOnce)"
    using d(1) r saved assms(6)
    by (auto simp: begin_server_change_def getSavedVersion_def change_plan_for_def passwordCouldHaveBeenChanged_def)
  then have change: "change_from_options v Null (accepts_change a) localPk c =
      finish_server_change ChangeAtOnce (FromHistory v) (Some v) Null False localPk ?c"
    by (simp add: change_from_options_def)
  have "saved_fine (savedData ?c)" "\<not> working ?c" "ChangeAtOnce \<in> {ConfirmChange, ChangeAtOnce}"
    using d(2) assms(2) by (simp_all add: saved_fine_def up_to_date_def)
  moreover have "first_request ?c = ChangeServer" using assms(3) by (simp add: first_request_def)
  ultimately obtain c2 where "finish_server_change ChangeAtOnce (FromHistory v) (Some v) Null False localPk ?c =
      Inr (c2, redirectAfterServerChange False localPk)" "dataRequest c2 = Some ChangeServer"
    "server_change_data c2 = Some (server_pk v, [])"
    using server_change_result [of ?c ChangeAtOnce "FromHistory v" "Some v" Null False localPk] by auto
  then show ?thesis using change assms(6,7) by (simp add: run_option_def option_codes_def)
qed

text \<open>
  Saving the form of the name or the note without a change is reported as a change when the server
  has no value yet, because the empty text of the form is not the missing value.
\<close>

theorem unchanged_value_is_reported:
  assumes "saved_fine (savedData c)" and "customName v \<in> {Undefined, Null}"
  shows "\<exists>c'. edit_server_value True v [] c = Inr (c', True,
    [VpnDone ''vpn.server-options.edit-value.changes-made-confirmation'', CloseVpnDialog])"
proof -
  have ok: "store_ok (store (savedData c))" "instance_ok (store (savedData c)) (savedData c)"
    using assms(1) by (simp_all add: saved_fine_def)
  obtain d r where d: "getSavedVersion (server_pk v) True (savedData c) = Inr (d, r)" "op_ok (savedData c) d"
    using getSavedVersion_ok [OF ok] by blast
  then have "store_ok (store d)" "instance_ok (store d) d" by (simp_all add: op_ok_def)
  from updateServer_cases [OF this] obtain d2 where
    "updateServer ((case r of Some w \<Rightarrow> w | None \<Rightarrow> v)\<lparr>customName := Str []\<rparr>) d = Inr d2" by blast
  then show ?thesis using assms(2) d(1) by (auto simp: edit_server_value_def)
qed

section \<open>Witnesses\<close>

definition off_client :: vpn_client where
  "off_client = (new_client 0 (used_state (Str ''02ab'')))\<lparr>working := False, lastServiceState := Off\<rparr>"

lemma off_client_fine: "saved_fine (savedData off_client)" "\<not> working off_client" "lastServiceState off_client = Off"
  using used_store_ok used_state_instance by (simp_all add: off_client_def new_client_def saved_fine_def used_state_ok)

theorem server_change_asks_first_witness:
  "\<exists>c1 saved plan. begin_server_change (FromHistory used_server) Null off_client = Inr (c1, saved, plan) \<and>
     plan \<noteq> BusyError \<and> dataRequest c1 = None"
proof -
  let ?s = "used_state (Str ''02ab'')"
  have "checkIfDataWasChanged ?s = Inr ?s"
    using check_noop [of ?s "Some (used_data (Str ''02ab''))"] store_ok_read [OF used_store_ok]
    by (simp add: used_state_ok stored_version_def) (simp add: used_state_def used_data_def)
  then obtain c1 saved plan where b: "begin_server_change (FromHistory used_server) Null off_client = Inr (c1, saved, plan)"
    by (cases "currentServer ?s") (simp_all add: begin_server_change_def off_client_def new_client_def getSavedVersion_def checkNewPk_def)
  from server_change_asks_first [OF b] b off_client_fine show ?thesis
    by (auto simp: off_client_def new_client_def)
qed

theorem server_change_requests_witness:
  "\<exists>c2 ev. finish_server_change ChangeAtOnce (FromHistory used_server) None (Str ''pw'') False ''02aa'' off_client = Inr (c2, ev) \<and>
     server_change_data c2 = Some (''02ab'', ''pw'')"
  using server_change_requests [OF off_client_fine(1,2), of ChangeAtOnce "FromHistory used_server" None "Str ''pw''" False "''02aa''"]
  by (auto simp: used_server_def)

theorem flag_options_correct_witness:
  "\<exists>c' ev. run_option 1 used_server \<lparr>accepts = False, accepts_change = False, entered_password = None, edited_value = None\<rparr>
     ''02aa'' off_client = Inr (c', True, ev)"
proof -
  have stored: "stored_lookup (store (savedData off_client)) (server_pk used_server) \<in> {None, Some used_server}"
    using used_state_ok(3) [of "Str ''02ab''"]
    by (simp add: off_client_def new_client_def used_state_ok(1)) (simp add: used_server_def)
  have code: "(1::int) \<in> {1, -1, 2, -2}" "(1::int) \<in> fst ` set (option_codes used_server)"
    by (simp_all add: option_codes_def used_server_def)
  have "\<not> must_ask 1 used_server off_client" by (simp add: must_ask_def used_server_def)
  then show ?thesis
    using flag_options_correct [OF off_client_fine(1) stored code,
        of "\<lparr>accepts = False, accepts_change = False, entered_password = None, edited_value = None\<rparr>" "''02aa''"]
    by auto
qed

end
