(* ===== verification/Vpn_Server_List.thy ===== *)
theory Vpn_Server_List
  imports Vpn_Helpers List_Component
begin

text \<open>
  \<open>vpn-client-discovery.service.ts\<close> and \<open>vpn-server-list.component.ts\<close>: the servers of the discovery
  service, and the page with the lists of public, used, favourite and blocked servers. The table of
  the names of the countries is a parameter.
\<close>

section \<open>The discovery service\<close>

record discovery_entry =
  de_address :: string
  de_geo :: "(jsstr \<times> jsstr) option"

definition truthy_text :: "jsstr \<Rightarrow> string \<Rightarrow> string" where
  "truthy_text v dflt = (case v of Str s \<Rightarrow> if s \<noteq> [] then s else dflt | _ \<Rightarrow> dflt)"

definition discovered_server :: "discovery_entry \<Rightarrow> VpnServer list" where
  "discovered_server e =
     (case split_on CHR '':'' (de_address e) of
        [pk, port] \<Rightarrow>
          [\<lparr>vs_countryCode = (case de_geo e of Some (country, region) \<Rightarrow> truthy_text country ''ZZ'' | None \<Rightarrow> ''ZZ''),
            vs_name = pk,
            vs_location = (case de_geo e of Some (country, region) \<Rightarrow> truthy_text region [] | None \<Rightarrow> []),
            vs_pk = pk, vs_note = []\<rparr>]
      | _ \<Rightarrow> [])"

text \<open>The answer is kept: later calls do not ask again.\<close>

definition getServers :: "discovery_entry list option \<Rightarrow> VpnServer list option \<Rightarrow> VpnServer list \<times> VpnServer list option" where
  "getServers result servers =
     (case servers of
        Some vs \<Rightarrow> (vs, Some vs)
      | None \<Rightarrow>
          let response = concat (map discovered_server (case result of Some es \<Rightarrow> es | None \<Rightarrow> []))
          in (response, Some response))"

section \<open>The servers of a list\<close>

datatype Lists = PublicList | HistoryList | FavoritesList | BlockedList

fun lists_string :: "Lists \<Rightarrow> string" where
  "lists_string PublicList = ''public''"
| "lists_string HistoryList = ''history''"
| "lists_string FavoritesList = ''favorites''"
| "lists_string BlockedList = ''blocked''"

definition list_of_param :: "string option \<Rightarrow> Lists \<times> string" where
  "list_of_param t =
     (if t = Some (lists_string FavoritesList) then (FavoritesList, ''vfs'')
      else if t = Some (lists_string BlockedList) then (BlockedList, ''vbs'')
      else if t = Some (lists_string HistoryList) then (HistoryList, ''vhs'')
      else (PublicList, ''vps''))"

record VpnServerForList =
  sl_countryCode :: string
  sl_countryName :: string
  sl_name :: string
  sl_customName :: jsstr
  sl_location :: string
  sl_pk :: string
  sl_note :: string
  sl_personalNote :: jsstr
  sl_lastUsed :: "int option"
  sl_inHistory :: bool
  sl_flag :: ServerFlags
  sl_usedWithPassword :: bool
  sl_enteredManually :: bool
  originalDiscoveryData :: "VpnServer option"
  originalLocalData :: "LocalServerData option"

definition getCountryName :: "(string \<Rightarrow> jsstr) \<Rightarrow> string \<Rightarrow> string" where
  "getCountryName countriesList code = truthy_text (countriesList (to_upper code)) code"

text \<open>
  The two maps of \<open>loadData\<close>. The optional properties that they do not set are set for every server
  before they are read.
\<close>

definition public_entry :: "(string \<Rightarrow> jsstr) \<Rightarrow> VpnServer \<Rightarrow> VpnServerForList" where
  "public_entry cl v =
     \<lparr>sl_countryCode = vs_countryCode v, sl_countryName = getCountryName cl (vs_countryCode v), sl_name = vs_name v,
      sl_customName = Null, sl_location = vs_location v, sl_pk = vs_pk v, sl_note = vs_note v, sl_personalNote = Null,
      sl_lastUsed = None, sl_inHistory = False, sl_flag = FlagNone, sl_usedWithPassword = False,
      sl_enteredManually = False, originalDiscoveryData = Some v, originalLocalData = None\<rparr>"

definition local_entry :: "(string \<Rightarrow> jsstr) \<Rightarrow> LocalServerData \<Rightarrow> VpnServerForList" where
  "local_entry cl v =
     \<lparr>sl_countryCode = countryCode v, sl_countryName = getCountryName cl (countryCode v), sl_name = server_name v,
      sl_customName = Null, sl_location = server_location v, sl_pk = server_pk v, sl_note = server_note v,
      sl_personalNote = Null, sl_lastUsed = Some (lastUsed v), sl_inHistory = inHistory v, sl_flag = flag v,
      sl_usedWithPassword = False, sl_enteredManually = False, originalDiscoveryData = None, originalLocalData = Some v\<rparr>"

definition with_saved :: "LocalServerData option \<Rightarrow> VpnServerForList \<Rightarrow> VpnServerForList" where
  "with_saved saved e =
     (case saved of
        Some v \<Rightarrow> e\<lparr>sl_customName := customName v, sl_personalNote := personalNote v, sl_inHistory := inHistory v,
                   sl_flag := flag v, sl_enteredManually := enteredManually v, sl_usedWithPassword := usedWithPassword v\<rparr>
      | None \<Rightarrow> e\<lparr>sl_customName := Null, sl_personalNote := Null, sl_inHistory := False,
                 sl_flag := FlagNone, sl_enteredManually := False, sl_usedWithPassword := False\<rparr>)"

text \<open>The loop of \<open>processAllServers\<close>: only for the first server the stored data is looked at again.\<close>

definition add_saved_data ::
  "VpnServerForList list \<Rightarrow> vpn_saved_data \<Rightarrow> (vpn_saved_data \<times> VpnServerForList list) js_result" where
  "add_saved_data es s =
     foldR (\<lambda>(i, e) (d, out).
        bindR (getSavedVersion (sl_pk e) (i = 0) d) (\<lambda>(d1, saved). Inr (d1, out @ [with_saved saved e])))
       (zip [0..<length es] es) (s, [])"

definition country_labels ::
  "(string \<Rightarrow> string \<Rightarrow> int) \<Rightarrow> (string \<Rightarrow> jsstr) \<Rightarrow> VpnServerForList list \<Rightarrow> PrintableLabel list" where
  "country_labels collate cl es =
     \<lparr>pl_value = [], pl_label = ''vpn.server-list.filter-dialog.country-options.any''\<rparr> #
     js_sort (\<lambda>a b. collate (pl_label a) (pl_label b))
       (map (\<lambda>v. \<lparr>pl_value = v, pl_label = getCountryName cl v\<rparr>) (fold (\<lambda>e. set_add (sl_countryCode e)) es []))"

definition fillFilterPropertiesArray :: "CompleteFilterProperties list" where
  "fillFilterPropertiesArray =
     [\<lparr>filterName = ''vpn.server-list.filter-dialog.name'', printableLabelsForValues = None, filter_type = TextInput,
       keyNameInElementsArray = ''name'', secondaryKeyNameInElementsArray = Some ''customName'', keyNameInFiltersObject = []\<rparr>,
      \<lparr>filterName = ''vpn.server-list.filter-dialog.location'', printableLabelsForValues = None, filter_type = TextInput,
       keyNameInElementsArray = ''location'', secondaryKeyNameInElementsArray = None, keyNameInFiltersObject = []\<rparr>,
      \<lparr>filterName = ''vpn.server-list.filter-dialog.public-key'', printableLabelsForValues = None, filter_type = TextInput,
       keyNameInElementsArray = ''pk'', secondaryKeyNameInElementsArray = None, keyNameInFiltersObject = []\<rparr>]"

definition server_filters :: "PrintableLabel list \<Rightarrow> CompleteFilterProperties list" where
  "server_filters labels =
     \<lparr>filterName = ''vpn.server-list.filter-dialog.country'', printableLabelsForValues = Some labels, filter_type = Select,
       keyNameInElementsArray = ''countryCode'', secondaryKeyNameInElementsArray = None, keyNameInFiltersObject = []\<rparr>
     # fillFilterPropertiesArray"

definition text_column :: "string \<Rightarrow> string \<Rightarrow> SortingColumn" where
  "text_column p l = \<lparr>properties = [p], column_label = l, sortingMode = TextMode, labelProperties = None\<rparr>"

definition common_columns :: "SortingColumn list" where
  "common_columns =
     [text_column ''countryName'' ''vpn.server-list.country-small-table-label'',
      text_column ''name'' ''vpn.server-list.name-small-table-label'',
      text_column ''location'' ''vpn.server-list.location-small-table-label'',
      text_column ''pk'' ''vpn.server-list.public-key-small-table-label'',
      text_column ''note'' ''vpn.server-list.note-small-table-label'']"

definition date_column :: SortingColumn where
  "date_column = \<lparr>properties = [''lastUsed''], column_label = ''vpn.server-list.date-small-table-label'',
     sortingMode = NumberReversed, labelProperties = None\<rparr>"

definition server_columns :: "Lists \<Rightarrow> SortingColumn list" where
  "server_columns l = (if l = HistoryList then [date_column] else []) @ common_columns"

definition default_column :: "Lists \<Rightarrow> nat" where
  "default_column l = (if l = PublicList then 0 else if l = HistoryList then 0 else 1)"

definition tie_breaker_column :: "Lists \<Rightarrow> nat" where
  "tie_breaker_column l = (if l = PublicList then 1 else if l = HistoryList then 2 else 3)"

definition server_element :: "VpnServerForList \<Rightarrow> element" where
  "server_element e =
     [(''countryCode'', VStr (sl_countryCode e)), (''countryName'', VStr (sl_countryName e)), (''name'', VStr (sl_name e)),
      (''customName'', (case sl_customName e of Undefined \<Rightarrow> VUndef | Null \<Rightarrow> VNull | Str s \<Rightarrow> VStr s)),
      (''location'', VStr (sl_location e)), (''pk'', VStr (sl_pk e)), (''note'', VStr (sl_note e)),
      (''personalNote'', (case sl_personalNote e of Undefined \<Rightarrow> VUndef | Null \<Rightarrow> VNull | Str s \<Rightarrow> VStr s)),
      (''flag'', VStr (flag_string (sl_flag e)))] @
     (case sl_lastUsed e of Some t \<Rightarrow> [(''lastUsed'', VNum t)] | None \<Rightarrow> [])"

section \<open>The page\<close>

record server_page =
  currentList :: Lists
  sp_listId :: string
  sp_loading :: bool
  allServers :: "VpnServerForList list"
  sp_filtered :: "element list option"
  sp_toShow :: "element list option"
  sp_numberOfPages :: nat
  sp_currentPage :: int
  sp_currentPageInUrl :: int
  sp_sorter :: "data_sorter option"
  sp_filterer :: "data_filterer option"
  currentLocalPk :: string

definition maxServerListElements :: nat where "maxServerListElements = 50"

definition recalculate_servers :: "server_page \<Rightarrow> server_page" where
  "recalculate_servers p =
     (case sp_filtered p of
        Some xs \<Rightarrow>
          let pages = ceil_div (length xs) maxServerListElements;
              page = (if sp_currentPageInUrl p > int pages then int pages else sp_currentPageInUrl p)
          in p\<lparr>sp_numberOfPages := pages, sp_currentPage := page,
               sp_toShow := Some (shown_elements maxServerListElements page xs)\<rparr>
      | None \<Rightarrow> p\<lparr>sp_currentPage := sp_currentPageInUrl p, sp_toShow := None\<rparr>)"

definition server_sorter :: "hv_store \<Rightarrow> Lists \<Rightarrow> string \<Rightarrow> data_sorter" where
  "server_sorter st l i =
     setTieBreakerColumnIndex (tie_breaker_column l) (new_sorter st (server_columns l) (default_column l) i)"

definition processAllServers ::
  "(string \<Rightarrow> string \<Rightarrow> int) \<Rightarrow> (string \<Rightarrow> jsstr) \<Rightarrow> (string, string) jsmap \<Rightarrow> vpn_saved_data \<Rightarrow> server_page \<Rightarrow>
   (vpn_saved_data \<times> server_page) js_result" where
  "processAllServers collate cl q s p =
     bindR (add_saved_data (allServers p) s) (\<lambda>(s1, es).
       let f = new_filterer (server_filters (country_labels collate cl es)) (sp_listId p) q;
           sorter = server_sorter (store s1) (currentList p) (sp_listId p);
           serversToUse = (if currentList p = PublicList then filter (\<lambda>e. sl_flag e \<noteq> Blocked) es else es);
           f1 = setFiltererData (Some (map server_element serversToUse)) f;
           found = last (dataFilteredEvents f1) in
       bindR (setSorterData collate (Some (map VObj found)) sorter) (\<lambda>sorter1.
         let sorted = (case sorter_data sorter1 of Some vs \<Rightarrow> map obj_members vs | None \<Rightarrow> found)
         in Inr (s1, recalculate_servers
              (p\<lparr>allServers := es, sp_sorter := Some sorter1, sp_filterer := Some f1, sp_filtered := Some sorted\<rparr>))))"

text \<open>The two ways the data arrives.\<close>

definition public_servers_received ::
  "(string \<Rightarrow> string \<Rightarrow> int) \<Rightarrow> (string \<Rightarrow> jsstr) \<Rightarrow> (string, string) jsmap \<Rightarrow> VpnServer list \<Rightarrow> vpn_saved_data \<Rightarrow> server_page \<Rightarrow>
   (vpn_saved_data \<times> server_page) js_result" where
  "public_servers_received collate cl q servers s p =
     bindR (updateFromDiscovery servers s) (\<lambda>s1.
       processAllServers collate cl q s1 (p\<lparr>allServers := map (public_entry cl) servers, sp_loading := False\<rparr>))"

definition local_servers_received ::
  "(string \<Rightarrow> string \<Rightarrow> int) \<Rightarrow> (string \<Rightarrow> jsstr) \<Rightarrow> (string, string) jsmap \<Rightarrow> LocalServerData list \<Rightarrow> vpn_saved_data \<Rightarrow> server_page \<Rightarrow>
   (vpn_saved_data \<times> server_page) js_result" where
  "local_servers_received collate cl q servers s p =
     processAllServers collate cl q s (p\<lparr>allServers := map (local_entry cl) servers, sp_loading := False\<rparr>)"

text \<open>The handler of the parameters of the address, for the page and the kind of list.\<close>

definition page_params :: "string option \<Rightarrow> string option \<Rightarrow> int option option \<Rightarrow> server_page \<Rightarrow> server_page" where
  "page_params t key page p =
     (let p1 = p\<lparr>currentList := fst (list_of_param t), sp_listId := snd (list_of_param t)\<rparr>;
          p2 = (case key of Some k \<Rightarrow> p1\<lparr>currentLocalPk := k\<rparr> | None \<Rightarrow> p1)
      in case page of
           Some n \<Rightarrow> recalculate_servers (p2\<lparr>sp_currentPageInUrl := page_in_url n\<rparr>)
         | None \<Rightarrow> p2)"

definition getNoteVar :: "VpnServerForList \<Rightarrow> string" where
  "getNoteVar e =
     (if sl_note e \<noteq> [] \<and> truthy (sl_personalNote e) then ''vpn.server-list.notes-info''
      else if sl_note e = [] \<and> truthy (sl_personalNote e) then truthy_text (sl_personalNote e) []
      else sl_note e)"

section \<open>Selecting a server\<close>

datatype select_step =
    BlockedRefused
  | AlreadyConnected
  | AskStart
  | AskPassword
  | ChangeWithoutPassword

definition select_server_step ::
  "LocalServerData option \<Rightarrow> LocalServerData option \<Rightarrow> bool \<Rightarrow> VpnServerForList \<Rightarrow> select_step" where
  "select_server_step savedVersion current vpnRunning e =
     (if (case savedVersion of None \<Rightarrow> True | Some v \<Rightarrow> flag v \<noteq> Blocked) then
        if (case current of Some c \<Rightarrow> server_pk c = sl_pk e | None \<Rightarrow> False) then
          if vpnRunning then AlreadyConnected else AskStart
        else if (case savedVersion of Some v \<Rightarrow> usedWithPassword v | None \<Rightarrow> False) then AskPassword
        else ChangeWithoutPassword
      else BlockedRefused)"

definition makeServerChange ::
  "VpnServerForList \<Rightarrow> jsstr \<Rightarrow> bool \<Rightarrow> string \<Rightarrow> vpn_client \<Rightarrow> (vpn_client \<times> vpn_ui list) js_result" where
  "makeServerChange e password accepted localPk c =
     bindR (requested_server (originalLocalData e) (originalDiscoveryData e) None) (\<lambda>n.
     bindR (begin_server_change n password c) (\<lambda>(c1, saved, plan).
       if plan \<in> {ConfirmChange, ConfirmStart} \<and> \<not> accepted then Inr (c1, [])
       else finish_server_change plan n saved password False localPk c1))"

text \<open>
  \<open>selectServer\<close> with the selected server the page has received, whether the VPN is running, and the
  answers of the user: whether the questions are accepted, and the result of
  the password dialog (\<open>None\<close> when it is cancelled), which has a mark before the text.
\<close>

definition selectServer ::
  "VpnServerForList \<Rightarrow> LocalServerData option \<Rightarrow> bool \<Rightarrow> user_answers \<Rightarrow> string \<Rightarrow> vpn_client \<Rightarrow>
   (vpn_client \<times> vpn_ui list) js_result" where
  "selectServer e current vpnRunning a localPk c =
     bindR (getSavedVersion (sl_pk e) True (savedData c)) (\<lambda>(d, saved).
       let c1 = c\<lparr>savedData := d\<rparr> in
       case select_server_step saved current vpnRunning e of
         BlockedRefused \<Rightarrow> Inr (c1, [VpnError ''vpn.starting-blocked-server-error''])
       | AlreadyConnected \<Rightarrow> Inr (c1, [VpnWarning ''vpn.server-change.already-selected-warning''])
       | AskStart \<Rightarrow>
           if accepts a then Inr (fst (start c1), redirectAfterServerChange False localPk) else Inr (c1, [])
       | AskPassword \<Rightarrow>
           (case entered_password a of
              Some p \<Rightarrow>
                if p \<noteq> [] then makeServerChange e (if p = ''-'' then Null else Str (drop 1 p)) (accepts_change a) localPk c1
                else Inr (c1, [])
            | None \<Rightarrow> Inr (c1, []))
       | ChangeWithoutPassword \<Rightarrow> makeServerChange e Null (accepts_change a) localPk c1)"

text \<open>
  \<open>openOptions\<close>, with the answers of the user in the menu and its dialogs. A server that was not
  stored is stored first; without data of the discovery service that reads a property of \<open>undefined\<close>.
  After a change the page is made again from the same servers.
\<close>

definition option_server :: "VpnServerForList \<Rightarrow> vpn_saved_data \<Rightarrow> (vpn_saved_data \<times> LocalServerData) js_result" where
  "option_server e s =
     bindR (getSavedVersion (sl_pk e) True s) (\<lambda>(d, saved).
       case saved of
         Some v \<Rightarrow> Inr (d, v)
       | None \<Rightarrow>
           (case originalDiscoveryData e of
              Some x \<Rightarrow> processFromDiscovery x d
            | None \<Rightarrow> Inl TypeError))"

definition openOptions ::
  "(string \<Rightarrow> string \<Rightarrow> int) \<Rightarrow> (string \<Rightarrow> jsstr) \<Rightarrow> (string, string) jsmap \<Rightarrow> VpnServerForList \<Rightarrow> nat option \<Rightarrow> user_answers \<Rightarrow>
   string \<Rightarrow> vpn_client \<Rightarrow> server_page \<Rightarrow> (vpn_client \<times> server_page \<times> vpn_ui list) js_result" where
  "openOptions collate cl q e selected a currentPk c p =
     bindR (option_server e (savedData c)) (\<lambda>(d, v).
     bindR (openServerOptions v selected a currentPk (c\<lparr>savedData := d\<rparr>)) (\<lambda>(c1, changesMade, ev).
       if changesMade then
         bindR (processAllServers collate cl q (savedData c1) p) (\<lambda>(d1, p1). Inr (c1\<lparr>savedData := d1\<rparr>, p1, ev))
       else Inr (c1, p, ev)))"

section \<open>Entering a server\<close>

text \<open>
  \<open>add-vpn-server.component.ts\<close>: the validators of the form, and \<open>process\<close>. The form keeps its values
  as strings.
\<close>

definition valid_server_pk :: "string \<Rightarrow> bool" where
  "valid_server_pk pk \<longleftrightarrow>
     pk \<noteq> [] \<and> 66 \<le> length pk \<and> length pk \<le> 66 \<and> list_all (\<lambda>x. x \<in> set ''0123456789abcdefABCDEF'') pk"

definition add_server ::
  "string \<Rightarrow> string \<Rightarrow> string \<Rightarrow> string \<Rightarrow> bool \<Rightarrow> string \<Rightarrow> vpn_client \<Rightarrow> (vpn_client \<times> vpn_ui list) js_result" where
  "add_server pk password name note accepted localPk c =
     (if \<not> valid_server_pk pk then Inr (c, [])
      else
        let n = FromManual \<lparr>man_pk = pk, man_password = Undefined, man_name = Str name, man_note = Str note\<rparr> in
        bindR (begin_server_change n (Str password) c) (\<lambda>(c1, saved, plan).
          if plan \<in> {ConfirmChange, ConfirmStart} \<and> \<not> accepted then Inr (c1, [])
          else finish_server_change plan n saved (Str password) True localPk c1))"

section \<open>The saved data of the servers\<close>

lemma add_saved_rest:
  assumes "\<forall>x \<in> set xs. fst x \<noteq> (0::nat)"
  shows "foldR (\<lambda>(i, e) (d, out).
        bindR (getSavedVersion (sl_pk e) (i = 0) d) (\<lambda>(d1, saved). Inr (d1, out @ [with_saved saved e]))) xs (d, out) =
    Inr (d, out @ map (\<lambda>x. with_saved (map_get (serversMap d) (sl_pk (snd x))) (snd x)) xs)"
  using assms
proof (induction xs arbitrary: out)
  case (Cons x xs)
  then show ?case by (cases x) (simp add: getSavedVersion_def)
qed simp

definition listed_servers :: "hv_store \<Rightarrow> VpnServerForList list \<Rightarrow> VpnServerForList list" where
  "listed_servers st es = map (\<lambda>e. with_saved (stored_lookup st (sl_pk e)) e) es"

lemma add_saved_data_result:
  assumes "saved_fine s"
  shows "\<exists>s1. add_saved_data es s = Inr (s1, listed_servers (store s) es) \<and> saved_fine s1 \<and> store s1 = store s"
proof (cases es)
  case Nil
  then show ?thesis using assms by (simp add: add_saved_data_def listed_servers_def)
next
  case (Cons e es')
  obtain s1 where s1: "checkIfDataWasChanged s = Inr s1" "up_to_date s1" "store s1 = store s"
    using check_up_to_date [of s] assms by (auto simp: saved_fine_def)
  have look: "map_get (serversMap s1) k = stored_lookup (store s) k" for k
    using up_to_date_lookup [OF s1(2)] s1(3) by simp
  define zs where "zs = zip [1..<length es] es'"
  have zip: "zip [0..<length es] es = (0, e) # zs"
  proof -
    have "[0..<length es] = 0 # [1..<length es]" using Cons by (simp add: upt_conv_Cons del: upt_Suc)
    then show ?thesis by (simp add: Cons zs_def del: upt_Suc)
  qed
  have es': "map snd zs = es'" unfolding zs_def by (rule map_snd_zip) (simp add: Cons del: upt_Suc)
  have "\<forall>x \<in> set zs. fst x \<noteq> 0" by (auto simp: zs_def dest: set_zip_leftD)
  from add_saved_rest [OF this, of s1 "[with_saved (stored_lookup (store s) (sl_pk e)) e]"]
  have "add_saved_data es s = Inr (s1, listed_servers (store s) (e # map snd zs))"
    unfolding add_saved_data_def zip by (simp add: getSavedVersion_def s1(1) look listed_servers_def comp_def)
  then have "add_saved_data es s = Inr (s1, listed_servers (store s) es)" unfolding es' Cons .
  then show ?thesis using s1(2,3) by (auto simp: up_to_date_def saved_fine_def)
qed

section \<open>The list that is shown\<close>

lemma find_column_bound: "find_column k cs = Some i \<Longrightarrow> i < length cs"
  by (induction cs arbitrary: i) (auto split: if_splits)

lemma server_column_text:
  assumes "c \<in> set common_columns"
  shows "\<exists>p x. properties c = [p] \<and> sortingMode c = TextMode \<and> labelProperties c = None \<and>
    map_of (server_element e) p = Some (VStr x)"
  using assms by (simp add: common_columns_def) (elim disjE; simp add: text_column_def server_element_def)

lemma server_fits:
  assumes "sortableColumns s = server_columns l" and "col < length (server_columns l)"
    and "l = HistoryList \<longrightarrow> sl_lastUsed e \<noteq> None \<and> \<not> by_label"
  shows "fits_column s col by_label (VObj (server_element e))"
proof -
  let ?c = "server_columns l ! col"
  have "?c \<in> set (server_columns l)" using assms(2) by simp
  then consider (date) "l = HistoryList" "?c = date_column" | (text_col) "?c \<in> set common_columns"
    by (auto simp: server_columns_def split: if_splits)
  then show ?thesis
  proof cases
    case date
    then obtain t where "sl_lastUsed e = Some t" "\<not> by_label" using assms(3) by auto
    then have "map_of (server_element e) ''lastUsed'' = Some (VNum t)" by (simp add: server_element_def)
    then show ?thesis
      using date assms(1,2) \<open>\<not> by_label\<close> by (simp add: fits_column_def sort_path_def sort_mode_def date_column_def)
  next
    case text_col
    from server_column_text [OF this, of e] obtain p x where p: "properties ?c = [p]" "sortingMode ?c = TextMode"
      "labelProperties ?c = None" "map_of (server_element e) p = Some (VStr x)" by blast
    then show ?thesis using assms(1,2) by (cases by_label) (simp_all add: fits_column_def sort_path_def sort_mode_def)
  qed
qed

definition order_readable :: "hv_store \<Rightarrow> Lists \<Rightarrow> string \<Rightarrow> bool" where
  "order_readable st l i \<longleftrightarrow> l = HistoryList \<longrightarrow> getDataForHv st (labelStorageKeyPrefix @ i) \<noteq> Some ''true''"

lemma server_sortable:
  assumes "order_readable st l i" and "l = HistoryList \<longrightarrow> sl_lastUsed e \<noteq> None"
  shows "sortable (server_sorter st l i) (VObj (server_element e))"
proof -
  let ?s = "server_sorter st l i"
  have cols: "sortableColumns ?s = server_columns l" "defaultColumnIndex ?s = default_column l"
    "tieBreakerColumnIndex ?s = Some (tie_breaker_column l)"
    by (simp_all add: server_sorter_def new_sorter_def setTieBreakerColumnIndex_def)
  have bounds: "default_column l < length (server_columns l)" "tie_breaker_column l < length (server_columns l)"
    by (simp_all add: default_column_def tie_breaker_column_def server_columns_def common_columns_def)
  have "sortBy ?s < length (server_columns l)"
    using bounds by (auto simp: server_sorter_def new_sorter_def setTieBreakerColumnIndex_def split: option.split
        dest: find_column_bound)
  moreover have "l = HistoryList \<longrightarrow> \<not> sortByLabel ?s"
    using assms(1) by (simp add: order_readable_def server_sorter_def new_sorter_def setTieBreakerColumnIndex_def)
  ultimately show ?thesis
    unfolding sortable_def cols option.case using bounds assms(2)
    by (intro conjI) (rule server_fits [OF cols(1)]; simp)+
qed

definition used_servers :: "Lists \<Rightarrow> hv_store \<Rightarrow> VpnServerForList list \<Rightarrow> VpnServerForList list" where
  "used_servers l st es = filter (\<lambda>e. l = PublicList \<longrightarrow> sl_flag e \<noteq> Blocked) (listed_servers st es)"

definition shows_servers :: "element list \<Rightarrow> server_page \<Rightarrow> bool" where
  "shows_servers ys p \<longleftrightarrow> sp_filtered p = Some ys \<and>
     sp_currentPage p = min (sp_currentPageInUrl p) (int (sp_numberOfPages p)) \<and>
     sp_numberOfPages p = ceil_div (length ys) 50 \<and>
     sp_toShow p = Some (shown_elements 50 (sp_currentPage p) ys)"

lemma processAllServers_result:
  fixes cl q
  assumes "collation collate" and "saved_fine s" and "order_readable (store s) (currentList p) (sp_listId p)"
    and "currentList p = HistoryList \<longrightarrow> (\<forall>e \<in> set (allServers p). sl_lastUsed e \<noteq> None)"
  defines "es \<equiv> listed_servers (store s) (allServers p)"
  defines "f \<equiv> new_filterer (server_filters (country_labels collate cl es)) (sp_listId p) q"
  shows "\<exists>s1 p1 ys. processAllServers collate cl q s p = Inr (s1, p1) \<and> saved_fine s1 \<and> store s1 = store s \<and>
    currentList p1 = currentList p \<and> sp_loading p1 = sp_loading p \<and> shows_servers ys p1 \<and>
    mset ys = mset (filter (passes_filters f) (map server_element (used_servers (currentList p) (store s) (allServers p)))) \<and>
    sorted_elements collate (server_sorter (store s) (currentList p) (sp_listId p)) ys"
proof -
  define used where "used = map server_element (used_servers (currentList p) (store s) (allServers p))"
  define sorter where "sorter = server_sorter (store s) (currentList p) (sp_listId p)"
  obtain s1 where s1: "add_saved_data (allServers p) s = Inr (s1, es)" "saved_fine s1" "store s1 = store s"
    using add_saved_data_result [OF assms(2)] unfolding es_def by blast
  have use: "map server_element (if currentList p = PublicList then filter (\<lambda>e. sl_flag e \<noteq> Blocked) es else es) = used"
    by (simp add: used_def used_servers_def es_def)
  have last: "last (dataFilteredEvents (setFiltererData (Some used) f)) = filter (passes_filters f) used"
    unfolding passes_filters_def setFiltererData_def
    using filterData_last [of "f\<lparr>filterer_data := Some used\<rparr>" used] by simp
  have "sortable sorter (VObj x)" if x: "x \<in> set (filter (passes_filters f) used)" for x
  proof -
    obtain e where e: "x = server_element (with_saved (stored_lookup (store s) (sl_pk e)) e)" "e \<in> set (allServers p)"
      using x by (auto simp: used_def used_servers_def listed_servers_def)
    have "sl_lastUsed (with_saved r e) = sl_lastUsed e" for r by (simp add: with_saved_def split: option.split)
    then show ?thesis unfolding e(1) sorter_def using assms(3,4) e(2) by (intro server_sortable) simp_all
  qed
  from sorted_data [OF assms(1) this] obtain ys
    where ys: "setSorterData collate (Some (map VObj (filter (passes_filters f) used))) sorter =
        Inr (sorter\<lparr>sorter_data := Some (map VObj ys), dataSortedCount := dataSortedCount sorter + 1\<rparr>)"
      "mset ys = mset (filter (passes_filters f) used)" "sorted_elements collate sorter ys" .
  have objs: "map obj_members (map VObj ys) = ys" by (simp add: comp_def)
  define p1 where "p1 = recalculate_servers (p\<lparr>allServers := es,
    sp_sorter := Some (sorter\<lparr>sorter_data := Some (map VObj ys), dataSortedCount := dataSortedCount sorter + 1\<rparr>),
    sp_filterer := Some (setFiltererData (Some used) f), sp_filtered := Some ys\<rparr>)"
  have "processAllServers collate cl q s p = Inr (s1, p1)"
    unfolding processAllServers_def s1(1) bindR_simps prod.case Let_def
    by (simp only: s1(3) use f_def [symmetric] sorter_def [symmetric] last ys(1) bindR_simps)
      (simp add: p1_def objs del: map_map)
  moreover have "shows_servers ys p1" "currentList p1 = currentList p" "sp_loading p1 = sp_loading p"
    by (simp_all add: p1_def recalculate_servers_def shows_servers_def maxServerListElements_def min_def Let_def)
  ultimately show ?thesis
    using s1(2,3) ys(2,3) unfolding used_def sorter_def by (intro exI [of _ s1] exI [of _ p1] exI [of _ ys]) simp
qed

text \<open>
  Property C25. The page with the servers of the discovery service. In a good storage it never fails
  to show them: the stored data of known servers is updated first; then the list has, of the servers
  found, exactly those that are not blocked and pass the filters, each with the name, the note and
  the marks that are stored for it, in the selected order and 50 per page. So no blocked server is
  offered.
\<close>

theorem public_list_correct:
  fixes collate cl q servers s p
  assumes "collation collate" and "saved_fine s" and "currentList p = PublicList"
  shows "\<exists>s0 s1 p1 ys. updateFromDiscovery servers s = Inr s0 \<and>
    public_servers_received collate cl q servers s p = Inr (s1, p1) \<and> saved_fine s1 \<and> store s1 = store s0 \<and>
    \<not> sp_loading p1 \<and> shows_servers ys p1 \<and>
    (let es = map (\<lambda>v. with_saved (stored_lookup (store s1) (vs_pk v)) (public_entry cl v)) servers;
         f = new_filterer (server_filters (country_labels collate cl es)) (sp_listId p) q
     in mset ys = mset (filter (passes_filters f) (map server_element (filter (\<lambda>e. sl_flag e \<noteq> Blocked) es)))) \<and>
    sorted_elements collate (server_sorter (store s1) PublicList (sp_listId p)) ys"
proof -
  obtain s0 where s0: "updateFromDiscovery servers s = Inr s0" "saved_fine s0"
    using updateFromDiscovery_ok [of s servers] assms(2) by (auto simp: saved_fine_def committed_def up_to_date_def)
  let ?p = "p\<lparr>allServers := map (public_entry cl) servers, sp_loading := False\<rparr>"
  have readable: "order_readable (store s0) (currentList ?p) (sp_listId ?p)" using assms(3) by (simp add: order_readable_def)
  have used: "currentList ?p = HistoryList \<longrightarrow> (\<forall>e \<in> set (allServers ?p). sl_lastUsed e \<noteq> None)" using assms(3) by simp
  have es: "listed_servers st (map (public_entry cl) servers) =
      map (\<lambda>v. with_saved (stored_lookup st (vs_pk v)) (public_entry cl v)) servers" for st
    by (simp add: listed_servers_def public_entry_def)
  from processAllServers_result [OF assms(1) s0(2) readable used, of cl q] obtain s1 p1 ys
    where r: "processAllServers collate cl q s0 ?p = Inr (s1, p1)" "saved_fine s1" "store s1 = store s0"
      "sp_loading p1 = sp_loading ?p" "shows_servers ys p1"
      "mset ys = mset (filter (passes_filters (new_filterer (server_filters (country_labels collate cl
        (listed_servers (store s0) (allServers ?p)))) (sp_listId ?p) q))
        (map server_element (used_servers (currentList ?p) (store s0) (allServers ?p))))"
      "sorted_elements collate (server_sorter (store s0) (currentList ?p) (sp_listId ?p)) ys"
    by (elim exE conjE)
  have "public_servers_received collate cl q servers s p = Inr (s1, p1)"
    by (simp add: public_servers_received_def s0(1) r(1))
  then show ?thesis
    using s0(1) r(2-7) assms(3) unfolding Let_def
    by (intro exI [of _ s0] exI [of _ s1] exI [of _ p1] exI [of _ ys]) (simp add: used_servers_def es)
qed

section \<open>Selecting\<close>

text \<open>
  Selecting a server in the list. A server that is stored as blocked is never connected:
  the page reports it and nothing is requested, also when another window blocked it. The selected
  server is never requested again. And for a server that was used with a password nothing is
  requested unless the user has answered the question for it.
\<close>

theorem selecting_respects_flags:
  assumes "saved_fine (savedData c)"
  shows "\<exists>d. checkIfDataWasChanged (savedData c) = Inr d \<and>
    (\<forall>v. stored_lookup (store (savedData c)) (sl_pk e) = Some v \<and> flag v = Blocked \<longrightarrow>
       selectServer e current vpnRunning a localPk c =
         Inr (c\<lparr>savedData := d\<rparr>, [VpnError ''vpn.starting-blocked-server-error''])) \<and>
    (\<forall>v. stored_lookup (store (savedData c)) (sl_pk e) = Some v \<and> flag v \<noteq> Blocked \<and> usedWithPassword v \<and>
       (case current of Some w \<Rightarrow> server_pk w \<noteq> sl_pk e | None \<Rightarrow> True) \<and> entered_password a = None \<longrightarrow>
       selectServer e current vpnRunning a localPk c = Inr (c\<lparr>savedData := d\<rparr>, [])) \<and>
    (case current of
       Some w \<Rightarrow> server_pk w = sl_pk e \<and> selectServer e current vpnRunning a localPk c = Inr (c', ev) \<longrightarrow>
         dataRequest c' \<in> {dataRequest c, Some (ChangeState True)} \<and> requestedServer c' = requestedServer c
     | None \<Rightarrow> True)"
proof -
  obtain d where d: "checkIfDataWasChanged (savedData c) = Inr d" "up_to_date d" "store d = store (savedData c)"
    using check_up_to_date [of "savedData c"] assms by (auto simp: saved_fine_def)
  have saved: "getSavedVersion (sl_pk e) True (savedData c) = Inr (d, stored_lookup (store (savedData c)) (sl_pk e))"
    using up_to_date_lookup [OF d(2)] d(1,3) by (simp add: getSavedVersion_def)
  have started: "dataRequest (fst (start c1)) \<in> {dataRequest c1, Some (ChangeState True)} \<and>
      requestedServer (fst (start c1)) = requestedServer c1" for c1
    by (simp add: start_def client_defs)
  have blocked: "selectServer e current vpnRunning a localPk c =
      Inr (c\<lparr>savedData := d\<rparr>, [VpnError ''vpn.starting-blocked-server-error''])"
    if "stored_lookup (store (savedData c)) (sl_pk e) = Some v \<and> flag v = Blocked" for v
    using that by (simp add: selectServer_def saved select_server_step_def)
  have pw: "selectServer e current vpnRunning a localPk c = Inr (c\<lparr>savedData := d\<rparr>, [])"
    if "stored_lookup (store (savedData c)) (sl_pk e) = Some v \<and> flag v \<noteq> Blocked \<and> usedWithPassword v \<and>
       (case current of Some w \<Rightarrow> server_pk w \<noteq> sl_pk e | None \<Rightarrow> True) \<and> entered_password a = None" for v
    using that by (simp add: selectServer_def saved select_server_step_def split: option.splits)
  have same: "dataRequest c' \<in> {dataRequest c, Some (ChangeState True)} \<and> requestedServer c' = requestedServer c"
    if "current = Some w" "server_pk w = sl_pk e" "selectServer e current vpnRunning a localPk c = Inr (c', ev)" for w
    using that started [of "c\<lparr>savedData := d\<rparr>"]
    by (auto simp: selectServer_def saved select_server_step_def split: if_splits option.splits)
  show ?thesis using d(1) blocked pw same by (auto split: option.split)
qed

text \<open>
  The filter of the names also looks at the name the user gave, and a missing one counts as the text
  \<open>null\<close>: a server without it passes every filter that is a part of that text.
\<close>

theorem missing_name_passes_filter:
  assumes "filter_value fs (keyNameInFiltersObject p) = ''nul''" and "secondaryKeyNameInElementsArray p = Some ''customName''"
    and "sl_customName e = Null"
  shows "passes_filter fs p (server_element e)"
proof -
  have "prop_text (server_element e) ''customName'' = ''null''" using assms(3) by (simp add: prop_text_def server_element_def)
  moreover have "str_includes (to_lower ''null'') (to_lower ''nul'')" by code_simp
  ultimately show ?thesis using assms(1,2) by (simp add: passes_filter_def)
qed

section \<open>Witnesses\<close>

definition empty_page :: server_page where
  "empty_page = \<lparr>currentList = PublicList, sp_listId = ''vps'', sp_loading = True, allServers = [], sp_filtered = None,
     sp_toShow = None, sp_numberOfPages = 1, sp_currentPage = 1, sp_currentPageInUrl = 1, sp_sorter = None,
     sp_filterer = None, currentLocalPk = ''02aa''\<rparr>"

theorem public_list_correct_witness:
  "\<exists>s1 p1. public_servers_received length_collate (\<lambda>k. Undefined) []
     [\<lparr>vs_countryCode = ''us'', vs_name = ''one'', vs_location = [], vs_pk = ''02ab'', vs_note = []\<rparr>]
     (used_state (Str ''02ab'')) empty_page = Inr (s1, p1) \<and> \<not> sp_loading p1"
proof -
  have fine: "saved_fine (used_state (Str ''02ab''))"
    using used_store_ok used_state_instance by (simp add: saved_fine_def used_state_ok)
  have "currentList empty_page = PublicList" by (simp add: empty_page_def)
  from public_list_correct [OF length_collation fine this, of "[\<lparr>vs_countryCode = ''us'', vs_name = ''one'', vs_location = [],
      vs_pk = ''02ab'', vs_note = []\<rparr>]" "\<lambda>k. Undefined" "[]"]
  show ?thesis by (elim exE conjE) (intro exI conjI)
qed

theorem selecting_respects_flags_witness:
  "\<exists>c' ev. selectServer (local_entry (\<lambda>k. Undefined) used_server) (Some used_server) True
     \<lparr>accepts = True, accepts_change = True, entered_password = None, edited_value = None\<rparr> ''02aa'' off_client = Inr (c', ev) \<and>
     requestedServer c' = None"
proof -
  let ?e = "local_entry (\<lambda>k. Undefined) used_server"
  let ?a = "\<lparr>accepts = True, accepts_change = True, entered_password = None, edited_value = None\<rparr>"
  obtain d where d: "checkIfDataWasChanged (savedData off_client) = Inr d"
    using check_up_to_date [of "savedData off_client"] off_client_fine(1) by (auto simp: saved_fine_def)
  have "\<exists>c' ev. selectServer ?e (Some used_server) True ?a ''02aa'' off_client = Inr (c', ev)"
    using d by (auto simp: selectServer_def getSavedVersion_def select_server_step_def local_entry_def split: option.split)
  then obtain c' ev where r: "selectServer ?e (Some used_server) True ?a ''02aa'' off_client = Inr (c', ev)" by blast
  from selecting_respects_flags [OF off_client_fine(1), of ?e "Some used_server" True ?a "''02aa''" c' ev] r
  have "requestedServer c' = requestedServer off_client" by (auto simp: local_entry_def)
  then show ?thesis using r by (intro exI [of _ c'] exI [of _ ev]) (simp add: off_client_def new_client_def)
qed

end
