(* ===== verification/Ui_Pages.thy ===== *)
theory Ui_Pages
  imports Auth Node_Page Vpn_Server_List Transport_List
begin

text \<open>
  Small pages and services: the language of the interface (\<open>services/language.service.ts\<close> and
  \<open>select-language.component.ts\<close>), the page of the settings with its check of the access
  (\<open>pages/settings/settings.component.ts\<close>), the start page (\<open>pages/start/start.component.ts\<close>), the details of a
  visor (\<open>node-info-content.component.ts\<close>) and the tabs of the pages of the VPN (\<open>vpn-helpers.ts\<close>).
\<close>

section \<open>The language\<close>

record LanguageData =
  lang_code :: string
  lang_name :: string
  iconName :: string

text \<open>\<open>app.config.ts\<close>; the characters outside ASCII of two names are written without their marks.\<close>

definition app_languages :: "LanguageData list" where
  "app_languages =
     [\<lparr>lang_code = ''en'', lang_name = ''English'', iconName = ''en.png''\<rparr>,
      \<lparr>lang_code = ''es'', lang_name = ''Espanol'', iconName = ''es.png''\<rparr>,
      \<lparr>lang_code = ''de'', lang_name = ''Deutsch'', iconName = ''de.png''\<rparr>,
      \<lparr>lang_code = ''pt'', lang_name = ''Portugues (Brazil)'', iconName = ''pt.png''\<rparr>]"

definition defaultLanguage :: string where "defaultLanguage = ''en''"

text \<open>
  The subjects keep the last value. The codes given to \<open>translate.use\<close> are kept until the library reports
  the change, which it does when the texts have been loaded, in any order or never.
\<close>

record language_service =
  languagesInternal :: "LanguageData list"
  settingsLoaded :: bool
  languages :: "LanguageData list option"
  currentLanguage :: "LanguageData option option"
  ls_used :: "string list"
  ls_store :: hv_store

definition language_service_created :: "hv_store \<Rightarrow> language_service" where
  "language_service_created st =
     \<lparr>languagesInternal = [], settingsLoaded = False, languages = None, currentLanguage = None, ls_used = [], ls_store = st\<rparr>"

definition saved_language :: "hv_store \<Rightarrow> string" where
  "saved_language st = (case getItem st ''lang'' of Some l \<Rightarrow> if l \<noteq> [] then l else defaultLanguage | None \<Rightarrow> defaultLanguage)"

definition loadCurrentLanguage :: "language_service \<Rightarrow> language_service" where
  "loadCurrentLanguage s = s\<lparr>ls_used := ls_used s @ [saved_language (ls_store s)]\<rparr>"

definition loadLanguageSettings :: "language_service \<Rightarrow> language_service" where
  "loadLanguageSettings s =
     (if settingsLoaded s then s
      else let ls = languagesInternal s @ app_languages
           in loadCurrentLanguage (s\<lparr>settingsLoaded := True, languagesInternal := ls, languages := Some ls\<rparr>))"

definition changeLanguage :: "string \<Rightarrow> language_service \<Rightarrow> language_service" where
  "changeLanguage langCode s = s\<lparr>ls_used := ls_used s @ [langCode]\<rparr>"

definition onLanguageChanged :: "string \<Rightarrow> language_service \<Rightarrow> language_service" where
  "onLanguageChanged l s =
     s\<lparr>currentLanguage := Some (find (\<lambda>v. lang_code v = l) (languagesInternal s)), ls_store := setItem ''lang'' l (ls_store s)\<rparr>"

text \<open>The window offers the languages of the service.\<close>

definition language_chosen :: "LanguageData option \<Rightarrow> language_service \<Rightarrow> language_service" where
  "language_chosen l s = (case l of Some d \<Rightarrow> changeLanguage (lang_code d) s | None \<Rightarrow> s)"

inductive language_step :: "language_service \<Rightarrow> language_service \<Rightarrow> bool" where
  load: "language_step s (loadLanguageSettings s)"
| choose: "languages s = Some ls \<Longrightarrow> d \<in> set ls \<Longrightarrow> language_step s (language_chosen (Some d) s)"
| closed: "language_step s (language_chosen None s)"
| changed: "l \<in> set (ls_used s) \<Longrightarrow> language_step s (onLanguageChanged l s)"

definition known_language :: "string \<Rightarrow> bool" where
  "known_language l \<longleftrightarrow> l \<in> lang_code ` set app_languages"

definition language_ok :: "language_service \<Rightarrow> bool" where
  "language_ok s \<longleftrightarrow>
     (if settingsLoaded s then languagesInternal s = app_languages \<and> languages s = Some app_languages
      else languagesInternal s = [] \<and> languages s = None \<and> ls_used s = []) \<and>
     (\<forall>l \<in> set (ls_used s). known_language l) \<and> known_language (saved_language (ls_store s)) \<and>
     (\<forall>v. currentLanguage s = Some v \<longrightarrow>
        (\<exists>d \<in> set app_languages. v = Some d \<and> saved_language (ls_store s) = lang_code d))"

lemma saved_language_set: "l \<noteq> [] \<Longrightarrow> saved_language (setItem ''lang'' l st) = l"
  by (simp add: saved_language_def hv_defs)

lemma found_language:
  assumes "known_language l"
  shows "l \<noteq> [] \<and> (\<exists>d \<in> set app_languages. find (\<lambda>v. lang_code v = l) app_languages = Some d \<and> lang_code d = l)"
  using assms by (auto simp: known_language_def app_languages_def)

lemma language_step_ok: "language_step s s' \<Longrightarrow> language_ok s \<Longrightarrow> language_ok s'"
proof (induction rule: language_step.induct)
  case (load s)
  then show ?case by (auto simp: language_ok_def loadLanguageSettings_def loadCurrentLanguage_def Let_def)
next
  case (choose s ls d)
  then show ?case by (auto simp: language_ok_def language_chosen_def changeLanguage_def known_language_def split: if_splits)
next
  case (closed s)
  then show ?case by (simp add: language_chosen_def)
next
  case (changed l s)
  then have "settingsLoaded s" by (auto simp: language_ok_def split: if_splits)
  moreover have "known_language l" using changed by (auto simp: language_ok_def)
  ultimately show ?case
    using changed.prems found_language [of l] by (auto simp: language_ok_def onLanguageChanged_def saved_language_set)
qed

text \<open>
  The language, after any sequence of changes, when the saved one (if there is any) is known: what is published is
  always one of the known languages, and it is the one that the next start uses.
\<close>

theorem language_recovered:
  assumes "language_step\<^sup>*\<^sup>* (language_service_created st) s" and "known_language (saved_language st)" and "currentLanguage s = Some v"
  shows "\<exists>d \<in> set app_languages. v = Some d \<and>
    ls_used (loadLanguageSettings (language_service_created (ls_store s))) = [lang_code d]"
proof -
  have "language_ok s"
    using assms(1)
  proof (induction rule: rtranclp_induct)
    case base
    show ?case using assms(2) by (simp add: language_ok_def language_service_created_def)
  next
    case (step x y)
    then show ?case using language_step_ok by blast
  qed
  then show ?thesis
    using assms(3) by (auto simp: language_ok_def loadLanguageSettings_def loadCurrentLanguage_def language_service_created_def Let_def)
qed

section \<open>The page of the settings\<close>

record settings_page =
  authChecked :: bool
  authActive :: bool
  settings_options :: "string list"
  settings_state :: history_state
  auth_source :: "AuthStates option option"
  auth_delay :: int

fun auth_number :: "AuthStates \<Rightarrow> int" where
  "auth_number AuthDisabled = 0"
| "auth_number Logged = 1"
| "auth_number NotLogged = 2"

definition auth_of_json :: "json \<Rightarrow> AuthStates js_result" where
  "auth_of_json j =
     (if j = JNum 0 then Inr AuthDisabled else if j = JNum 1 then Inr Logged else if j = JNum 2 then Inr NotLogged else Inl TypeError)"

definition parsed_auth :: "jsval \<Rightarrow> AuthStates js_result" where
  "parsed_auth v = (case v of VStr t \<Rightarrow> bindR (json_parse t) auth_of_json | _ \<Rightarrow> Inl SyntaxError)"

definition auth_key :: string where "auth_key = ''serv-aut-response''"

definition settings_menu :: "settings_page \<Rightarrow> settings_page" where
  "settings_menu p = p\<lparr>settings_options := (if authActive p then [''logout''] else [])\<rparr>"

text \<open>Which value the check waits for: the saved one, or the answer of the visor.\<close>

definition checkAuth :: "int \<Rightarrow> bool \<Rightarrow> settings_page \<Rightarrow> settings_page js_result" where
  "checkAuth delay checkSavedData p =
     (case (if checkSavedData then getLocalValue auth_key (settings_state p) else None) of
        None \<Rightarrow> Inr (p\<lparr>auth_source := Some None, auth_delay := delay\<rparr>)
      | Some d \<Rightarrow> bindR (parsed_auth (lv_value d)) (\<lambda>a. Inr (p\<lparr>auth_source := Some (Some a), auth_delay := delay\<rparr>)))"

definition settings_opened :: "history_state \<Rightarrow> settings_page js_result" where
  "settings_opened st =
     checkAuth 0 True (settings_menu \<lparr>authChecked = False, authActive = False, settings_options = [], settings_state = st,
       auth_source = None, auth_delay = 0\<rparr>)"

definition auth_shown :: "AuthStates \<Rightarrow> settings_page \<Rightarrow> settings_page" where
  "auth_shown a p = settings_menu (p\<lparr>authChecked := True, authActive := (a = Logged)\<rparr>)"

definition auth_from_saved :: "AuthStates \<Rightarrow> settings_page \<Rightarrow> settings_page js_result" where
  "auth_from_saved a p = checkAuth 0 False (auth_shown a (p\<lparr>auth_source := None\<rparr>))"

definition auth_from_visor :: "int \<Rightarrow> jsval + AuthStates \<Rightarrow> settings_page \<Rightarrow> settings_page js_result" where
  "auth_from_visor now r p =
     (case r of
        Inl e \<Rightarrow> checkAuth 15000 False (p\<lparr>auth_source := None\<rparr>)
      | Inr a \<Rightarrow>
          bindR (saveLocalValue auth_key (VStr (stringify (JNum (auth_number a)))) now (settings_state p)) (\<lambda>st.
            Inr (auth_shown a (p\<lparr>auth_source := None, settings_state := st\<rparr>))))"

inductive settings_page_step :: "settings_page \<Rightarrow> settings_page \<Rightarrow> bool" where
  saved: "auth_source p = Some (Some a) \<Longrightarrow> auth_from_saved a p = Inr p' \<Longrightarrow> settings_page_step p p'"
| visor: "auth_source p = Some None \<Longrightarrow> auth_from_visor now r p = Inr p' \<Longrightarrow> settings_page_step p p'"

datatype settings_effect = AskLogout string | LogoutRequest | GoToPage "string list" | LogoutError string

definition settings_action :: "string \<Rightarrow> settings_effect list" where
  "settings_action action = (if action = ''logout'' then [AskLogout ''common.logout-confirmation''] else [])"

definition logout_accepted :: "confirmation \<Rightarrow> confirmation \<times> settings_effect list" where
  "logout_accepted c = (closeModal c, [LogoutRequest])"

definition logout_answered :: "jsval + jsval \<Rightarrow> settings_effect list" where
  "logout_answered r = (case r of Inr v \<Rightarrow> [GoToPage [''login'']] | Inl e \<Rightarrow> [LogoutError ''common.logout-error''])"

lemma parsed_auth_number: "parsed_auth (VStr (stringify (JNum (auth_number a)))) = Inr a"
  by (cases a) (simp_all add: parsed_auth_def parse_stringify bindR_simps auth_of_json_def)

text \<open>What is saved in the history can be read again.\<close>

definition auth_readable :: "history_state \<Rightarrow> bool" where
  "auth_readable st \<longleftrightarrow> (\<forall>d. getLocalValue auth_key st = Some d \<longrightarrow> (\<exists>a. parsed_auth (lv_value d) = Inr a))"

definition settings_page_ok :: "settings_page \<Rightarrow> bool" where
  "settings_page_ok p \<longleftrightarrow>
     settings_options p = (if authActive p then [''logout''] else []) \<and> (authActive p \<longrightarrow> authChecked p) \<and>
     auth_readable (settings_state p) \<and>
     (auth_source p = None \<longrightarrow>
        authChecked p \<and> (\<exists>a d. getLocalValue auth_key (settings_state p) = Some d \<and> parsed_auth (lv_value d) = Inr a \<and>
          (authActive p \<longleftrightarrow> a = Logged)))"

lemma auth_saved:
  "\<exists>st'. saveLocalValue auth_key (VStr (stringify (JNum (auth_number a)))) now (Some m) = Inr st' \<and>
    getLocalValue auth_key st' = Some \<lparr>lv_value = VStr (stringify (JNum (auth_number a))), lv_date = VNum now\<rparr>"
  using local_value_roundtrip [of "VStr (stringify (JNum (auth_number a)))" auth_key now m] by auto

lemma settings_page_step_ok: "settings_page_step p p' \<Longrightarrow> settings_page_ok p \<Longrightarrow> settings_page_ok p'"
proof (induction rule: settings_page_step.induct)
  case (saved p a p')
  then show ?case
    by (auto simp: auth_from_saved_def checkAuth_def auth_shown_def settings_menu_def settings_page_ok_def)
next
  case (visor p now r p')
  show ?case
  proof (cases r)
    case (Inl e)
    then show ?thesis using visor by (auto simp: auth_from_visor_def checkAuth_def settings_page_ok_def)
  next
    case (Inr a)
    with visor obtain m where m: "settings_state p = Some m"
      by (cases "settings_state p") (auto simp: auth_from_visor_def saveLocalValue_def bindR_simps)
    from auth_saved [of a now m] obtain st' where
      st': "saveLocalValue auth_key (VStr (stringify (JNum (auth_number a)))) now (Some m) = Inr st'"
        "getLocalValue auth_key st' = Some \<lparr>lv_value = VStr (stringify (JNum (auth_number a))), lv_date = VNum now\<rparr>" by blast
    then have "p' = auth_shown a (p\<lparr>auth_source := None, settings_state := st'\<rparr>)"
      using visor.hyps(2) Inr m by (simp add: auth_from_visor_def bindR_simps)
    then show ?thesis
      using st'(2) by (simp add: settings_page_ok_def auth_shown_def settings_menu_def auth_readable_def parsed_auth_number)
  qed
qed

text \<open>
  The page of the settings, whatever the visor answers: the menu offers to log out exactly when the last known answer was
  that the user is logged in; the page stops asking only after an answer of the visor, which is then the
  saved one; and a page that is opened with this history shows it at once and asks again.
\<close>

theorem settings_page_correct:
  assumes "settings_opened st = Inr p0" and "settings_page_step\<^sup>*\<^sup>* p0 p" and "auth_readable st"
  shows "(settings_options p = [''logout''] \<longleftrightarrow> authActive p) \<and>
    (auth_source p = None \<longrightarrow>
       (\<exists>a q q'. settings_opened (settings_state p) = Inr q \<and> auth_source q = Some (Some a) \<and> auth_from_saved a q = Inr q' \<and>
          settings_options q' = settings_options p \<and> auth_source q' = Some None))"
proof -
  have "settings_page_ok p"
    using assms(2)
  proof (induction rule: rtranclp_induct)
    case base
    show ?case
      using assms(1,3)
      by (auto simp: settings_opened_def checkAuth_def settings_menu_def settings_page_ok_def bindR_Inr_iff split: option.splits)
  next
    case (step x y)
    then show ?case using settings_page_step_ok by blast
  qed
  then show ?thesis
    by (auto simp: settings_page_ok_def settings_opened_def checkAuth_def settings_menu_def bindR_simps auth_from_saved_def auth_shown_def)
qed

text \<open>The start page.\<close>

definition start_redirect :: "jsval + AuthStates \<Rightarrow> string list" where
  "start_redirect r = (case r of Inr a \<Rightarrow> if a \<noteq> NotLogged then [''nodes''] else [''login''] | Inl e \<Rightarrow> [''nodes''])"

section \<open>The details of a visor\<close>

text \<open>
  The time is \<open>None\<close> when the visor does not say it. The answers go to the dialog that made the request; the window
  for a new question is a new dialog.
\<close>

record node_info_content =
  ni_node :: Node
  timeOnline :: "ElapsedTime option"
  nodeHealthText :: string
  nodeHealthClass :: string
  ni_question :: string
  ni_dialog :: "confirmation option"
  ni_requests :: "http_request list"
  ni_snackbar :: snackbar_service
  ni_refreshed :: nat

definition health_shown :: "jsstr \<Rightarrow> string \<times> string" where
  "health_shown h =
     (if h = Str ''healthy'' then (''node.statuses.online'', ''dot-green'')
      else if h = Str ''unhealthy'' then (''node.statuses.partially-online'', ''dot-yellow blinking'')
      else if h = Str ''connecting'' then (''node.statuses.connecting'', ''dot-outline-gray'')
      else (''node.statuses.unknown'', ''dot-outline-gray''))"

definition nodeInfo_set :: "Node \<Rightarrow> node_info_content \<Rightarrow> node_info_content" where
  "nodeInfo_set n p =
     p\<lparr>ni_node := n, timeOnline := map_option getElapsedTime (secondsOnline n), nodeHealthText := fst (health_shown (servicesHealth n)),
       nodeHealthClass := snd (health_shown (servicesHealth n))\<rparr>"

definition hasDmsgServer :: "Node option \<Rightarrow> bool" where
  "hasDmsgServer v = (case v of None \<Rightarrow> False | Some n \<Rightarrow> filter (\<lambda>c. c \<noteq> CHR ''0'') (dmsgServerPk n) \<noteq> [])"

text \<open>The three windows that refresh the page of the visor when something was changed.\<close>

definition info_window_closed :: "bool \<Rightarrow> node_info_content \<Rightarrow> node_info_content" where
  "info_window_closed changed p = (if changed then p\<lparr>ni_refreshed := ni_refreshed p + 1\<rparr> else p)"

definition autoconnect_on :: "node_info_content \<Rightarrow> bool" where
  "autoconnect_on p \<longleftrightarrow> autoconnectTransports (ni_node p) = Some True"

text \<open>\<open>createConfirmationDialog\<close>: the dialog, and the text of its question.\<close>

definition createConfirmationDialog :: "string \<Rightarrow> confirmation \<times> string" where
  "createConfirmationDialog question = (new_confirmation ''confirmation.header-text'' False True, question)"

definition changeTransportsConfig :: "node_info_content \<Rightarrow> node_info_content" where
  "changeTransportsConfig p =
     (case createConfirmationDialog
        (if autoconnect_on p then ''node.details.transports-info.disable-confirmation''
         else ''node.details.transports-info.enable-confirmation'') of
        (dialog, question) \<Rightarrow> p\<lparr>ni_question := question, ni_dialog := Some dialog\<rparr>)"

definition autoconnect_accepted :: "node_info_content \<Rightarrow> node_info_content" where
  "autoconnect_accepted p =
     p\<lparr>ni_dialog := map_option showProcessing (ni_dialog p),
       ni_requests := ni_requests p @ [changeAutoconnectSetting (localPk (ni_node p)) (\<not> autoconnect_on p)]\<rparr>"

definition autoconnect_answered :: "jsval option \<Rightarrow> node_info_content \<Rightarrow> node_info_content js_result" where
  "autoconnect_answered answer p =
     (case answer of
        None \<Rightarrow>
          Inr (p\<lparr>ni_dialog := map_option closeModal (ni_dialog p),
                 ni_snackbar := snackbar_showDone
                   (if autoconnect_on p then ''node.details.transports-info.disable-done'' else ''node.details.transports-info.enable-done'')
                   VNull (ni_snackbar p),
                 ni_refreshed := ni_refreshed p + 1\<rparr>)
      | Some err \<Rightarrow>
          bindR (processServiceError err) (\<lambda>e.
            Inr (p\<lparr>ni_dialog := map_option (showDone ''confirmation.error-header-text'' (val_prop e ''translatableErrorMsg'')) (ni_dialog p)\<rparr>)))"

text \<open>
  Changing the automatic transports of a visor whose data does not change meanwhile: the question, the
  request and the final message are about the same change, which is the opposite of the current setting.
\<close>

definition same_change :: "bool \<Rightarrow> string \<Rightarrow> http_request \<Rightarrow> jsval option \<Rightarrow> string \<Rightarrow> bool" where
  "same_change enable question request message pk \<longleftrightarrow>
     question = ''node.details.transports-info.'' @ (if enable then ''enable-confirmation'' else ''disable-confirmation'') \<and>
     request = changeAutoconnectSetting pk enable \<and>
     message = Some (VStr (''node.details.transports-info.'' @ (if enable then ''enable-done'' else ''disable-done'')))"

theorem autoconnect_change_correct:
  "\<exists>p'. autoconnect_answered None (autoconnect_accepted (changeTransportsConfig p)) = Inr p' \<and>
     same_change (\<not> autoconnect_on p) (ni_question p') (last (ni_requests p')) (map_option sn_text (currentSnack (ni_snackbar p')))
       (localPk (ni_node p)) \<and>
     ni_refreshed p' = ni_refreshed p + 1 \<and> map_option conf_closed (ni_dialog p') = Some True"
  by (simp add: autoconnect_answered_def autoconnect_accepted_def changeTransportsConfig_def createConfirmationDialog_def autoconnect_on_def same_change_def
      snackbar_showDone_def open_snack_def closeModal_def)

text \<open>
  The setting is read again for each of them, while the page goes on refreshing the visor: with the question to
  enable open, new data where it is enabled makes the accepted request disable it.
\<close>

theorem accepted_change_reversed:
  assumes "\<not> autoconnect_on p" and "autoconnectTransports n = Some True"
  shows "ni_question (nodeInfo_set n (changeTransportsConfig p)) = ''node.details.transports-info.enable-confirmation'' \<and>
    last (ni_requests (autoconnect_accepted (nodeInfo_set n (changeTransportsConfig p)))) = changeAutoconnectSetting (localPk n) False"
  using assms by (simp add: nodeInfo_set_def changeTransportsConfig_def createConfirmationDialog_def autoconnect_accepted_def autoconnect_on_def)

section \<open>The tabs of the pages of the VPN\<close>

text \<open>The session storage has the list of servers that was opened last; the key of the visor is a static member.\<close>

record vpn_tabs =
  currentPk :: string
  serverListTab :: "string option"

definition changeCurrentPk :: "string \<Rightarrow> vpn_tabs \<Rightarrow> vpn_tabs" where
  "changeCurrentPk pk t = t\<lparr>currentPk := pk\<rparr>"

definition setDefaultTabForServerList :: "Lists \<Rightarrow> vpn_tabs \<Rightarrow> vpn_tabs" where
  "setDefaultTabForServerList l t = t\<lparr>serverListTab := Some (lists_string l)\<rparr>"

definition vpnTabsData :: "vpn_tabs \<Rightarrow> TabButtonData list" where
  "vpnTabsData t =
     [tab ''power_settings_new'' ''vpn.start'' False (Some [''/vpn'', currentPk t, ''status'']),
      tab ''list'' ''vpn.servers'' False
        (Some (case serverListTab t of
                 Some l \<Rightarrow> if l \<noteq> [] then [''/vpn'', currentPk t, ''servers'', l, ''1''] else [''/vpn'', currentPk t, ''servers'']
               | None \<Rightarrow> [''/vpn'', currentPk t, ''servers''])),
      tab ''settings'' ''vpn.settings'' False (Some [''/vpn'', currentPk t, ''settings''])]"

text \<open>The tab of the servers leads back to the list that was opened last.\<close>

theorem server_tab_roundtrip:
  "linkParts (vpnTabsData (setDefaultTabForServerList l t) ! 1) = Some [''/vpn'', currentPk t, ''servers'', lists_string l, ''1''] \<and>
   fst (list_of_param (Some (lists_string l))) = l"
  by (cases l) (simp_all add: vpnTabsData_def setDefaultTabForServerList_def tab_def list_of_param_def)

text \<open>Latencies: less than a second in milliseconds, or in seconds with one decimal.\<close>

definition getLatencyValueString :: "int \<Rightarrow> string" where
  "getLatencyValueString ms = (if ms < 1000 then ''time-in-ms'' else ''time-in-segs'')"

definition getPrintableLatency :: "(rat \<Rightarrow> string) \<Rightarrow> int \<Rightarrow> string" where
  "getPrintableLatency toFixed1 ms =
     (if ms < 1000 then int_to_string ms else toFixed1 (rat_of_int ms / 1000))"

text \<open>The colours and the icons of the values of a server.\<close>

definition getCongestionTextColorClass :: "int \<Rightarrow> string" where
  "getCongestionTextColorClass c = (if c < 60 then ''green-value'' else if c < 90 then ''yellow-value'' else ''red-value'')"

definition getLatencyTextColorClass :: "int \<Rightarrow> string" where
  "getLatencyTextColorClass ms = (if ms < 200 then ''green-value'' else if ms < 350 then ''yellow-value'' else ''red-value'')"

definition getHopsTextColorClass :: "int \<Rightarrow> string" where
  "getHopsTextColorClass h = (if h < 5 then ''green-value'' else if h < 9 then ''yellow-value'' else ''red-value'')"

section \<open>Requests about a visor and its confirmations\<close>

definition getRuntimeLogs :: "string \<Rightarrow> http_request" where
  "getRuntimeLogs pk =
     \<lparr>http_method = ''GET'', http_url = ''visors/'' @ pk @ ''/runtime-logs'', http_body = NoBody\<rparr>"

definition shutdown_node :: "string \<Rightarrow> http_request" where
  "shutdown_node pk =
     \<lparr>http_method = ''POST'', http_url = ''visors/'' @ pk @ ''/shutdown'', http_body = NoBody\<rparr>"

definition checkIfUpdating :: "string \<Rightarrow> http_request" where
  "checkIfUpdating pk =
     \<lparr>http_method = ''GET'', http_url = ''visors/'' @ pk @ ''/update/ws/running'', http_body = NoBody\<rparr>"

section \<open>Examples\<close>

theorem language_recovered_witness:
  "\<exists>d \<in> set app_languages. lang_code d = ''es'' \<and>
     ls_used (loadLanguageSettings (language_service_created (setItem ''lang'' ''es'' \<lparr>localStorage = Map.empty, hypervisorPk = []\<rparr>))) = [lang_code d]"
proof -
  let ?st = "setItem ''lang'' ''es'' \<lparr>localStorage = Map.empty, hypervisorPk = []\<rparr>"
  let ?s = "loadLanguageSettings (language_service_created ?st)"
  let ?d = "\<lparr>lang_code = ''es'', lang_name = ''Espanol'', iconName = ''es.png''\<rparr>"
  have saved: "saved_language ?st = ''es''" by (simp add: saved_language_set)
  have used: "ls_used ?s = [''es'']"
    by (simp add: loadLanguageSettings_def loadCurrentLanguage_def language_service_created_def saved Let_def)
  have run: "language_step\<^sup>*\<^sup>* (language_service_created ?st) (onLanguageChanged ''es'' ?s)"
    by (rule converse_rtranclp_into_rtranclp [where r = language_step], rule language_step.load, rule r_into_rtranclp, rule language_step.changed)
      (simp add: used)
  have known: "known_language (saved_language ?st)" by (simp add: saved known_language_def app_languages_def)
  have shown: "currentLanguage (onLanguageChanged ''es'' ?s) = Some (Some ?d)"
    by (simp add: onLanguageChanged_def loadLanguageSettings_def loadCurrentLanguage_def language_service_created_def app_languages_def Let_def)
  have store: "ls_store (onLanguageChanged ''es'' ?s) = ?st"
    by (simp add: onLanguageChanged_def loadLanguageSettings_def loadCurrentLanguage_def language_service_created_def Let_def hv_defs)
  from language_recovered [OF run known shown] obtain d where "d \<in> set app_languages" "?d = d" "ls_used ?s = [lang_code d]"
    unfolding store by blast
  then show ?thesis by (intro bexI [of _ d]) auto
qed

end
