(* ===== verification/Logs.thy ===== *)
theory Logs
  imports Apps_List Ui_Base
begin

text \<open>
  The two windows with logs: those of a visor (\<open>node/actions/node-logs/node-logs.component.ts\<close>) and
  those of an app (\<open>node/apps/node-apps-list/log/log.component.ts\<close>, with its filter
  \<open>log-filter/log-filter.component.ts\<close>). Both load their data when they are opened and try again after
  an error; what they wait for is part of the state. A line of the logs of a visor is an object.
\<close>

section \<open>Logs of a visor\<close>

datatype Level =
    PanicLevel | FatalLevel | ErrorLevel | WarnLevel | InfoLevel | DebugLevel | TraceLevel | UnknownLevel

record LevelDetails =
  ld_name :: string
  colorClass :: string
  levelFilterName :: string
  importance :: nat

definition level_details :: "string \<Rightarrow> string \<Rightarrow> string \<Rightarrow> nat \<Rightarrow> LevelDetails" where
  "level_details nm color flt imp = \<lparr>ld_name = nm, colorClass = color, levelFilterName = flt, importance = imp\<rparr>"

fun levelDetails :: "Level \<Rightarrow> LevelDetails" where
  "levelDetails PanicLevel = level_details ''PANIC'' ''panic-level-color'' ''filter-panic'' 8"
| "levelDetails FatalLevel = level_details ''FATAL'' ''fatal-level-color'' ''filter-faltal'' 7"
| "levelDetails ErrorLevel = level_details ''ERROR'' ''error-level-color'' ''filter-error'' 6"
| "levelDetails WarnLevel = level_details ''WARNING'' ''warning-level-color'' ''filter-warning'' 5"
| "levelDetails InfoLevel = level_details ''INFO'' ''info-level-color'' ''filter-info'' 4"
| "levelDetails DebugLevel = level_details ''DEBUG'' ''debug-level-color'' ''filter-debug'' 3"
| "levelDetails TraceLevel = level_details ''TRACE'' ''trace-level-color'' ''filter-all'' 2"
| "levelDetails UnknownLevel = level_details ''UNKNOWN LOG'' ''unknown-level-color'' ''filter-all'' 1"

record LogEntry =
  le_time :: jsval
  le_level :: Level
  le_msg :: jsval
  le_func :: jsval
  le_module :: jsval
  le_extra :: "(string \<times> jsval) list"

definition level_of :: "string \<Rightarrow> Level" where
  "level_of receivedLevel =
     (let has = str_includes receivedLevel in
      if has ''panic'' then PanicLevel else if has ''fatal'' then FatalLevel
      else if has ''error'' then ErrorLevel else if has ''warn'' then WarnLevel
      else if has ''info'' then InfoLevel else if has ''debug'' then DebugLevel
      else if has ''trace'' then TraceLevel else UnknownLevel)"

text \<open>\<open>(e.level as string).toLowerCase()\<close>, which only strings have.\<close>

definition received_level :: "jsval \<Rightarrow> string js_result" where
  "received_level v = (if \<not> val_truthy v then Inr [] else case v of VStr s \<Rightarrow> Inr (to_lower s) | _ \<Rightarrow> Inl TypeError)"

text \<open>The wait before the next attempt, in nanoseconds; a value that is no number gives \<open>NaN\<close>.\<close>

definition backoff_text :: "jsval \<Rightarrow> string" where
  "backoff_text v =
     (case val_to_number v of
        Some n \<Rightarrow>
          let seg = n div 1000000000; min = seg div 60; segs = seg mod 60
          in if min \<noteq> 0 then int_to_string min @ ''m'' @ int_to_string segs @ ''s'' else int_to_string segs @ ''s''
      | None \<Rightarrow> ''NaNs'')"

definition knownProperties :: "string list" where
  "knownProperties = [''time'', ''_module'', ''msg'', ''func'', ''level'', ''current_backoff'', ''error'', ''log_line'']"

definition object_members :: "jsval \<Rightarrow> (string \<times> jsval) list" where
  "object_members e = (case e of VObj ms \<Rightarrow> ms | _ \<Rightarrow> [])"

definition log_entry :: "jsval \<Rightarrow> LogEntry js_result" where
  "log_entry e =
     bindR (get_prop e ''time'') (\<lambda>t.
     bindR (get_prop e ''level'') (\<lambda>l.
     bindR (received_level l) (\<lambda>lv.
       Inr \<lparr>le_time = t, le_level = level_of lv, le_msg = val_prop e ''msg'', le_func = val_prop e ''func'',
            le_module = val_prop e ''_module'',
            le_extra =
              (if val_truthy (val_prop e ''current_backoff'')
               then [(''current_backoff'', VStr (backoff_text (val_prop e ''current_backoff'')))] else []) @
              (if val_truthy (val_prop e ''error'') then [(''error'', val_prop e ''error'')] else []) @
              filter (\<lambda>m. fst m \<notin> set knownProperties) (object_members e)\<rparr>)))"

text \<open>The level \<open>None\<close> is \<open>undefined\<close>; \<open>nl_pending\<close> is the wait (ms) of the request that was started.\<close>

record node_logs =
  currentMinimumLevel :: "Level option"
  nl_loading :: bool
  LoadingMoment :: int
  nl_elapsedTime :: "ElapsedTime option"
  logEntries :: "LogEntry list"
  filteredLogEntries :: "LogEntry list"
  nl_hasMore :: bool
  nl_total :: nat
  nl_shouldShowError :: bool
  nl_pending :: "int option"
  nl_snackbar :: snackbar_service

definition nl_maxElements :: nat where "nl_maxElements = 1000"

definition loadNodeLogs :: "int \<Rightarrow> node_logs \<Rightarrow> node_logs" where
  "loadNodeLogs delayMilliseconds w = w\<lparr>nl_loading := True, nl_pending := Some delayMilliseconds\<rparr>"

definition new_node_logs :: "snackbar_service \<Rightarrow> node_logs" where
  "new_node_logs sn =
     loadNodeLogs 0
       \<lparr>currentMinimumLevel = Some UnknownLevel, nl_loading = True, LoadingMoment = 0, nl_elapsedTime = None,
        logEntries = [], filteredLogEntries = [], nl_hasMore = False, nl_total = 0, nl_shouldShowError = True,
        nl_pending = None, nl_snackbar = sn\<rparr>"

text \<open>\<open>filter\<close>; looking up the details of an undefined level fails.\<close>

definition filterNodeLogs :: "node_logs \<Rightarrow> node_logs js_result" where
  "filterNodeLogs w =
     (case currentMinimumLevel w of
        None \<Rightarrow> Inl TypeError
      | Some m \<Rightarrow>
          Inr (w\<lparr>filteredLogEntries :=
                   fold (\<lambda>e acc. if importance (levelDetails m) \<le> importance (levelDetails (le_level e)) then acc @ [e] else acc)
                     (logEntries w) []\<rparr>))"

definition nl_elapsed :: "int \<Rightarrow> node_logs \<Rightarrow> node_logs" where
  "nl_elapsed now w = w\<lparr>nl_elapsedTime := Some (getElapsedTime ((now - LoadingMoment w) div 1000))\<rparr>"

text \<open>The loop keeps the last entries: \<open>amount\<close> counts those before the current one.\<close>

fun add_log_entries :: "nat \<Rightarrow> nat \<Rightarrow> jsval list \<Rightarrow> LogEntry list \<Rightarrow> LogEntry list js_result" where
  "add_log_entries totalLogs amount [] acc = Inr acc"
| "add_log_entries totalLogs amount (e # es) acc =
     bindR (log_entry e) (\<lambda>x.
       add_log_entries totalLogs (amount + 1) es (if int totalLogs - int amount \<le> int nl_maxElements then acc @ [x] else acc))"

definition onNodeLogsReceived :: "int \<Rightarrow> jsval list \<Rightarrow> node_logs \<Rightarrow> node_logs js_result" where
  "onNodeLogsReceived now logs w =
     (let totalLogs = length logs;
          w1 = w\<lparr>nl_total := totalLogs, nl_hasMore := (int totalLogs - int nl_maxElements > 0), nl_pending := None\<rparr>
      in bindR (add_log_entries totalLogs 0 logs (logEntries w1)) (\<lambda>es.
           filterNodeLogs (nl_elapsed now (w1\<lparr>logEntries := es, nl_loading := False, LoadingMoment := now\<rparr>))))"

definition log_retry_delay :: int where "log_retry_delay = 5000"

definition onNodeLogsError :: "jsval \<Rightarrow> node_logs \<Rightarrow> node_logs js_result" where
  "onNodeLogsError err w =
     bindR (processServiceError err) (\<lambda>e.
     bindR (if nl_shouldShowError w
            then bindR (snackbar_showError (VStr ''common.loading-error'') VNull True e VNull (nl_snackbar w))
                   (\<lambda>sn. Inr (w\<lparr>nl_snackbar := sn, nl_shouldShowError := False\<rparr>))
            else Inr w) (\<lambda>w1. Inr (loadNodeLogs log_retry_delay w1)))"

subsection \<open>The selection of the level\<close>

definition optionTypes :: "Level list" where
  "optionTypes = [UnknownLevel, DebugLevel, InfoLevel, WarnLevel, ErrorLevel, FatalLevel, PanicLevel]"

definition level_labels :: "string list" where
  "level_labels =
     [''node.logs.filter-all'', ''node.logs.filter-debug'', ''node.logs.filter-info'', ''node.logs.filter-warning'',
      ''node.logs.filter-error'', ''node.logs.filter-faltal'', ''node.logs.filter-panic'']"

text \<open>The loop goes one step too far, where an undefined level finds an option that does not exist.\<close>

definition level_options :: "node_logs \<Rightarrow> (string \<times> string) list js_result" where
  "level_options w =
     (case currentMinimumLevel w of
        None \<Rightarrow> Inl TypeError
      | Some l \<Rightarrow> Inr (map (\<lambda>(t, lbl). (if t = l then ''check'' else [], lbl)) (zip optionTypes level_labels)))"

text \<open>The dialog gives the number of the option, or \<open>undefined\<close> (\<open>None\<close>) when it is closed.\<close>

definition level_selected :: "nat option \<Rightarrow> node_logs \<Rightarrow> node_logs js_result" where
  "level_selected selectedOption w =
     filterNodeLogs (w\<lparr>currentMinimumLevel :=
       (case selectedOption of
          Some n \<Rightarrow> if 1 \<le> n \<and> n \<le> length optionTypes then Some (optionTypes ! (n - 1)) else None
        | None \<Rightarrow> None)\<rparr>)"

definition getFullLogsUrl :: "bool \<Rightarrow> string \<Rightarrow> string \<Rightarrow> string \<Rightarrow> string" where
  "getFullLogsUrl production protocol origin key =
     origin @ ''/'' @ (if \<not> production \<and> str_includes protocol ''http:'' then ''http-api'' else ''api'') @
     ''/visors/'' @ key @ ''/runtime-logs''"

section \<open>What the window of a visor shows\<close>

definition entries_of :: "jsval list \<Rightarrow> LogEntry list" where
  "entries_of logs = map (\<lambda>e. projr (log_entry e)) logs"

lemma fold_filter: "fold (\<lambda>e acc. if P e then acc @ [e] else acc) xs acc0 = acc0 @ filter P xs"
  by (induction xs arbitrary: acc0) auto

lemma add_log_entries_all:
  assumes "\<forall>e \<in> set es. \<exists>x. log_entry e = Inr x" and "totalLogs = amount + length es"
  shows "add_log_entries totalLogs amount es acc = Inr (acc @ drop (length es - nl_maxElements) (entries_of es))"
  using assms
proof (induction es arbitrary: amount acc)
  case (Cons e es)
  obtain x where x: "log_entry e = Inr x" using Cons.prems(1) by auto
  have IH: "add_log_entries totalLogs (amount + 1) es a = Inr (a @ drop (length es - nl_maxElements) (entries_of es))" for a
    using Cons.IH [of "amount + 1" a] Cons.prems by simp
  show ?case
  proof (cases "length (e # es) \<le> nl_maxElements")
    case True
    then have "int totalLogs - int amount \<le> int nl_maxElements" "length es - nl_maxElements = 0" "length (e # es) - nl_maxElements = 0"
      using Cons.prems(2) by auto
    then show ?thesis using IH [of "acc @ [x]"] x by (simp add: entries_of_def)
  next
    case False
    then have "\<not> int totalLogs - int amount \<le> int nl_maxElements"
      "length (e # es) - nl_maxElements = Suc (length es - nl_maxElements)"
      using Cons.prems(2) by auto
    then show ?thesis using IH [of acc] x by (simp add: entries_of_def)
  qed
qed (simp add: entries_of_def)

text \<open>The levels are ordered by their importance.\<close>

lemma importance_injective: "importance (levelDetails a) = importance (levelDetails b) \<Longrightarrow> a = b"
  by (cases a; cases b) (simp_all add: level_details_def)

text \<open>
  The window with the logs of a visor, when their lines are well-formed: it keeps the last
  thousand entries in their order, says that there are more exactly when there are, and shows those that are at
  least as important as the level the user has selected, before and after every selection of a level;
  the selection never changes the entries.
\<close>

theorem node_logs_correct:
  assumes "\<forall>e \<in> set logs. \<exists>x. log_entry e = Inr x" and "logEntries w = []" and "currentMinimumLevel w = Some m"
    and "1 \<le> n" and "n \<le> length optionTypes"
  shows "\<exists>w1 w2. onNodeLogsReceived now logs w = Inr w1 \<and> level_selected (Some n) w1 = Inr w2 \<and>
    logEntries w1 = entries_of (drop (length logs - 1000) logs) \<and> (nl_hasMore w1 \<longleftrightarrow> 1000 < length logs) \<and>
    \<not> nl_loading w1 \<and> nl_total w1 = length logs \<and>
    filteredLogEntries w1 = filter (\<lambda>e. importance (levelDetails m) \<le> importance (levelDetails (le_level e))) (logEntries w1) \<and>
    logEntries w2 = logEntries w1 \<and> currentMinimumLevel w2 = Some (optionTypes ! (n - 1)) \<and>
    filteredLogEntries w2 =
      filter (\<lambda>e. importance (levelDetails (optionTypes ! (n - 1))) \<le> importance (levelDetails (le_level e))) (logEntries w1)"
proof -
  have es: "add_log_entries (length logs) 0 logs [] = Inr (drop (length logs - nl_maxElements) (entries_of logs))"
    using add_log_entries_all [OF assms(1), of "length logs" 0 "[]"] by simp
  show ?thesis
    using assms(2-5) es
    by (simp add: onNodeLogsReceived_def filterNodeLogs_def nl_elapsed_def fold_filter level_selected_def nl_maxElements_def
        drop_map entries_of_def)
qed

text \<open>
  Closing the dialog with the levels without selecting one leaves the window without a level: the
  handler fails, and so does opening the dialog again.
\<close>

theorem closed_level_dialog_fails:
  "level_selected None w = Inl TypeError \<and> level_options (w\<lparr>currentMinimumLevel := None\<rparr>) = Inl TypeError"
  by (simp add: level_selected_def filterNodeLogs_def level_options_def)

section \<open>Logs of an app\<close>

record LogsFilter =
  filter_text :: string
  filter_days :: int

definition log_filters :: "LogsFilter list" where
  "log_filters =
     [\<lparr>filter_text = ''apps.log.filter.7-days'', filter_days = 7\<rparr>,
      \<lparr>filter_text = ''apps.log.filter.1-month'', filter_days = 30\<rparr>,
      \<lparr>filter_text = ''apps.log.filter.3-months'', filter_days = 90\<rparr>,
      \<lparr>filter_text = ''apps.log.filter.6-months'', filter_days = 180\<rparr>,
      \<lparr>filter_text = ''apps.log.filter.1-year'', filter_days = 365\<rparr>,
      \<lparr>filter_text = ''apps.log.filter.all'', filter_days = -1\<rparr>]"

text \<open>What the dialog with the filters gives for the value of its control.\<close>

definition log_filter_selected :: "int \<Rightarrow> LogsFilter option" where
  "log_filter_selected days = find (\<lambda>f. filter_days f = days) log_filters"

record LogMessage =
  lm_time :: string
  lm_msg :: string

record app_log =
  logMessages :: "LogMessage list"
  hasMoreLogMessages :: bool
  al_totalLogs :: nat
  al_loading :: bool
  currentFilter :: LogsFilter
  al_shouldShowError :: bool
  al_pending :: "int option"
  al_snackbar :: snackbar_service

definition loadAppLogs :: "int \<Rightarrow> app_log \<Rightarrow> app_log" where
  "loadAppLogs delayMilliseconds w = w\<lparr>al_loading := True, al_pending := Some delayMilliseconds\<rparr>"

definition new_app_log :: "snackbar_service \<Rightarrow> app_log" where
  "new_app_log sn =
     loadAppLogs 0
       \<lparr>logMessages = [], hasMoreLogMessages = False, al_totalLogs = 0, al_loading = False,
        currentFilter = \<lparr>filter_text = ''apps.log.filter.7-days'', filter_days = 7\<rparr>,
        al_shouldShowError = True, al_pending = None, al_snackbar = sn\<rparr>"

text \<open>The request asks for the lines since a date, of which \<open>format_date\<close> is the text.\<close>

definition logs_since :: "int \<Rightarrow> int \<Rightarrow> int" where
  "logs_since now days = (if days \<noteq> -1 then now - days * 86400000 else 0)"

definition getLogMessages_url :: "(int \<Rightarrow> string) \<Rightarrow> int \<Rightarrow> string \<Rightarrow> string \<Rightarrow> int \<Rightarrow> string" where
  "getLogMessages_url format_date now nodeKey appName days =
     getLogMessagesUrl nodeKey appName @ ''?since='' @ format_date (logs_since now days)"

text \<open>\<open>log.indexOf(']')\<close>: \<open>takeWhile\<close> gives what is before it. The date is the part up to and including it.\<close>

definition log_message :: "string \<Rightarrow> LogMessage" where
  "log_message log =
     (let before = takeWhile (\<lambda>c. c \<noteq> CHR '']'') log
      in if starts_with log ''['' \<and> CHR '']'' \<in> set log
         then \<lparr>lm_time = take (length before + 1) log, lm_msg = drop (length before + 1) log\<rparr>
         else \<lparr>lm_time = [], lm_msg = log\<rparr>)"

fun add_log_messages :: "nat \<Rightarrow> string list \<Rightarrow> app_log \<Rightarrow> app_log" where
  "add_log_messages amount [] w = w"
| "add_log_messages amount (l # ls) w =
     add_log_messages (amount + 1) ls
       (if amount < 5000 then w\<lparr>logMessages := logMessages w @ [log_message l]\<rparr> else w\<lparr>hasMoreLogMessages := True\<rparr>)"

text \<open>Missing lines (\<open>undefined\<close>) count as none.\<close>

definition onAppLogsReceived :: "string list option \<Rightarrow> app_log \<Rightarrow> app_log" where
  "onAppLogsReceived received w =
     (let logs = (case received of Some ls \<Rightarrow> ls | None \<Rightarrow> []) in
      add_log_messages 0 logs
        (w\<lparr>al_loading := False, al_shouldShowError := True, al_snackbar := closeCurrentIfTemporaryError (al_snackbar w),
           al_pending := None, hasMoreLogMessages := False, al_totalLogs := length logs\<rparr>))"

definition onAppLogsError :: "jsval \<Rightarrow> app_log \<Rightarrow> app_log js_result" where
  "onAppLogsError err w =
     bindR (processServiceError err) (\<lambda>e.
     bindR (if al_shouldShowError w
            then bindR (snackbar_showError (VStr ''common.loading-error'') VNull True e VNull (al_snackbar w))
                   (\<lambda>sn. Inr (w\<lparr>al_snackbar := sn, al_shouldShowError := False\<rparr>))
            else Inr w) (\<lambda>w1. Inr (loadAppLogs log_retry_delay w1)))"

definition app_filter_selected :: "LogsFilter option \<Rightarrow> app_log \<Rightarrow> app_log" where
  "app_filter_selected result w =
     (case result of Some f \<Rightarrow> loadAppLogs 0 (w\<lparr>currentFilter := f, logMessages := []\<rparr>) | None \<Rightarrow> w)"

subsection \<open>The window as a transition system\<close>

inductive app_log_step :: "app_log \<Rightarrow> app_log \<Rightarrow> bool" where
  received: "al_pending w \<noteq> None \<Longrightarrow> app_log_step w (onAppLogsReceived r w)"
| failed: "al_pending w \<noteq> None \<Longrightarrow> onAppLogsError e w = Inr w' \<Longrightarrow> app_log_step w w'"
| selected: "app_log_step w (app_filter_selected r w)"

lemma log_message_text: "lm_time (log_message l) @ lm_msg (log_message l) = l"
  by (simp add: log_message_def)

lemma log_message_time:
  "lm_time (log_message l) \<noteq> [] \<longleftrightarrow> starts_with l ''['' \<and> CHR '']'' \<in> set l"
  "lm_time (log_message l) \<noteq> [] \<Longrightarrow> hd (lm_time (log_message l)) = CHR ''['' \<and> last (lm_time (log_message l)) = CHR '']'' \<and>
    CHR '']'' \<notin> set (butlast (lm_time (log_message l)))"
proof -
  have split: "\<exists>a b. l = a @ CHR '']'' # b \<and> takeWhile (\<lambda>c. c \<noteq> CHR '']'') l = a \<and> CHR '']'' \<notin> set a"
    if "CHR '']'' \<in> set l"
  proof -
    from split_list_first [OF that] obtain a b where ab: "l = a @ CHR '']'' # b" "CHR '']'' \<notin> set a" by blast
    then have "takeWhile (\<lambda>c. c \<noteq> CHR '']'') l = a" by (auto intro: takeWhile_eq_all_conv [THEN iffD2] simp: takeWhile_tail)
    then show ?thesis using ab by blast
  qed
  show "lm_time (log_message l) \<noteq> [] \<longleftrightarrow> starts_with l ''['' \<and> CHR '']'' \<in> set l"
    by (auto simp: log_message_def)
  show "hd (lm_time (log_message l)) = CHR ''['' \<and> last (lm_time (log_message l)) = CHR '']'' \<and>
    CHR '']'' \<notin> set (butlast (lm_time (log_message l)))" if "lm_time (log_message l) \<noteq> []"
  proof -
    from that have h: "starts_with l ''['' " "CHR '']'' \<in> set l" by (auto simp: log_message_def split: if_splits)
    from split [OF h(2)] obtain a b where ab: "l = a @ CHR '']'' # b" "takeWhile (\<lambda>c. c \<noteq> CHR '']'') l = a" "CHR '']'' \<notin> set a"
      by blast
    have t: "lm_time (log_message l) = a @ [CHR '']'']" using h unfolding log_message_def ab(2) by (simp add: ab(1))
    from h(1) obtain r where "l = CHR ''['' # r" by (auto simp: starts_with_iff)
    then have "hd (a @ [CHR '']'']) = CHR ''[''" using ab(1) by (cases a) auto
    then show ?thesis using ab(3) by (simp add: t butlast_append)
  qed
qed

lemma add_log_messages_all:
  "add_log_messages amount ls w =
     w\<lparr>logMessages := logMessages w @ map log_message (take (5000 - amount) ls),
       hasMoreLogMessages := (hasMoreLogMessages w \<or> 5000 < amount + length ls \<and> ls \<noteq> [])\<rparr>"
proof (induction ls arbitrary: amount w)
  case (Cons l ls)
  show ?case
  proof (cases "amount < 5000")
    case True
    then have t: "take (5000 - amount) (l # ls) = l # take (5000 - (amount + 1)) ls" by (simp add: take_Cons')
    show ?thesis using True by (simp add: Cons.IH t) (cases ls; simp)
  next
    case False
    then show ?thesis by (simp add: Cons.IH)
  qed
qed simp

definition app_log_ok :: "app_log \<Rightarrow> bool" where
  "app_log_ok w \<longleftrightarrow> (al_loading w \<longleftrightarrow> al_pending w \<noteq> None) \<and> (al_loading w \<longrightarrow> logMessages w = []) \<and>
     length (logMessages w) \<le> 5000 \<and>
     (\<not> al_loading w \<longrightarrow> length (logMessages w) = min 5000 (al_totalLogs w) \<and> (hasMoreLogMessages w \<longleftrightarrow> 5000 < al_totalLogs w)) \<and>
     (\<forall>m \<in> set (logMessages w). m = log_message (lm_time m @ lm_msg m))"

lemma received_log_messages:
  "logMessages w = [] \<Longrightarrow> onAppLogsReceived (Some ls) w =
     w\<lparr>al_loading := False, al_shouldShowError := True, al_snackbar := closeCurrentIfTemporaryError (al_snackbar w),
       al_pending := None, al_totalLogs := length ls, logMessages := map log_message (take 5000 ls),
       hasMoreLogMessages := (5000 < length ls)\<rparr>"
  by (cases ls) (simp_all add: onAppLogsReceived_def add_log_messages_all)

lemma app_log_step_ok: "app_log_step w w' \<Longrightarrow> app_log_ok w \<Longrightarrow> app_log_ok w'"
proof (induction rule: app_log_step.induct)
  case (received w r)
  have e: "logMessages w = []" using received by (auto simp: app_log_ok_def)
  have "onAppLogsReceived r w = onAppLogsReceived (Some (case r of Some ls \<Rightarrow> ls | None \<Rightarrow> [])) w"
    by (simp add: onAppLogsReceived_def)
  then show ?case
    using e by (auto simp: received_log_messages app_log_ok_def log_message_text min_def)
next
  case (failed w e w')
  then show ?case by (auto simp: onAppLogsError_def loadAppLogs_def app_log_ok_def bindR_Inr_iff split: if_splits)
next
  case (selected w r)
  then show ?case by (cases r) (simp_all add: app_filter_selected_def loadAppLogs_def app_log_ok_def)
qed

text \<open>
  Property C38. The window with the logs of an app, in every state it can reach: it shows nothing while
  it is loading, it never has more than five thousand messages, and after loading it has all the lines
  of the answer up to that limit and says that there are more exactly when there are. A line is split into
  its date, when it starts with one in brackets, and the rest, and nothing of it is lost.
\<close>

theorem app_log_invariant:
  assumes "app_log_step\<^sup>*\<^sup>* (new_app_log sn) w"
  shows "(al_loading w \<longrightarrow> logMessages w = []) \<and> length (logMessages w) \<le> 5000 \<and>
    (\<not> al_loading w \<longrightarrow> length (logMessages w) = min 5000 (al_totalLogs w) \<and> (hasMoreLogMessages w \<longleftrightarrow> 5000 < al_totalLogs w)) \<and>
    (al_loading w \<longrightarrow> map (\<lambda>m. lm_time m @ lm_msg m) (logMessages (onAppLogsReceived (Some ls) w)) = take 5000 ls) \<and>
    (\<forall>m \<in> set (logMessages w). lm_time m \<noteq> [] \<longrightarrow>
       hd (lm_time m) = CHR ''['' \<and> last (lm_time m) = CHR '']'' \<and> CHR '']'' \<notin> set (butlast (lm_time m)))"
proof -
  have "app_log_ok w"
    using assms
  proof (induction rule: rtranclp_induct)
    case base
    show ?case by (simp add: new_app_log_def loadAppLogs_def app_log_ok_def)
  next
    case (step a b)
    then show ?case using app_log_step_ok by blast
  qed
  note ok = this [unfolded app_log_ok_def]
  have "hd (lm_time m) = CHR ''['' \<and> last (lm_time m) = CHR '']'' \<and> CHR '']'' \<notin> set (butlast (lm_time m))"
    if "m \<in> set (logMessages w)" "lm_time m \<noteq> []" for m
    using log_message_time(2) [of "lm_time m @ lm_msg m"] ok that by metis
  moreover have "map (\<lambda>m. lm_time m @ lm_msg m) (logMessages (onAppLogsReceived (Some ls) w)) = take 5000 ls" if "al_loading w"
    using ok that by (simp add: received_log_messages log_message_text comp_def)
  ultimately show ?thesis using ok by blast
qed

section \<open>Examples\<close>

theorem node_logs_correct_witness:
  "\<exists>w1. onNodeLogsReceived 9 [VObj [(''time'', VStr ''t''), (''level'', VStr ''warning'')]] (new_node_logs new_snackbar_service) = Inr w1 \<and>
     length (filteredLogEntries w1) = 1"
proof -
  let ?l = "VObj [(''time'', VStr ''t''), (''level'', VStr ''warning'')]"
  have ok: "\<exists>x. log_entry ?l = Inr x" by (simp add: log_entry_def received_level_def)
  obtain w1 where w1: "onNodeLogsReceived 9 [?l] (new_node_logs new_snackbar_service) = Inr w1"
    "logEntries w1 = entries_of [?l]"
    "filteredLogEntries w1 = filter (\<lambda>e. importance (levelDetails UnknownLevel) \<le> importance (levelDetails (le_level e))) (logEntries w1)"
    using node_logs_correct [of "[?l]" "new_node_logs new_snackbar_service" UnknownLevel 1 9] ok
    by (auto simp: new_node_logs_def loadNodeLogs_def optionTypes_def)
  have "importance (levelDetails UnknownLevel) \<le> importance (levelDetails v)" for v
    by (cases v) (simp_all add: level_details_def)
  then show ?thesis using w1 by (simp add: entries_of_def)
qed

theorem app_log_invariant_witness:
  "map (\<lambda>m. lm_time m @ lm_msg m) (logMessages (onAppLogsReceived (Some [''[t] a'', ''b'']) (new_app_log new_snackbar_service))) =
     [''[t] a'', ''b'']"
  using app_log_invariant [OF rtranclp.rtrancl_refl, of new_snackbar_service "[''[t] a'', ''b'']"]
  by (simp add: new_app_log_def loadAppLogs_def)

end
