(* ===== verification/Create_Transport.thy ===== *)
theory Create_Transport
  imports Transport_List Ui_Base
begin

text \<open>
  \<open>create-transport.component.ts\<close>: the window that creates a transport and, when the user wants it,
  first adds it to the list of the persistent transports of the visor. What the window waits for is
  part of its state, with the values of the form at the moment the operation was started; so are the
  requests it has made and the list of persistent transports the visor has told or accepted.
\<close>

section \<open>The window\<close>

record transport_data =
  td_pk :: string
  td_type :: string
  td_label :: string

datatype create_operation =
    GettingPersistent transport_data
  | SavingPersistent transport_data "PersistentTransport list"
  | CreatingTransport transport_data bool

record create_transport =
  ct_types :: "string list option"
  ct_form :: transport_data
  makePersistent :: bool
  ct_button :: button
  ct_shouldShowError :: bool
  ct_loadingTypes :: "int option"
  ct_operation :: "create_operation option"
  ct_requests :: "http_request list"
  ct_known :: "PersistentTransport list option"
  ct_closed :: bool
  ct_refreshes :: nat
  ct_snackbar :: snackbar_service
  ct_storage :: storage_service

definition create_transport_opened :: "snackbar_service \<Rightarrow> storage_service \<Rightarrow> create_transport" where
  "create_transport_opened sn st =
     \<lparr>ct_types = None, ct_form = \<lparr>td_pk = [], td_type = [], td_label = []\<rparr>, makePersistent = False,
      ct_button = \<lparr>button_state = ButtonNormal, disabled = False\<rparr>, ct_shouldShowError = True, ct_loadingTypes = Some 0,
      ct_operation = None, ct_requests = [], ct_known = None, ct_closed = False, ct_refreshes = 0,
      ct_snackbar = sn, ct_storage = st\<rparr>"

definition is_hex :: "char \<Rightarrow> bool" where
  "is_hex c \<longleftrightarrow> c \<in> set ''0123456789abcdefABCDEF''"

definition remote_key_valid :: "string \<Rightarrow> bool" where
  "remote_key_valid k \<longleftrightarrow> k \<noteq> [] \<and> length k \<ge> 66 \<and> length k \<le> 66 \<and> list_all is_hex k"

definition transport_form_valid :: "transport_data \<Rightarrow> bool" where
  "transport_form_valid f \<longleftrightarrow> remote_key_valid (td_pk f) \<and> td_type f \<noteq> []"

definition ct_dismissDisabled :: "create_transport \<Rightarrow> bool" where
  "ct_dismissDisabled w \<longleftrightarrow> button_state (ct_button w) = ButtonLoading"

text \<open>A step of the operation: the request and what the window waits for.\<close>

definition ct_request :: "http_request \<Rightarrow> create_operation \<Rightarrow> create_transport \<Rightarrow> create_transport" where
  "ct_request r op w = w\<lparr>ct_requests := ct_requests w @ [r], ct_operation := Some op\<rparr>"

definition createTransport :: "string \<Rightarrow> transport_data \<Rightarrow> bool \<Rightarrow> create_transport \<Rightarrow> create_transport" where
  "createTransport nodeKey d creatingAfterPersistent w =
     ct_request (transport_create nodeKey (td_pk d) (Some (td_type d))) (CreatingTransport d creatingAfterPersistent) w"

definition createPersistent ::
  "string \<Rightarrow> PersistentTransport list \<Rightarrow> transport_data \<Rightarrow> create_transport \<Rightarrow> create_transport" where
  "createPersistent nodeKey currentList d w =
     (let l = currentList @ [\<lparr>pt_pk = td_pk d, pt_type = td_type d\<rparr>]
      in ct_request (savePersistentTransportsData nodeKey l) (SavingPersistent d l) w)"

definition create_clicked :: "string \<Rightarrow> create_transport \<Rightarrow> create_transport" where
  "create_clicked nodeKey w =
     (if \<not> transport_form_valid (ct_form w) \<or> disabled (ct_button w) then w
      else let w1 = w\<lparr>ct_button := showLoading (ct_button w)\<rparr>
           in if makePersistent w1 then ct_request (getPersistentTransports nodeKey) (GettingPersistent (ct_form w1)) w1
              else createTransport nodeKey (ct_form w1) False w1)"

definition create_failed :: "jsval \<Rightarrow> create_transport \<Rightarrow> create_transport js_result" where
  "create_failed err w =
     bindR (processServiceError err) (\<lambda>e.
     bindR (snackbar_showError e VNull False VNull VNull (ct_snackbar w)) (\<lambda>sn.
       Inr (w\<lparr>ct_button := (ct_button w)\<lparr>button_state := ButtonError, disabled := False\<rparr>, ct_snackbar := sn,
              ct_operation := None\<rparr>)))"

definition close_and_refresh :: "create_transport \<Rightarrow> create_transport" where
  "close_and_refresh w = w\<lparr>ct_refreshes := ct_refreshes w + 1, ct_closed := True, ct_operation := None\<rparr>"

definition same_transport :: "transport_data \<Rightarrow> PersistentTransport \<Rightarrow> bool" where
  "same_transport d t \<longleftrightarrow> to_upper (pt_pk t) = to_upper (td_pk d) \<and> to_upper (pt_type t) = to_upper (td_type d)"

text \<open>The answers to the three requests. The new transport is an object with its identifier, or not.\<close>

definition persistent_received ::
  "string \<Rightarrow> transport_data \<Rightarrow> jsval + PersistentTransport list option \<Rightarrow> create_transport \<Rightarrow> create_transport js_result" where
  "persistent_received nodeKey d resp w =
     (case resp of
        Inl err \<Rightarrow> create_failed err w
      | Inr r \<Rightarrow>
          let dataToUse = (case r of Some l \<Rightarrow> l | None \<Rightarrow> []);
              noNeedToAddToPersistents = fold (\<lambda>t found. if same_transport d t then True else found) dataToUse False;
              w1 = w\<lparr>ct_known := Some dataToUse\<rparr>
          in Inr (if noNeedToAddToPersistents then createTransport nodeKey d True w1
                  else createPersistent nodeKey dataToUse d w1))"

definition persistent_saved ::
  "string \<Rightarrow> transport_data \<Rightarrow> PersistentTransport list \<Rightarrow> jsval option \<Rightarrow> create_transport \<Rightarrow> create_transport js_result" where
  "persistent_saved nodeKey d l failure w =
     (case failure of
        Some err \<Rightarrow> create_failed err w
      | None \<Rightarrow> Inr (createTransport nodeKey d True (w\<lparr>ct_known := Some l\<rparr>)))"

definition transport_created ::
  "transport_data \<Rightarrow> bool \<Rightarrow> jsval + string option \<Rightarrow> create_transport \<Rightarrow> create_transport js_result" where
  "transport_created d creatingAfterPersistent resp w =
     (case resp of
        Inr r \<Rightarrow>
          let i = (case r of Some s \<Rightarrow> s | None \<Rightarrow> []);
              errorSavingLabel = (td_label d \<noteq> [] \<and> i = [])
          in bindR (if td_label d \<noteq> [] \<and> i \<noteq> [] then saveLabel i (Str (td_label d)) TransportType (ct_storage w)
                    else Inr (ct_storage w)) (\<lambda>st.
               let w1 = close_and_refresh (w\<lparr>ct_storage := st\<rparr>)
               in Inr (w1\<lparr>ct_snackbar :=
                        (if \<not> errorSavingLabel then snackbar_showDone ''transports.dialog.success'' VNull (ct_snackbar w1)
                         else snackbar_showWarning ''transports.dialog.success-without-label'' VNull (ct_snackbar w1))\<rparr>))
      | Inl err \<Rightarrow>
          if \<not> creatingAfterPersistent then create_failed err w
          else let w1 = close_and_refresh w
               in Inr (w1\<lparr>ct_snackbar := snackbar_showWarning ''transports.dialog.only-persistent-created'' VNull (ct_snackbar w1)\<rparr>))"

subsection \<open>The types\<close>

definition type_order :: "(string \<Rightarrow> string \<Rightarrow> int) \<Rightarrow> string \<Rightarrow> string \<Rightarrow> int" where
  "type_order collate a b =
     (if to_lower a = ''stcp'' then 1 else if to_lower b = ''stcp'' then -1 else collate a b)"

definition default_type :: "string list \<Rightarrow> string" where
  "default_type types =
     (case find (\<lambda>t. to_lower t = ''dmsg'') types of Some t \<Rightarrow> t | None \<Rightarrow> (case types of t # _ \<Rightarrow> t | [] \<Rightarrow> []))"

definition types_received :: "(string \<Rightarrow> string \<Rightarrow> int) \<Rightarrow> string list \<Rightarrow> create_transport \<Rightarrow> create_transport" where
  "types_received collate types w =
     (let sorted_types = js_sort (type_order collate) types
      in w\<lparr>ct_types := Some sorted_types, ct_form := (ct_form w)\<lparr>td_type := default_type sorted_types\<rparr>,
           ct_snackbar := closeCurrentIfTemporaryError (ct_snackbar w), ct_loadingTypes := None\<rparr>)"

definition types_failed :: "jsval \<Rightarrow> create_transport \<Rightarrow> create_transport js_result" where
  "types_failed err w =
     bindR (processServiceError err) (\<lambda>e.
     bindR (if ct_shouldShowError w
            then bindR (snackbar_showError (VStr ''common.loading-error'') VNull True e VNull (ct_snackbar w))
                   (\<lambda>sn. Inr (w\<lparr>ct_snackbar := sn, ct_shouldShowError := False\<rparr>))
            else Inr w) (\<lambda>w1. Inr (w1\<lparr>ct_loadingTypes := Some 5000\<rparr>)))"

section \<open>The operation\<close>

inductive ct_step :: "string \<Rightarrow> create_transport \<Rightarrow> create_transport \<Rightarrow> bool" for nodeKey where
  edit: "ct_step nodeKey w (w\<lparr>ct_form := f, makePersistent := m\<rparr>)"
| click: "\<not> ct_closed w \<Longrightarrow> ct_step nodeKey w (create_clicked nodeKey w)"
| types: "ct_loadingTypes w \<noteq> None \<Longrightarrow> ct_step nodeKey w (types_received collate ts w)"
| no_types: "ct_loadingTypes w \<noteq> None \<Longrightarrow> types_failed e w = Inr w' \<Longrightarrow> ct_step nodeKey w w'"
| got: "ct_operation w = Some (GettingPersistent d) \<Longrightarrow> persistent_received nodeKey d r w = Inr w' \<Longrightarrow> ct_step nodeKey w w'"
| saved: "ct_operation w = Some (SavingPersistent d l) \<Longrightarrow> persistent_saved nodeKey d l r w = Inr w' \<Longrightarrow> ct_step nodeKey w w'"
| created: "ct_operation w = Some (CreatingTransport d after) \<Longrightarrow> transport_created d after a w = Inr w' \<Longrightarrow> ct_step nodeKey w w'"

fun op_data :: "create_operation \<Rightarrow> transport_data" where
  "op_data (GettingPersistent d) = d"
| "op_data (SavingPersistent d l) = d"
| "op_data (CreatingTransport d b) = d"

definition is_persistent :: "transport_data \<Rightarrow> create_transport \<Rightarrow> bool" where
  "is_persistent d w \<longleftrightarrow> (\<exists>l. ct_known w = Some l \<and> list_ex (same_transport d) l)"

text \<open>What the window waits for fits the requests it has made; a request for a transport is one of a valid form.\<close>

definition create_ok :: "create_transport \<Rightarrow> bool" where
  "create_ok w \<longleftrightarrow>
     (case ct_operation w of
        None \<Rightarrow> ct_closed w \<or> \<not> disabled (ct_button w)
      | Some op \<Rightarrow> \<not> ct_closed w \<and> disabled (ct_button w) \<and> button_state (ct_button w) = ButtonLoading \<and> transport_form_valid (op_data op) \<and>
          (case op of
             SavingPersistent d l \<Rightarrow> \<exists>l0. ct_known w = Some l0 \<and> l = l0 @ [\<lparr>pt_pk = td_pk d, pt_type = td_type d\<rparr>] \<and>
               \<not> list_ex (same_transport d) l0
           | CreatingTransport d after \<Rightarrow> after \<longrightarrow> is_persistent d w
           | GettingPersistent d \<Rightarrow> True))"

lemma fold_found: "fold (\<lambda>t found. if P t then True else found) l f = (f \<or> list_ex P l)"
  by (induction l arbitrary: f) auto

lemma create_failed_result:
  "create_failed err w = Inr w' \<Longrightarrow> ct_operation w' = None \<and> \<not> disabled (ct_button w') \<and> ct_closed w' = ct_closed w \<and>
     ct_requests w' = ct_requests w"
  by (auto simp: create_failed_def bindR_Inr_iff)

lemma same_new: "same_transport d \<lparr>pt_pk = td_pk d, pt_type = td_type d\<rparr>"
  by (simp add: same_transport_def)

lemma ct_step_ok: "ct_step nodeKey w w' \<Longrightarrow> create_ok w \<Longrightarrow> create_ok w'"
proof (induction rule: ct_step.induct)
  case (edit w f m)
  then show ?case by (simp add: create_ok_def is_persistent_def cong: option.case_cong create_operation.case_cong)
next
  case (click w)
  then show ?case
    by (cases "ct_operation w")
      (simp_all add: create_clicked_def createTransport_def ct_request_def create_ok_def showLoading_def)
next
  case (types w collate ts)
  then show ?case
    by (simp add: types_received_def create_ok_def is_persistent_def cong: option.case_cong create_operation.case_cong)
next
  case (no_types w e w')
  then obtain sn b where "w' = w\<lparr>ct_snackbar := sn, ct_shouldShowError := b, ct_loadingTypes := Some 5000\<rparr> \<or>
      w' = w\<lparr>ct_loadingTypes := Some 5000\<rparr>"
    by (auto simp: types_failed_def bindR_Inr_iff split: if_splits)
  then show ?case using no_types(3)
    by (elim disjE) (simp_all add: create_ok_def is_persistent_def cong: option.case_cong create_operation.case_cong)
next
  case (got w d r w')
  show ?case
  proof (cases r)
    case (Inl err)
    then show ?thesis using got create_failed_result [of err w w'] by (simp add: persistent_received_def create_ok_def)
  next
    case (Inr l)
    then show ?thesis
      using got by (auto simp: persistent_received_def fold_found create_ok_def createTransport_def createPersistent_def
          ct_request_def is_persistent_def split: if_splits)
  qed
next
  case (saved w d l r w')
  show ?case
  proof (cases r)
    case (Some err)
    then show ?thesis using saved create_failed_result [of err w w'] by (simp add: persistent_saved_def create_ok_def)
  next
    case None
    then show ?thesis
      using saved same_new [of d] by (auto simp: persistent_saved_def create_ok_def createTransport_def ct_request_def is_persistent_def)
  qed
next
  case (created w d after a w')
  show ?case
  proof (cases a)
    case (Inl err)
    then show ?thesis using created create_failed_result [of err w w']
      by (auto simp: transport_created_def create_ok_def close_and_refresh_def split: if_splits)
  next
    case (Inr i)
    then show ?thesis using created by (auto simp: transport_created_def create_ok_def close_and_refresh_def bindR_Inr_iff)
  qed
qed

lemma create_ok_reachable: "(ct_step nodeKey)\<^sup>*\<^sup>* (create_transport_opened sn st) w \<Longrightarrow> create_ok w"
proof (induction rule: rtranclp_induct)
  case base
  show ?case by (simp add: create_transport_opened_def create_ok_def)
next
  case (step a b)
  then show ?case using ct_step_ok by blast
qed

text \<open>The steps that are left; every answer brings the operation closer to its end.\<close>

fun steps_left :: "create_operation option \<Rightarrow> nat" where
  "steps_left None = 0"
| "steps_left (Some (CreatingTransport d b)) = 1"
| "steps_left (Some (SavingPersistent d l)) = 2"
| "steps_left (Some (GettingPersistent d)) = 3"

lemma answers_lead_on:
  "persistent_received nodeKey d r w = Inr w' \<Longrightarrow> steps_left (ct_operation w') < steps_left (Some (GettingPersistent d))"
  "persistent_saved nodeKey d l q w = Inr w' \<Longrightarrow> steps_left (ct_operation w') < steps_left (Some (SavingPersistent d l))"
  "transport_created d b a w = Inr w' \<Longrightarrow> steps_left (ct_operation w') < steps_left (Some (CreatingTransport d b))"
  by (auto simp: persistent_received_def persistent_saved_def transport_created_def createTransport_def createPersistent_def
      ct_request_def close_and_refresh_def bindR_Inr_iff dest: create_failed_result split: sum.splits option.splits if_splits)


text \<open>
  The label of a new transport is saved for the identifier the visor gave, and the window closes; when
  the visor gave none the user is told that there is no label.
\<close>

theorem created_transport_labelled:
  assumes "labels_coherent (ct_storage w)" and "i \<noteq> []" and "same_type_label i TransportType (ct_storage w)" and "td_label d \<noteq> []"
  shows "(\<exists>w'. transport_created d b (Inr (Some i)) w = Inr w' \<and> ct_closed w' \<and> ct_refreshes w' = ct_refreshes w + 1 \<and>
      getLabelInfo (ct_storage w') i = Some \<lparr>label_id = i, label = td_label d, identifiedElementType = TransportType\<rparr>) \<and>
    (\<exists>w' m. transport_created d b (Inr None) w = Inr w' \<and> ct_closed w' \<and> ct_storage w' = ct_storage w \<and>
      currentSnack (ct_snackbar w') = Some m \<and> sn_text m = VStr ''transports.dialog.success-without-label'')"
proof -
  from saveLabel_effect [OF assms(1,3), of "Str (td_label d)"] assms(4) obtain st where
    "saveLabel i (Str (td_label d)) TransportType (ct_storage w) = Inr st"
    "getLabelInfo st i = Some \<lparr>label_id = i, label = td_label d, identifiedElementType = TransportType\<rparr>"
    by auto
  then show ?thesis
    using assms(2,4) by (simp add: transport_created_def close_and_refresh_def snackbar_showWarning_def open_snack_def)
qed

section \<open>Examples\<close>

definition example_form :: transport_data where
  "example_form = \<lparr>td_pk = replicate 66 CHR ''a'', td_type = ''stcpr'', td_label = ''home''\<rparr>"


end
