(* ===== verification/Vpn_Status.thy ===== *)
theory Vpn_Status
  imports Vpn_Server_List
begin

text \<open>
  \<open>vpn-status.component.ts\<close>: the page with the state of the VPN. The handler of the data of the service,
  the clock of the connection, the address of the machine, and starting and stopping. The
  subscriptions to the service are part of the state, because the page may start from data that was
  saved before and then subscribes a second time. Durations are whole seconds; the middle of a graph,
  which BigNumber rounds, is a parameter.
\<close>

section \<open>The page\<close>

datatype data_source = SavedAnswer | BackendStates

record graph_limits =
  gl_min :: rat
  gl_mid :: rat
  gl_max :: rat

record status_page =
  st_sent :: "rat list"
  st_received :: "rat list"
  st_latencies :: "rat list"
  uploadLimits :: graph_limits
  downloadLimits :: graph_limits
  latencyLimits :: graph_limits
  connectionTimeString :: string
  calculatedSegs :: int
  timeUpdating :: bool
  st_uploadSpeed :: rat
  st_downloadSpeed :: rat
  st_totalUploaded :: rat
  st_totalDownloaded :: rat
  st_latency :: rat
  showSpeedsInBits :: bool
  showTotalsInBits :: bool
  st_loading :: bool
  showStartedLastValue :: bool
  showStarted :: bool
  lastAppState :: "AppState option"
  showBusy :: bool
  stopRequested :: bool
  ipInfoAllowed :: bool
  currentIp :: jsstr
  ipCountry :: jsstr
  loadingCurrentIp :: bool
  problemGettingIp :: bool
  lastIpRefresDate :: int
  st_localPk :: string
  currentRemoteServer :: "LocalServerData option"
  st_backendState :: "BackendState option"
  st_dataSubscription :: "data_source option"
  st_listening :: bool
  ipStored :: bool
  ipUnstored :: nat

text \<open>The units of the statistics.\<close>

definition units_shown :: "string \<Rightarrow> bool \<times> bool" where
  "units_shown u =
     (if u = units_string OnlyBits then (True, True)
      else if u = units_string OnlyBytes then (False, False) else (True, False))"

definition zero_history :: "rat list" where "zero_history = [0, 0, 0, 0, 0, 0, 0, 0, 0, 0]"

definition new_status_page :: "vpn_saved_data \<Rightarrow> status_page" where
  "new_status_page d =
     \<lparr>st_sent = zero_history, st_received = zero_history, st_latencies = zero_history,
      uploadLimits = \<lparr>gl_min = 0, gl_mid = 0, gl_max = 0\<rparr>, downloadLimits = \<lparr>gl_min = 0, gl_mid = 0, gl_max = 0\<rparr>,
      latencyLimits = \<lparr>gl_min = 0, gl_mid = 0, gl_max = 0\<rparr>, connectionTimeString = ''00:00:00'',
      calculatedSegs = -1, timeUpdating = False, st_uploadSpeed = 0, st_downloadSpeed = 0, st_totalUploaded = 0,
      st_totalDownloaded = 0, st_latency = 0, showSpeedsInBits = fst (units_shown (getDataUnitsSetting d)),
      showTotalsInBits = snd (units_shown (getDataUnitsSetting d)), st_loading = True, showStartedLastValue = False,
      showStarted = False, lastAppState = None, showBusy = False, stopRequested = False,
      ipInfoAllowed = getCheckIpSetting d, currentIp = Undefined, ipCountry = Undefined, loadingCurrentIp = True,
      problemGettingIp = False, lastIpRefresDate = 0, st_localPk = [], currentRemoteServer = None,
      st_backendState = None, st_dataSubscription = None, st_listening = False, ipStored = False, ipUnstored = 0\<rparr>"

subsection \<open>The time of the connection\<close>

definition pad2 :: "string \<Rightarrow> string" where
  "pad2 s = replicate (2 - length s) CHR ''0'' @ s"

definition time_string :: "int \<Rightarrow> string" where
  "time_string calculated =
     (let segs = calculated mod 60; totalMinutes = calculated div 60;
          minutes = totalMinutes mod 60; hours = totalMinutes div 60
      in pad2 (int_to_string hours) @ '':'' @ pad2 (int_to_string minutes) @ '':'' @ pad2 (int_to_string segs))"

definition refreshConnectionTimeString :: "status_page \<Rightarrow> status_page" where
  "refreshConnectionTimeString p = p\<lparr>connectionTimeString := time_string (calculatedSegs p)\<rparr>"

definition second_passed :: "status_page \<Rightarrow> status_page" where
  "second_passed p =
     (if timeUpdating p then refreshConnectionTimeString (p\<lparr>calculatedSegs := calculatedSegs p + 1\<rparr>) else p)"

text \<open>The duration of a connection that counts: \<open>0\<close> is falsy.\<close>

definition shown_duration :: "VpnClientAppData \<Rightarrow> int option" where
  "shown_duration a =
     (case connectionData a of
        Some d \<Rightarrow>
          if running a \<and> appState a = AppRunning \<and> conn_connectionDuration d \<noteq> 0
          then Some \<lfloor>conn_connectionDuration d\<rfloor> else None
      | None \<Rightarrow> None)"

definition update_time :: "VpnClientAppData \<Rightarrow> status_page \<Rightarrow> status_page" where
  "update_time a p =
     (case shown_duration a of
        Some d \<Rightarrow>
          if calculatedSegs p = -1 \<or> d > calculatedSegs p + 2 \<or> d < calculatedSegs p - 2
          then (refreshConnectionTimeString (p\<lparr>calculatedSegs := d\<rparr>))\<lparr>timeUpdating := True\<rparr>
          else p
      | None \<Rightarrow>
          if timeUpdating p
          then p\<lparr>timeUpdating := False, calculatedSegs := -1, connectionTimeString := ''00:00:00''\<rparr>
          else p)"

subsection \<open>The graphs\<close>

definition calculateGraphLimits :: "(rat \<Rightarrow> rat) \<Rightarrow> rat list \<Rightarrow> graph_limits" where
  "calculateGraphLimits middle arrayToCheck =
     (let mx = fold (\<lambda>val m. if val > m then val else m) arrayToCheck 0;
          mx1 = (if mx = 0 then mx + 1 else mx)
      in \<lparr>gl_min = 0, gl_mid = middle mx1, gl_max = mx1\<rparr>)"

definition updateGraphLimits :: "(rat \<Rightarrow> rat) \<Rightarrow> status_page \<Rightarrow> status_page" where
  "updateGraphLimits middle p =
     p\<lparr>uploadLimits := calculateGraphLimits middle (st_sent p),
       downloadLimits := calculateGraphLimits middle (st_received p),
       latencyLimits := calculateGraphLimits middle (st_latencies p)\<rparr>"

definition clear_statistics :: "(rat \<Rightarrow> rat) \<Rightarrow> status_page \<Rightarrow> status_page" where
  "clear_statistics middle p =
     (updateGraphLimits middle (p\<lparr>st_received := zero_history, st_sent := zero_history, st_latencies := zero_history\<rparr>))
       \<lparr>st_uploadSpeed := 0, st_downloadSpeed := 0, st_totalUploaded := 0, st_totalDownloaded := 0, st_latency := 0\<rparr>"

text \<open>The first ten values of the histories; the service always has ten.\<close>

definition show_statistics :: "(rat \<Rightarrow> rat) \<Rightarrow> VpnClientConnectionsData \<Rightarrow> status_page \<Rightarrow> status_page" where
  "show_statistics middle d p =
     (updateGraphLimits middle (p\<lparr>st_received := take 10 (downloadSpeedHistory d), st_sent := take 10 (uploadSpeedHistory d),
         st_latencies := take 10 (latencyHistory d)\<rparr>))
       \<lparr>st_uploadSpeed := uploadSpeed d, st_downloadSpeed := downloadSpeed d, st_totalUploaded := totalUploaded d,
        st_totalDownloaded := totalDownloaded d, st_latency := latency d\<rparr>"

subsection \<open>The address of the machine\<close>

datatype ip_answer = IpData "string list" | IpMissing

definition ip_received :: "int \<Rightarrow> ip_answer \<Rightarrow> status_page \<Rightarrow> status_page" where
  "ip_received now r p =
     (let p1 = p\<lparr>loadingCurrentIp := False, lastIpRefresDate := now\<rparr> in
      case r of
        IpData vs \<Rightarrow>
          p1\<lparr>problemGettingIp := False,
             currentIp := (case vs of x # _ \<Rightarrow> Str x | [] \<Rightarrow> Undefined),
             ipCountry := (case vs of _ # y # _ \<Rightarrow> Str y | _ \<Rightarrow> Undefined)\<rparr>
      | IpMissing \<Rightarrow> p1\<lparr>problemGettingIp := True\<rparr>)"

definition ip_failed :: "int \<Rightarrow> status_page \<Rightarrow> status_page" where
  "ip_failed now p = p\<lparr>lastIpRefresDate := now, loadingCurrentIp := False, problemGettingIp := False\<rparr>"

text \<open>
  \<open>getIp\<close>. It first ends the subscription that is stored. An answer that was saved before is processed
  inside the call of \<open>subscribe\<close>, where the function calls itself once more and asks the service; the
  subscription that is stored at the end is the one of the saved answer, which has ended.
  \<open>ipStored\<close> says that the stored subscription waits for the service, \<open>ipUnstored\<close> counts the requests
  that run without being stored. The warning, if there is one, is the second component.
\<close>

definition ip_wait :: int where "ip_wait = 10000"

definition ip_refusal :: "bool \<Rightarrow> int \<Rightarrow> status_page \<Rightarrow> string option" where
  "ip_refusal ignoreTimeCheck now p =
     (if \<not> ignoreTimeCheck \<and> loadingCurrentIp p then Some ''vpn.status-page.data.ip-refresh-loading-warning''
      else if \<not> ignoreTimeCheck \<and> now - lastIpRefresDate p < ip_wait
      then Some ''vpn.status-page.data.ip-refresh-time-warning''
      else None)"

definition begin_ip :: "status_page \<Rightarrow> status_page" where
  "begin_ip p = p\<lparr>ipStored := False, loadingCurrentIp := True\<rparr>"

definition ask_ip :: "bool \<Rightarrow> int \<Rightarrow> status_page \<Rightarrow> status_page \<times> string option" where
  "ask_ip ignoreTimeCheck now p =
     (if \<not> ipInfoAllowed p then (p, None)
      else case ip_refusal ignoreTimeCheck now p of
             Some w \<Rightarrow> (p, Some w)
           | None \<Rightarrow> ((begin_ip p)\<lparr>ipStored := True\<rparr>, None))"

definition forget_ip :: "status_page \<Rightarrow> status_page" where
  "forget_ip p = (if ipStored p then p\<lparr>ipStored := False, ipUnstored := ipUnstored p + 1\<rparr> else p)"

definition getIp :: "bool \<Rightarrow> ip_answer option \<Rightarrow> int \<Rightarrow> status_page \<Rightarrow> status_page \<times> string option" where
  "getIp ignoreTimeCheck savedIp now p =
     (case savedIp of
        None \<Rightarrow> ask_ip ignoreTimeCheck now p
      | Some r \<Rightarrow>
          if \<not> ipInfoAllowed p then (p, None)
          else case ip_refusal ignoreTimeCheck now p of
                 Some w \<Rightarrow> (p, Some w)
               | None \<Rightarrow>
                   (case ask_ip ignoreTimeCheck now (ip_received now r (begin_ip p)) of
                      (p1, w) \<Rightarrow> (forget_ip p1, w)))"

text \<open>A request that is answered; \<open>own\<close> says whether its subscription is the stored one.\<close>

definition ip_ended :: "bool \<Rightarrow> status_page \<Rightarrow> status_page" where
  "ip_ended own p = (if own then p\<lparr>ipStored := False\<rparr> else p\<lparr>ipUnstored := ipUnstored p - 1\<rparr>)"

definition ip_pending :: "bool \<Rightarrow> status_page \<Rightarrow> bool" where
  "ip_pending own p \<longleftrightarrow> (if own then ipStored p else 0 < ipUnstored p)"

subsection \<open>The data of the service\<close>

definition start_changed :: "(rat \<Rightarrow> rat) \<Rightarrow> status_page \<Rightarrow> status_page" where
  "start_changed middle p = (if showStartedLastValue p \<noteq> showStarted p then clear_statistics middle p else p)"

definition busy_changed :: "BackendState \<Rightarrow> status_page \<Rightarrow> status_page" where
  "busy_changed b p =
     (if \<not> stopRequested p then p\<lparr>showBusy := busy b\<rparr>
      else if \<not> showStarted p then p\<lparr>stopRequested := False, showBusy := busy b\<rparr>
      else p)"

definition statistics_changed :: "(rat \<Rightarrow> rat) \<Rightarrow> VpnClientAppData \<Rightarrow> status_page \<Rightarrow> status_page" where
  "statistics_changed middle a p = (case connectionData a of Some d \<Rightarrow> show_statistics middle d p | None \<Rightarrow> p)"

text \<open>
  One event of the data. It is ignored before the service has made its first check; data without the
  state of the app is an error when its properties are read.
\<close>

definition state_received ::
  "(rat \<Rightarrow> rat) \<Rightarrow> ip_answer option \<Rightarrow> int \<Rightarrow> BackendState \<Rightarrow> status_page \<Rightarrow> status_page js_result" where
  "state_received middle savedIp now b p =
     (if serviceState b = Some PerformingInitialCheck then Inr p
      else
        case vpnClientAppData b of
          None \<Rightarrow> Inl TypeError
        | Some a \<Rightarrow>
            let first = (st_backendState p = None);
                p1 = p\<lparr>st_backendState := Some b\<rparr>;
                p2 = (if first \<or> (lastAppState p1 = Some AppRunning) \<noteq> (appState a = AppRunning)
                      then fst (getIp True savedIp now p1) else p1);
                p3 = p2\<lparr>showStarted := (running a \<or> appState a \<noteq> Stopped)\<rparr>;
                p4 = start_changed middle p3;
                p5 = p4\<lparr>lastAppState := Some (appState a), showStartedLastValue := showStarted p4\<rparr>;
                p6 = busy_changed b p5;
                p7 = statistics_changed middle a p6
            in Inr ((update_time a p7)\<lparr>st_loading := False\<rparr>))"

text \<open>
  \<open>startGettingData\<close>. With a saved answer its handler runs inside the call of \<open>subscribe\<close>: it subscribes
  to the service, and only then the outer call stores its own subscription, which has ended.
\<close>

definition subscribe_states :: "status_page \<Rightarrow> status_page" where
  "subscribe_states p = p\<lparr>st_listening := True, st_dataSubscription := Some BackendStates\<rparr>"

definition startGettingStates ::
  "(rat \<Rightarrow> rat) \<Rightarrow> BackendState option \<Rightarrow> ip_answer option \<Rightarrow> int \<Rightarrow> status_page \<Rightarrow> status_page js_result" where
  "startGettingStates middle saved savedIp now p =
     (case saved of
        None \<Rightarrow> Inr (subscribe_states p)
      | Some b \<Rightarrow>
          bindR (state_received middle savedIp now b p) (\<lambda>p1.
            Inr ((subscribe_states p1)\<lparr>st_dataSubscription := Some SavedAnswer\<rparr>)))"

definition status_page_opened ::
  "(rat \<Rightarrow> rat) \<Rightarrow> string option \<Rightarrow> BackendState option \<Rightarrow> ip_answer option \<Rightarrow> int \<Rightarrow> status_page \<Rightarrow> status_page js_result" where
  "status_page_opened middle key saved savedIp now p =
     startGettingStates middle saved savedIp now (case key of Some k \<Rightarrow> p\<lparr>st_localPk := k\<rparr> | None \<Rightarrow> p)"

text \<open>\<open>ngOnDestroy\<close> ends the subscription the page has stored, the clock and the request of the address.\<close>

definition status_page_destroyed :: "status_page \<Rightarrow> status_page" where
  "status_page_destroyed p =
     p\<lparr>st_listening := (st_listening p \<and> st_dataSubscription p \<noteq> Some BackendStates), ipStored := False,
       timeUpdating := False\<rparr>"

subsection \<open>Starting and stopping\<close>

definition start_vpn :: "vpn_client \<Rightarrow> status_page \<Rightarrow> vpn_client \<times> status_page \<times> vpn_ui list" where
  "start_vpn c p =
     (case currentRemoteServer p of
        None \<Rightarrow> (c, p, [VpnWarning ''vpn.status-page.select-server-warning''])
      | Some v \<Rightarrow>
          if flag v = Blocked then (c, p, [VpnError ''vpn.starting-blocked-server-error''])
          else (fst (start c), p\<lparr>showBusy := True\<rparr>, []))"

definition finishStoppingVpn :: "vpn_client \<Rightarrow> status_page \<Rightarrow> vpn_client \<times> status_page" where
  "finishStoppingVpn c p = (fst (stop c), p\<lparr>stopRequested := True, showBusy := True\<rparr>)"

definition stop_vpn :: "bool \<Rightarrow> vpn_client \<Rightarrow> status_page \<Rightarrow> (vpn_client \<times> status_page) js_result" where
  "stop_vpn accepted c p =
     (case st_backendState p of
        None \<Rightarrow> Inl TypeError
      | Some b \<Rightarrow>
          (case vpnClientAppData b of
             None \<Rightarrow> Inl TypeError
           | Some a \<Rightarrow> if \<not> killswitch a \<or> accepted then Inr (finishStoppingVpn c p) else Inr (c, p)))"

definition server_note_var :: "LocalServerData \<Rightarrow> string" where
  "server_note_var v =
     (if server_note v \<noteq> [] \<and> truthy (personalNote v) then ''vpn.server-list.notes-info''
      else if server_note v = [] \<and> truthy (personalNote v) then truthy_text (personalNote v) []
      else server_note v)"

definition currentStateText :: "AppState \<Rightarrow> string" where
  "currentStateText s =
     (case s of
        Stopped \<Rightarrow> ''vpn.connection-info.state-disconnected''
      | Connecting \<Rightarrow> ''vpn.connection-info.state-connecting''
      | AppRunning \<Rightarrow> ''vpn.connection-info.state-connected''
      | ShuttingDown \<Rightarrow> ''vpn.connection-info.state-disconnecting''
      | Reconnecting \<Rightarrow> ''vpn.connection-info.state-reconnecting'')"

definition currentStateLineClass :: "AppState \<Rightarrow> string" where
  "currentStateLineClass s =
     (if s = Stopped then ''red-line'' else if s = Connecting then ''yellow-line''
      else if s = AppRunning then ''green-line'' else ''yellow-line'')"

section \<open>The clock\<close>

lemma pad2_length: "2 \<le> length (pad2 s)"
  by (simp add: pad2_def)

lemma sixty: "0 \<le> r \<Longrightarrow> r < 60 \<Longrightarrow> (q * 60 + r) mod 60 = r \<and> (q * 60 + r) div 60 = (q :: int)"
  by simp

lemma time_of_parts:
  assumes "0 \<le> h" and "0 \<le> m" and "m < 60" and "0 \<le> s" and "s < 60"
  shows "time_string (h * 3600 + m * 60 + s) =
    pad2 (int_to_string h) @ '':'' @ pad2 (int_to_string m) @ '':'' @ pad2 (int_to_string s)"
proof -
  have split: "h * 3600 + m * 60 + s = (h * 60 + m) * 60 + s" by simp
  have parts: "((h * 60 + m) * 60 + s) mod 60 = s" "((h * 60 + m) * 60 + s) div 60 = h * 60 + m"
    "(h * 60 + m) mod 60 = m" "(h * 60 + m) div 60 = h"
    using sixty [of s "h * 60 + m"] sixty [of m h] assms by blast+
  show ?thesis unfolding split time_string_def Let_def parts ..
qed

definition clock_ok :: "status_page \<Rightarrow> bool" where
  "clock_ok p \<longleftrightarrow>
     (if timeUpdating p then 0 \<le> calculatedSegs p \<and> connectionTimeString p = time_string (calculatedSegs p)
      else calculatedSegs p = -1 \<and> connectionTimeString p = ''00:00:00'')"

definition page_ok :: "status_page \<Rightarrow> bool" where
  "page_ok p \<longleftrightarrow> clock_ok p \<and> showStarted p = showStartedLastValue p \<and> (stopRequested p \<longrightarrow> showBusy p) \<and>
     (st_loading p \<longleftrightarrow> st_backendState p = None)"

definition ip_ok :: "status_page \<Rightarrow> bool" where
  "ip_ok p \<longleftrightarrow> ipUnstored p = 0 \<and> (ipStored p \<longrightarrow> loadingCurrentIp p)"

lemma clock_ok_fields:
  "clock_ok p' = clock_ok p"
  if "timeUpdating p' = timeUpdating p" "calculatedSegs p' = calculatedSegs p" "connectionTimeString p' = connectionTimeString p"
  using that by (simp add: clock_ok_def)

definition duration_ok :: "VpnClientAppData \<Rightarrow> bool" where
  "duration_ok a \<longleftrightarrow> (case connectionData a of Some d \<Rightarrow> 0 \<le> conn_connectionDuration d | None \<Rightarrow> True)"

lemma update_time_ok:
  assumes "clock_ok p" and "duration_ok a"
  shows "clock_ok (update_time a p)"
    and "case shown_duration a of
        Some d \<Rightarrow> timeUpdating (update_time a p) \<and> \<bar>calculatedSegs (update_time a p) - d\<bar> \<le> 2
      | None \<Rightarrow> connectionTimeString (update_time a p) = ''00:00:00'' \<and> \<not> timeUpdating (update_time a p)"
proof -
  have nonneg: "0 \<le> d" if "shown_duration a = Some d" for d
    using that assms(2) by (auto simp: shown_duration_def duration_ok_def split: option.splits if_splits)
  show "clock_ok (update_time a p)"
    using assms(1) nonneg
    by (cases "shown_duration a") (auto simp: update_time_def clock_ok_def refreshConnectionTimeString_def split: if_splits)
  show "case shown_duration a of
        Some d \<Rightarrow> timeUpdating (update_time a p) \<and> \<bar>calculatedSegs (update_time a p) - d\<bar> \<le> 2
      | None \<Rightarrow> connectionTimeString (update_time a p) = ''00:00:00'' \<and> \<not> timeUpdating (update_time a p)"
    using assms(1) nonneg
    by (cases "shown_duration a") (auto simp: update_time_def clock_ok_def refreshConnectionTimeString_def split: if_splits)
qed

lemma update_time_other [simp]:
  "showStarted (update_time a p) = showStarted p" "showStartedLastValue (update_time a p) = showStartedLastValue p"
  "stopRequested (update_time a p) = stopRequested p" "showBusy (update_time a p) = showBusy p"
  "st_backendState (update_time a p) = st_backendState p" "ipStored (update_time a p) = ipStored p"
  "ipUnstored (update_time a p) = ipUnstored p"
  "loadingCurrentIp (update_time a p) = loadingCurrentIp p" "lastAppState (update_time a p) = lastAppState p"
  "st_sent (update_time a p) = st_sent p" "st_uploadSpeed (update_time a p) = st_uploadSpeed p"
  by (simp_all add: update_time_def refreshConnectionTimeString_def split: option.split)

lemma statistics_other [simp]:
  "timeUpdating (clear_statistics m p) = timeUpdating p" "calculatedSegs (clear_statistics m p) = calculatedSegs p"
  "connectionTimeString (clear_statistics m p) = connectionTimeString p"
  "showStarted (clear_statistics m p) = showStarted p" "stopRequested (clear_statistics m p) = stopRequested p"
  "showBusy (clear_statistics m p) = showBusy p" "st_backendState (clear_statistics m p) = st_backendState p"
  "ipStored (clear_statistics m p) = ipStored p" "ipUnstored (clear_statistics m p) = ipUnstored p" "loadingCurrentIp (clear_statistics m p) = loadingCurrentIp p"
  "timeUpdating (show_statistics m d p) = timeUpdating p" "calculatedSegs (show_statistics m d p) = calculatedSegs p"
  "connectionTimeString (show_statistics m d p) = connectionTimeString p"
  "showStarted (show_statistics m d p) = showStarted p" "showStartedLastValue (show_statistics m d p) = showStartedLastValue p"
  "stopRequested (show_statistics m d p) = stopRequested p" "showBusy (show_statistics m d p) = showBusy p"
  "st_backendState (show_statistics m d p) = st_backendState p" "lastAppState (show_statistics m d p) = lastAppState p"
  "ipStored (show_statistics m d p) = ipStored p" "ipUnstored (show_statistics m d p) = ipUnstored p" "loadingCurrentIp (show_statistics m d p) = loadingCurrentIp p"
  by (simp_all add: clear_statistics_def show_statistics_def updateGraphLimits_def)

text \<open>What the functions for the address keep.\<close>

definition same_but_ip :: "status_page \<Rightarrow> status_page \<Rightarrow> bool" where
  "same_but_ip p q \<longleftrightarrow> timeUpdating q = timeUpdating p \<and> calculatedSegs q = calculatedSegs p \<and>
     connectionTimeString q = connectionTimeString p \<and> showStarted q = showStarted p \<and>
     showStartedLastValue q = showStartedLastValue p \<and> stopRequested q = stopRequested p \<and> showBusy q = showBusy p \<and>
     st_backendState q = st_backendState p \<and> st_loading q = st_loading p \<and> st_sent q = st_sent p \<and>
     st_uploadSpeed q = st_uploadSpeed p"

lemma same_trans: "same_but_ip p q \<Longrightarrow> same_but_ip q r \<Longrightarrow> same_but_ip p r"
  by (simp add: same_but_ip_def)

lemma ip_steps_same:
  "same_but_ip p p" "same_but_ip p (begin_ip p)" "same_but_ip p (ip_received now r p)" "same_but_ip p (forget_ip p)"
  "same_but_ip p (ip_ended own p)" "same_but_ip p (ip_failed now p)" "same_but_ip p (p\<lparr>ipStored := v\<rparr>)"
  by (simp_all add: same_but_ip_def begin_ip_def ip_received_def forget_ip_def ip_ended_def ip_failed_def Let_def
      split: ip_answer.split)

lemma ask_ip_same: "same_but_ip p (fst (ask_ip i now p))"
  using same_trans [OF ip_steps_same(2,7)] by (simp add: ask_ip_def ip_steps_same(1) split: option.split)

lemma getIp_same: "same_but_ip p (fst (getIp i saved now p))"
proof (cases saved)
  case None
  then show ?thesis by (simp add: getIp_def ask_ip_same)
next
  case (Some r)
  let ?q = "ip_received now r (begin_ip p)"
  obtain p1 w where p1: "ask_ip i now ?q = (p1, w)" by (cases "ask_ip i now ?q")
  have "same_but_ip ?q p1" using ask_ip_same [of ?q i now] p1 by simp
  then have "same_but_ip p p1" by (rule same_trans [OF same_trans [OF ip_steps_same(2,3)]])
  then have "same_but_ip p (forget_ip p1)" by (rule same_trans [OF _ ip_steps_same(4)])
  then show ?thesis using Some by (simp add: getIp_def p1 ip_steps_same(1) split: option.split)
qed

lemma ask_ip_ok: "ip_ok p \<Longrightarrow> ip_ok (fst (ask_ip i now p))"
  by (simp add: ask_ip_def ip_ok_def begin_ip_def split: option.split)

lemma changes_keep_ip:
  "ip_ok (start_changed middle p) = ip_ok p" "ip_ok (busy_changed b p) = ip_ok p"
  "ip_ok (statistics_changed middle a p) = ip_ok p" "ip_ok (update_time a p) = ip_ok p"
  "ip_ok (p\<lparr>showStarted := v\<rparr>) = ip_ok p" "ip_ok (p\<lparr>st_loading := v\<rparr>) = ip_ok p"
  "ip_ok (p\<lparr>st_backendState := w\<rparr>) = ip_ok p" "ip_ok (p\<lparr>lastAppState := y, showStartedLastValue := v\<rparr>) = ip_ok p"
  by (simp_all add: ip_ok_def start_changed_def busy_changed_def statistics_changed_def split: option.split)

lemma state_received_ip:
  assumes "state_received middle None now b p = Inr p'" and "ip_ok p"
  shows "ip_ok p'"
proof (cases "serviceState b = Some PerformingInitialCheck")
  case True
  then show ?thesis using assms by (simp add: state_received_def)
next
  case False
  then obtain a where a: "vpnClientAppData b = Some a" using assms(1) by (auto simp: state_received_def split: option.splits)
  define p1 where "p1 = p\<lparr>st_backendState := Some b\<rparr>"
  define p2 where "p2 = (if st_backendState p = None \<or> (lastAppState p1 = Some AppRunning) \<noteq> (appState a = AppRunning)
    then fst (getIp True None now p1) else p1)"
  have "ip_ok p1" using assms(2) by (simp add: p1_def changes_keep_ip)
  then have "ip_ok p2" by (simp add: p2_def getIp_def ask_ip_ok)
  moreover have "ip_ok p' = ip_ok p2"
    using assms(1) False unfolding state_received_def Let_def a p1_def [symmetric] p2_def [symmetric]
    by (simp only: if_False option.case sum.inject) (auto simp only: changes_keep_ip p2_def)
  ultimately show ?thesis by simp
qed

lemma same_page_ok: "same_but_ip p q \<Longrightarrow> page_ok p \<Longrightarrow> page_ok q"
  using clock_ok_fields [of q p] by (simp add: same_but_ip_def page_ok_def)

section \<open>What the page shows\<close>

lemma state_received_result:
  assumes "serviceState b \<noteq> Some PerformingInitialCheck" and "vpnClientAppData b = Some a" and "page_ok p" and "duration_ok a"
  shows "\<exists>p'. state_received middle savedIp now b p = Inr p' \<and> page_ok p' \<and> st_backendState p' = Some b \<and>
    showStarted p' = (running a \<or> appState a \<noteq> Stopped) \<and>
    showBusy p' = (busy b \<or> stopRequested p \<and> showStarted p') \<and>
    stopRequested p' = (stopRequested p \<and> showStarted p') \<and>
    (case shown_duration a of
        Some d \<Rightarrow> connectionTimeString p' = time_string (calculatedSegs p') \<and> \<bar>calculatedSegs p' - d\<bar> \<le> 2
      | None \<Rightarrow> connectionTimeString p' = ''00:00:00'') \<and>
    (case connectionData a of
        Some d \<Rightarrow> st_sent p' = take 10 (uploadSpeedHistory d) \<and> st_uploadSpeed p' = uploadSpeed d
      | None \<Rightarrow> showStarted p' \<noteq> showStarted p \<longrightarrow> st_sent p' = zero_history \<and> st_uploadSpeed p' = 0)"
proof -
  define p1 where "p1 = p\<lparr>st_backendState := Some b\<rparr>"
  define p2 where "p2 = (if st_backendState p = None \<or> (lastAppState p1 = Some AppRunning) \<noteq> (appState a = AppRunning)
    then fst (getIp True savedIp now p1) else p1)"
  have "same_but_ip p1 p2" using getIp_same by (simp add: p2_def) (simp add: same_but_ip_def)
  then have p2: "timeUpdating p2 = timeUpdating p" "calculatedSegs p2 = calculatedSegs p"
    "connectionTimeString p2 = connectionTimeString p" "showStartedLastValue p2 = showStartedLastValue p"
    "stopRequested p2 = stopRequested p" "showBusy p2 = showBusy p" "st_backendState p2 = Some b"
    "st_sent p2 = st_sent p" "st_uploadSpeed p2 = st_uploadSpeed p"
    using assms(3) by (simp_all add: same_but_ip_def p1_def page_ok_def)
  define p3 where "p3 = p2\<lparr>showStarted := (running a \<or> appState a \<noteq> Stopped)\<rparr>"
  define p4 where "p4 = start_changed middle p3"
  define p5 where "p5 = p4\<lparr>lastAppState := Some (appState a), showStartedLastValue := showStarted p4\<rparr>"
  define p6 where "p6 = busy_changed b p5"
  define p7 where "p7 = statistics_changed middle a p6"
  have run: "state_received middle savedIp now b p = Inr ((update_time a p7)\<lparr>st_loading := False\<rparr>)"
    unfolding state_received_def Let_def p7_def p6_def p5_def p4_def p3_def p2_def p1_def assms(2)
    using assms(1) by (simp only: if_False option.case)
  have p4: "timeUpdating p4 = timeUpdating p" "calculatedSegs p4 = calculatedSegs p"
    "connectionTimeString p4 = connectionTimeString p" "showStarted p4 = (running a \<or> appState a \<noteq> Stopped)"
    "stopRequested p4 = stopRequested p" "showBusy p4 = showBusy p" "st_backendState p4 = Some b"
    using p2 by (simp_all add: p4_def p3_def start_changed_def)
  have zero: "showStarted p4 \<noteq> showStarted p \<longrightarrow> st_sent p4 = zero_history \<and> st_uploadSpeed p4 = 0"
    using p2(4) assms(3)
    by (auto simp: p4_def p3_def page_ok_def start_changed_def clear_statistics_def updateGraphLimits_def)
  have p6: "timeUpdating p6 = timeUpdating p" "calculatedSegs p6 = calculatedSegs p"
    "connectionTimeString p6 = connectionTimeString p" "showStarted p6 = (running a \<or> appState a \<noteq> Stopped)"
    "showStartedLastValue p6 = showStarted p6" "showBusy p6 = (busy b \<or> stopRequested p \<and> showStarted p6)"
    "stopRequested p6 = (stopRequested p \<and> showStarted p6)" "st_backendState p6 = Some b"
    "st_sent p6 = st_sent p4" "st_uploadSpeed p6 = st_uploadSpeed p4"
    using p4 assms(3) by (auto simp: p6_def p5_def page_ok_def busy_changed_def)
  have keep: "timeUpdating p7 = timeUpdating p6" "calculatedSegs p7 = calculatedSegs p6"
    "connectionTimeString p7 = connectionTimeString p6" "showStarted p7 = showStarted p6"
    "showStartedLastValue p7 = showStartedLastValue p6" "showBusy p7 = showBusy p6" "stopRequested p7 = stopRequested p6"
    "st_backendState p7 = st_backendState p6"
    unfolding p7_def by (simp_all add: statistics_changed_def split: option.split)
  note p7 = keep [unfolded p6(1-5,8)]
  have stats: "case connectionData a of
      Some d \<Rightarrow> st_sent p7 = take 10 (uploadSpeedHistory d) \<and> st_uploadSpeed p7 = uploadSpeed d
    | None \<Rightarrow> st_sent p7 = st_sent p4 \<and> st_uploadSpeed p7 = st_uploadSpeed p4"
    unfolding p7_def using p6(9,10) by (simp add: statistics_changed_def show_statistics_def updateGraphLimits_def split: option.split)
  have clock: "clock_ok p7" using assms(3) clock_ok_fields [of p7 p] p7(1-3) by (simp add: page_ok_def)
  note time = update_time_ok [OF clock assms(4)]
  have "clock_ok ((update_time a p7)\<lparr>st_loading := False\<rparr>)"
    using time(1) clock_ok_fields [of "(update_time a p7)\<lparr>st_loading := False\<rparr>" "update_time a p7"] by simp
  then have "page_ok ((update_time a p7)\<lparr>st_loading := False\<rparr>)"
    by (simp add: page_ok_def p7 p6(6,7))
  moreover have "case shown_duration a of
        Some d \<Rightarrow> connectionTimeString (update_time a p7) = time_string (calculatedSegs (update_time a p7)) \<and>
          \<bar>calculatedSegs (update_time a p7) - d\<bar> \<le> 2
      | None \<Rightarrow> connectionTimeString (update_time a p7) = ''00:00:00''"
    using time by (simp add: clock_ok_def split: option.splits)
  moreover have "case connectionData a of
      Some d \<Rightarrow> st_sent (update_time a p7) = take 10 (uploadSpeedHistory d) \<and> st_uploadSpeed (update_time a p7) = uploadSpeed d
    | None \<Rightarrow> showStarted p4 \<noteq> showStarted p \<longrightarrow> st_sent (update_time a p7) = zero_history \<and> st_uploadSpeed (update_time a p7) = 0"
    using stats zero by (simp split: option.splits)
  ultimately show ?thesis
    unfolding run using p4(4) p6(4,6,7)
    by (intro exI [of _ "(update_time a p7)\<lparr>st_loading := False\<rparr>"]) (simp add: p7 cong: option.case_cong)
qed

text \<open>The steps of an open page: the events of the service and of the clock, the answers for the address.\<close>

inductive page_step :: "(rat \<Rightarrow> rat) \<Rightarrow> bool \<Rightarrow> status_page \<Rightarrow> status_page \<Rightarrow> bool" for middle sv where
  event: "state_received middle savedIp now b p = Inr p' \<Longrightarrow> (\<And>a. vpnClientAppData b = Some a \<Longrightarrow> duration_ok a) \<Longrightarrow>
    (savedIp \<noteq> None \<longrightarrow> sv) \<Longrightarrow> page_step middle sv p p'"
| second: "page_step middle sv p (second_passed p)"
| ip_answer: "ip_pending own p \<Longrightarrow> page_step middle sv p (ip_received now r (ip_ended own p))"
| ip_error: "ip_pending own p \<Longrightarrow> page_step middle sv p (ip_failed now (ip_ended own p))"
| ip_asked: "page_step middle sv p (fst (getIp False None now p))"
| server: "page_step middle sv p (p\<lparr>currentRemoteServer := v\<rparr>)"
| start: "page_step middle sv p (fst (snd (start_vpn c p)))"
| stop: "stop_vpn accepted c p = Inr (c', p') \<Longrightarrow> page_step middle sv p p'"

lemma page_step_ok:
  assumes "page_step middle sv p p'" and "page_ok p"
  shows "page_ok p'"
  using assms
proof (induction rule: page_step.induct)
  case (event savedIp now b p p')
  show ?case
  proof (cases "serviceState b = Some PerformingInitialCheck")
    case True
    then show ?thesis using event by (simp add: state_received_def)
  next
    case False
    then obtain a where "vpnClientAppData b = Some a" using event(1) by (auto simp: state_received_def split: option.splits)
    from state_received_result [OF False this event(4) event(2) [OF this], of middle savedIp now] event(1)
    show ?thesis by auto
  qed
next
  case (second p)
  then show ?case by (auto simp: second_passed_def refreshConnectionTimeString_def page_ok_def clock_ok_def)
next
  case (ip_answer own p now r)
  show ?case by (rule same_page_ok [OF same_trans [OF ip_steps_same(5,3)] ip_answer(2)])
next
  case (ip_error own p now)
  show ?case by (rule same_page_ok [OF same_trans [OF ip_steps_same(5,6)] ip_error(2)])
next
  case (ip_asked p now)
  show ?case by (rule same_page_ok [OF getIp_same ip_asked])
next
  case (server p v)
  then show ?case by (simp add: page_ok_def clock_ok_def)
next
  case (start p c)
  then show ?case by (simp add: start_vpn_def page_ok_def clock_ok_def split: option.split)
next
  case (stop accepted c p c' p')
  then show ?case
    by (auto simp: stop_vpn_def finishStoppingVpn_def page_ok_def clock_ok_def split: option.splits if_splits)
qed

lemma page_step_ip:
  assumes "page_step middle False p p'" and "ip_ok p"
  shows "ip_ok p'"
  using assms
proof (induction rule: page_step.induct)
  case (event savedIp now b p p')
  then show ?case using state_received_ip by (cases savedIp) auto
next
  case (ip_answer own p now r)
  then show ?case
    by (simp add: ip_ok_def ip_pending_def ip_received_def ip_ended_def Let_def split: ip_answer.split if_splits)
next
  case (ip_error own p now)
  then show ?case by (simp add: ip_ok_def ip_pending_def ip_failed_def ip_ended_def split: if_splits)
next
  case (ip_asked p now)
  then show ?case by (simp add: getIp_def ask_ip_ok)
next
  case (stop accepted c p c' p')
  then show ?case by (auto simp: stop_vpn_def finishStoppingVpn_def ip_ok_def split: option.splits if_splits)
qed (simp_all add: ip_ok_def second_passed_def refreshConnectionTimeString_def start_vpn_def split: option.split)

text \<open>
  Property C18. The page with the state of the VPN, whatever the service, the clock and the user do
  after it was created: the clock runs exactly while a connection is shown, its text is that of
  the seconds it has counted, in hours, minutes and seconds, and otherwise it is zero; the page is
  loading exactly until it has data; while a stop the user requested has not happened the page is
  busy; and when no saved address is restored, there is at most one request for the address, and the
  address is shown as loading during it.
\<close>

theorem status_page_invariant:
  assumes "(page_step middle sv)\<^sup>*\<^sup>* (new_status_page d) p"
  shows "page_ok p \<and> (sv \<or> ip_ok p)"
  using assms
proof (induction rule: rtranclp_induct)
  case base
  show ?case by (simp add: new_status_page_def page_ok_def clock_ok_def ip_ok_def)
next
  case (step p1 p2)
  then show ?case using page_step_ok page_step_ip by (cases sv) auto
qed

text \<open>
  What an event of the service changes on the page. After the first check an event with
  data never fails; the VPN is shown as started exactly when the app runs or says so; the time that is
  shown is that of the app, up to two seconds, when there is a connection, and zero otherwise; the
  statistics are those of the event, and when the VPN was started or stopped and the event has none
  they are zero; and the page is busy when the service is or a requested stop has not happened.
\<close>

theorem status_event_correct:
  assumes "serviceState b \<noteq> Some PerformingInitialCheck" and "vpnClientAppData b = Some a" and "page_ok p" and "duration_ok a"
  shows "\<exists>p'. state_received middle savedIp now b p = Inr p' \<and>
    showStarted p' = (running a \<or> appState a \<noteq> Stopped) \<and> \<not> st_loading p' \<and>
    showBusy p' = (busy b \<or> stopRequested p \<and> showStarted p') \<and>
    (case shown_duration a of
        Some d \<Rightarrow> connectionTimeString p' = time_string (calculatedSegs p') \<and> \<bar>calculatedSegs p' - d\<bar> \<le> 2
      | None \<Rightarrow> connectionTimeString p' = ''00:00:00'') \<and>
    (case connectionData a of
        Some d \<Rightarrow> st_sent p' = take 10 (uploadSpeedHistory d) \<and> st_uploadSpeed p' = uploadSpeed d
      | None \<Rightarrow> showStarted p' \<noteq> showStarted p \<longrightarrow> st_sent p' = zero_history \<and> st_uploadSpeed p' = 0)"
proof -
  from state_received_result [OF assms, of middle savedIp now] obtain p' where
    p': "state_received middle savedIp now b p = Inr p'" "page_ok p'" "st_backendState p' = Some b"
      "showStarted p' = (running a \<or> appState a \<noteq> Stopped)"
      "showBusy p' = (busy b \<or> stopRequested p \<and> showStarted p')"
      "case shown_duration a of
        Some d \<Rightarrow> connectionTimeString p' = time_string (calculatedSegs p') \<and> \<bar>calculatedSegs p' - d\<bar> \<le> 2
      | None \<Rightarrow> connectionTimeString p' = ''00:00:00''"
      "case connectionData a of
        Some d \<Rightarrow> st_sent p' = take 10 (uploadSpeedHistory d) \<and> st_uploadSpeed p' = uploadSpeed d
      | None \<Rightarrow> showStarted p' \<noteq> showStarted p \<longrightarrow> st_sent p' = zero_history \<and> st_uploadSpeed p' = 0"
    by (elim exE conjE)
  have "\<not> st_loading p'" using p'(2,3) by (simp add: page_ok_def)
  then show ?thesis using p' by (intro exI [of _ p']) (intro conjI)
qed

section \<open>What goes wrong\<close>

text \<open>Several events, one after the other.\<close>

fun events_received :: "(rat \<Rightarrow> rat) \<Rightarrow> (int \<times> BackendState) list \<Rightarrow> status_page \<Rightarrow> status_page js_result" where
  "events_received middle [] p = Inr p"
| "events_received middle ((now, b) # es) p = bindR (state_received middle None now b p) (events_received middle es)"

definition still_running :: "BackendState \<Rightarrow> bool" where
  "still_running b \<longleftrightarrow> serviceState b \<noteq> Some PerformingInitialCheck \<and>
     (case vpnClientAppData b of Some a \<Rightarrow> running a \<and> duration_ok a | None \<Rightarrow> False)"

lemma busy_while_running:
  assumes "page_ok p" and "stopRequested p" and "list_all (\<lambda>(now, b). still_running b) es"
  shows "\<exists>p'. events_received middle es p = Inr p' \<and> showBusy p' \<and> stopRequested p'"
  using assms
proof (induction es arbitrary: p)
  case Nil
  then show ?case by (simp add: page_ok_def)
next
  case (Cons e es)
  obtain now b where e: "e = (now, b)" by (cases e)
  from Cons.prems(3) obtain a where a: "serviceState b \<noteq> Some PerformingInitialCheck" "vpnClientAppData b = Some a"
    "running a" "duration_ok a"
    by (auto simp: e still_running_def split: option.splits)
  from state_received_result [OF a(1,2) Cons.prems(1) a(4), of middle None now] obtain p1 where
    p1: "state_received middle None now b p = Inr p1" "page_ok p1" "showStarted p1 = (running a \<or> appState a \<noteq> Stopped)"
      "stopRequested p1 = (stopRequested p \<and> showStarted p1)"
    by (elim exE conjE)
  have "stopRequested p1" using p1(3,4) a(3) Cons.prems(2) by simp
  with Cons.IH [OF p1(2)] Cons.prems(3) show ?case by (simp add: e p1(1))
qed

text \<open>
  A request to stop that the visor refuses leaves the page busy, with the button disabled, for as long
  as the app runs: the service says that it is not busy, but the page waits for the app to stop.
\<close>

theorem failed_stop_stays_busy:
  assumes "page_ok p" and "list_all (\<lambda>(now, b). still_running b) es"
  shows "\<exists>p'. events_received middle es (snd (finishStoppingVpn c p)) = Inr p' \<and> showBusy p'"
proof -
  have "page_ok (snd (finishStoppingVpn c p))" using assms(1) by (simp add: finishStoppingVpn_def page_ok_def clock_ok_def)
  from busy_while_running [OF this _ assms(2), of middle] show ?thesis by (auto simp: finishStoppingVpn_def)
qed

text \<open>A page that starts from saved data goes on listening to the service after it was destroyed.\<close>

theorem restored_page_keeps_listening:
  assumes "startGettingStates middle (Some b) savedIp now p = Inr p'"
  shows "st_listening (status_page_destroyed p')"
  using assms by (auto simp: startGettingStates_def subscribe_states_def status_page_destroyed_def bindR_def split: sum.splits)

text \<open>
  After a saved address was restored, the next request does not end the one that is under way, and the
  first answer ends the loading although the current request still waits.
\<close>

theorem restored_address_requests_overlap:
  assumes "ipInfoAllowed p"
  shows "let q = fst (getIp True None t2 (fst (getIp True (Some r) t1 p)));
             q1 = ip_received t3 old (ip_ended False q)
         in ipStored q \<and> 0 < ipUnstored q \<and> ipStored q1 \<and> \<not> loadingCurrentIp q1"
  using assms
  by (cases r; cases old)
    (simp_all add: getIp_def ask_ip_def ip_refusal_def begin_ip_def ip_received_def forget_ip_def ip_ended_def Let_def)

text \<open>A request for the address that fails is not shown as a problem, and the old address stays.\<close>

theorem failed_address_not_a_problem:
  "\<not> problemGettingIp (ip_failed now p) \<and> currentIp (ip_failed now p) = currentIp p \<and> \<not> loadingCurrentIp (ip_failed now p)"
  by (simp add: ip_failed_def)

section \<open>Examples\<close>

definition example_event :: BackendState where
  "example_event = \<lparr>updateDate = 5, serviceState = Some Running, busy = False, vpnClientAppData = Some
     \<lparr>running = True, serverPk = Str ''02ab'', killswitch = True, appState = AppRunning, connectionData = Some
        \<lparr>latency = 1, uploadSpeed = 2, downloadSpeed = 3, totalUploaded = 4, totalDownloaded = 5, conn_connectionDuration = 3725,
         conn_error = [], downloadSpeedHistory = zero_history, uploadSpeedHistory = [1, 2, 3, 4, 5, 6, 7, 8, 9, 10],
         latencyHistory = zero_history\<rparr>,
      minHops = 0, lastErrorMsg = Undefined, connectionDuration = Some 3725, dns = Undefined\<rparr>\<rparr>"

definition example_page :: status_page where
  "example_page = new_status_page (fresh_vpn_data blank_store)"

theorem status_event_correct_witness:
  "\<exists>p'. state_received (\<lambda>x. x / 2) None 20000 example_event example_page = Inr p' \<and> showStarted p' \<and>
    \<bar>calculatedSegs p' - 3725\<bar> \<le> 2 \<and> st_uploadSpeed p' = 2"
  using status_event_correct [of example_event "the (vpnClientAppData example_event)" example_page "\<lambda>x. x / 2" None 20000]
  by (auto simp: example_event_def example_page_def new_status_page_def page_ok_def clock_ok_def duration_ok_def shown_duration_def)

lemma example_page_step: "(page_step (\<lambda>x. x / 2) False)\<^sup>*\<^sup>* example_page (second_passed example_page)"
  by (rule r_into_rtranclp) (rule page_step.second)

theorem status_page_invariant_witness:
  "page_ok (second_passed example_page) \<and> ip_ok (second_passed example_page)"
  using status_page_invariant [OF example_page_step [unfolded example_page_def]] by (simp add: example_page_def)

end
