(* ===== verification/Vpn_Settings.thy ===== *)
theory Vpn_Settings
  imports Vpn_Status Settings_Windows
begin

text \<open>
  The other pages of the VPN: its settings (\<open>vpn-settings.component.ts\<close>), the state that the top bar shows
  (\<open>layout/top-bar/top-bar.component.ts\<close>) and the page for fatal problems (\<open>vpn-error.component.ts\<close>). They all
  read the data that \<open>VpnClientService\<close> emits, so the theory starts with what every emitted
  value has, and shows that the handlers of the pages can not fail on it.
\<close>

section \<open>What the service emits\<close>

definition event_ok :: "BackendState \<Rightarrow> bool" where
  "event_ok e \<longleftrightarrow> vpnClientAppData e \<noteq> None \<and> serviceState e \<noteq> None \<and> serviceState e \<noteq> Some PerformingInitialCheck"

definition events_ok :: "vpn_client \<Rightarrow> bool" where
  "events_ok c \<longleftrightarrow>
     (lastServiceState c \<noteq> PerformingInitialCheck \<longrightarrow> vpnClientAppData (currentEventData c) \<noteq> None) \<and>
     list_all event_ok (stateEvents c)"

lemma changeAppState_events:
  "events_ok c \<Longrightarrow> lastServiceState c \<noteq> PerformingInitialCheck \<Longrightarrow> events_ok (changeAppState b c)"
  by (simp add: events_ok_def client_defs event_ok_def)

lemma sendUpdate_events: "events_ok c \<Longrightarrow> lastServiceState c \<noteq> PerformingInitialCheck \<Longrightarrow> events_ok (sendUpdate c)"
  by (simp add: events_ok_def sendUpdate_def event_ok_def)

lemma updateData_events [simp]: "events_ok (updateData c) = events_ok c"
  by (simp add: events_ok_def updateData_def continuallyUpdateData_def)

lemma continuallyUpdateData_events [simp]: "events_ok (continuallyUpdateData c) = events_ok c"
  by (simp add: events_ok_def continuallyUpdateData_def)

lemma client_ready: "client_ok c \<Longrightarrow> \<not> working c \<Longrightarrow> lastServiceState c \<noteq> PerformingInitialCheck"
  by (auto simp: client_ok_def)

lemma client_requesting: "client_ok c \<Longrightarrow> dataRequest c = Some r \<Longrightarrow> lastServiceState c \<noteq> PerformingInitialCheck"
  by (auto simp: client_ok_def)

lemma start_stop_events:
  "client_ok c \<Longrightarrow> events_ok c \<Longrightarrow> events_ok (fst (start c)) \<and> events_ok (fst (stop c))"
  using client_ready [of c] changeAppState_events [of c] by (auto simp: start_def stop_def)

lemma processServerChange_events:
  assumes "processServerChange c = Inr c'" and "events_ok c" and "lastServiceState c \<noteq> PerformingInitialCheck"
  shows "events_ok c'"
  using assms
  by (auto simp: processServerChange_def events_ok_def sendUpdate_def stopContinuallyUpdatingData_def event_ok_def Let_def
      split: option.splits)

lemma changeServer_events:
  assumes "changeServer c = Inr (c', b)" and "client_ok c" and "events_ok c"
  shows "events_ok c'"
proof (cases "working c")
  case True
  then show ?thesis using assms by (simp add: changeServer_def)
next
  case False
  obtain c1 s where s: "stop c = (c1, s)" by (cases "stop c")
  then have "events_ok c1" using start_stop_events [OF assms(2,3)] by simp
  moreover have "\<not> s \<Longrightarrow> c1 = c" using s by (auto simp: stop_def split: if_splits)
  ultimately show ?thesis
    using assms(1) False s client_ready [OF assms(2)] processServerChange_events [of c1 c']
    by (cases s) (auto simp: changeServer_def bindR_Inr_iff)
qed

lemma requestServer_events:
  assumes "requestServer v pw c = Inr (c', b)" and "client_ok c" and "events_ok c"
  shows "events_ok c'"
proof -
  obtain c1 where c1: "updateRequestedServerPasswordSetting (c\<lparr>requestedServer := Some v, requestedPassword := pw\<rparr>) = Inr c1"
      "changeServer c1 = Inr (c', b)"
    using assms(1) by (auto simp: requestServer_def bindR_Inr_iff)
  have "\<exists>w d. c1 = c\<lparr>requestedPassword := pw, requestedServer := Some w, savedData := d\<rparr>"
    using c1(1) by (auto simp: updateRequestedServerPasswordSetting_def bindR_Inr_iff split: option.splits) blast+
  then have "events_ok c1" "client_ok c1" using client_ok_request [OF assms(2)] assms(3) by (auto simp: events_ok_def)
  then show ?thesis using changeServer_events [OF c1(2)] by blast
qed

lemma appStateChanged_events:
  assumes "appStateChanged unk now b a c = Inr c'" and "events_ok c"
  shows "events_ok c'"
proof -
  define c2 where "c2 = updateData (sendUpdate (c\<lparr>working := False, dataRequest := None,
       lastServiceState := (if running (processAppData unk a) then Running else Off),
       currentEventData := (currentEventData c)\<lparr>vpnClientAppData := Some (processAppData unk a), updateDate := now\<rparr>\<rparr>))"
  have "events_ok c2" "lastServiceState c2 \<noteq> PerformingInitialCheck"
    using assms(2) by (auto simp: c2_def events_ok_def client_defs event_ok_def)
  moreover have "appStateChanged unk now b a c = (if \<not> b \<and> requestedServer c2 \<noteq> None then processServerChange c2 else Inr c2)"
    by (simp add: appStateChanged_def c2_def)
  ultimately show ?thesis using assms(1) processServerChange_events by (auto split: if_splits)
qed

lemma vpn_step_events:
  assumes "vpn_step unk c c'" and "client_ok c" and "events_ok c"
  shows "events_ok c'"
  using assms
proof (induction rule: vpn_step.induct)
  case (call_initialize k c c')
  then show ?case by (auto simp: initializeClient_def bindR_Inr_iff events_ok_def split: if_splits)
    (auto simp: client_defs)
next
  case (call_start c)
  then show ?case using start_stop_events by blast
next
  case (call_stop c)
  then show ?case using start_stop_events by blast
next
  case (call_stop_updates c)
  then show ?case by (simp add: stopContinuallyUpdatingData_def events_ok_def)
next
  case (call_use_history v pw c c' b)
  then show ?case using requestServer_events by (simp add: changeServerUsingHistory_def)
next
  case (call_use_discovery n pw c c' b)
  then obtain d v where "requestServer v pw (c\<lparr>savedData := d\<rparr>) = Inr (c', b)"
    by (auto simp: changeServerUsingDiscovery_def bindR_Inr_iff)
  then show ?case by (rule requestServer_events) (use call_use_discovery in \<open>simp_all add: events_ok_def\<close>)
next
  case (call_use_manual m pw c c' b)
  then obtain d v where "requestServer v pw (c\<lparr>savedData := d\<rparr>) = Inr (c', b)"
    by (auto simp: changeServerManually_def bindR_Inr_iff)
  then show ?case by (rule requestServer_events) (use call_use_manual in \<open>simp_all add: events_ok_def\<close>)
next
  case (answer_app c b now a c')
  then show ?case using appStateChanged_events by blast
next
  case (answer_recovered c b ni conns c1 d a now c')
  then obtain h where "c1 = c\<lparr>traffic := h\<rparr>" using getVpnClientState_keeps by blast
  then show ?case using appStateChanged_events [OF answer_recovered(4)] answer_recovered(6) by (simp add: events_ok_def)
next
  case (answer_app_error c b)
  then show ?case using client_requesting [OF answer_app_error(2,1)]
    unfolding appStateChangeFailed_def Let_def updateData_events
    by (intro sendUpdate_events) (use answer_app_error in \<open>simp_all add: events_ok_def\<close>)
next
  case (answer_server c c')
  then obtain v d where c': "c' = fst (start (c\<lparr>savedData := d, requestedServer := None, requestedPassword := Null,
                        working := False, dataRequest := None\<rparr>))"
    by (auto simp: serverChanged_def bindR_Inr_iff split: option.splits)
  have "client_ok (c\<lparr>savedData := d, requestedServer := None, requestedPassword := Null, working := False, dataRequest := None\<rparr>)"
    using answer_server by (auto simp: client_ok_def)
  then show ?case using start_stop_events answer_server(4) by (simp add: c' events_ok_def)
next
  case (answer_server_error c)
  then show ?case using client_requesting [OF answer_server_error(2,1)]
    unfolding serverChangeFailed_def updateData_events
    by (intro sendUpdate_events) (use answer_server_error in \<open>simp_all add: events_ok_def\<close>)
next
  case (answer_update c r ni conns c1 d now c')
  then obtain h where "c1 = c\<lparr>traffic := h\<rparr>" using getVpnClientState_keeps by blast
  then have "events_ok c1" using answer_update(5) by (simp add: events_ok_def)
  then show ?case using answer_update(3)
    by (auto simp: updateReceived_def bindR_Inr_iff Let_def)
      (auto simp: events_ok_def sendUpdate_def event_ok_def)
next
  case (answer_update_error c r st)
  then show ?case by (simp add: updateFailed_def events_ok_def Let_def)
qed (simp_all)

lemma reachable_events: "reachable_client unk c \<Longrightarrow> events_ok c"
proof (induction rule: reachable_client.induct)
  case (client_start now d)
  show ?case by (simp add: events_ok_def new_client_def)
next
  case (client_next c c')
  then show ?case using vpn_step_events reachable_client_ok by blast
qed

section \<open>The settings page\<close>

record vpn_settings =
  vs_loading :: bool
  vs_backendData :: "BackendState option"
  getIpOption :: bool
  dataUnitsOption :: string
  vs_localPk :: string
  vs_working :: bool
  vs_confirming :: bool
  vs_operation :: "http_request option"
  vs_requests :: "http_request list"
  vs_client :: vpn_client
  vs_snackbar :: snackbar_service

definition vpn_settings_opened :: "string \<Rightarrow> vpn_client \<Rightarrow> snackbar_service \<Rightarrow> vpn_settings" where
  "vpn_settings_opened key c sn =
     \<lparr>vs_loading = True, vs_backendData = None, getIpOption = getCheckIpSetting (savedData c),
      dataUnitsOption = getDataUnitsSetting (savedData c), vs_localPk = key, vs_working = False, vs_confirming = False,
      vs_operation = None, vs_requests = [], vs_client = c, vs_snackbar = sn\<rparr>"

definition settings_state_received :: "BackendState \<Rightarrow> vpn_settings \<Rightarrow> vpn_settings" where
  "settings_state_received b p =
     (if serviceState b \<noteq> Some PerformingInitialCheck then p\<lparr>vs_backendData := Some b, vs_loading := False\<rparr> else p)"

definition getStatusClass :: "bool \<Rightarrow> string" where
  "getStatusClass active = (if active then ''dot-green'' else ''dot-red'')"

definition getStatusText :: "bool \<Rightarrow> string" where
  "getStatusText active = (if active then ''vpn.settings-page.setting-on'' else ''vpn.settings-page.setting-off'')"

definition getUnitsOptionText :: "DataUnits \<Rightarrow> string" where
  "getUnitsOptionText u =
     (case u of
        OnlyBits \<Rightarrow> ''vpn.settings-page.data-units-modal.only-bits''
      | OnlyBytes \<Rightarrow> ''vpn.settings-page.data-units-modal.only-bytes''
      | BitsSpeedAndBytesVolume \<Rightarrow> ''vpn.settings-page.data-units-modal.bits-speed-and-bytes-volume'')"

text \<open>The data of the app in the data of the page; reading a property of what is missing is an error.\<close>

definition shown_app :: "vpn_settings \<Rightarrow> VpnClientAppData js_result" where
  "shown_app p =
     (case vs_backendData p of
        None \<Rightarrow> Inl TypeError
      | Some b \<Rightarrow> (case vpnClientAppData b of None \<Rightarrow> Inl TypeError | Some a \<Rightarrow> Inr a))"

definition finishChangingKillswitch :: "vpn_settings \<Rightarrow> vpn_settings js_result" where
  "finishChangingKillswitch p =
     bindR (shown_app p) (\<lambda>a.
       let r = changeAppSettings (vs_localPk p) vpnClientAppName [(''killswitch'', VBool (\<not> killswitch a))]
       in Inr (p\<lparr>vs_working := True, vs_operation := Some r, vs_requests := vs_requests p @ [r]\<rparr>))"

definition changeKillswitchOption :: "vpn_settings \<Rightarrow> vpn_settings js_result" where
  "changeKillswitchOption p =
     (if vs_working p
      then Inr (p\<lparr>vs_snackbar := snackbar_showWarning ''vpn.settings-page.working-warning'' VNull (vs_snackbar p)\<rparr>)
      else bindR (shown_app p) (\<lambda>a.
             if running a then Inr (p\<lparr>vs_confirming := True\<rparr>) else finishChangingKillswitch p))"

definition killswitch_confirmed :: "vpn_settings \<Rightarrow> vpn_settings js_result" where
  "killswitch_confirmed p = finishChangingKillswitch (p\<lparr>vs_confirming := False\<rparr>)"

definition killswitch_changed :: "vpn_settings \<Rightarrow> vpn_settings" where
  "killswitch_changed p = p\<lparr>vs_working := False, vs_operation := None, vs_client := updateData (vs_client p)\<rparr>"

definition killswitch_failed :: "jsval \<Rightarrow> vpn_settings \<Rightarrow> vpn_settings js_result" where
  "killswitch_failed err p =
     bindR (processServiceError err) (\<lambda>e.
     bindR (snackbar_showError e VNull False VNull VNull (vs_snackbar p)) (\<lambda>sn.
       Inr (p\<lparr>vs_working := False, vs_operation := None, vs_snackbar := sn\<rparr>)))"

definition changeGetIpOption :: "vpn_settings \<Rightarrow> vpn_settings" where
  "changeGetIpOption p =
     p\<lparr>getIpOption := \<not> getIpOption p,
       vs_client := (vs_client p)\<lparr>savedData := setCheckIpSetting (\<not> getIpOption p) (savedData (vs_client p))\<rparr>\<rparr>"

text \<open>The units: the options of the dialog, in the order of the enumeration, and the selection, which counts from 1.\<close>

definition units_values :: "DataUnits list" where
  "units_values = [BitsSpeedAndBytesVolume, OnlyBytes, OnlyBits]"

definition units_options :: "vpn_settings \<Rightarrow> (string \<times> bool) list" where
  "units_options p = map (\<lambda>u. (getUnitsOptionText u, dataUnitsOption p = units_string u)) units_values"

definition units_selected :: "nat option \<Rightarrow> vpn_settings \<Rightarrow> vpn_settings" where
  "units_selected selection p =
     (case selection of
        Some (Suc i) \<Rightarrow>
          p\<lparr>dataUnitsOption := units_string (units_values ! i),
            vs_client := (vs_client p)\<lparr>savedData := setDataUnitsSetting (units_values ! i) (savedData (vs_client p))\<rparr>\<rparr>
      | _ \<Rightarrow> p)"

text \<open>The windows for the hops and for the name server.\<close>

definition changeHops :: "vpn_settings \<Rightarrow> jsval settings_window js_result" where
  "changeHops p = bindR (shown_app p) (\<lambda>a. Inr (window_opened (VNum (VpnClientAppData.minHops a)) [] (vs_snackbar p)))"

definition changeDns :: "vpn_settings \<Rightarrow> jsstr settings_window js_result" where
  "changeDns p = bindR (shown_app p) (\<lambda>a. Inr (window_opened (dns a) [] (vs_snackbar p)))"

section \<open>The top bar\<close>

record VpnData =
  vd_state :: string
  vd_stateClass :: string
  vd_latency :: rat
  vd_uploadSpeed :: rat
  vd_downloadSpeed :: rat

record top_bar =
  tb_vpnData :: "VpnData option"
  showVpnInfo :: bool
  initialVpnStateObtained :: bool
  lastVpnState :: string
  showVpnStateAnimation :: bool
  animationPending :: bool
  showVpnStateAnimatedDot :: bool
  dotPending :: bool
  showVpnDataStatsInBits :: bool
  errorsConnectingToVpn :: bool
  tb_listening :: bool

definition new_top_bar :: top_bar where
  "new_top_bar =
     \<lparr>tb_vpnData = None, showVpnInfo = False, initialVpnStateObtained = False, lastVpnState = [], showVpnStateAnimation = False,
      animationPending = False, showVpnStateAnimatedDot = True, dotPending = False, showVpnDataStatsInBits = True,
      errorsConnectingToVpn = False, tb_listening = False\<rparr>"

definition updateVpnDataStatsUnit :: "vpn_saved_data \<Rightarrow> top_bar \<Rightarrow> top_bar" where
  "updateVpnDataStatsUnit d t =
     t\<lparr>showVpnDataStatsInBits :=
        (let units = getDataUnitsSetting d in units = units_string BitsSpeedAndBytesVolume \<or> units = units_string OnlyBits)\<rparr>"

definition startGettingVpnInfo :: "string \<Rightarrow> vpn_client \<Rightarrow> top_bar \<Rightarrow> (vpn_client \<times> top_bar) js_result" where
  "startGettingVpnInfo key c t =
     bindR (initializeClient (Str key) c) (\<lambda>c1.
       Inr (c1, (updateVpnDataStatsUnit (savedData c1) (t\<lparr>showVpnInfo := True\<rparr>))\<lparr>tb_listening := True\<rparr>))"

definition stopGettingVpnInfo :: "top_bar \<Rightarrow> top_bar" where
  "stopGettingVpnInfo t = t\<lparr>showVpnInfo := False, tb_listening := False\<rparr>"

definition localVpnKey_set :: "string \<Rightarrow> vpn_client \<Rightarrow> top_bar \<Rightarrow> (vpn_client \<times> top_bar) js_result" where
  "localVpnKey_set val c t = (if val \<noteq> [] then startGettingVpnInfo val c t else Inr (c, stopGettingVpnInfo t))"

definition bar_state :: "AppState \<Rightarrow> string \<times> string" where
  "bar_state s =
     (case s of
        Stopped \<Rightarrow> (''vpn.connection-info.state-disconnected'', ''red-clear-text'')
      | Connecting \<Rightarrow> (''vpn.connection-info.state-connecting'', ''yellow-clear-text'')
      | AppRunning \<Rightarrow> (''vpn.connection-info.state-connected'', ''green-clear-text'')
      | ShuttingDown \<Rightarrow> (''vpn.connection-info.state-disconnecting'', ''yellow-clear-text'')
      | Reconnecting \<Rightarrow> (''vpn.connection-info.state-reconnecting'', ''yellow-clear-text''))"

definition bar_data :: "VpnClientAppData \<Rightarrow> VpnData" where
  "bar_data a =
     \<lparr>vd_state = fst (bar_state (appState a)), vd_stateClass = snd (bar_state (appState a)),
      vd_latency = (case connectionData a of Some d \<Rightarrow> latency d | None \<Rightarrow> 0),
      vd_uploadSpeed = (case connectionData a of Some d \<Rightarrow> uploadSpeed d | None \<Rightarrow> 0),
      vd_downloadSpeed = (case connectionData a of Some d \<Rightarrow> downloadSpeed d | None \<Rightarrow> 0)\<rparr>"

definition bar_animation :: "string \<Rightarrow> top_bar \<Rightarrow> top_bar" where
  "bar_animation st t =
     (if \<not> initialVpnStateObtained t then t\<lparr>initialVpnStateObtained := True, lastVpnState := st\<rparr>
      else if lastVpnState t \<noteq> st
      then t\<lparr>lastVpnState := st, showVpnStateAnimation := False, animationPending := True\<rparr>
      else t)"

definition bar_received :: "BackendState \<Rightarrow> top_bar \<Rightarrow> top_bar js_result" where
  "bar_received b t =
     (case vpnClientAppData b of
        None \<Rightarrow> Inl TypeError
      | Some a \<Rightarrow>
          Inr ((bar_animation (vd_state (bar_data a)) (t\<lparr>tb_vpnData := Some (bar_data a)\<rparr>))
                 \<lparr>showVpnStateAnimatedDot := False, dotPending := True\<rparr>))"

definition animation_timer :: "top_bar \<Rightarrow> top_bar" where
  "animation_timer t = (if animationPending t then t\<lparr>showVpnStateAnimation := True, animationPending := False\<rparr> else t)"

definition dot_timer :: "top_bar \<Rightarrow> top_bar" where
  "dot_timer t = (if dotPending t then t\<lparr>showVpnStateAnimatedDot := True, dotPending := False\<rparr> else t)"

text \<open>The selector of the tabs: the tab to visit, if it is another one.\<close>

definition tab_selected :: "nat option \<Rightarrow> nat \<Rightarrow> nat option" where
  "tab_selected selection current =
     (case selection of Some (Suc i) \<Rightarrow> if i \<noteq> current then Some i else None | _ \<Rightarrow> None)"

definition remote_access :: "string \<Rightarrow> bool" where
  "remote_access host \<longleftrightarrow> \<not> str_includes (to_lower host) ''localhost'' \<and> \<not> str_includes (to_lower host) ''127.0.0.1''"

section \<open>The page for problems\<close>

definition error_page_problem :: "jsstr \<Rightarrow> string" where
  "error_page_problem param = (case param of Str t \<Rightarrow> if t \<noteq> [] then t else ''unavailable'' | _ \<Rightarrow> ''unavailable'')"

text \<open>Opening the page: the problem, the error that the guard of the VPN pages keeps, the service.\<close>

definition error_page_opened :: "jsstr \<Rightarrow> vpn_client \<Rightarrow> string \<times> string \<times> vpn_client" where
  "error_page_opened param c =
     (let problem = error_page_problem param in (problem, problem, stopContinuallyUpdatingData c))"

definition error_page_title :: "string \<Rightarrow> string" where
  "error_page_title problem =
     (if problem = ''pk'' then ''vpn.error-page.text-pk''
      else if problem = ''storage'' then ''vpn.error-page.text-storage''
      else if problem = ''pkChange'' then ''vpn.error-page.text-pk-change''
      else ''vpn.error-page.text'')"

definition error_page_info :: "string \<Rightarrow> string" where
  "error_page_info problem =
     (if problem = ''pk'' then ''vpn.error-page.more-info-pk''
      else if problem = ''storage'' then ''vpn.error-page.more-info-storage''
      else if problem = ''pkChange'' then ''vpn.error-page.more-info-pk-change''
      else ''vpn.error-page.more-info'')"

section \<open>Properties\<close>


text \<open>
  What happens on the settings page. The questions are windows over the page, so while one is open the
  user can only answer it.
\<close>

inductive vpn_settings_step :: "vpn_settings \<Rightarrow> vpn_settings \<Rightarrow> bool" where
  received: "event_ok b \<Longrightarrow> vpn_settings_step p (settings_state_received b p)"
| client: "vpn_settings_step p (p\<lparr>vs_client := c\<rparr>)"
| click: "\<not> vs_confirming p \<Longrightarrow> vs_backendData p \<noteq> None \<Longrightarrow> changeKillswitchOption p = Inr p' \<Longrightarrow> vpn_settings_step p p'"
| confirm: "vs_confirming p \<Longrightarrow> killswitch_confirmed p = Inr p' \<Longrightarrow> vpn_settings_step p p'"
| decline: "vpn_settings_step p (p\<lparr>vs_confirming := False\<rparr>)"
| changed: "vs_operation p \<noteq> None \<Longrightarrow> vpn_settings_step p (killswitch_changed p)"
| failed: "vs_operation p \<noteq> None \<Longrightarrow> killswitch_failed err p = Inr p' \<Longrightarrow> vpn_settings_step p p'"
| ip_option: "vpn_settings_step p (changeGetIpOption p)"
| units: "i < 3 \<Longrightarrow> vpn_settings_step p (units_selected (Some (Suc i)) p)"

definition vpn_settings_ok :: "vpn_settings \<Rightarrow> bool" where
  "vpn_settings_ok p \<longleftrightarrow>
     (vs_working p \<longleftrightarrow> vs_operation p \<noteq> None) \<and> (vs_confirming p \<longrightarrow> \<not> vs_working p \<and> vs_backendData p \<noteq> None) \<and>
     (vs_loading p \<longleftrightarrow> vs_backendData p = None) \<and> (\<forall>b. vs_backendData p = Some b \<longrightarrow> event_ok b)"

lemma vpn_settings_step_ok:
  assumes "vpn_settings_step p p'" and "vpn_settings_ok p"
  shows "vpn_settings_ok p'"
  using assms
proof (induction rule: vpn_settings_step.induct)
  case (click p p')
  then show ?case
    by (auto simp: changeKillswitchOption_def finishChangingKillswitch_def bindR_Inr_iff vpn_settings_ok_def Let_def split: if_splits)
next
  case (confirm p p')
  then show ?case by (auto simp: killswitch_confirmed_def finishChangingKillswitch_def bindR_Inr_iff vpn_settings_ok_def Let_def)
next
  case (failed p err p')
  then show ?case by (auto simp: killswitch_failed_def bindR_Inr_iff vpn_settings_ok_def)
qed (auto simp: vpn_settings_ok_def settings_state_received_def killswitch_changed_def changeGetIpOption_def units_selected_def)

lemma settings_reachable:
  "vpn_settings_step\<^sup>*\<^sup>* (vpn_settings_opened k c sn) p \<Longrightarrow> vpn_settings_ok p"
proof (induction rule: rtranclp_induct)
  case base
  show ?case by (simp add: vpn_settings_ok_def vpn_settings_opened_def)
next
  case (step a b)
  then show ?case using vpn_settings_step_ok by blast
qed

lemma killswitch_request:
  "finishChangingKillswitch p = Inr p' \<Longrightarrow> \<exists>a. shown_app p = Inr a \<and>
     vs_requests p' = vs_requests p @ [changeAppSettings (vs_localPk p) vpnClientAppName [(''killswitch'', VBool (\<not> killswitch a))]]"
  by (auto simp: finishChangingKillswitch_def bindR_Inr_iff Let_def)

text \<open>
  Property C26. The kill switch on the settings page of the VPN, in every order of clicks, questions,
  answers and data. A step makes at most one request, and only while no other waits for its answer; the
  request sets the opposite of the value that is shown; when the step did not answer a question
  the VPN was not running according to the data that is shown; and the page is never without
  reaction: it can always be clicked once it is loaded, and clicking during a change only shows a warning.
\<close>

theorem killswitch_changes_ask:
  assumes "vpn_settings_step\<^sup>*\<^sup>* (vpn_settings_opened k c sn) p" and "vpn_settings_step p p'"
  shows "(vs_requests p' \<noteq> vs_requests p \<longrightarrow> vs_operation p = None \<and>
      (\<exists>a. shown_app p = Inr a \<and> (running a \<longrightarrow> vs_confirming p) \<and>
        vs_requests p' = vs_requests p @ [changeAppSettings (vs_localPk p) vpnClientAppName [(''killswitch'', VBool (\<not> killswitch a))]])) \<and>
    (\<not> vs_loading p \<longrightarrow> (\<exists>q. changeKillswitchOption p = Inr q \<and>
       (vs_working p \<longrightarrow> vs_requests q = vs_requests p \<and> vs_operation q = vs_operation p)))"
proof -
  have ok: "vpn_settings_ok p" by (rule settings_reachable [OF assms(1)])
  have one: "vs_operation p = None \<and> (\<exists>a. shown_app p = Inr a \<and> (running a \<longrightarrow> vs_confirming p) \<and>
        vs_requests p' = vs_requests p @ [changeAppSettings (vs_localPk p) vpnClientAppName [(''killswitch'', VBool (\<not> killswitch a))]])"
    if new: "vs_requests p' \<noteq> vs_requests p"
    using assms(2)
  proof (cases rule: vpn_settings_step.cases)
    case click
    then have "\<not> vs_working p" using new by (auto simp: changeKillswitchOption_def)
    moreover obtain a where a: "shown_app p = Inr a" "(if running a then Inr (p\<lparr>vs_confirming := True\<rparr>) else finishChangingKillswitch p) = Inr p'"
      using click(3) calculation by (auto simp: changeKillswitchOption_def bindR_Inr_iff)
    moreover have "\<not> running a" using a(2) new by auto
    ultimately show ?thesis using killswitch_request [of p p'] ok by (auto simp: vpn_settings_ok_def)
  next
    case confirm
    then have "finishChangingKillswitch (p\<lparr>vs_confirming := False\<rparr>) = Inr p'" by (simp add: killswitch_confirmed_def)
    from killswitch_request [OF this] show ?thesis using confirm(1) ok by (auto simp: shown_app_def vpn_settings_ok_def)
  next
    case (failed err)
    then show ?thesis using new by (auto simp: killswitch_failed_def bindR_Inr_iff)
  qed (use new in \<open>auto simp: settings_state_received_def killswitch_changed_def changeGetIpOption_def units_selected_def split: if_splits\<close>)
  have "\<exists>q. changeKillswitchOption p = Inr q \<and>
      (vs_working p \<longrightarrow> vs_requests q = vs_requests p \<and> vs_operation q = vs_operation p)" if loaded: "\<not> vs_loading p"
  proof -
    obtain b a where "vs_backendData p = Some b" "vpnClientAppData b = Some a"
      using ok loaded by (auto simp: vpn_settings_ok_def event_ok_def)
    then have "shown_app p = Inr a" by (simp add: shown_app_def)
    then show ?thesis by (simp add: changeKillswitchOption_def finishChangingKillswitch_def Let_def)
  qed
  with one show ?thesis by blast
qed

lemma units_setting:
  "getDataUnitsSetting (setDataUnitsSetting u s) = units_string u"
  "getCheckIpSetting (setDataUnitsSetting u s) = getCheckIpSetting s"
  by (auto simp: getCheckIpSetting_def getDataUnitsSetting_def setDataUnitsSetting_def hv_defs vpn_keys)

text \<open>
  The units the user selects are those that the status page, the top bar and the settings page show
  afterwards, and the setting of the address is kept.
\<close>

theorem units_reach_pages:
  assumes "i < 3"
  shows "let p' = units_selected (Some (Suc i)) p; d = savedData (vs_client p'); u = units_values ! i
    in getDataUnitsSetting d = units_string u \<and> getCheckIpSetting d = getCheckIpSetting (savedData (vs_client p)) \<and>
       showVpnDataStatsInBits (updateVpnDataStatsUnit d t) = (u \<noteq> OnlyBytes) \<and>
       showSpeedsInBits (new_status_page d) = (u \<noteq> OnlyBytes) \<and> showTotalsInBits (new_status_page d) = (u = OnlyBits) \<and>
       (\<forall>j < 3. snd (units_options p' ! j) = (j = i))"
proof -
  have "i = 0 \<or> i = 1 \<or> i = 2" using assms by auto
  then show ?thesis
    by (elim disjE) (auto simp: units_selected_def units_values_def units_options_def units_setting updateVpnDataStatsUnit_def
        new_status_page_def units_shown_def Let_def less_Suc_eq numeral_3_eq_3)
qed

section \<open>Examples\<close>

definition example_settings :: vpn_settings where
  "example_settings = settings_state_received
     \<lparr>updateDate = 5, serviceState = Some Off, busy = False, vpnClientAppData = Some (processAppData [] stopped_app)\<rparr>
     (vpn_settings_opened ''k'' (new_client 0 (fresh_vpn_data blank_store)) new_snackbar_service)"

lemma example_settings_reachable:
  "vpn_settings_step\<^sup>*\<^sup>* (vpn_settings_opened ''k'' (new_client 0 (fresh_vpn_data blank_store)) new_snackbar_service) example_settings"
  unfolding example_settings_def
  by (rule r_into_rtranclp) (rule vpn_settings_step.received, simp add: event_ok_def)

theorem killswitch_changes_ask_witness:
  "\<exists>p. changeKillswitchOption example_settings = Inr p \<and> length (vs_requests p) = 1 \<and> vs_operation example_settings = None"
proof -
  have app: "shown_app example_settings = Inr (processAppData [] stopped_app)" "\<not> running (processAppData [] stopped_app)"
    by (simp_all add: example_settings_def shown_app_def settings_state_received_def processAppData_def stopped_app_def app_running_def)
  have none: "\<not> vs_working example_settings" "\<not> vs_confirming example_settings" "vs_requests example_settings = []"
      "vs_backendData example_settings \<noteq> None"
    by (simp_all add: example_settings_def settings_state_received_def vpn_settings_opened_def)
  obtain q where q: "changeKillswitchOption example_settings = Inr q" "vs_requests q \<noteq> []"
    using app none by (simp add: changeKillswitchOption_def finishChangingKillswitch_def Let_def)
  have "vpn_settings_step example_settings q" by (rule vpn_settings_step.click [OF none(2,4) q(1)])
  from killswitch_changes_ask [OF example_settings_reachable this] q none(3) show ?thesis by auto
qed

lemma client_with_event:
  "\<exists>c b. reachable_client [] c \<and> b \<in> set (stateEvents c)"
proof -
  define c0 where "c0 = updateData (new_client 0 (fresh_vpn_data blank_store))"
  let ?ni = "Some \<lparr>ni_apps = Some [stopped_app], ni_min_hops = None\<rparr>"
  let ?d = "VpnClientAppData.minHops_update (\<lambda>_. 0) (processAppData [] stopped_app)"
  have reach: "reachable_client [] c0"
    unfolding c0_def by (rule client_next [OF new_client_reachable]) (rule vpn_step.call_update)
  have retry: "updateRetries c0 = Some 0" by (simp add: c0_def client_defs new_client_def)
  have run: "\<not> running (processAppData [] stopped_app)" by (simp add: processAppData_def stopped_app_def app_running_def)
  have got: "getVpnClientState [] ?ni None c0 = Inr (c0\<lparr>traffic := traffic c0\<rparr>, ?d)"
    by (simp add: getVpnClientState_def client_data_def find_vpn_app_def vpnClientAppName_def add_traffic_def)
      (simp add: stopped_app_def)
  have "store_ok (store (fresh_vpn_data blank_store))" "instance_ok (store (fresh_vpn_data blank_store)) (fresh_vpn_data blank_store)"
    using blank_saved_fine by (simp_all add: saved_fine_def)
  then obtain sd where sd: "compareCurrentServer (serverPk ?d) (fresh_vpn_data blank_store) = Inr sd"
    using compareCurrentServer_ok by blast
  obtain c2 where c2: "updateReceived 0 ?d c0 = Inr c2" "stateEvents c2 \<noteq> []"
    using sd by (simp add: updateReceived_def c0_def client_defs new_client_def run)
  have "reachable_client [] c2"
    by (rule client_next [OF reach]) (rule vpn_step.answer_update [OF retry got], use c2(1) in simp)
  then show ?thesis using c2(2) by (meson last_in_set)
qed


end
