(* ===== verification/Bulk_Rewards.thy ===== *)
theory Bulk_Rewards
  imports Settings_Windows "HOL-Library.Multiset" "HOL-Library.Sublist"
begin

text \<open>
  \<open>bulk-reward-address-changer.component.ts\<close>: the window that sets or removes the address for rewards of
  many visors at once. It first asks every visor for its address; when the user starts, one request per
  selected visor is made, each after a delay, and the answers arrive in any order. A subscription
  is the position of its visor in the list; those that wait for the delay and those that wait for the
  answer are separate lists. The errors are the objects that \<open>ApiService\<close> throws.
\<close>

section \<open>The window\<close>

record NodeToEdit =
  bn_key :: string
  bn_label :: string
  currentAddress :: jsstr
  operationError :: jsval
  processing :: bool

record bulk_changer =
  bk_nodes :: "NodeToEdit list"
  bk_address :: string
  bk_selected :: "bool list"
  processingStarted :: bool
  processingFinished :: bool
  currentlyProcessed :: nat
  bk_button :: button
  bk_checks :: "nat list"
  bk_delayed :: "nat list"
  bk_changes :: "nat list"
  bk_requests :: "http_request list"
  bk_question :: bool

definition bulk_opened :: "(string \<times> string) list \<Rightarrow> bulk_changer" where
  "bulk_opened nodes =
     \<lparr>bk_nodes = map (\<lambda>(k, l). \<lparr>bn_key = k, bn_label = l, currentAddress = Null, operationError = VStr [], processing = False\<rparr>) nodes,
      bk_address = [], bk_selected = map (\<lambda>n. True) nodes, processingStarted = False, processingFinished = False,
      currentlyProcessed = 0, bk_button = \<lparr>button_state = ButtonNormal, disabled = False\<rparr>,
      bk_checks = [0..<length nodes], bk_delayed = [], bk_changes = [],
      bk_requests = map (\<lambda>(k, l). getRewardsAddress k) nodes, bk_question = False\<rparr>"

definition bulk_formValid :: "bulk_changer \<Rightarrow> bool" where
  "bulk_formValid w \<longleftrightarrow>
     processingStarted w \<or> reward_address_valid (Str (bk_address w)) \<and> length (filter (\<lambda>b. b) (bk_selected w)) > 0"

definition bulk_disableDismiss :: "bulk_changer \<Rightarrow> bool" where
  "bulk_disableDismiss w \<longleftrightarrow> processingStarted w \<and> \<not> processingFinished w"

text \<open>The text of an error.\<close>

definition bulk_error_text :: "jsval \<Rightarrow> jsval" where
  "bulk_error_text err =
     (if val_truthy (val_prop err ''translatableErrorMsg'') then val_prop err ''translatableErrorMsg''
      else val_prop err ''originalServerErrorMsg'')"

definition change_node :: "nat \<Rightarrow> (NodeToEdit \<Rightarrow> NodeToEdit) \<Rightarrow> bulk_changer \<Rightarrow> bulk_changer" where
  "change_node i f w = w\<lparr>bk_nodes := (bk_nodes w)[i := f (bk_nodes w ! i)]\<rparr>"

definition address_checked :: "nat \<Rightarrow> jsval + string \<Rightarrow> bulk_changer \<Rightarrow> bulk_changer" where
  "address_checked i r w =
     (change_node i (case r of Inr a \<Rightarrow> (\<lambda>n. n\<lparr>currentAddress := Str a\<rparr>) | Inl err \<Rightarrow> (\<lambda>n. n\<lparr>operationError := bulk_error_text err\<rparr>)) w)
       \<lparr>bk_checks := removeAll i (bk_checks w)\<rparr>"

definition selected_nodes :: "bulk_changer \<Rightarrow> NodeToEdit list" where
  "selected_nodes w =
     map (\<lambda>(n, s). n\<lparr>operationError := VStr [], processing := True\<rparr>) (filter snd (zip (bk_nodes w) (bk_selected w)))"

definition startProcessing :: "bulk_changer \<Rightarrow> bulk_changer" where
  "startProcessing w =
     (let newList = selected_nodes w
      in w\<lparr>processingStarted := True, bk_button := showLoading (bk_button w), bk_checks := [], bk_nodes := newList,
           currentlyProcessed := 0, bk_delayed := [0..<length newList], bk_changes := [], bk_question := False\<rparr>)"

definition checkBeforeProcessing :: "bulk_changer \<Rightarrow> bulk_changer" where
  "checkBeforeProcessing w =
     (if \<not> reward_address_valid (Str (bk_address w)) then w
      else if bk_address w \<noteq> [] then startProcessing w
      else w\<lparr>bk_question := True\<rparr>)"

text \<open>The delay of a change is over, and its answer arrives.\<close>

definition change_sent :: "nat \<Rightarrow> bulk_changer \<Rightarrow> bulk_changer" where
  "change_sent i w =
     w\<lparr>bk_delayed := remove1 i (bk_delayed w), bk_changes := i # bk_changes w,
       bk_requests := bk_requests w @ [reward_request (bn_key (bk_nodes w ! i)) (Str (bk_address w))]\<rparr>"

definition change_answered :: "nat \<Rightarrow> jsval option \<Rightarrow> bulk_changer \<Rightarrow> bulk_changer" where
  "change_answered i failure w =
     (let w1 = (change_node i (\<lambda>n. case failure of None \<Rightarrow> n\<lparr>processing := False\<rparr>
                  | Some err \<Rightarrow> n\<lparr>processing := False, operationError := bulk_error_text err\<rparr>) w)
                 \<lparr>bk_changes := remove1 i (bk_changes w), currentlyProcessed := currentlyProcessed w + 1\<rparr>
      in if currentlyProcessed w1 = length (bk_nodes w1)
         then w1\<lparr>processingFinished := True, bk_button := button_reset (bk_button w1)\<rparr> else w1)"

text \<open>The button only works for a valid form, and before the start; while the question is open nothing else does.\<close>

inductive bulk_step :: "bulk_changer \<Rightarrow> bulk_changer \<Rightarrow> bool" where
  edit: "\<not> processingStarted w \<Longrightarrow> \<not> bk_question w \<Longrightarrow> length s = length (bk_selected w) \<Longrightarrow>
    bulk_step w (w\<lparr>bk_address := a, bk_selected := s\<rparr>)"
| check: "i \<in> set (bk_checks w) \<Longrightarrow> bulk_step w (address_checked i r w)"
| start: "\<not> processingStarted w \<Longrightarrow> \<not> bk_question w \<Longrightarrow> bulk_formValid w \<Longrightarrow> bulk_step w (checkBeforeProcessing w)"
| accept: "bk_question w \<Longrightarrow> bulk_step w (startProcessing w)"
| decline: "bulk_step w (w\<lparr>bk_question := False\<rparr>)"
| send: "i \<in> set (bk_delayed w) \<Longrightarrow> bulk_step w (change_sent i w)"
| answer: "i \<in> set (bk_changes w) \<Longrightarrow> bulk_step w (change_answered i failure w)"

section \<open>The invariant\<close>

definition bulk_waiting :: "bulk_changer \<Rightarrow> nat list" where
  "bulk_waiting w = bk_delayed w @ bk_changes w"

definition change_of :: "bulk_changer \<Rightarrow> nat \<Rightarrow> http_request" where
  "change_of w i = reward_request (bn_key (bk_nodes w ! i)) (Str (bk_address w))"

definition before_start :: "(string \<times> string) list \<Rightarrow> bulk_changer \<Rightarrow> bool" where
  "before_start nodes w \<longleftrightarrow>
     map bn_key (bk_nodes w) = map fst nodes \<and> length (bk_selected w) = length nodes \<and> bulk_waiting w = [] \<and>
     \<not> processingFinished w \<and> set (bk_checks w) \<subseteq> {..<length nodes} \<and>
     (bk_question w \<longrightarrow> bulk_formValid w) \<and> bk_requests w = map (\<lambda>n. getRewardsAddress (fst n)) nodes"

definition after_start :: "(string \<times> string) list \<Rightarrow> bulk_changer \<Rightarrow> bool" where
  "after_start nodes w \<longleftrightarrow>
     bk_nodes w \<noteq> [] \<and> subseq (map bn_key (bk_nodes w)) (map fst nodes) \<and> reward_address_valid (Str (bk_address w)) \<and>
     bk_checks w = [] \<and> \<not> bk_question w \<and>
     distinct (bulk_waiting w) \<and> set (bulk_waiting w) \<subseteq> {..<length (bk_nodes w)} \<and>
     currentlyProcessed w + length (bulk_waiting w) = length (bk_nodes w) \<and>
     (\<forall>i < length (bk_nodes w). processing (bk_nodes w ! i) \<longleftrightarrow> i \<in> set (bulk_waiting w)) \<and>
     (processingFinished w \<longleftrightarrow> bulk_waiting w = []) \<and> (disabled (bk_button w) \<longleftrightarrow> \<not> processingFinished w) \<and>
     mset (bk_requests w) + mset (map (change_of w) (bk_delayed w)) =
       mset (map (\<lambda>n. getRewardsAddress (fst n)) nodes) + mset (map (change_of w) [0..<length (bk_nodes w)])"

definition bulk_ok :: "(string \<times> string) list \<Rightarrow> bulk_changer \<Rightarrow> bool" where
  "bulk_ok nodes w \<longleftrightarrow> (if processingStarted w then after_start nodes w else before_start nodes w)"

lemma subseq_filter_zip: "length s = length l \<Longrightarrow> subseq (map fst (filter snd (zip l s))) l"
  by (induction l s rule: list_induct2') (auto intro: subseq_order.order_trans)

lemma filter_zip_ne: "length s = length l \<Longrightarrow> filter (\<lambda>b. b) s \<noteq> [] \<Longrightarrow> filter snd (zip l s) \<noteq> []"
  by (induction l s rule: list_induct2') (auto split: if_splits)

lemma bulk_start_ok:
  assumes "before_start nodes w" and "bulk_formValid w" and "\<not> processingStarted w"
  shows "after_start nodes (startProcessing w)"
proof -
  have len: "length (bk_selected w) = length (bk_nodes w)"
    using assms(1) by (simp add: before_start_def) (metis length_map)
  have ne: "selected_nodes w \<noteq> []"
    using filter_zip_ne [OF len] assms(2,3) by (simp add: selected_nodes_def bulk_formValid_def)
  have "map bn_key (selected_nodes w) = map bn_key (map fst (filter snd (zip (bk_nodes w) (bk_selected w))))"
    by (simp add: selected_nodes_def comp_def case_prod_unfold)
  then have sub: "subseq (map bn_key (selected_nodes w)) (map fst nodes)"
    using subseq_map [OF subseq_filter_zip [OF len], of bn_key] assms(1) by (simp add: before_start_def)
  have proc: "processing (selected_nodes w ! i)" if "i < length (selected_nodes w)" for i
    using that by (auto simp: selected_nodes_def case_prod_unfold)
  have "map (change_of (startProcessing w)) [0..<length (selected_nodes w)] = map (change_of (startProcessing w)) (bk_delayed (startProcessing w))"
    by (simp add: startProcessing_def Let_def)
  with ne sub proc assms show ?thesis
    by (auto simp: after_start_def before_start_def startProcessing_def Let_def bulk_waiting_def bulk_formValid_def showLoading_def)
qed

lemma mset_swap: "i \<in> set xs \<Longrightarrow> mset (map f xs) = add_mset (f i) (mset (map f (remove1 i xs)))"
  by (induction xs) auto

lemma send_ok:
  assumes "after_start nodes w" and "i \<in> set (bk_delayed w)"
  shows "after_start nodes (change_sent i w)"
proof -
  have ch: "change_of (change_sent i w) = change_of w" by (rule ext) (simp add: change_of_def change_sent_def)
  have perm: "mset (bulk_waiting (change_sent i w)) = mset (bulk_waiting w)"
    using assms(2) by (simp add: bulk_waiting_def change_sent_def)
  then have wait: "set (bulk_waiting (change_sent i w)) = set (bulk_waiting w)"
      "length (bulk_waiting (change_sent i w)) = length (bulk_waiting w)"
      "distinct (bulk_waiting (change_sent i w)) = distinct (bulk_waiting w)"
    using mset_eq_setD mset_eq_length mset_eq_imp_distinct_iff by blast+
  have "bulk_waiting (change_sent i w) = [] \<longleftrightarrow> bulk_waiting w = []" using wait(2) by (metis length_0_conv)
  moreover have "mset (bk_requests (change_sent i w)) + mset (map (change_of w) (bk_delayed (change_sent i w))) =
      mset (bk_requests w) + mset (map (change_of w) (bk_delayed w))"
    using mset_swap [OF assms(2), of "change_of w"] by (simp add: change_sent_def) (simp add: change_of_def)
  ultimately show ?thesis
    using assms(1) by (simp add: after_start_def ch wait) (simp add: change_sent_def)
qed

lemma answer_ok:
  assumes "after_start nodes w" and "i \<in> set (bk_changes w)"
  shows "after_start nodes (change_answered i failure w)"
proof -
  define n where "n = (case failure of None \<Rightarrow> (bk_nodes w ! i)\<lparr>processing := False\<rparr>
      | Some err \<Rightarrow> (bk_nodes w ! i)\<lparr>processing := False, operationError := bulk_error_text err\<rparr>)"
  have n: "bn_key n = bn_key (bk_nodes w ! i)" "\<not> processing n" by (simp_all add: n_def split: option.split)
  let ?w = "change_answered i failure w"
  have new: "bk_nodes ?w = (bk_nodes w)[i := n]" "bk_delayed ?w = bk_delayed w" "bk_changes ?w = remove1 i (bk_changes w)"
      "currentlyProcessed ?w = currentlyProcessed w + 1" "bk_requests ?w = bk_requests w" "bk_address ?w = bk_address w"
      "bk_checks ?w = bk_checks w" "bk_question ?w = bk_question w"
      "processingFinished ?w = (processingFinished w \<or> currentlyProcessed w + 1 = length (bk_nodes w))"
      "disabled (bk_button ?w) = (disabled (bk_button w) \<and> currentlyProcessed w + 1 \<noteq> length (bk_nodes w))"
    by (simp_all add: change_answered_def change_node_def n_def Let_def button_reset_def)
  have dis: "distinct (bulk_waiting w)" and i: "i < length (bk_nodes w)"
    using assms by (auto simp: after_start_def bulk_waiting_def)
  have keys: "map bn_key (bk_nodes ?w) = map bn_key (bk_nodes w)"
    using n(1) i by (simp add: new map_update list_update_same_conv)
  have ch: "change_of ?w j = change_of w j" for j
    using n(1) i by (cases "j = i") (simp_all add: change_of_def new)
  have wait: "bulk_waiting ?w = remove1 i (bulk_waiting w)"
    using assms(2) dis by (auto simp: bulk_waiting_def new remove1_append)
  have inw: "i \<in> set (bulk_waiting w)" using assms(2) by (simp add: bulk_waiting_def)
  then have len: "length (bulk_waiting w) = Suc (length (bulk_waiting ?w))"
    using length_pos_if_in_set [OF inw] by (simp add: wait length_remove1)
  have "processing (bk_nodes ?w ! j) \<longleftrightarrow> j \<in> set (bulk_waiting ?w)" if "j < length (bk_nodes w)" for j
    using assms(1) that n(2) i dis by (cases "j = i") (auto simp: after_start_def new wait)
  moreover have "\<not> processingFinished w" using assms(1) inw by (auto simp: after_start_def)
  moreover have "subseq (map bn_key (bk_nodes ?w)) (map fst nodes)" using assms(1) by (simp add: keys after_start_def)
  moreover have "bk_nodes ?w \<noteq> []" using i by (auto simp: new)
  moreover have "set (bulk_waiting ?w) \<subseteq> {..<length (bk_nodes w)}"
    using assms(1) notin_set_remove1 [of _ "bulk_waiting w" i] by (auto simp: wait after_start_def)
  moreover have "change_of ?w = change_of w" by (rule ext) (rule ch)
  moreover have "bulk_waiting ?w = [] \<longleftrightarrow> currentlyProcessed w + 1 = length (bk_nodes w)"
  proof -
    have "currentlyProcessed w + length (bulk_waiting w) = length (bk_nodes w)" using assms(1) by (simp add: after_start_def)
    then have "length (bulk_waiting ?w) = 0 \<longleftrightarrow> currentlyProcessed w + 1 = length (bk_nodes w)" using len by linarith
    then show ?thesis by simp
  qed
  ultimately show ?thesis
    using assms(1) len dis by (auto simp: after_start_def new wait)
qed

lemma checks_done: "i \<in> set (bk_checks w) \<Longrightarrow> bulk_ok nodes w \<Longrightarrow> bulk_ok nodes (address_checked i r w)"
proof -
  assume i: "i \<in> set (bk_checks w)" and ok: "bulk_ok nodes w"
  then have before: "before_start nodes w" "\<not> processingStarted w"
    by (auto simp: bulk_ok_def after_start_def split: if_splits)
  have "map bn_key ((bk_nodes w)[i := f (bk_nodes w ! i)]) = map bn_key (bk_nodes w)" if "\<And>n. bn_key (f n) = bn_key n" for f
    by (cases "i < length (bk_nodes w)") (simp_all add: map_update that list_update_same_conv list_update_beyond)
  then have "before_start nodes (address_checked i r w)"
    using before by (auto simp: before_start_def address_checked_def change_node_def bulk_waiting_def bulk_formValid_def split: sum.split)
  moreover have "\<not> processingStarted (address_checked i r w)" using before(2) by (simp add: address_checked_def change_node_def)
  ultimately show ?thesis by (simp add: bulk_ok_def)
qed

lemma bulk_step_ok: "bulk_step w w' \<Longrightarrow> bulk_ok nodes w \<Longrightarrow> bulk_ok nodes w'"
proof (induction rule: bulk_step.induct)
  case (edit w s a)
  then show ?case by (auto simp: bulk_ok_def before_start_def bulk_waiting_def)
next
  case (check i w r)
  then show ?case by (rule checks_done)
next
  case (start w)
  then have "before_start nodes w" by (simp add: bulk_ok_def)
  then show ?case
    using start bulk_start_ok [of nodes w]
    by (auto simp: bulk_ok_def checkBeforeProcessing_def startProcessing_def Let_def before_start_def bulk_waiting_def bulk_formValid_def)
next
  case (accept w)
  then have "before_start nodes w" "\<not> processingStarted w" "bulk_formValid w"
    by (auto simp: bulk_ok_def before_start_def after_start_def split: if_splits)
  then show ?case using bulk_start_ok [of nodes w] by (simp add: bulk_ok_def startProcessing_def Let_def)
next
  case (decline w)
  have "change_of (w\<lparr>bk_question := False\<rparr>) = change_of w" by (rule ext) (simp add: change_of_def)
  then show ?case using decline by (auto simp: bulk_ok_def before_start_def after_start_def bulk_waiting_def)
next
  case (send i w)
  then have "processingStarted w" by (auto simp: bulk_ok_def before_start_def bulk_waiting_def split: if_splits)
  then show ?case using send send_ok [of nodes w i] by (simp add: bulk_ok_def change_sent_def)
next
  case (answer i w failure)
  then have "processingStarted w" by (auto simp: bulk_ok_def before_start_def bulk_waiting_def split: if_splits)
  then show ?case using answer answer_ok [of nodes w i failure]
    by (simp add: bulk_ok_def) (simp add: change_answered_def change_node_def Let_def)
qed

lemma bulk_ok_reachable: "bulk_step\<^sup>*\<^sup>* (bulk_opened nodes) w \<Longrightarrow> bulk_ok nodes w"
proof (induction rule: rtranclp_induct)
  case base
  show ?case
    by (auto simp: bulk_ok_def before_start_def bulk_opened_def bulk_waiting_def case_prod_unfold comp_def)
next
  case (step a b)
  then show ?case using bulk_step_ok by blast
qed


text \<open>An example: two visors, one of them selected, and the window after its answer.\<close>

definition example_bulk :: bulk_changer where
  "example_bulk = (bulk_opened [(''a'', ''A''), (''b'', ''B'')])
     \<lparr>bk_address := ''2jBbGxZRGoQG1mqhPBnXnLTxK6oxsTf8os6'', bk_selected := [False, True]\<rparr>"

definition example_bulk_end :: bulk_changer where
  "example_bulk_end = change_answered 0 None (change_sent 0 (checkBeforeProcessing example_bulk))"

lemma example_bulk_run: "bulk_step\<^sup>*\<^sup>* (bulk_opened [(''a'', ''A''), (''b'', ''B'')]) example_bulk_end"
proof -
  let ?w = "bulk_opened [(''a'', ''A''), (''b'', ''B'')]"
  have 1: "bulk_step ?w example_bulk"
    unfolding example_bulk_def by (rule bulk_step.edit) (simp_all add: bulk_opened_def)
  have 2: "bulk_step example_bulk (checkBeforeProcessing example_bulk)"
    by (rule bulk_step.start) (simp_all add: example_bulk_def bulk_opened_def bulk_formValid_def reward_address_valid_def)
  have 3: "bulk_step (checkBeforeProcessing example_bulk) (change_sent 0 (checkBeforeProcessing example_bulk))"
    by (rule bulk_step.send) code_simp
  have 4: "bulk_step (change_sent 0 (checkBeforeProcessing example_bulk)) example_bulk_end"
    unfolding example_bulk_end_def by (rule bulk_step.answer) code_simp
  note rtranclp.rtrancl_into_rtrancl [where r = bulk_step]
  note steps = this [OF this [OF this [OF this [OF rtranclp.rtrancl_refl 1] 2] 3] 4]
  show ?thesis by (rule steps)
qed


end
