(* ===== verification/Update_Window.thy ===== *)
theory Update_Window
  imports Node_Service Ui_Base
begin

text \<open>
  Updating visors: \<open>update.component.ts\<close>, the window that looks for updates, asks and shows the progress,
  and \<open>updater-config.component.ts\<close>, the form with the settings that \<open>NodeService\<close> uses for it. The visors
  of the window are known by their position. The answers are events: of the first check of every visor,
  of the search for updates (one event for all the visors, as \<open>forkJoin\<close> gives it) and of the sockets with
  the progress. The requests are recorded.
\<close>

section \<open>The progress of an update\<close>

definition js_index :: "nat option \<Rightarrow> int" where
  "js_index i = (case i of Some n \<Rightarrow> int n | None \<Rightarrow> -1)"

fun index_of :: "string \<Rightarrow> string \<Rightarrow> nat option" where
  "index_of t [] = (if t = [] then Some 0 else None)"
| "index_of t (c # s) = (if starts_with (c # s) t then Some 0 else map_option Suc (index_of t s))"

fun last_index :: "char \<Rightarrow> string \<Rightarrow> nat option" where
  "last_index c [] = None"
| "last_index c (d # s) =
     (case last_index c s of Some n \<Rightarrow> Some (Suc n) | None \<Rightarrow> if c = d then Some 0 else None)"

text \<open>\<open>indexOf\<close> from a position, \<open>lastIndexOf\<close> up to one, and \<open>substring\<close>, which exchanges its bounds.\<close>

definition index_of_from :: "string \<Rightarrow> nat \<Rightarrow> string \<Rightarrow> nat option" where
  "index_of_from t n s = map_option (\<lambda>i. n + i) (index_of t (drop n s))"

definition last_index_to :: "char \<Rightarrow> nat \<Rightarrow> string \<Rightarrow> nat option" where
  "last_index_to c n s = last_index c (take (n + 1) s)"

definition js_substring :: "int \<Rightarrow> int \<Rightarrow> string \<Rightarrow> string" where
  "js_substring a b s = take (nat (max a b) - nat (min a b)) (drop (nat (min a b)) s)"

record UpdateProgressInfo =
  upi_errorMsg :: jsval
  rawMsg :: string
  dataParsed :: bool
  fileName :: string
  upi_progress :: "int option"
  upi_speed :: string
  upi_elapsedTime :: string
  remainingTime :: string
  upi_closed :: bool

definition new_progress_info :: "string \<Rightarrow> UpdateProgressInfo" where
  "new_progress_info starting =
     \<lparr>upi_errorMsg = VStr [], rawMsg = starting, dataParsed = False, fileName = [], upi_progress = Some 100, upi_speed = [],
      upi_elapsedTime = [], remainingTime = [], upi_closed = False\<rparr>"

definition updateProgressInfo :: "string \<Rightarrow> UpdateProgressInfo \<Rightarrow> UpdateProgressInfo" where
  "updateProgressInfo progressMsg info =
     (let info1 = info\<lparr>rawMsg := progressMsg, dataParsed := False\<rparr>;
          downloading = js_index (index_of ''Downloading'' progressMsg);
          initialSpeed = js_index (last_index CHR ''('' progressMsg);
          finalSpeed = js_index (last_index CHR '')'' progressMsg);
          initialTime = js_index (last_index CHR ''['' progressMsg);
          finalTime = js_index (last_index CHR '']'' progressMsg);
          timeSeparator = js_index (last_index CHR '':'' progressMsg);
          percentage = js_index (last_index CHR ''%'' progressMsg)
      in if downloading = -1 \<or> initialSpeed = -1 \<or> finalSpeed = -1 \<or> initialTime = -1 \<or> finalTime = -1 \<or> timeSeparator = -1
         then info1
         else if initialSpeed > finalSpeed \<or> initialTime > timeSeparator \<or> timeSeparator > finalTime \<or>
                 percentage > initialSpeed \<or> percentage < downloading
         then info1
         else let initialFile = downloading + 12; finalFile = js_index (index_of_from '' '' (nat initialFile) progressMsg)
              in if finalFile = -1 then info1
                 else let initialProgress = js_index (last_index_to CHR '' '' (nat percentage) progressMsg)
                      in info1\<lparr>fileName := js_substring initialFile finalFile progressMsg,
                               upi_speed := js_substring (initialSpeed + 1) finalSpeed progressMsg,
                               upi_elapsedTime := js_substring (initialTime + 1) timeSeparator progressMsg,
                               remainingTime := js_substring (timeSeparator + 1) finalTime progressMsg,
                               upi_progress := whole_number (js_substring (initialProgress + 1) percentage progressMsg),
                               dataParsed := True\<rparr>)"

section \<open>The window\<close>

datatype UpdatingStates = InitialProcessing | NoUpdatesFound | AskingUpdate | Updating | ErrorState

record NodeToUpdate =
  nu_key :: string
  nu_label :: string
  nu_update :: bool
  hadErrorDuringInitialCheck :: bool
  updateInfo :: UpdateProgressInfo

record UpdateVersion =
  currentVersion :: string
  newVersion :: jsstr
  updateLink :: jsstr

datatype update_request =
    CheckRunning string
  | CheckUpdate string
  | UpdateSocket string "(string, string) jsmap"

record update_window =
  uw_state :: UpdatingStates
  cancelButtonText :: string
  confirmButtonText :: string
  uw_errorText :: jsval
  currentNodeVersion :: jsstr
  updatesFound :: "UpdateVersion list"
  nodesToUpdate :: "NodeToUpdate list"
  nodesWithError :: "(string \<times> jsval) list"
  indexesAlreadyBeingUpdated :: "nat list"
  nodesForUpdatesFound :: nat
  checkedVisors :: nat
  uw_checks :: "nat list"
  uw_search :: "nat list option"
  uw_sockets :: "nat list"
  uw_requests :: "update_request list"
  uw_closed :: bool

definition changeState :: "UpdatingStates \<Rightarrow> update_window \<Rightarrow> update_window" where
  "changeState s w =
     (let w1 = w\<lparr>uw_state := s\<rparr>
      in if s \<in> {ErrorState, NoUpdatesFound, Updating} then w1\<lparr>confirmButtonText := ''common.close'', cancelButtonText := []\<rparr>
         else if s = AskingUpdate then w1\<lparr>confirmButtonText := ''update.install'', cancelButtonText := ''common.cancel''\<rparr>
         else w1)"

definition startChecking :: "string \<Rightarrow> (string \<times> string) list \<Rightarrow> update_window" where
  "startChecking starting nodes =
     \<lparr>uw_state = InitialProcessing, cancelButtonText = ''common.cancel'', confirmButtonText = [], uw_errorText = VUndef,
      currentNodeVersion = Undefined, updatesFound = [],
      nodesToUpdate = map (\<lambda>(k, l). \<lparr>nu_key = k, nu_label = l, nu_update = False, hadErrorDuringInitialCheck = False,
        updateInfo = new_progress_info starting\<rparr>) nodes,
      nodesWithError = [], indexesAlreadyBeingUpdated = [], nodesForUpdatesFound = 0, checkedVisors = 0,
      uw_checks = [0..<length nodes], uw_search = None, uw_sockets = [],
      uw_requests = map (\<lambda>(k, l). CheckRunning (''visors/'' @ k @ ''/update/ws/running'')) nodes, uw_closed = False\<rparr>"

text \<open>\<open>update\<close>: a socket for every visor that is marked.\<close>

definition marked :: "NodeToUpdate list \<Rightarrow> nat list" where
  "marked nodes = filter (\<lambda>i. nu_update (nodes ! i)) [0..<length nodes]"

definition update_visors :: "hv_store \<Rightarrow> update_window \<Rightarrow> update_window" where
  "update_visors st w =
     (changeState Updating w)
       \<lparr>uw_sockets := marked (nodesToUpdate w),
        uw_requests := uw_requests w @ map (\<lambda>i. UpdateSocket (nu_key (nodesToUpdate w ! i)) (update_body st)) (marked (nodesToUpdate w))\<rparr>"

definition to_check :: "NodeToUpdate list \<Rightarrow> nat list" where
  "to_check nodes = filter (\<lambda>i. \<not> nu_update (nodes ! i) \<and> \<not> hadErrorDuringInitialCheck (nodes ! i)) [0..<length nodes]"

definition checkUpdates :: "hv_store \<Rightarrow> update_window \<Rightarrow> update_window" where
  "checkUpdates st w =
     (let nodesToCheck = to_check (nodesToUpdate w)
      in w\<lparr>nodesForUpdatesFound := 0, updatesFound := [], uw_search := Some nodesToCheck,
           uw_requests := uw_requests w @ map (\<lambda>i. CheckUpdate (checkUpdate st (nu_key (nodesToUpdate w ! i)))) nodesToCheck\<rparr>)"

definition finishInitialCheck :: "hv_store \<Rightarrow> update_window \<Rightarrow> update_window" where
  "finishInitialCheck st w =
     (if length (nodesWithError w) = length (nodesToUpdate w)
      then (changeState ErrorState w)\<lparr>uw_errorText := (case nodesWithError w of e # _ \<Rightarrow> snd e | [] \<Rightarrow> VUndef)\<rparr>
      else if length (indexesAlreadyBeingUpdated w) = length (nodesToUpdate w) - length (nodesWithError w)
      then update_visors st w
      else checkUpdates st w)"

definition set_node_at :: "nat \<Rightarrow> (NodeToUpdate \<Rightarrow> NodeToUpdate) \<Rightarrow> update_window \<Rightarrow> update_window" where
  "set_node_at i f w = w\<lparr>nodesToUpdate := (nodesToUpdate w)[i := f (nodesToUpdate w ! i)]\<rparr>"

text \<open>The answer to the first check of a visor.\<close>

definition check_saved :: "nat \<Rightarrow> jsval + bool \<Rightarrow> update_window \<Rightarrow> update_window js_result" where
  "check_saved i r w =
     (case r of
        Inr running \<Rightarrow>
          Inr (if running
               then (set_node_at i (\<lambda>n. n\<lparr>nu_update := True\<rparr>) w)
                      \<lparr>indexesAlreadyBeingUpdated := indexesAlreadyBeingUpdated w @ [i]\<rparr>
               else w)
      | Inl err \<Rightarrow>
          bindR (processServiceError err) (\<lambda>e.
            Inr ((set_node_at i (\<lambda>n. n\<lparr>hadErrorDuringInitialCheck := True\<rparr>) w)
                   \<lparr>nodesWithError := nodesWithError w @ [(nu_label (nodesToUpdate w ! i), val_prop e ''translatableErrorMsg'')]\<rparr>)))"

definition check_counted :: "hv_store \<Rightarrow> nat \<Rightarrow> update_window \<Rightarrow> update_window" where
  "check_counted st i w =
     (let w1 = w\<lparr>checkedVisors := checkedVisors w + 1, uw_checks := remove1 i (uw_checks w)\<rparr>
      in if checkedVisors w1 = length (nodesToUpdate w1) then finishInitialCheck st w1 else w1)"

definition check_answered :: "hv_store \<Rightarrow> nat \<Rightarrow> jsval + bool \<Rightarrow> update_window \<Rightarrow> update_window js_result" where
  "check_answered st i r w = bindR (check_saved i r w) (\<lambda>w1. Inr (check_counted st i w1))"

text \<open>The answers to the search, one for each visor that was asked, in their order.\<close>

record update_answer =
  ua_available :: bool
  current_version :: jsstr
  available_version :: jsstr
  release_url :: jsstr

definition jsstr_text :: "jsstr \<Rightarrow> string" where
  "jsstr_text s = (case s of Str t \<Rightarrow> t | Null \<Rightarrow> ''null'' | Undefined \<Rightarrow> ''undefined'')"

definition update_id :: "update_answer \<Rightarrow> string" where
  "update_id u = jsstr_text (current_version u) @ jsstr_text (available_version u)"

definition found_version :: "string \<Rightarrow> update_answer \<Rightarrow> UpdateVersion" where
  "found_version unknown u =
     \<lparr>currentVersion = (case current_version u of Str t \<Rightarrow> if t \<noteq> [] then t else unknown | _ \<Rightarrow> unknown),
      newVersion = available_version u, updateLink = release_url u\<rparr>"

definition answer_available :: "update_answer option \<Rightarrow> bool" where
  "answer_available a \<longleftrightarrow> (case a of Some u \<Rightarrow> ua_available u | None \<Rightarrow> False)"

definition search_result :: "string \<Rightarrow> nat \<times> update_answer option \<Rightarrow> string list \<times> update_window \<Rightarrow> string list \<times> update_window" where
  "search_result unknown ia acc =
     (case acc of (updates, w) \<Rightarrow>
        if \<not> answer_available (snd ia) then (updates, w)
        else let u = the (snd ia);
                 w1 = (set_node_at (fst ia) (\<lambda>n. n\<lparr>nu_update := True\<rparr>) w)\<lparr>nodesForUpdatesFound := nodesForUpdatesFound w + 1\<rparr>
             in if update_id u \<notin> set updates
                then (updates @ [update_id u], w1\<lparr>updatesFound := updatesFound w1 @ [found_version unknown u]\<rparr>)
                else (updates, w1))"

definition search_finished ::
  "hv_store \<Rightarrow> string \<Rightarrow> nat list \<Rightarrow> update_answer option list \<Rightarrow> update_window \<Rightarrow> update_window js_result" where
  "search_finished st unknown asked answers w =
     (let w1 = (snd (fold (search_result unknown) (zip asked answers) ([], w)))\<lparr>uw_search := None\<rparr>
      in if nodesForUpdatesFound w1 > 0 then Inr (changeState AskingUpdate w1)
         else if indexesAlreadyBeingUpdated w1 = []
         then let w2 = changeState NoUpdatesFound w1
              in if length (nodesToUpdate w2) = 1
                 then (case answers of
                         Some u # _ \<Rightarrow> Inr (w2\<lparr>currentNodeVersion := current_version u\<rparr>)
                       | _ \<Rightarrow> Inl TypeError)
                 else Inr w2
         else Inr (update_visors st w1))"

definition search_failed :: "jsval \<Rightarrow> update_window \<Rightarrow> update_window js_result" where
  "search_failed err w =
     bindR (processServiceError err) (\<lambda>e.
       Inr ((changeState ErrorState w)\<lparr>uw_errorText := val_prop e ''translatableErrorMsg'', uw_search := None\<rparr>))"

text \<open>The socket of a visor: a message, an error, the end.\<close>

definition progress_received :: "nat \<Rightarrow> string \<Rightarrow> update_window \<Rightarrow> update_window" where
  "progress_received i status w = set_node_at i (\<lambda>n. n\<lparr>updateInfo := updateProgressInfo status (updateInfo n)\<rparr>) w"

definition progress_failed :: "nat \<Rightarrow> jsval \<Rightarrow> update_window \<Rightarrow> update_window js_result" where
  "progress_failed i err w =
     bindR (processServiceError err) (\<lambda>e.
       Inr ((set_node_at i (\<lambda>n. n\<lparr>updateInfo := (updateInfo n)\<lparr>upi_errorMsg := val_prop e ''translatableErrorMsg''\<rparr>\<rparr>) w)
              \<lparr>uw_sockets := remove1 i (uw_sockets w)\<rparr>))"

definition progress_ended :: "nat \<Rightarrow> update_window \<Rightarrow> update_window" where
  "progress_ended i w =
     (set_node_at i (\<lambda>n. n\<lparr>updateInfo := (updateInfo n)\<lparr>upi_closed := True\<rparr>\<rparr>) w)\<lparr>uw_sockets := remove1 i (uw_sockets w)\<rparr>"

text \<open>The button, and the text above the list of updates.\<close>

definition update_button_clicked :: "hv_store \<Rightarrow> update_window \<Rightarrow> update_window" where
  "update_button_clicked st w = (if uw_state w = AskingUpdate then update_visors st w else w\<lparr>uw_closed := True\<rparr>)"

definition updateAvailableText :: "update_window \<Rightarrow> string" where
  "updateAvailableText w =
     (if length (nodesToUpdate w) = 1 then ''update.update-available''
      else ''update.update-available'' @ (if indexesAlreadyBeingUpdated w \<noteq> [] then ''-additional'' else []) @
           (if nodesForUpdatesFound w = 1 then ''-singular'' else ''-plural''))"

section \<open>The steps of the window\<close>

inductive update_step :: "string \<Rightarrow> update_window \<Rightarrow> update_window \<Rightarrow> bool" for unknown where
  check: "i \<in> set (uw_checks w) \<Longrightarrow> check_answered st i r w = Inr w' \<Longrightarrow> update_step unknown w w'"
| found: "uw_search w = Some asked \<Longrightarrow> length answers = length asked \<Longrightarrow>
    search_finished st unknown asked answers w = Inr w' \<Longrightarrow> update_step unknown w w'"
| search_error: "uw_search w = Some asked \<Longrightarrow> search_failed err w = Inr w' \<Longrightarrow> update_step unknown w w'"
| message: "i \<in> set (uw_sockets w) \<Longrightarrow> update_step unknown w (progress_received i status w)"
| socket_error: "i \<in> set (uw_sockets w) \<Longrightarrow> progress_failed i err w = Inr w' \<Longrightarrow> update_step unknown w w'"
| socket_end: "i \<in> set (uw_sockets w) \<Longrightarrow> update_step unknown w (progress_ended i w)"
| click: "\<not> uw_closed w \<Longrightarrow> confirmButtonText w \<noteq> [] \<Longrightarrow> update_step unknown w (update_button_clicked st w)"

fun no_socket :: "update_request \<Rightarrow> bool" where
  "no_socket (UpdateSocket k b) = False"
| "no_socket _ = True"

definition marked_set :: "NodeToUpdate list \<Rightarrow> nat set" where
  "marked_set nodes = {i. i < length nodes \<and> nu_update (nodes ! i)}"

definition open_set :: "NodeToUpdate list \<Rightarrow> nat set" where
  "open_set nodes = {i. i < length nodes \<and> \<not> nu_update (nodes ! i) \<and> \<not> hadErrorDuringInitialCheck (nodes ! i)}"

text \<open>What is known of the visors while they are checked, and afterwards.\<close>

definition checking_ok :: "update_window \<Rightarrow> bool" where
  "checking_ok w \<longleftrightarrow>
     marked_set (nodesToUpdate w) = set (indexesAlreadyBeingUpdated w) \<and>
     (\<forall>i < length (nodesToUpdate w). \<not> (nu_update (nodesToUpdate w ! i) \<and> hadErrorDuringInitialCheck (nodesToUpdate w ! i))) \<and>
     length (indexesAlreadyBeingUpdated w) + length (nodesWithError w) + card (open_set (nodesToUpdate w)) = length (nodesToUpdate w) \<and>
     list_all no_socket (uw_requests w) \<and> uw_sockets w = []"

definition started_ok :: "update_window \<Rightarrow> bool" where
  "started_ok w \<longleftrightarrow>
     (\<exists>r0 st. list_all no_socket r0 \<and>
        uw_requests w = r0 @ map (\<lambda>i. UpdateSocket (nu_key (nodesToUpdate w ! i)) (update_body st)) (marked (nodesToUpdate w))) \<and>
     set (uw_sockets w) \<subseteq> marked_set (nodesToUpdate w)"

definition update_ok :: "update_window \<Rightarrow> bool" where
  "update_ok w \<longleftrightarrow>
     (\<forall>i < length (nodesToUpdate w). \<not> (nu_update (nodesToUpdate w ! i) \<and> hadErrorDuringInitialCheck (nodesToUpdate w ! i))) \<and>
     (case uw_state w of
        InitialProcessing \<Rightarrow> checking_ok w \<and> confirmButtonText w = [] \<and>
          (case uw_search w of
             None \<Rightarrow> uw_checks w \<noteq> [] \<and> distinct (uw_checks w) \<and> set (uw_checks w) \<subseteq> open_set (nodesToUpdate w) \<and>
               checkedVisors w + length (uw_checks w) = length (nodesToUpdate w)
           | Some asked \<Rightarrow> uw_checks w = [] \<and> asked = to_check (nodesToUpdate w) \<and> asked \<noteq> [])
      | Updating \<Rightarrow> uw_checks w = [] \<and> uw_search w = None \<and> started_ok w
      | s \<Rightarrow> uw_checks w = [] \<and> uw_search w = None \<and> list_all no_socket (uw_requests w) \<and> uw_sockets w = [])"

lemma set_marked: "set (marked nodes) = marked_set nodes"
  by (auto simp: marked_def marked_set_def)

lemma set_to_check: "set (to_check nodes) = open_set nodes"
  by (auto simp: to_check_def open_set_def)

lemma finite_open [simp]: "finite (open_set nodes)"
  by (simp add: open_set_def)

lemma update_visors_started: "list_all no_socket (uw_requests w) \<Longrightarrow> started_ok (update_visors st w)"
  unfolding started_ok_def
  by (auto simp: update_visors_def changeState_def Let_def set_marked)

lemma update_visors_fields:
  "uw_state (update_visors st w) = Updating" "nodesToUpdate (update_visors st w) = nodesToUpdate w"
  "uw_checks (update_visors st w) = uw_checks w" "uw_search (update_visors st w) = uw_search w"
  "indexesAlreadyBeingUpdated (update_visors st w) = indexesAlreadyBeingUpdated w"
  by (simp_all add: update_visors_def changeState_def Let_def)

lemma finishInitialCheck_ok:
  assumes "checking_ok w" and "uw_checks w = []" and "uw_search w = None" and "uw_state w = InitialProcessing" and "confirmButtonText w = []"
  shows "update_ok (finishInitialCheck st w)"
    and "uw_state (finishInitialCheck st w) = Updating \<Longrightarrow>
      marked_set (nodesToUpdate (finishInitialCheck st w)) \<subseteq> set (indexesAlreadyBeingUpdated (finishInitialCheck st w))"
proof -
  have req: "list_all no_socket (uw_requests w)" using assms(1) by (simp add: checking_ok_def)
  have excl: "\<forall>i < length (nodesToUpdate w). \<not> (nu_update (nodesToUpdate w ! i) \<and> hadErrorDuringInitialCheck (nodesToUpdate w ! i))"
    using assms(1) by (simp add: checking_ok_def)
  show "update_ok (finishInitialCheck st w)"
  proof (cases "length (nodesWithError w) = length (nodesToUpdate w)")
    case True
    then show ?thesis
      using assms by (simp add: finishInitialCheck_def update_ok_def changeState_def Let_def checking_ok_def)
  next
    case nerr: False
    show ?thesis
    proof (cases "length (indexesAlreadyBeingUpdated w) = length (nodesToUpdate w) - length (nodesWithError w)")
      case True
      then show ?thesis
        using nerr assms update_visors_started [OF req] excl by (simp add: finishInitialCheck_def update_ok_def update_visors_fields)
    next
      case False
      then have "card (open_set (nodesToUpdate w)) \<noteq> 0" using assms(1) nerr unfolding checking_ok_def by linarith
      then have ne: "to_check (nodesToUpdate w) \<noteq> []" using set_to_check [of "nodesToUpdate w"] by auto
      have "checking_ok (checkUpdates st w)"
        using assms(1) by (auto simp: checking_ok_def checkUpdates_def Let_def list_all_iff)
      then show ?thesis
        using nerr False ne assms excl
        by (simp add: finishInitialCheck_def update_ok_def) (simp add: checkUpdates_def Let_def)
    qed
  qed
  show "marked_set (nodesToUpdate (finishInitialCheck st w)) \<subseteq> set (indexesAlreadyBeingUpdated (finishInitialCheck st w))"
    using assms(1) by (auto simp: finishInitialCheck_def checking_ok_def update_visors_fields changeState_def checkUpdates_def Let_def)
qed

text \<open>A visor that is checked: the sets after its entry has changed.\<close>

lemma node_changed:
  assumes "i \<in> open_set nodes"
  shows "nu_update m \<Longrightarrow> marked_set (nodes[i := m]) = insert i (marked_set nodes)"
    and "\<not> nu_update m \<Longrightarrow> marked_set (nodes[i := m]) = marked_set nodes"
    and "nu_update m \<or> hadErrorDuringInitialCheck m \<Longrightarrow> open_set (nodes[i := m]) = open_set nodes - {i}"
  using assms by (auto simp: marked_set_def open_set_def nth_list_update)

lemma card_open_removed: "i \<in> open_set nodes \<Longrightarrow> Suc (card (open_set nodes - {i})) = card (open_set nodes)"
  by (rule card_Suc_Diff1) simp_all

text \<open>One visor was checked: everything but the list of pending checks is already right.\<close>

lemma check_saved_ok:
  assumes "check_saved i r w = Inr w1" and "checking_ok w" and i: "i \<in> open_set (nodesToUpdate w)"
  shows "checking_ok w1" and "open_set (nodesToUpdate w) - {i} \<subseteq> open_set (nodesToUpdate w1)"
    and "length (nodesToUpdate w1) = length (nodesToUpdate w)"
    and "uw_state w1 = uw_state w \<and> uw_search w1 = uw_search w \<and> uw_checks w1 = uw_checks w \<and>
      checkedVisors w1 = checkedVisors w \<and> confirmButtonText w1 = confirmButtonText w"
proof -
  have lt: "i < length (nodesToUpdate w)" using i by (simp add: open_set_def)
  have card: "Suc (card (open_set (nodesToUpdate w) - {i})) = card (open_set (nodesToUpdate w))" by (rule card_open_removed [OF i])
  have nmark: "\<not> nu_update (nodesToUpdate w ! i)" "\<not> hadErrorDuringInitialCheck (nodesToUpdate w ! i)"
    using i by (simp_all add: open_set_def)
  have goal: "checking_ok w1 \<and> open_set (nodesToUpdate w) - {i} \<subseteq> open_set (nodesToUpdate w1) \<and>
    length (nodesToUpdate w1) = length (nodesToUpdate w) \<and> uw_state w1 = uw_state w \<and> uw_search w1 = uw_search w \<and>
    uw_checks w1 = uw_checks w \<and> checkedVisors w1 = checkedVisors w \<and> confirmButtonText w1 = confirmButtonText w"
  proof (cases r)
    case (Inl err)
    then obtain e where w1: "w1 = (set_node_at i (\<lambda>n. n\<lparr>hadErrorDuringInitialCheck := True\<rparr>) w)
        \<lparr>nodesWithError := nodesWithError w @ [(nu_label (nodesToUpdate w ! i), val_prop e ''translatableErrorMsg'')]\<rparr>"
      using assms(1) by (auto simp: check_saved_def bindR_Inr_iff)
    define m where "m = (nodesToUpdate w ! i)\<lparr>hadErrorDuringInitialCheck := True\<rparr>"
    have m: "\<not> nu_update m" "hadErrorDuringInitialCheck m" using nmark by (simp_all add: m_def)
    show ?thesis
      using assms(2) node_changed(2,3) [OF i, of m] m card lt
      by (auto simp: checking_ok_def w1 set_node_at_def m_def [symmetric] nth_list_update)
  next
    case (Inr running)
    show ?thesis
    proof (cases running)
      case True
      then have w1: "w1 = (set_node_at i (\<lambda>n. n\<lparr>nu_update := True\<rparr>) w)
          \<lparr>indexesAlreadyBeingUpdated := indexesAlreadyBeingUpdated w @ [i]\<rparr>"
        using assms(1) Inr by (simp add: check_saved_def)
      define m where "m = (nodesToUpdate w ! i)\<lparr>nu_update := True\<rparr>"
      have m: "nu_update m" "\<not> hadErrorDuringInitialCheck m" using nmark by (simp_all add: m_def)
      show ?thesis
        using assms(2) node_changed(1,3) [OF i, of m] m card lt
        by (auto simp: checking_ok_def w1 set_node_at_def m_def [symmetric] nth_list_update)
    next
      case False
      then have "w1 = w" using assms(1) Inr by (simp add: check_saved_def)
      then show ?thesis using assms(2) by auto
    qed
  qed
  then show "checking_ok w1" and "open_set (nodesToUpdate w) - {i} \<subseteq> open_set (nodesToUpdate w1)"
    and "length (nodesToUpdate w1) = length (nodesToUpdate w)"
    and "uw_state w1 = uw_state w \<and> uw_search w1 = uw_search w \<and> uw_checks w1 = uw_checks w \<and>
      checkedVisors w1 = checkedVisors w \<and> confirmButtonText w1 = confirmButtonText w"
    by blast+
qed

lemma checking_phase:
  assumes "update_ok w" and "uw_checks w \<noteq> [] \<or> uw_search w \<noteq> None"
  shows "uw_state w = InitialProcessing" and "checking_ok w" and "confirmButtonText w = []"
  using assms by (auto simp: update_ok_def split: UpdatingStates.splits)

lemma check_ok:
  assumes "update_ok w" and i: "i \<in> set (uw_checks w)" and "check_answered st i r w = Inr w'"
  shows "update_ok w' \<and> (uw_state w' = Updating \<longrightarrow> marked_set (nodesToUpdate w') \<subseteq> set (indexesAlreadyBeingUpdated w'))"
proof -
  have init: "uw_state w = InitialProcessing" and chk: "checking_ok w" and but: "confirmButtonText w = []"
    using checking_phase [OF assms(1) disjI1 [OF length_greater_0_conv [THEN iffD1, OF length_pos_if_in_set [OF i]]]] by auto
  have search: "uw_search w = None" using assms(1) init i by (auto simp: update_ok_def split: option.splits)
  have pend: "distinct (uw_checks w)" "set (uw_checks w) \<subseteq> open_set (nodesToUpdate w)"
      "checkedVisors w + length (uw_checks w) = length (nodesToUpdate w)"
    using assms(1) init search by (simp_all add: update_ok_def)
  obtain w1 where w1: "check_saved i r w = Inr w1" and w': "w' = check_counted st i w1"
    using assms(3) by (auto simp: check_answered_def bindR_Inr_iff)
  have iop: "i \<in> open_set (nodesToUpdate w)" using i pend(2) by blast
  note s = check_saved_ok [OF w1 chk iop]
  define w2 where "w2 = w1\<lparr>checkedVisors := checkedVisors w1 + 1, uw_checks := remove1 i (uw_checks w1)\<rparr>"
  have w'2: "w' = (if checkedVisors w2 = length (nodesToUpdate w2) then finishInitialCheck st w2 else w2)"
    by (simp add: w' check_counted_def w2_def)
  have w2: "nodesToUpdate w2 = nodesToUpdate w1" "uw_checks w2 = remove1 i (uw_checks w)" "uw_state w2 = InitialProcessing"
      "uw_search w2 = None" "confirmButtonText w2 = []" "checkedVisors w2 = checkedVisors w + 1"
    using s(4) init search but by (simp_all add: w2_def)
  have chk2: "checking_ok w2" using s(1) by (simp add: checking_ok_def w2_def)
  have len: "checkedVisors w2 + length (uw_checks w2) = length (nodesToUpdate w2)"
    using pend(3) s(3) i length_pos_if_in_set [OF i] by (cases "length (uw_checks w)") (simp_all add: w2 length_remove1)
  show ?thesis
  proof (cases "checkedVisors w2 = length (nodesToUpdate w2)")
    case True
    then have "uw_checks w2 = []" using len by simp
    then show ?thesis
      using True finishInitialCheck_ok [OF chk2 _ w2(4,3,5)] by (simp add: w'2)
  next
    case False
    have "set (uw_checks w2) \<subseteq> open_set (nodesToUpdate w2)"
      using s(2) pend(1,2) by (auto simp: w2(1,2))
    moreover have "uw_checks w2 \<noteq> []" using False len by auto
    moreover have "distinct (uw_checks w2)" using pend(1) by (simp add: w2(2))
    moreover have "\<forall>j < length (nodesToUpdate w2). \<not> (nu_update (nodesToUpdate w2 ! j) \<and> hadErrorDuringInitialCheck (nodesToUpdate w2 ! j))"
      using chk2 unfolding checking_ok_def by blast
    ultimately have "update_ok w2"
      using chk2 len by (simp add: update_ok_def w2)
    then show ?thesis using False w2(3) by (simp add: w'2)
  qed
qed

text \<open>The loop over the answers of the search.\<close>

definition excluded :: "NodeToUpdate list \<Rightarrow> bool" where
  "excluded nodes \<longleftrightarrow> (\<forall>i < length nodes. \<not> (nu_update (nodes ! i) \<and> hadErrorDuringInitialCheck (nodes ! i)))"

definition same_but_marks :: "update_window \<Rightarrow> update_window \<Rightarrow> bool" where
  "same_but_marks w w' \<longleftrightarrow>
     uw_state w' = uw_state w \<and> indexesAlreadyBeingUpdated w' = indexesAlreadyBeingUpdated w \<and> uw_requests w' = uw_requests w \<and>
     uw_checks w' = uw_checks w \<and> uw_sockets w' = uw_sockets w \<and> nodesWithError w' = nodesWithError w \<and>
     length (nodesToUpdate w') = length (nodesToUpdate w) \<and>
     map hadErrorDuringInitialCheck (nodesToUpdate w') = map hadErrorDuringInitialCheck (nodesToUpdate w)"

lemma same_but_marks_trans: "same_but_marks w1 w2 \<Longrightarrow> same_but_marks w2 w3 \<Longrightarrow> same_but_marks w1 w3"
  by (simp add: same_but_marks_def)

lemma search_result_one:
  assumes "fst ia \<in> open_set nodes0" and "map hadErrorDuringInitialCheck nodes0 = map hadErrorDuringInitialCheck (nodesToUpdate w)"
    and "excluded (nodesToUpdate w)"
  shows "same_but_marks w (snd (search_result unknown ia (us, w)))"
    and "excluded (nodesToUpdate (snd (search_result unknown ia (us, w))))"
    and "nodesForUpdatesFound (snd (search_result unknown ia (us, w))) = nodesForUpdatesFound w + (if answer_available (snd ia) then 1 else 0)"
    and "\<not> answer_available (snd ia) \<Longrightarrow> snd (search_result unknown ia (us, w)) = w"
proof -
  have len: "length nodes0 = length (nodesToUpdate w)" by (rule map_eq_imp_length_eq [OF assms(2)])
  have lt: "fst ia < length (nodesToUpdate w)" using assms(1) by (simp add: open_set_def len)
  have "map hadErrorDuringInitialCheck nodes0 ! fst ia = map hadErrorDuringInitialCheck (nodesToUpdate w) ! fst ia"
    by (simp only: assms(2))
  then have err: "\<not> hadErrorDuringInitialCheck (nodesToUpdate w ! fst ia)"
    using assms(1) lt len by (simp add: open_set_def)
  let ?m = "(nodesToUpdate w ! fst ia)\<lparr>nu_update := True\<rparr>"
  have same: "map hadErrorDuringInitialCheck ((nodesToUpdate w)[fst ia := ?m]) = map hadErrorDuringInitialCheck (nodesToUpdate w)"
    using lt by (simp add: map_update list_update_same_conv)
  have ex: "excluded ((nodesToUpdate w)[fst ia := ?m])"
    unfolding excluded_def
  proof (intro allI impI)
    fix j
    assume "j < length ((nodesToUpdate w)[fst ia := ?m])"
    then show "\<not> (nu_update ((nodesToUpdate w)[fst ia := ?m] ! j) \<and> hadErrorDuringInitialCheck ((nodesToUpdate w)[fst ia := ?m] ! j))"
      using assms(3) err lt by (cases "j = fst ia") (simp_all add: excluded_def)
  qed
  show "same_but_marks w (snd (search_result unknown ia (us, w)))"
    and "excluded (nodesToUpdate (snd (search_result unknown ia (us, w))))"
    and "nodesForUpdatesFound (snd (search_result unknown ia (us, w))) = nodesForUpdatesFound w + (if answer_available (snd ia) then 1 else 0)"
    and "\<not> answer_available (snd ia) \<Longrightarrow> snd (search_result unknown ia (us, w)) = w"
    using same ex assms(3) by (simp_all add: search_result_def set_node_at_def same_but_marks_def)
qed

lemma search_results:
  assumes "\<forall>ia \<in> set l. fst ia \<in> open_set nodes0"
    and "map hadErrorDuringInitialCheck nodes0 = map hadErrorDuringInitialCheck (nodesToUpdate w)" and "excluded (nodesToUpdate w)"
  shows "same_but_marks w (snd (fold (search_result unknown) l (us, w))) \<and>
    excluded (nodesToUpdate (snd (fold (search_result unknown) l (us, w)))) \<and>
    nodesForUpdatesFound (snd (fold (search_result unknown) l (us, w))) =
      nodesForUpdatesFound w + length (filter (\<lambda>ia. answer_available (snd ia)) l) \<and>
    (filter (\<lambda>ia. answer_available (snd ia)) l = [] \<longrightarrow> snd (fold (search_result unknown) l (us, w)) = w)"
  using assms
proof (induction l arbitrary: us w)
  case Nil
  then show ?case by (simp add: same_but_marks_def)
next
  case (Cons ia l)
  obtain us1 w1 where r: "search_result unknown ia (us, w) = (us1, w1)" by (cases "search_result unknown ia (us, w)")
  have one: "same_but_marks w w1" "excluded (nodesToUpdate w1)"
      "nodesForUpdatesFound w1 = nodesForUpdatesFound w + (if answer_available (snd ia) then 1 else 0)"
      "\<not> answer_available (snd ia) \<Longrightarrow> w1 = w"
    using search_result_one [of ia nodes0 w unknown us] Cons.prems by (simp_all add: r)
  have "map hadErrorDuringInitialCheck nodes0 = map hadErrorDuringInitialCheck (nodesToUpdate w1)"
    using one(1) Cons.prems(2) by (simp add: same_but_marks_def)
  from Cons.IH [OF _ this one(2), of us1] Cons.prems(1) have
    ih: "same_but_marks w1 (snd (fold (search_result unknown) l (us1, w1)))"
      "excluded (nodesToUpdate (snd (fold (search_result unknown) l (us1, w1))))"
      "nodesForUpdatesFound (snd (fold (search_result unknown) l (us1, w1))) =
        nodesForUpdatesFound w1 + length (filter (\<lambda>ia. answer_available (snd ia)) l)"
      "filter (\<lambda>ia. answer_available (snd ia)) l = [] \<Longrightarrow> snd (fold (search_result unknown) l (us1, w1)) = w1"
    by simp_all
  show ?case
    using same_but_marks_trans [OF one(1) ih(1)] ih(2-4) one(3,4)
    by (cases "answer_available (snd ia)") (simp_all add: r)
qed

lemma search_ok:
  assumes "update_ok w" and "uw_search w = Some asked" and "length answers = length asked"
    and "search_finished st unknown asked answers w = Inr w'"
  shows "update_ok w' \<and> (uw_state w' = Updating \<longrightarrow> marked_set (nodesToUpdate w') \<subseteq> set (indexesAlreadyBeingUpdated w'))"
proof -
  have init: "uw_state w = InitialProcessing" and chk: "checking_ok w"
    using checking_phase [OF assms(1)] assms(2) by auto
  have asked: "uw_checks w = []" "asked = to_check (nodesToUpdate w)" using assms(1,2) init by (simp_all add: update_ok_def)
  have ex: "excluded (nodesToUpdate w)" using chk by (simp add: checking_ok_def excluded_def)
  have "\<forall>ia \<in> set (zip asked answers). fst ia \<in> open_set (nodesToUpdate w)"
  proof
    fix ia
    assume "ia \<in> set (zip asked answers)"
    then have "fst ia \<in> set asked" using set_zip_leftD [of "fst ia" "snd ia" asked answers] by simp
    then show "fst ia \<in> open_set (nodesToUpdate w)" by (simp only: asked(2) set_to_check)
  qed
  note res = search_results [OF this refl ex, of unknown "[]"]
  define w1 where "w1 = (snd (fold (search_result unknown) (zip asked answers) ([], w)))\<lparr>uw_search := None\<rparr>"
  have w1: "uw_state w1 = InitialProcessing" "indexesAlreadyBeingUpdated w1 = indexesAlreadyBeingUpdated w" "uw_requests w1 = uw_requests w"
      "uw_checks w1 = []" "uw_sockets w1 = uw_sockets w" "excluded (nodesToUpdate w1)" "uw_search w1 = None"
      "length (nodesToUpdate w1) = length (nodesToUpdate w)"
    using res init asked(1) by (simp_all add: w1_def same_but_marks_def)
  have req: "list_all no_socket (uw_requests w1)" "uw_sockets w1 = []" using chk by (simp_all add: w1 checking_ok_def)
  have unchanged: "marked_set (nodesToUpdate w1) \<subseteq> set (indexesAlreadyBeingUpdated w1)" if "nodesForUpdatesFound w1 = 0"
  proof -
    have "filter (\<lambda>ia. answer_available (snd ia)) (zip asked answers) = []"
      using res that by (simp add: w1_def)
    then have "nodesToUpdate w1 = nodesToUpdate w" using res by (simp add: w1_def)
    then show ?thesis using chk by (simp add: w1(2) checking_ok_def)
  qed
  have run: "search_finished st unknown asked answers w =
      (if nodesForUpdatesFound w1 > 0 then Inr (changeState AskingUpdate w1)
       else if indexesAlreadyBeingUpdated w1 = []
       then let w2 = changeState NoUpdatesFound w1
            in if length (nodesToUpdate w2) = 1
               then (case answers of Some u # _ \<Rightarrow> Inr (w2\<lparr>currentNodeVersion := current_version u\<rparr>) | _ \<Rightarrow> Inl TypeError)
               else Inr w2
       else Inr (update_visors st w1))"
    by (simp only: search_finished_def w1_def [symmetric] Let_def)
  show ?thesis
  proof (cases "nodesForUpdatesFound w1 > 0")
    case True
    then have "w' = changeState AskingUpdate w1" using assms(4) run by simp
    then show ?thesis using w1 req by (simp add: update_ok_def changeState_def excluded_def)
  next
    case none: False
    show ?thesis
    proof (cases "indexesAlreadyBeingUpdated w1 = []")
      case True
      then obtain v where "w' = changeState NoUpdatesFound w1 \<or> w' = (changeState NoUpdatesFound w1)\<lparr>currentNodeVersion := v\<rparr>"
        using assms(4) run none by (auto simp: Let_def split: if_splits list.splits option.splits)
      then show ?thesis using w1 req by (auto simp: update_ok_def changeState_def excluded_def)
    next
      case False
      then have "w' = update_visors st w1" using assms(4) run none by simp
      then show ?thesis
        using w1 req unchanged none update_visors_started [OF req(1), of st]
        by (simp add: update_ok_def excluded_def update_visors_fields)
    qed
  qed
qed

lemma info_changed:
  assumes "\<And>n. nu_update (f n) = nu_update n" and "\<And>n. nu_key (f n) = nu_key n"
    and "\<And>n. hadErrorDuringInitialCheck (f n) = hadErrorDuringInitialCheck n"
  shows "marked (nodes[i := f (nodes ! i)]) = marked nodes" and "nu_key (nodes[i := f (nodes ! i)] ! j) = nu_key (nodes ! j)"
    and "marked_set (nodes[i := f (nodes ! i)]) = marked_set nodes" and "excluded (nodes[i := f (nodes ! i)]) = excluded nodes"
proof -
  have upd: "nu_update (nodes[i := f (nodes ! i)] ! j) = nu_update (nodes ! j)"
      "hadErrorDuringInitialCheck (nodes[i := f (nodes ! i)] ! j) = hadErrorDuringInitialCheck (nodes ! j)"
      "nu_key (nodes[i := f (nodes ! i)] ! j) = nu_key (nodes ! j)" for j
    using assms by (cases "i < length nodes"; cases "j = i"; simp add: list_update_beyond)+
  show "marked (nodes[i := f (nodes ! i)]) = marked nodes" by (simp add: marked_def upd)
  show "nu_key (nodes[i := f (nodes ! i)] ! j) = nu_key (nodes ! j)" by (rule upd)
  show "marked_set (nodes[i := f (nodes ! i)]) = marked_set nodes" by (simp add: marked_set_def upd)
  show "excluded (nodes[i := f (nodes ! i)]) = excluded nodes" by (simp add: excluded_def upd)
qed

lemma progress_ok:
  assumes "update_ok w" and "i \<in> set (uw_sockets w)"
    and "\<And>n. nu_update (f n) = nu_update n" and "\<And>n. nu_key (f n) = nu_key n"
    and "\<And>n. hadErrorDuringInitialCheck (f n) = hadErrorDuringInitialCheck n" and "set s \<subseteq> set (uw_sockets w)"
  shows "update_ok ((set_node_at i f w)\<lparr>uw_sockets := s\<rparr>)"
proof -
  note f = info_changed [of f, OF assms(3-5)]
  have st: "uw_state w = Updating"
    using assms(1,2) by (auto simp: update_ok_def checking_ok_def split: UpdatingStates.splits)
  then have "started_ok w" "excluded (nodesToUpdate w)" "uw_checks w = []" "uw_search w = None"
    using assms(1) by (simp_all add: update_ok_def excluded_def)
  moreover have "started_ok ((set_node_at i f w)\<lparr>uw_sockets := s\<rparr>)"
    using \<open>started_ok w\<close> assms(6) by (auto simp: started_ok_def set_node_at_def f)
  ultimately show ?thesis
    using st f(4) [of "nodesToUpdate w" i] by (simp add: update_ok_def set_node_at_def excluded_def)
qed

definition agreed :: "update_window \<Rightarrow> bool" where
  "agreed w \<longleftrightarrow> marked_set (nodesToUpdate w) \<subseteq> set (indexesAlreadyBeingUpdated w)"

lemma update_step_ok:
  assumes "update_step unknown w w'" and "update_ok w"
  shows "update_ok w' \<and> (uw_state w \<noteq> Updating \<longrightarrow> uw_state w' = Updating \<longrightarrow> uw_state w = AskingUpdate \<or> agreed w')"
  using assms
proof (cases rule: update_step.cases)
  case (check i st r)
  then show ?thesis using check_ok [OF assms(2)] unfolding agreed_def by blast
next
  case (found asked answers st)
  then show ?thesis using search_ok [OF assms(2)] unfolding agreed_def by blast
next
  case (search_error asked err)
  then obtain e where w': "w' = (changeState ErrorState w)\<lparr>uw_errorText := val_prop e ''translatableErrorMsg'', uw_search := None\<rparr>"
    by (auto simp: search_failed_def bindR_Inr_iff)
  have "uw_state w = InitialProcessing" "checking_ok w" using checking_phase [OF assms(2)] search_error(1) by auto
  then show ?thesis using assms(2) search_error(1) by (simp add: update_ok_def w' changeState_def checking_ok_def)
next
  case (message i status)
  have "update_ok ((set_node_at i (\<lambda>n. n\<lparr>updateInfo := updateProgressInfo status (updateInfo n)\<rparr>) w)\<lparr>uw_sockets := uw_sockets w\<rparr>)"
    by (rule progress_ok [OF assms(2) message(2)]) simp_all
  then show ?thesis by (simp add: message(1) progress_received_def set_node_at_def)
next
  case (socket_error i err)
  then obtain e where w': "w' = (set_node_at i (\<lambda>n. n\<lparr>updateInfo := (updateInfo n)\<lparr>upi_errorMsg := val_prop e ''translatableErrorMsg''\<rparr>\<rparr>) w)
      \<lparr>uw_sockets := remove1 i (uw_sockets w)\<rparr>"
    by (auto simp: progress_failed_def bindR_Inr_iff)
  have "update_ok w'"
    unfolding w' by (rule progress_ok [OF assms(2) socket_error(1)]) (simp_all add: set_remove1_subset)
  then show ?thesis by (simp add: w' set_node_at_def)
next
  case (socket_end i)
  have "update_ok w'"
    unfolding socket_end(1) progress_ended_def by (rule progress_ok [OF assms(2) socket_end(2)]) (simp_all add: set_remove1_subset)
  then show ?thesis by (simp add: socket_end(1) progress_ended_def set_node_at_def)
next
  case (click st)
  show ?thesis
  proof (cases "uw_state w = AskingUpdate")
    case True
    then have "list_all no_socket (uw_requests w)" "uw_checks w = []" "uw_search w = None" "excluded (nodesToUpdate w)"
      using assms(2) by (simp_all add: update_ok_def excluded_def)
    then have "update_ok (update_visors st w)"
      using update_visors_started by (simp add: update_ok_def update_visors_fields excluded_def)
    then show ?thesis using True by (simp add: click(1) update_button_clicked_def)
  next
    case False
    then show ?thesis using assms(2)
      by (auto simp: click(1) update_button_clicked_def update_ok_def checking_ok_def started_ok_def
          split: UpdatingStates.splits option.splits)
  qed
qed

lemma update_ok_start: "nodes \<noteq> [] \<Longrightarrow> update_ok (startChecking starting nodes)"
proof -
  have "open_set (nodesToUpdate (startChecking starting nodes)) = {..<length nodes}"
    "marked_set (nodesToUpdate (startChecking starting nodes)) = {}"
    by (auto simp: startChecking_def open_set_def marked_set_def case_prod_unfold)
  moreover assume "nodes \<noteq> []"
  ultimately show ?thesis
    by (simp add: update_ok_def checking_ok_def) (auto simp: checking_ok_def startChecking_def list_all_iff case_prod_unfold)
qed

lemma update_ok_reachable:
  assumes "nodes \<noteq> []" and "(update_step unknown)\<^sup>*\<^sup>* (startChecking starting nodes) w"
  shows "update_ok w"
  using assms(2)
proof (induction rule: rtranclp_induct)
  case base
  show ?case by (rule update_ok_start [OF assms(1)])
next
  case (step a b)
  then show ?case using update_step_ok by blast
qed

lemma started_requests:
  "started_ok w \<Longrightarrow> \<exists>st. filter (\<lambda>r. \<not> no_socket r) (uw_requests w) =
     map (\<lambda>i. UpdateSocket (nu_key (nodesToUpdate w ! i)) (update_body st)) (marked (nodesToUpdate w))"
  by (auto simp: started_ok_def list_all_iff filter_empty_conv o_def)

text \<open>
  Property C17. The window that updates visors, whatever the visors answer and in whatever order. No
  update is requested before the window is in the state of updating. It only gets there when the user
  accepted the list of the updates, or when every visor to be updated was being updated already; then
  exactly one socket is opened for each marked visor, with the settings of that moment, and no marked
  visor had an error in the first check. While the window is looking for updates it is waiting for an
  answer, so it can not get stuck.
\<close>

theorem update_window_correct:
  assumes "nodes \<noteq> []" and "(update_step unknown)\<^sup>*\<^sup>* (startChecking starting nodes) w" and "update_step unknown w w'"
  shows "(uw_state w' \<noteq> Updating \<longrightarrow> list_all no_socket (uw_requests w')) \<and>
    (uw_state w \<noteq> Updating \<and> uw_state w' = Updating \<longrightarrow>
       uw_state w = AskingUpdate \<or> marked_set (nodesToUpdate w') \<subseteq> set (indexesAlreadyBeingUpdated w')) \<and>
    (uw_state w' = Updating \<longrightarrow> (\<exists>st. filter (\<lambda>r. \<not> no_socket r) (uw_requests w') =
       map (\<lambda>i. UpdateSocket (nu_key (nodesToUpdate w' ! i)) (update_body st)) (marked (nodesToUpdate w')))) \<and>
    (\<forall>i < length (nodesToUpdate w'). \<not> (nu_update (nodesToUpdate w' ! i) \<and> hadErrorDuringInitialCheck (nodesToUpdate w' ! i))) \<and>
    (uw_state w' = InitialProcessing \<longrightarrow> uw_checks w' \<noteq> [] \<or> uw_search w' \<noteq> None)"
proof -
  note ok = update_step_ok [OF assms(3) update_ok_reachable [OF assms(1,2)]]
  then have w': "update_ok w'" by blast
  have "uw_state w' \<noteq> Updating \<longrightarrow> list_all no_socket (uw_requests w')"
    using w' by (auto simp: update_ok_def checking_ok_def split: UpdatingStates.splits)
  moreover have "uw_state w' = Updating \<longrightarrow> started_ok w'" using w' by (auto simp: update_ok_def)
  moreover have "uw_state w' = InitialProcessing \<longrightarrow> uw_checks w' \<noteq> [] \<or> uw_search w' \<noteq> None"
    using w' by (auto simp: update_ok_def split: option.splits)
  moreover have "\<forall>i < length (nodesToUpdate w'). \<not> (nu_update (nodesToUpdate w' ! i) \<and> hadErrorDuringInitialCheck (nodesToUpdate w' ! i))"
    using w' by (simp add: update_ok_def)
  ultimately show ?thesis using ok started_requests unfolding agreed_def by blast
qed

section \<open>The text of the progress\<close>

lemma last_index_last: "c \<notin> set ys \<Longrightarrow> last_index c (xs @ c # ys) = Some (length xs)"
proof (induction xs)
  case Nil
  have "last_index c ys = None" if "c \<notin> set ys" for ys
    using that by (induction ys) auto
  then show ?case using Nil by simp
qed simp

lemma substring_part:
  "m = xs @ ys @ zs \<Longrightarrow> i = int (length xs) \<Longrightarrow> j = i + int (length ys) \<Longrightarrow> js_substring i j m = ys"
  by (simp add: js_substring_def nat_add_distrib)

lemma index_of_first: "c \<notin> set xs \<Longrightarrow> index_of [c] (xs @ c # ys) = Some (length xs)"
  by (induction xs) (auto simp: starts_with_def)

text \<open>
  The text that the visors send while a file is downloaded is read back exactly, when its parts do not
  contain the marks that come after them.
\<close>

theorem progress_roundtrip:
  fixes fname pct speed elapsed rest :: string
  assumes "CHR '' '' \<notin> set fname" and "CHR '' '' \<notin> set pct"
    and "set speed \<inter> {CHR ''('', CHR ''%''} = {}"
    and "set elapsed \<inter> {CHR ''('', CHR '')'', CHR ''['', CHR ''%''} = {}"
    and "set rest \<inter> {CHR ''('', CHR '')'', CHR ''['', CHR '']'', CHR '':'', CHR ''%''} = {}"
  shows "let info' = updateProgressInfo (''Downloading '' @ fname @ '' '' @ pct @ ''% ('' @ speed @ '') ['' @ elapsed @ '':'' @ rest @ '']'') info
    in dataParsed info' \<and> fileName info' = fname \<and> upi_speed info' = speed \<and> upi_elapsedTime info' = elapsed \<and>
       remainingTime info' = rest \<and> upi_progress info' = whole_number pct"
proof -
  define m where "m = ''Downloading '' @ fname @ '' '' @ pct @ ''% ('' @ speed @ '') ['' @ elapsed @ '':'' @ rest @ '']''"
  define a where "a = 12 + length fname"
  define b where "b = a + 1 + length pct"
  define c where "c = b + 2"
  define d where "d = c + 1 + length speed"
  define e where "e = d + 2"
  define f where "f = e + 1 + length elapsed"
  define g where "g = f + 1 + length rest"
  have dl: "index_of ''Downloading'' m = Some 0" by (simp add: m_def starts_with_def)
  have sp: "last_index CHR ''('' m = Some c"
    using last_index_last [of "CHR ''(''" "speed @ '') ['' @ elapsed @ '':'' @ rest @ '']''" "''Downloading '' @ fname @ '' '' @ pct @ ''% ''"] assms
    by (auto simp: m_def a_def b_def c_def)
  have pc: "last_index CHR ''%'' m = Some b"
    using last_index_last [of "CHR ''%''" "'' ('' @ speed @ '') ['' @ elapsed @ '':'' @ rest @ '']''" "''Downloading '' @ fname @ '' '' @ pct"] assms
    by (auto simp: m_def a_def b_def)
  have fs: "last_index CHR '')'' m = Some d"
    using last_index_last [of "CHR '')''" "'' ['' @ elapsed @ '':'' @ rest @ '']''" "''Downloading '' @ fname @ '' '' @ pct @ ''% ('' @ speed"] assms
    by (auto simp: m_def a_def b_def c_def d_def)
  have it: "last_index CHR ''['' m = Some e"
    using last_index_last [of "CHR ''[''" "elapsed @ '':'' @ rest @ '']''" "''Downloading '' @ fname @ '' '' @ pct @ ''% ('' @ speed @ '') ''"] assms
    by (auto simp: m_def a_def b_def c_def d_def e_def)
  have ts: "last_index CHR '':'' m = Some f"
    using last_index_last [of "CHR '':''" "rest @ '']''" "''Downloading '' @ fname @ '' '' @ pct @ ''% ('' @ speed @ '') ['' @ elapsed"] assms
    by (auto simp: m_def a_def b_def c_def d_def e_def f_def)
  have ft: "last_index CHR '']'' m = Some g"
    using last_index_last [of "CHR '']''" "[]" "''Downloading '' @ fname @ '' '' @ pct @ ''% ('' @ speed @ '') ['' @ elapsed @ '':'' @ rest"] assms
    by (auto simp: m_def a_def b_def c_def d_def e_def f_def g_def)
  have ff: "index_of_from '' '' 12 m = Some a"
    using index_of_first [OF assms(1), of "pct @ ''% ('' @ speed @ '') ['' @ elapsed @ '':'' @ rest @ '']''"]
    by (simp add: index_of_from_def m_def a_def)
  have ip: "last_index_to CHR '' '' b m = Some a"
  proof -
    have "m = ((''Downloading '' @ fname) @ CHR '' '' # (pct @ ''%'')) @ '' ('' @ speed @ '') ['' @ elapsed @ '':'' @ rest @ '']''"
      by (simp add: m_def)
    moreover have "length ((''Downloading '' @ fname) @ CHR '' '' # (pct @ ''%'')) = b + 1" by (simp add: a_def b_def)
    ultimately have "take (b + 1) m = (''Downloading '' @ fname) @ CHR '' '' # (pct @ ''%'')"
      by (metis append_eq_conv_conj)
    then show ?thesis using last_index_last [of "CHR '' ''" "pct @ ''%''" "''Downloading '' @ fname"] assms(2)
      by (simp add: last_index_to_def a_def)
  qed
  have p1: "js_substring 12 (int a) m = fname"
    by (rule substring_part [of m "''Downloading ''" fname "'' '' @ pct @ ''% ('' @ speed @ '') ['' @ elapsed @ '':'' @ rest @ '']''"]) (simp_all add: m_def a_def b_def c_def d_def e_def f_def g_def)
  have p2: "js_substring (int c + 1) (int d) m = speed"
    by (rule substring_part [of m "''Downloading '' @ fname @ '' '' @ pct @ ''% (''" speed "'') ['' @ elapsed @ '':'' @ rest @ '']''"]) (simp_all add: m_def a_def b_def c_def d_def e_def f_def g_def)
  have p3: "js_substring (int e + 1) (int f) m = elapsed"
    by (rule substring_part [of m "''Downloading '' @ fname @ '' '' @ pct @ ''% ('' @ speed @ '') [''" elapsed "'':'' @ rest @ '']''"]) (simp_all add: m_def a_def b_def c_def d_def e_def f_def g_def)
  have p4: "js_substring (int f + 1) (int g) m = rest"
    by (rule substring_part [of m "''Downloading '' @ fname @ '' '' @ pct @ ''% ('' @ speed @ '') ['' @ elapsed @ '':''" rest "'']''"]) (simp_all add: m_def a_def b_def c_def d_def e_def f_def g_def)
  have p5: "js_substring (int a + 1) (int b) m = pct"
    by (rule substring_part [of m "''Downloading '' @ fname @ '' ''" pct "''% ('' @ speed @ '') ['' @ elapsed @ '':'' @ rest @ '']''"]) (simp_all add: m_def a_def b_def c_def d_def e_def f_def g_def)
  note parts = p1 p2 p3 p4 p5
  have ord: "c \<le> d" "e \<le> f" "f \<le> g" "b \<le> c" by (simp_all add: d_def f_def g_def c_def)
  show ?thesis
    unfolding m_def [symmetric]
    using ord by (simp add: updateProgressInfo_def dl sp pc fs it ts ft js_index_def ff ip parts Let_def)
qed

text \<open>
  Two updates are the same update for the window when the texts of their versions are the same side by
  side: of the second one, which is another, nothing is shown.
\<close>

theorem update_ids_collide:
  "let u1 = \<lparr>ua_available = True, current_version = Str ''1.1'', available_version = Str ''1.2'', release_url = Undefined\<rparr>;
       u2 = \<lparr>ua_available = True, current_version = Str ''1.11'', available_version = Str ''.2'', release_url = Undefined\<rparr>
   in u1 \<noteq> u2 \<and> update_id u1 = update_id u2 \<and>
      (update_id u1 \<in> set us \<longrightarrow> updatesFound (snd (search_result unknown (i, Some u2) (us, w))) = updatesFound w)"
  by (simp add: update_id_def jsstr_text_def search_result_def answer_available_def set_node_at_def)

section \<open>The settings of the updates\<close>

record updater_form =
  uf_channel :: string
  uf_version :: string
  uf_archive :: string
  uf_checksums :: string

datatype updater_question = SaveQuestion updater_form | RemoveQuestion

record updater_config =
  uc_form :: updater_form
  uc_initial :: updater_form
  hasCustomSettings :: bool
  uc_store :: hv_store
  uc_question :: "updater_question option"
  uc_snackbar :: snackbar_service

definition stored_text :: "hv_store \<Rightarrow> string \<Rightarrow> string" where
  "stored_text st k = (case getItem st k of Some t \<Rightarrow> t | None \<Rightarrow> [])"

definition custom_form :: "updater_form \<Rightarrow> bool" where
  "custom_form f \<longleftrightarrow> uf_channel f \<noteq> [] \<or> uf_version f \<noteq> [] \<or> uf_archive f \<noteq> [] \<or> uf_checksums f \<noteq> []"

definition trimmed_form :: "updater_form \<Rightarrow> updater_form" where
  "trimmed_form f = \<lparr>uf_channel = trim (uf_channel f), uf_version = trim (uf_version f), uf_archive = trim (uf_archive f),
     uf_checksums = trim (uf_checksums f)\<rparr>"

definition empty_form :: updater_form where
  "empty_form = \<lparr>uf_channel = [], uf_version = [], uf_archive = [], uf_checksums = []\<rparr>"

definition updater_config_opened :: "hv_store \<Rightarrow> snackbar_service \<Rightarrow> updater_config" where
  "updater_config_opened st sn =
     (let f = \<lparr>uf_channel = stored_text st Channel_key, uf_version = stored_text st Version_key,
               uf_archive = stored_text st ArchiveURL_key, uf_checksums = stored_text st ChecksumsURL_key\<rparr>
      in \<lparr>uc_form = f, uc_initial = f, hasCustomSettings = custom_form f, uc_store = st, uc_question = None, uc_snackbar = sn\<rparr>)"

definition updater_dataChanged :: "updater_config \<Rightarrow> bool" where
  "updater_dataChanged c \<longleftrightarrow> uc_initial c \<noteq> trimmed_form (uc_form c)"

definition updater_saveSettings :: "updater_config \<Rightarrow> updater_config" where
  "updater_saveSettings c =
     c\<lparr>uc_question := Some (if custom_form (trimmed_form (uc_form c)) then SaveQuestion (trimmed_form (uc_form c)) else RemoveQuestion)\<rparr>"

definition updater_removeSettings :: "updater_config \<Rightarrow> updater_config" where
  "updater_removeSettings c = c\<lparr>uc_question := Some RemoveQuestion\<rparr>"

definition updater_accepted :: "updater_config \<Rightarrow> updater_config" where
  "updater_accepted c =
     (case uc_question c of
        Some (SaveQuestion f) \<Rightarrow>
          c\<lparr>uc_question := None, uc_initial := f, hasCustomSettings := True,
            uc_store := setItem ChecksumsURL_key (uf_checksums f) (setItem ArchiveURL_key (uf_archive f)
              (setItem Version_key (uf_version f) (setItem Channel_key (uf_channel f)
                (setItem UseCustomSettings_key ''true'' (uc_store c))))),
            uc_snackbar := snackbar_showDone ''settings.updater-config.saved'' VNull (uc_snackbar c)\<rparr>
      | Some RemoveQuestion \<Rightarrow>
          c\<lparr>uc_question := None, uc_initial := empty_form, uc_form := empty_form, hasCustomSettings := False,
            uc_store := removeItem ChecksumsURL_key (removeItem ArchiveURL_key (removeItem Version_key
              (removeItem Channel_key (removeItem UseCustomSettings_key (uc_store c))))),
            uc_snackbar := snackbar_showDone ''settings.updater-config.removed'' VNull (uc_snackbar c)\<rparr>
      | None \<Rightarrow> c)"

text \<open>
  The settings of the updates reach the updates. After the user has accepted the question,
  the body of every update has each text of the form that is not empty, without the spaces around it,
  and otherwise the stable channel; the search for updates uses the same channel; the form shows no
  change any more, and when it is opened again it shows the same values. When every text is empty the
  question is about removing the settings, and then the updates are those without any settings.
\<close>

theorem updater_settings_used:
  assumes "f = trimmed_form (uc_form c)"
  shows "let c' = updater_accepted (updater_saveSettings c); body = update_body (uc_store c')
    in map_get body ''channel'' = Some (if uf_channel f \<noteq> [] then uf_channel f else ''stable'') \<and>
       map_get body ''version'' = (if uf_version f \<noteq> [] then Some (uf_version f) else None) \<and>
       map_get body ''archive_url'' = (if uf_archive f \<noteq> [] then Some (uf_archive f) else None) \<and>
       map_get body ''checksums_url'' = (if uf_checksums f \<noteq> [] then Some (uf_checksums f) else None) \<and>
       checkUpdate (uc_store c') k = ''visors/'' @ k @ ''/update/available/'' @ (if uf_channel f \<noteq> [] then uf_channel f else ''stable'') \<and>
       uc_initial c' = f \<and> (f = empty_form \<longrightarrow> uc_form c' = empty_form) \<and>
       uc_initial (updater_config_opened (uc_store c') sn) = f \<and>
       hasCustomSettings (updater_config_opened (uc_store c') sn) = hasCustomSettings c'"
proof (cases "custom_form f")
  case True
  then have ne: "f \<noteq> empty_form" by (auto simp: custom_form_def empty_form_def)
  define c' where "c' = updater_accepted (updater_saveSettings c)"
  have c': "uc_initial c' = f" "hasCustomSettings c'" "getItem (uc_store c') UseCustomSettings_key = Some ''true''"
      "getItem (uc_store c') Channel_key = Some (uf_channel f)" "getItem (uc_store c') Version_key = Some (uf_version f)"
      "getItem (uc_store c') ArchiveURL_key = Some (uf_archive f)" "getItem (uc_store c') ChecksumsURL_key = Some (uf_checksums f)"
    using True
    by (simp_all add: c'_def updater_saveSettings_def assms [symmetric] updater_accepted_def getItem_def setItem_def updater_keys)
  have "updater_config_opened (uc_store c') sn =
      \<lparr>uc_form = f, uc_initial = f, hasCustomSettings = custom_form f, uc_store = uc_store c', uc_question = None, uc_snackbar = sn\<rparr>"
    by (simp add: updater_config_opened_def stored_text_def c' custom_form_def Let_def)
  with ne True c' show ?thesis
    unfolding c'_def [symmetric]
    by (simp add: update_body_def custom_setting_def checkUpdate_def map_get_def map_set_def Let_def)
next
  case False
  then have "f = empty_form" by (cases f) (simp add: custom_form_def empty_form_def)
  with False show ?thesis
    unfolding updater_saveSettings_def assms [symmetric]
    by (simp add: updater_accepted_def update_body_def custom_setting_def checkUpdate_def updater_config_opened_def stored_text_def
        updater_keys getItem_def removeItem_def map_get_def empty_form_def custom_form_def Let_def)
qed

section \<open>Examples\<close>

definition example_update_start :: update_window where
  "example_update_start = startChecking ''starting'' [(''k'', ''Visor'')]"

definition example_update_run :: update_window where
  "example_update_run = check_counted empty_store 0 ((set_node_at 0 (\<lambda>n. n\<lparr>nu_update := True\<rparr>) example_update_start)
     \<lparr>indexesAlreadyBeingUpdated := [0]\<rparr>)"

lemma example_update_step: "update_step ''unknown'' example_update_start example_update_run"
  by (rule update_step.check [of 0 _ empty_store "Inr True"])
    (simp_all add: example_update_run_def example_update_start_def startChecking_def check_answered_def check_saved_def)

theorem update_window_correct_witness:
  "uw_state example_update_run = Updating \<and> marked_set (nodesToUpdate example_update_run) \<subseteq> set (indexesAlreadyBeingUpdated example_update_run)"
proof -
  have "uw_state example_update_start = InitialProcessing" by (simp add: example_update_start_def startChecking_def)
  moreover have "uw_state example_update_run = Updating"
    by (simp add: example_update_run_def example_update_start_def startChecking_def check_counted_def finishInitialCheck_def
        set_node_at_def update_visors_fields)
  ultimately show ?thesis
    using update_window_correct [of "[(''k'', ''Visor'')]" "''unknown''" "''starting''" example_update_start example_update_run]
      example_update_step
    by (simp add: example_update_start_def [symmetric])
qed

theorem updater_settings_used_witness:
  "map_get (update_body (uc_store (updater_accepted (updater_saveSettings ((updater_config_opened empty_store new_snackbar_service)
     \<lparr>uc_form := \<lparr>uf_channel = '' testing '', uf_version = [], uf_archive = [], uf_checksums = []\<rparr>\<rparr>))))) ''channel'' = Some ''testing''"
  using updater_settings_used [OF refl, of "(updater_config_opened empty_store new_snackbar_service)
     \<lparr>uc_form := \<lparr>uf_channel = '' testing '', uf_version = [], uf_archive = [], uf_checksums = []\<rparr>\<rparr>" "''k''" new_snackbar_service]
  by (simp add: trimmed_form_def trim_def is_ws_def Let_def)

end
