(* ===== verification/Proxy_Discovery.thy ===== *)
theory Proxy_Discovery
  imports Vpn_Server_List
begin

text \<open>
  \<open>proxy-discovery.service.ts\<close> and the part of \<open>skysocks-client-settings.component.ts\<close> that shows what it
  found: the filters, the texts in which the filter is highlighted and the pages. The search for the
  highlighted parts is a loop that would not end for an empty filter, so it is a partial function.
\<close>

section \<open>The discovery service\<close>

record ProxyDiscoveryEntry =
  pd_address :: string
  pd_pk :: string
  pd_port :: string
  pd_country :: "string option"
  pd_region :: "string option"
  pd_location :: string

definition truthy_opt_text :: "jsstr \<Rightarrow> string option" where
  "truthy_opt_text v = (case v of Str s \<Rightarrow> if s \<noteq> [] then Some s else None | _ \<Rightarrow> None)"

definition proxy_location :: "(string \<Rightarrow> jsstr) \<Rightarrow> string option \<Rightarrow> string option \<Rightarrow> string" where
  "proxy_location cl country region =
     (case country of Some c \<Rightarrow> truthy_text (cl (to_upper c)) c | None \<Rightarrow> []) @
     (if region \<noteq> None \<and> country \<noteq> None then '', '' else []) @
     (case region of Some r \<Rightarrow> r | None \<Rightarrow> [])"

definition proxy_entry :: "(string \<Rightarrow> jsstr) \<Rightarrow> discovery_entry \<Rightarrow> ProxyDiscoveryEntry list" where
  "proxy_entry cl e =
     (case split_on CHR '':'' (de_address e) of
        [pk, prt] \<Rightarrow>
          let country = (case de_geo e of Some (c, r) \<Rightarrow> truthy_opt_text c | None \<Rightarrow> None);
              region = (case de_geo e of Some (c, r) \<Rightarrow> truthy_opt_text r | None \<Rightarrow> None)
          in [\<lparr>pd_address = de_address e, pd_pk = pk, pd_port = prt, pd_country = country, pd_region = region,
               pd_location = proxy_location cl country region\<rparr>]
      | _ \<Rightarrow> [])"

definition getServices :: "(string \<Rightarrow> jsstr) \<Rightarrow> discovery_entry list option \<Rightarrow> ProxyDiscoveryEntry list" where
  "getServices cl result = concat (map (proxy_entry cl) (case result of Some es \<Rightarrow> es | None \<Rightarrow> []))"

definition discovery_url :: "bool \<Rightarrow> string" where
  "discovery_url getProxies =
     ''https://sd.skycoin.com/api/services?type='' @ (if getProxies then ''proxy'' else ''vpn'')"

section \<open>The filters\<close>

record SkysocksClientFilters =
  cf_country :: string
  cf_location :: string
  cf_key :: string

definition no_client_filters :: SkysocksClientFilters where
  "no_client_filters = \<lparr>cf_country = [], cf_location = [], cf_key = []\<rparr>"

text \<open>The window of the filters: the values of its form, and what it returns.\<close>

definition filter_form :: "SkysocksClientFilters \<Rightarrow> string \<times> string \<times> string" where
  "filter_form f = (if cf_country f \<noteq> [] then cf_country f else ''-'', cf_location f, cf_key f)"

definition apply_client_filters :: "string \<times> string \<times> string \<Rightarrow> SkysocksClientFilters" where
  "apply_client_filters form =
     (case form of (c, l, k) \<Rightarrow>
        \<lparr>cf_country = (if trim c = ''-'' then [] else trim c), cf_location = trim l, cf_key = trim k\<rparr>)"

definition proxy_passes :: "SkysocksClientFilters \<Rightarrow> ProxyDiscoveryEntry \<Rightarrow> bool" where
  "proxy_passes f p =
     (if cf_country f \<noteq> [] \<and>
         (case pd_country p of None \<Rightarrow> True | Some c \<Rightarrow> \<not> str_includes (to_upper c) (to_upper (cf_country f))) then False
      else if cf_location f \<noteq> [] \<and> \<not> str_includes (to_lower (pd_location p)) (to_lower (cf_location f)) then False
      else if cf_key f \<noteq> [] \<and> \<not> str_includes (to_lower (pd_address p)) (to_lower (cf_key f)) then False
      else True)"

definition filterProxies :: "SkysocksClientFilters \<Rightarrow> ProxyDiscoveryEntry list \<Rightarrow> ProxyDiscoveryEntry list" where
  "filterProxies f ps =
     (if cf_country f = [] \<and> cf_location f = [] \<and> cf_key f = [] then ps else filter (proxy_passes f) ps)"

definition updateCurrentFilters :: "(string \<Rightarrow> jsstr) \<Rightarrow> SkysocksClientFilters \<Rightarrow> (string \<times> string \<times> string) list" where
  "updateCurrentFilters cl f =
     (if cf_country f \<noteq> []
      then [(''apps.vpn-socks-client-settings.filter-dialog.country'', [], truthy_text (cl (to_upper (cf_country f))) (to_upper (cf_country f)))]
      else []) @
     (if cf_location f \<noteq> [] then [(''apps.vpn-socks-client-settings.filter-dialog.location'', [], cf_location f)] else []) @
     (if cf_key f \<noteq> [] then [(''apps.vpn-socks-client-settings.filter-dialog.pub-key'', [], cf_key f)] else [])"

section \<open>Highlighting\<close>

text \<open>\<open>s.indexOf(t, from)\<close> and \<open>s.substring(a, b)\<close>, for indexes in the text.\<close>

definition index_from :: "string \<Rightarrow> string \<Rightarrow> nat \<Rightarrow> nat option" where
  "index_from s t fromIndex = find (\<lambda>i. starts_with (drop i s) t) [fromIndex..<Suc (length s)]"

definition substring :: "string \<Rightarrow> nat \<Rightarrow> nat \<Rightarrow> string" where
  "substring s a b = take (b - a) (drop a s)"

partial_function (option) highlight_loop :: "string \<Rightarrow> string \<Rightarrow> nat \<Rightarrow> string list option" where
  "highlight_loop completeText flt currentIndex =
     (case index_from (to_lower completeText) (to_lower flt) currentIndex of
        None \<Rightarrow> Some [drop currentIndex completeText]
      | Some i \<Rightarrow>
          Option.bind (highlight_loop completeText flt (i + length flt)) (\<lambda>rest.
            Some (substring completeText currentIndex i # substring completeText i (i + length flt) # rest)))"

definition getHighlightedTextParts :: "string \<Rightarrow> string \<Rightarrow> string list option" where
  "getHighlightedTextParts completeText flt =
     (if flt = [] then Some [completeText] else highlight_loop completeText flt 0)"

text \<open>The parts as the page uses them: in turns text without the filter and the filter itself.\<close>

fun alternates :: "string \<Rightarrow> string list \<Rightarrow> bool" where
  "alternates flt [x] = (\<not> str_includes (to_lower x) (to_lower flt))"
| "alternates flt (x # y # r) =
     (\<not> str_includes (to_lower x) (to_lower flt) \<and> to_lower y = to_lower flt \<and> alternates flt r)"
| "alternates flt [] = False"

lemma find_upt:
  assumes "find P [a..<b] = r"
  shows "case r of None \<Rightarrow> \<forall>j. a \<le> j \<and> j < b \<longrightarrow> \<not> P j
    | Some i \<Rightarrow> a \<le> i \<and> i < b \<and> P i \<and> (\<forall>j. a \<le> j \<and> j < i \<longrightarrow> \<not> P j)"
  using assms
proof (induction b arbitrary: r)
  case (Suc b)
  show ?case
  proof (cases "a \<le> b")
    case True
    then have "r = (case find P [a..<b] of Some j \<Rightarrow> Some j | None \<Rightarrow> if P b then Some b else None)"
      using Suc.prems by (auto simp: find_append_option split: option.split)
    then show ?thesis
      using Suc.IH [OF refl] True by (auto simp: less_Suc_eq split: option.splits if_splits)
  next
    case False
    then show ?thesis using Suc.prems by auto
  qed
qed auto

lemma to_lower_take_drop [simp]: "to_lower (take n s) = take n (to_lower s)" "to_lower (drop n s) = drop n (to_lower s)"
  by (simp_all add: to_lower_def take_map drop_map)

lemma length_to_lower [simp]: "length (to_lower s) = length s"
  by (simp add: to_lower_def)

lemma includes_at: "str_includes s t \<longleftrightarrow> (\<exists>j. j + length t \<le> length s \<and> starts_with (drop j s) t)"
proof
  assume "str_includes s t"
  then obtain a b where "s = a @ t @ b" by (auto simp: str_includes_iff)
  then show "\<exists>j. j + length t \<le> length s \<and> starts_with (drop j s) t"
    by (intro exI [of _ "length a"]) (simp add: starts_with_iff)
next
  assume "\<exists>j. j + length t \<le> length s \<and> starts_with (drop j s) t"
  then obtain j b where "drop j s = t @ b" by (auto simp: starts_with_iff)
  then have "s = take j s @ t @ b" by (metis append_take_drop_id)
  then show "str_includes s t" unfolding str_includes_iff by blast
qed

lemma starts_with_bounded: "starts_with (drop i s) t \<Longrightarrow> t \<noteq> [] \<Longrightarrow> i + length t \<le> length s \<and> take (length t) (drop i s) = t"
proof -
  assume "starts_with (drop i s) t" "t \<noteq> []"
  then obtain b where b: "drop i s = t @ b" by (auto simp: starts_with_iff)
  then have "length s - i = length t + length b" by (metis length_append length_drop)
  moreover have "0 < length t" using \<open>t \<noteq> []\<close> by simp
  ultimately have "i + length t \<le> length s" by linarith
  then show ?thesis using b by simp
qed

lemma starts_with_take: "starts_with (take n s) t \<Longrightarrow> starts_with s t"
  unfolding starts_with_iff by (metis append.assoc append_take_drop_id)

lemma first_match:
  assumes "flt \<noteq> []" and "index_from (to_lower s) (to_lower flt) cur = Some i"
  shows "cur \<le> i" and "i + length flt \<le> length s" and "to_lower (substring s i (i + length flt)) = to_lower flt"
    and "\<not> str_includes (to_lower (substring s cur i)) (to_lower flt)"
proof -
  let ?P = "\<lambda>i. starts_with (drop i (to_lower s)) (to_lower flt)"
  have i: "cur \<le> i" "?P i" "\<And>j. cur \<le> j \<Longrightarrow> j < i \<Longrightarrow> \<not> ?P j"
    using find_upt [OF assms(2) [unfolded index_from_def]] by auto
  show "cur \<le> i" by (rule i(1))
  have b: "i + length flt \<le> length s" "take (length flt) (drop i (to_lower s)) = to_lower flt"
    using starts_with_bounded [OF i(2)] assms(1) by simp_all
  then show "i + length flt \<le> length s" "to_lower (substring s i (i + length flt)) = to_lower flt"
    by (simp_all add: substring_def)
  show "\<not> str_includes (to_lower (substring s cur i)) (to_lower flt)"
  proof
    assume "str_includes (to_lower (substring s cur i)) (to_lower flt)"
    then obtain j where j: "j + length flt \<le> i - cur"
      "starts_with (drop j (take (i - cur) (drop cur (to_lower s)))) (to_lower flt)"
      using b(1) i(1) by (auto simp: includes_at substring_def)
    then have "?P (cur + j)"
      by (auto simp: drop_take add.commute intro: starts_with_take)
    moreover have "cur + j < i" using j(1) assms(1) by (cases flt) auto
    ultimately show False using i(3) [of "cur + j"] by simp
  qed
qed

lemma no_match:
  assumes "flt \<noteq> []" and "index_from (to_lower s) (to_lower flt) cur = None"
  shows "\<not> str_includes (to_lower (drop cur s)) (to_lower flt)"
proof
  assume "str_includes (to_lower (drop cur s)) (to_lower flt)"
  then obtain j where j: "j + length flt \<le> length s - cur" "starts_with (drop (cur + j) (to_lower s)) (to_lower flt)"
    by (auto simp: includes_at add.commute)
  have "0 < length flt" using assms(1) by simp
  then have "cur + j < Suc (length s)" using j(1) by linarith
  then have "\<not> starts_with (drop (cur + j) (to_lower s)) (to_lower flt)"
    using find_upt [OF assms(2) [unfolded index_from_def]] by simp
  then show False using j(2) by simp
qed

lemma highlight_loop_result:
  assumes "flt \<noteq> []" and "cur \<le> length s"
  shows "\<exists>parts. highlight_loop s flt cur = Some parts \<and> concat parts = drop cur s \<and> alternates flt parts"
  using assms(2)
proof (induction "length s - cur" arbitrary: cur rule: less_induct)
  case less
  show ?case
  proof (cases "index_from (to_lower s) (to_lower flt) cur")
    case None
    then have "highlight_loop s flt cur = Some [drop cur s]" by (simp add: highlight_loop.simps)
    then show ?thesis using no_match [OF assms(1) None] by simp
  next
    case (Some i)
    note m = first_match [OF assms(1) Some]
    have "0 < length flt" using assms(1) by simp
    then have "length s - (i + length flt) < length s - cur" using m(1,2) by linarith
    from less.hyps [OF this m(2)] obtain rest where
      rest: "highlight_loop s flt (i + length flt) = Some rest" "concat rest = drop (i + length flt) s" "alternates flt rest"
      by blast
    let ?parts = "substring s cur i # substring s i (i + length flt) # rest"
    have "highlight_loop s flt cur = Some ?parts" by (simp add: highlight_loop.simps [of s flt cur] Some rest(1))
    moreover have "concat ?parts = drop cur s"
    proof -
      have "drop cur s = take (i - cur) (drop cur s) @ drop i s"
        using m(1) append_take_drop_id [of "i - cur" "drop cur s"] by simp
      moreover have "drop i s = take (length flt) (drop i s) @ drop (i + length flt) s"
        using append_take_drop_id [of "length flt" "drop i s"] by (simp add: add.commute)
      ultimately show ?thesis by (simp add: substring_def rest(2))
    qed
    moreover have "alternates flt ?parts" using m(3,4) rest(3) by simp
    ultimately show ?thesis by blast
  qed
qed

text \<open>
  Highlighting always ends, for every text and filter: the loop returns the parts of
  the text, which put together are the text, and in turns they are parts without the filter and the
  filter itself as the text writes it; without a filter the text is the only part.
\<close>

theorem highlighting_terminates:
  "\<exists>parts. getHighlightedTextParts s flt = Some parts \<and> concat parts = s \<and>
     (if flt = [] then parts = [s] else alternates flt parts)"
  using highlight_loop_result [of flt 0 s] by (simp add: getHighlightedTextParts_def)

end
