(* ===== verification/Client_Settings.thy ===== *)
theory Client_Settings
  imports Proxy_Discovery Apps_List General_Utils
begin

text \<open>
  \<open>skysocks-client-settings.component.ts\<close>: the window that configures the clients of the VPN and of the
  proxy, with its history of servers in the storage, the pages of the servers that were found, and the
  two operations. At most one operation is under way; the request that waits for its answer is a field
  of the state, and the dialogs are the answers of the user.
\<close>

section \<open>The history\<close>

record HistoryEntry =
  he_key :: string
  he_enteredManually :: bool
  he_location :: jsstr
  he_note :: jsstr
  he_hasPassword :: "bool option"

definition put_opt_bool :: "string \<Rightarrow> bool option \<Rightarrow> (string \<times> json) list" where
  "put_opt_bool k v = (case v of Some b \<Rightarrow> [(k, JBool b)] | None \<Rightarrow> [])"

definition get_opt_bool :: "(string \<times> json) list \<Rightarrow> string \<Rightarrow> bool option js_result" where
  "get_opt_bool ms k =
     (case obj_get ms k of None \<Rightarrow> Inr None | Some (JBool b) \<Rightarrow> Inr (Some b) | _ \<Rightarrow> Inl TypeError)"

definition enc_entry :: "HistoryEntry \<Rightarrow> json" where
  "enc_entry e = JObj (
     [(''key'', JStr (he_key e)), (''enteredManually'', JBool (he_enteredManually e))] @
     put_opt_bool ''hasPassword'' (he_hasPassword e) @ put_jsstr ''location'' (he_location e) @
     put_jsstr ''note'' (he_note e))"

definition dec_entry :: "json \<Rightarrow> HistoryEntry js_result" where
  "dec_entry j =
     (case j of
        JObj ms \<Rightarrow>
          bindR (get_string ms ''key'') (\<lambda>k.
          bindR (get_bool ms ''enteredManually'') (\<lambda>m.
          bindR (get_opt_bool ms ''hasPassword'') (\<lambda>p.
          bindR (get_jsstr ms ''location'') (\<lambda>l.
          bindR (get_jsstr ms ''note'') (\<lambda>n.
          Inr \<lparr>he_key = k, he_enteredManually = m, he_location = l, he_note = n, he_hasPassword = p\<rparr>)))))
      | _ \<Rightarrow> Inl TypeError)"

lemma dec_enc_entry: "dec_entry (enc_entry e) = Inr e"
  by (cases "he_location e"; cases "he_note e"; cases "he_hasPassword e")
    (simp_all add: enc_entry_def dec_entry_def get_member_defs get_opt_bool_def put_opt_bool_def)

interpretation entry_codec: json_codec enc_entry dec_entry
  by unfold_locales (rule dec_enc_entry)

interpretation history_store: persisted_list getDataForHv setDataForHv enc_entry dec_entry
  by unfold_locales

definition historyStorageKey :: "bool \<Rightarrow> string" where
  "historyStorageKey configuringVpn = (if configuringVpn then ''VpnClientHistory_'' else ''SkysocksClientHistory_'')"

definition load_history :: "bool \<Rightarrow> hv_store \<Rightarrow> HistoryEntry list js_result" where
  "load_history vpn st =
     (case getDataForHv st (historyStorageKey vpn) of
        None \<Rightarrow> Inr []
      | Some t \<Rightarrow> if t = [] then Inr [] else bindR (json_parse t) (dec_list dec_entry))"

definition save_history :: "bool \<Rightarrow> HistoryEntry list \<Rightarrow> hv_store \<Rightarrow> hv_store" where
  "save_history vpn h st = setDataForHv (historyStorageKey vpn) (stringify (JArr (map enc_entry h))) st"

definition migrateHistory :: "hv_store \<Rightarrow> hv_store" where
  "migrateHistory st = migrate_key (historyStorageKey True) (migrate_key (historyStorageKey False) st)"

lemma load_save_history [simp]: "load_history vpn (save_history vpn h st) = Inr h"
proof -
  have "stringify (JArr (map enc_entry h)) \<noteq> []" by (rule stringify_head(1))
  then show ?thesis
    by (simp add: load_history_def save_history_def hvs.get_put parse_stringify entry_codec.dec_list_enc)
qed

definition drop_key :: "string \<Rightarrow> HistoryEntry list \<Rightarrow> HistoryEntry list" where
  "drop_key k h = filter (\<lambda>e. he_key e \<noteq> k) h"

definition maxClientHistory :: nat where "maxClientHistory = 10"

definition new_entry :: "string \<Rightarrow> bool \<Rightarrow> bool \<Rightarrow> jsstr \<Rightarrow> jsstr \<Rightarrow> HistoryEntry" where
  "new_entry pk hasPassword manual location note =
     \<lparr>he_key = pk, he_enteredManually = manual, he_location = (if truthy location then location else Undefined),
      he_note = (if truthy note then note else Undefined), he_hasPassword = (if hasPassword then Some True else None)\<rparr>"

text \<open>\<open>splice\<close> removes from the end what is too much.\<close>

definition add_entry :: "HistoryEntry \<Rightarrow> HistoryEntry list \<Rightarrow> HistoryEntry list" where
  "add_entry e h =
     (let h1 = [e] @ drop_key (he_key e) h in
      if length h1 > maxClientHistory
      then let itemsToRemove = length h1 - maxClientHistory in take (length h1 - itemsToRemove) h1
      else h1)"

definition change_entry_note :: "string \<Rightarrow> string \<Rightarrow> HistoryEntry list \<Rightarrow> HistoryEntry list" where
  "change_entry_note k n h = map (\<lambda>e. if he_key e = k then e\<lparr>he_note := Str n\<rparr> else e) h"

section \<open>The window\<close>

datatype open_operation =
    ServerRequest string bool bool jsstr jsstr
  | SettingsRequest bool jsstr

record client_settings =
  configuringVpn :: bool
  cs_app :: string
  cs_store :: hv_store
  cs_history :: "HistoryEntry list"
  proxiesFromDiscovery :: "ProxyDiscoveryEntry list"
  countriesFromDiscovery :: "string jsset"
  filteredProxies :: "ProxyDiscoveryEntry list"
  proxiesToShow :: "ProxyDiscoveryEntry list"
  loadingFromDiscovery :: bool
  cs_numberOfPages :: nat
  cs_currentPage :: int
  currentRange :: string
  cs_filters :: SkysocksClientFilters
  cs_filterTexts :: "(string \<times> string \<times> string) list"
  initialKillswitchSetting :: bool
  initialDnsSetting :: jsstr
  cs_working :: bool
  cs_button :: ButtonStates
  cs_settingsButton :: "ButtonStates option"
  form_pk :: string
  form_password :: string
  form_killswitch :: bool
  form_dns :: jsstr
  cs_open :: "open_operation option"

definition tab_labels :: "bool \<Rightarrow> string list" where
  "tab_labels vpn =
     [''apps.vpn-socks-client-settings.remote-visor-tab'', ''apps.vpn-socks-client-settings.discovery-tab'',
      ''apps.vpn-socks-client-settings.history-tab''] @
     (if vpn then [''apps.vpn-socks-client-settings.settings-tab''] else [])"

text \<open>The values of the arguments of the app: a missing value after \<open>-dns\<close> is \<open>undefined\<close>.\<close>

definition arg_step :: "string list \<Rightarrow> nat \<Rightarrow> string \<times> bool \<times> jsstr \<Rightarrow> string \<times> bool \<times> jsstr" where
  "arg_step args i acc =
     (case acc of (srv, kill, dnsVal) \<Rightarrow>
        (if args ! i = ''-srv'' \<and> i + 1 < length args then args ! (i + 1) else srv,
         if str_includes (to_lower (args ! i)) ''-killswitch'' then str_includes (to_lower (args ! i)) ''true'' else kill,
         if str_includes (to_lower (args ! i)) ''-dns''
         then (if i + 1 < length args then Str (args ! (i + 1)) else Undefined) else dnsVal))"

definition read_args :: "string list \<Rightarrow> string \<times> bool \<times> jsstr" where
  "read_args args = fold (arg_step args) [0..<length args] ([], False, Str [])"

definition open_settings :: "Application \<Rightarrow> hv_store \<Rightarrow> client_settings js_result" where
  "open_settings a st =
     (let vpn = str_includes (to_lower (app_name a)) ''vpn'';
          st1 = migrateHistory st in
      bindR (load_history vpn st1) (\<lambda>h.
        case read_args (app_args a) of (srv, kill, dnsVal) \<Rightarrow>
          Inr \<lparr>configuringVpn = vpn, cs_app = app_name a, cs_store = st1, cs_history = h, proxiesFromDiscovery = [],
               countriesFromDiscovery = [], filteredProxies = [], proxiesToShow = [], loadingFromDiscovery = True,
               cs_numberOfPages = 1, cs_currentPage = 1, currentRange = ''1 - 1'', cs_filters = no_client_filters,
               cs_filterTexts = [], initialKillswitchSetting = kill, initialDnsSetting = dnsVal, cs_working = False,
               cs_button = ButtonNormal, cs_settingsButton = (if vpn then Some ButtonNormal else None), form_pk = srv,
               form_password = [], form_killswitch = kill, form_dns = dnsVal, cs_open = None\<rparr>))"

definition form_valid :: "client_settings \<Rightarrow> bool" where
  "form_valid c \<longleftrightarrow> valid_server_pk (form_pk c) \<and> length (form_password c) \<le> 100"

definition settings_form_valid :: "client_settings \<Rightarrow> bool" where
  "settings_form_valid c \<longleftrightarrow>
     (case form_dns c of Str s \<Rightarrow> length s \<le> 15 | _ \<Rightarrow> True) \<and> checkIfIpValidOrEmpty (form_dns c)"

definition settingsChanged :: "client_settings \<Rightarrow> bool" where
  "settingsChanged c \<longleftrightarrow> initialKillswitchSetting c \<noteq> form_killswitch c \<or> initialDnsSetting c \<noteq> form_dns c"

definition dismiss_disabled :: "client_settings \<Rightarrow> bool" where
  "dismiss_disabled c \<longleftrightarrow> cs_button c = ButtonLoading \<or> cs_settingsButton c = Some ButtonLoading"

subsection \<open>The servers that were found\<close>

definition elementsPerPage :: int where "elementsPerPage = 10"

definition showCurrentPage :: "client_settings \<Rightarrow> client_settings" where
  "showCurrentPage c =
     (let p = cs_currentPage c in
      c\<lparr>proxiesToShow := js_slice ((p - 1) * elementsPerPage) (p * elementsPerPage) (filteredProxies c),
        currentRange := int_to_string ((p - 1) * elementsPerPage + 1) @ '' - '' @
          (if p < int (cs_numberOfPages c) then int_to_string (p * elementsPerPage)
           else int_to_string (int (length (filteredProxies c))))\<rparr>)"

definition updatePagination :: "client_settings \<Rightarrow> client_settings" where
  "updatePagination c =
     showCurrentPage (c\<lparr>cs_currentPage := 1, cs_numberOfPages := ceil_div (length (filteredProxies c)) (nat elementsPerPage)\<rparr>)"

definition goToNextPage :: "client_settings \<Rightarrow> client_settings" where
  "goToNextPage c =
     (if cs_currentPage c \<ge> int (cs_numberOfPages c) then c
      else showCurrentPage (c\<lparr>cs_currentPage := cs_currentPage c + 1\<rparr>))"

definition goToPreviousPage :: "client_settings \<Rightarrow> client_settings" where
  "goToPreviousPage c =
     (if cs_currentPage c \<le> 1 then c else showCurrentPage (c\<lparr>cs_currentPage := cs_currentPage c - 1\<rparr>))"

definition filter_proxies :: "(string \<Rightarrow> jsstr) \<Rightarrow> client_settings \<Rightarrow> client_settings" where
  "filter_proxies cl c =
     updatePagination (c\<lparr>filteredProxies := filterProxies (cs_filters c) (proxiesFromDiscovery c),
       cs_filterTexts := updateCurrentFilters cl (cs_filters c)\<rparr>)"

definition discovery_received :: "(string \<Rightarrow> jsstr) \<Rightarrow> ProxyDiscoveryEntry list \<Rightarrow> client_settings \<Rightarrow> client_settings" where
  "discovery_received cl ps c =
     (filter_proxies cl (c\<lparr>proxiesFromDiscovery := ps,
       countriesFromDiscovery := fold (\<lambda>p s. case pd_country p of Some k \<Rightarrow> set_add (to_upper k) s | None \<Rightarrow> s) ps
         (countriesFromDiscovery c)\<rparr>))\<lparr>loadingFromDiscovery := False\<rparr>"

definition changeFilters :: "(string \<Rightarrow> jsstr) \<Rightarrow> SkysocksClientFilters option \<Rightarrow> client_settings \<Rightarrow> client_settings" where
  "changeFilters cl r c = (case r of Some f \<Rightarrow> filter_proxies cl (c\<lparr>cs_filters := f\<rparr>) | None \<Rightarrow> c)"

subsection \<open>The operations of the user\<close>

definition set_history :: "HistoryEntry list \<Rightarrow> client_settings \<Rightarrow> client_settings" where
  "set_history h c = c\<lparr>cs_history := h, cs_store := save_history (configuringVpn c) h (cs_store c)\<rparr>"

definition remove_history_entry :: "string \<Rightarrow> bool \<Rightarrow> client_settings \<Rightarrow> client_settings" where
  "remove_history_entry k accepted c = (if accepted then set_history (drop_key k (cs_history c)) c else c)"

text \<open>The window of the note returns the note after a mark, the window of the password too.\<close>

definition note_result :: "string \<Rightarrow> string" where "note_result v = CHR ''-'' # trim v"

definition change_note :: "HistoryEntry \<Rightarrow> string option \<Rightarrow> client_settings \<Rightarrow> client_settings \<times> ui_event list" where
  "change_note e r c =
     (case r of
        Some (x # n) \<Rightarrow>
          (set_history (change_entry_note (he_key e) n (cs_history c)) c,
           [if n = [] then SnackbarWarning ''apps.vpn-socks-client-settings.default-note-warning''
            else SnackbarDone ''apps.vpn-socks-client-settings.changes-made''])
      | _ \<Rightarrow> (c, []))"

definition password_truthy :: "jsstr \<Rightarrow> string" where
  "password_truthy p = (case p of Str s \<Rightarrow> s | _ \<Rightarrow> [])"

definition server_settings :: "client_settings \<Rightarrow> string \<Rightarrow> jsstr \<Rightarrow> element" where
  "server_settings c pk password =
     [(''pk'', VStr pk)] @ (if configuringVpn c then [(''passcode'', VStr (password_truthy password))] else [])"

definition continueSavingChanges ::
  "string \<Rightarrow> string \<Rightarrow> jsstr \<Rightarrow> bool \<Rightarrow> jsstr \<Rightarrow> jsstr \<Rightarrow> client_settings \<Rightarrow> client_settings \<times> http_request option" where
  "continueSavingChanges visorKey pk password manual location note c =
     (if cs_working c then (c, None)
      else
        (c\<lparr>cs_button := ButtonLoading, cs_settingsButton := map_option (\<lambda>b. ButtonLoading) (cs_settingsButton c),
           cs_working := True, cs_open := Some (ServerRequest pk (truthy password) manual location note)\<rparr>,
         Some (changeAppSettings visorKey (cs_app c) (server_settings c pk password))))"

text \<open>
  \<open>saveChanges\<close>; without a key (\<open>None\<close>) the form gives it. The confirmation is the parameter
  \<open>accepted\<close>, with the state at the moment of the answer, which the caller passes.
\<close>

definition saveChanges_args ::
  "string option \<Rightarrow> jsstr \<Rightarrow> bool \<Rightarrow> client_settings \<Rightarrow> (string \<times> jsstr \<times> bool) option" where
  "saveChanges_args givenKey password manual c =
     (let given = (case givenKey of Some k \<Rightarrow> k \<noteq> [] | None \<Rightarrow> False) in
      if (\<not> form_valid c \<and> \<not> given) \<or> cs_working c then None
      else Some (if given then (case givenKey of Some k \<Rightarrow> k | None \<Rightarrow> []) else form_pk c,
                 if given then password else Str (form_password c), if given then manual else True))"

definition use_from_history :: "HistoryEntry \<Rightarrow> string option \<Rightarrow> client_settings \<Rightarrow> (string \<times> jsstr \<times> bool) option" where
  "use_from_history e r c =
     (if he_hasPassword e \<noteq> Some True then saveChanges_args (Some (he_key e)) Null (he_enteredManually e) c
      else (case r of
              Some (x # p) \<Rightarrow> saveChanges_args (Some (he_key e)) (Str p) (he_enteredManually e) c
            | _ \<Rightarrow> None))"

datatype history_action = UseEntry | ChangeNote | RemoveEntry | NoHistoryAction

definition history_option_selected :: "nat option \<Rightarrow> history_action" where
  "history_option_selected selectedOption =
     (if selectedOption = Some 1 then UseEntry else if selectedOption = Some 2 then ChangeNote
      else if selectedOption = Some 3 then RemoveEntry else NoHistoryAction)"

definition saveSettings :: "string \<Rightarrow> client_settings \<Rightarrow> client_settings \<times> http_request option" where
  "saveSettings visorKey c =
     (if cs_working c then (c, None)
      else
        (c\<lparr>cs_settingsButton := Some ButtonLoading, cs_button := ButtonLoading, cs_working := True,
           cs_open := Some (SettingsRequest (form_killswitch c) (form_dns c))\<rparr>,
         Some (changeAppSettings visorKey (cs_app c)
           [(''killswitch'', VBool (form_killswitch c)),
            (''dns'', (case form_dns c of Str s \<Rightarrow> VStr s | Null \<Rightarrow> VNull | Undefined \<Rightarrow> VUndef))])))"

subsection \<open>The answers of the visor\<close>

definition server_change_done :: "string \<Rightarrow> bool \<Rightarrow> bool \<Rightarrow> jsstr \<Rightarrow> jsstr \<Rightarrow> client_settings \<Rightarrow> client_settings" where
  "server_change_done pk hasPassword manual location note c =
     (set_history (add_entry (new_entry pk hasPassword manual location note) (cs_history c)) c)
       \<lparr>form_pk := pk, cs_working := False, cs_open := None, cs_button := ButtonNormal,
        cs_settingsButton := map_option (\<lambda>b. ButtonNormal) (cs_settingsButton c)\<rparr>"

definition server_change_failed :: "client_settings \<Rightarrow> client_settings" where
  "server_change_failed c =
     c\<lparr>cs_working := False, cs_open := None, cs_button := ButtonError,
       cs_settingsButton := map_option (\<lambda>b. ButtonNormal) (cs_settingsButton c)\<rparr>"

definition settings_saved :: "bool \<Rightarrow> jsstr \<Rightarrow> client_settings \<Rightarrow> client_settings" where
  "settings_saved kill dnsVal c =
     c\<lparr>initialKillswitchSetting := kill, initialDnsSetting := dnsVal, cs_working := False, cs_open := None,
       cs_settingsButton := Some ButtonNormal, cs_button := ButtonNormal\<rparr>"

definition settings_failed :: "client_settings \<Rightarrow> client_settings" where
  "settings_failed c =
     c\<lparr>cs_working := False, cs_open := None, cs_settingsButton := Some ButtonError, cs_button := ButtonNormal\<rparr>"

definition answered :: "jsval option \<Rightarrow> client_settings \<Rightarrow> client_settings \<times> ui_event list" where
  "answered err c =
     (case cs_open c of
        None \<Rightarrow> (c, [])
      | Some (ServerRequest pk hasPassword manual location note) \<Rightarrow>
          (case err of
             None \<Rightarrow> (server_change_done pk hasPassword manual location note c,
                      [RefreshData, SnackbarDone ''apps.vpn-socks-client-settings.changes-made''])
           | Some e \<Rightarrow> (server_change_failed c, [snackbar_error e]))
      | Some (SettingsRequest kill dnsVal) \<Rightarrow>
          (case err of
             None \<Rightarrow> (settings_saved kill dnsVal c, [SnackbarDone ''apps.vpn-socks-client-settings.changes-made'', RefreshData])
           | Some e \<Rightarrow> (settings_failed c, [snackbar_error e])))"

section \<open>What the user and the visor do\<close>

text \<open>
  The steps of the window. The filters are only shown when the servers are loaded. A confirmed change continues with the arguments that were computed when
  the question was asked, in the state of the moment of the answer.
\<close>

inductive settings_step :: "(string \<Rightarrow> jsstr) \<Rightarrow> client_settings \<Rightarrow> client_settings \<Rightarrow> bool" for cl where
  received: "settings_step cl c (discovery_received cl ps c)"
| filters: "\<not> loadingFromDiscovery c \<Longrightarrow> settings_step cl c (changeFilters cl r c)"
| next_page: "settings_step cl c (goToNextPage c)"
| previous_page: "settings_step cl c (goToPreviousPage c)"
| removed: "settings_step cl c (remove_history_entry k accepted c)"
| note_changed: "settings_step cl c (fst (change_note e r c))"
| confirmed: "settings_step cl c (fst (continueSavingChanges visorKey pk password manual location note c))"
| settings: "settings_step cl c (fst (saveSettings visorKey c))"
| answer: "settings_step cl c (fst (answered err c))"

inductive_cases settings_stepE: "settings_step cl c c'"

definition history_ok :: "HistoryEntry list \<Rightarrow> bool" where
  "history_ok h \<longleftrightarrow> length h \<le> maxClientHistory \<and> distinct (map he_key h)"

definition pages_ok :: "client_settings \<Rightarrow> bool" where
  "pages_ok c \<longleftrightarrow> 1 \<le> cs_currentPage c \<and> cs_currentPage c \<le> max 1 (int (cs_numberOfPages c)) \<and>
     (\<not> loadingFromDiscovery c \<longrightarrow>
        cs_numberOfPages c = ceil_div (length (filteredProxies c)) 10 \<and>
        proxiesToShow c = take 10 (drop (10 * nat (cs_currentPage c - 1)) (filteredProxies c)))"

definition settings_ok :: "client_settings \<Rightarrow> bool" where
  "settings_ok c \<longleftrightarrow> (cs_working c \<longleftrightarrow> cs_open c \<noteq> None) \<and> (cs_button c = ButtonLoading \<longleftrightarrow> cs_open c \<noteq> None) \<and>
     history_ok (cs_history c) \<and> load_history (configuringVpn c) (cs_store c) = Inr (cs_history c) \<and> pages_ok c"

lemma drop_key_ok: "history_ok h \<Longrightarrow> history_ok (drop_key k h)"
  unfolding history_ok_def drop_key_def by (metis distinct_map_filter le_trans length_filter_le)

lemma add_entry_ok: "history_ok h \<Longrightarrow> history_ok (add_entry e h)"
proof -
  assume "history_ok h"
  then have "distinct (map he_key ([e] @ drop_key (he_key e) h))"
    using drop_key_ok [of h "he_key e"] by (auto simp: history_ok_def drop_key_def)
  then have "distinct (map he_key (take n ([e] @ drop_key (he_key e) h)))" for n
    by (simp only: take_map [symmetric] distinct_take)
  then show ?thesis
    using \<open>distinct (map he_key ([e] @ drop_key (he_key e) h))\<close>
    by (auto simp: add_entry_def history_ok_def Let_def)
qed

lemma change_note_ok: "history_ok h \<Longrightarrow> history_ok (change_entry_note k n h)"
proof -
  have "map he_key (change_entry_note k n h) = map he_key h" by (induction h) (auto simp: change_entry_note_def)
  moreover have "length (change_entry_note k n h) = length h" by (simp add: change_entry_note_def)
  ultimately show "history_ok h \<Longrightarrow> history_ok (change_entry_note k n h)" by (simp add: history_ok_def)
qed

lemma set_history_ok:
  "settings_ok c \<Longrightarrow> history_ok h \<Longrightarrow> settings_ok (set_history h c)"
  by (simp add: settings_ok_def set_history_def pages_ok_def)

lemma show_page_fields [simp]:
  "cs_currentPage (showCurrentPage c) = cs_currentPage c" "cs_numberOfPages (showCurrentPage c) = cs_numberOfPages c"
  "filteredProxies (showCurrentPage c) = filteredProxies c" "loadingFromDiscovery (showCurrentPage c) = loadingFromDiscovery c"
  "cs_working (showCurrentPage c) = cs_working c" "cs_open (showCurrentPage c) = cs_open c"
  "cs_button (showCurrentPage c) = cs_button c" "cs_history (showCurrentPage c) = cs_history c"
  "cs_store (showCurrentPage c) = cs_store c" "configuringVpn (showCurrentPage c) = configuringVpn c"
  by (simp_all add: showCurrentPage_def Let_def)

lemma show_page_slice:
  assumes "1 \<le> cs_currentPage c"
  shows "proxiesToShow (showCurrentPage c) = take 10 (drop (10 * nat (cs_currentPage c - 1)) (filteredProxies c))"
proof -
  let ?p = "cs_currentPage c"
  have "proxiesToShow (showCurrentPage c) = js_slice ((?p - 1) * 10) (?p * 10) (filteredProxies c)"
    by (simp add: showCurrentPage_def Let_def elementsPerPage_def)
  also have "\<dots> = take (nat (?p * 10) - nat ((?p - 1) * 10)) (drop (nat ((?p - 1) * 10)) (filteredProxies c))"
    using assms by (intro js_slice_nonneg) simp_all
  also have "nat ((?p - 1) * 10) = 10 * nat (?p - 1)" using assms by (simp add: nat_mult_distrib)
  also have "nat (?p * 10) - 10 * nat (?p - 1) = 10" using assms by linarith
  finally show ?thesis .
qed

lemma pagination_ok: "pages_ok (updatePagination c)"
  by (simp add: pages_ok_def updatePagination_def show_page_slice elementsPerPage_def)

lemma filter_proxies_ok: "settings_ok c \<Longrightarrow> settings_ok (filter_proxies cl c)"
  using pagination_ok by (simp add: settings_ok_def filter_proxies_def) (simp add: updatePagination_def)

lemma page_moved_ok:
  assumes "settings_ok c" and "1 \<le> p" and "p \<le> max 1 (int (cs_numberOfPages c))"
  shows "settings_ok (showCurrentPage (c\<lparr>cs_currentPage := p\<rparr>))"
  using assms by (auto simp: settings_ok_def pages_ok_def show_page_slice)

lemma pages_ok_upd [simp]:
  "pages_ok (c\<lparr>cs_working := w\<rparr>) = pages_ok c" "pages_ok (c\<lparr>cs_open := x\<rparr>) = pages_ok c"
  "pages_ok (c\<lparr>cs_button := b\<rparr>) = pages_ok c" "pages_ok (c\<lparr>cs_settingsButton := s\<rparr>) = pages_ok c"
  "pages_ok (c\<lparr>form_pk := k\<rparr>) = pages_ok c" "pages_ok (c\<lparr>initialKillswitchSetting := v\<rparr>) = pages_ok c"
  "pages_ok (c\<lparr>initialDnsSetting := d\<rparr>) = pages_ok c"
  by (simp_all add: pages_ok_def)

lemma answered_ok: "settings_ok c \<Longrightarrow> settings_ok (fst (answered err c))"
  using set_history_ok [OF _ add_entry_ok]
  by (simp add: answered_def split: option.split open_operation.split)
    (simp add: settings_ok_def server_change_done_def server_change_failed_def settings_saved_def settings_failed_def)

lemma settings_step_ok:
  assumes "settings_step cl c c'" and "settings_ok c"
  shows "settings_ok c'"
  using assms
proof (induction rule: settings_step.induct)
  case (received c ps)
  let ?c = "c\<lparr>proxiesFromDiscovery := ps, countriesFromDiscovery := fold (\<lambda>p s. case pd_country p of
    Some k \<Rightarrow> set_add (to_upper k) s | None \<Rightarrow> s) ps (countriesFromDiscovery c)\<rparr>"
  have "settings_ok ?c" using received by (simp add: settings_ok_def pages_ok_def)
  from filter_proxies_ok [OF this, of cl] show ?case
    by (simp add: discovery_received_def settings_ok_def pages_ok_def filter_proxies_def updatePagination_def
        show_page_slice elementsPerPage_def)
next
  case (filters c r)
  have "settings_ok (c\<lparr>cs_filters := f\<rparr>) = settings_ok c" for f by (simp add: settings_ok_def pages_ok_def)
  then have "settings_ok (c\<lparr>cs_filters := f\<rparr>)" for f using filters by simp
  then show ?case
    using filter_proxies_ok [of "c\<lparr>cs_filters := f\<rparr>" cl for f] filters(2) by (simp add: changeFilters_def split: option.split)
next
  case (next_page c)
  then have "settings_ok c" "1 \<le> cs_currentPage c" by (simp_all add: settings_ok_def pages_ok_def)
  then show ?case using page_moved_ok [of c "cs_currentPage c + 1"] by (simp add: goToNextPage_def)
next
  case (previous_page c)
  then have "settings_ok c" "cs_currentPage c \<le> max 1 (int (cs_numberOfPages c))"
    by (simp_all add: settings_ok_def pages_ok_def)
  then show ?case using page_moved_ok [of c "cs_currentPage c - 1"] by (simp add: goToPreviousPage_def)
next
  case (removed c k accepted)
  then show ?case
    using set_history_ok drop_key_ok by (simp add: remove_history_entry_def settings_ok_def)
next
  case (note_changed c e r)
  then have "settings_ok (set_history (change_entry_note k n (cs_history c)) c)" for k n
    by (intro set_history_ok change_note_ok) (simp_all add: settings_ok_def)
  then show ?case using note_changed by (simp add: change_note_def split: option.split list.split)
next
  case (confirmed c visorKey pk password manual l n)
  then show ?case by (simp add: continueSavingChanges_def settings_ok_def)
next
  case (settings c visorKey)
  then show ?case by (simp add: saveSettings_def settings_ok_def)
next
  case (answer c err)
  then show ?case by (simp add: answered_ok)
qed

lemma opened_ok:
  assumes "open_settings a st = Inr c" and "history_ok (cs_history c)"
  shows "settings_ok c" and "\<not> cs_working c"
proof -
  obtain srv kill d where "read_args (app_args a) = (srv, kill, d)" by (cases "read_args (app_args a)")
  then show "settings_ok c" "\<not> cs_working c"
    using assms by (auto simp: open_settings_def settings_ok_def pages_ok_def bindR_Inr_iff Let_def)
qed


text \<open>
  Changing the server of the client: a second change or a change of the settings while one
  is under way does nothing; when the visor accepts it, the server is the first of the history, the
  others follow in their order and only ten are kept, also in the storage; when the visor refuses it,
  the history and the storage stay as they are; and in both cases the window can be used again.
\<close>

theorem server_change_recorded:
  assumes "settings_ok c" and "cs_open c = Some (ServerRequest pk pw manual location note)"
  shows "continueSavingChanges visorKey pk2 pw2 m2 l2 n2 c = (c, None) \<and> saveSettings visorKey c = (c, None) \<and>
    (let c' = fst (answered None c) in
       cs_history c' = take 10 (new_entry pk pw manual location note # drop_key pk (cs_history c)) \<and>
       load_history (configuringVpn c') (cs_store c') = Inr (cs_history c') \<and> \<not> cs_working c') \<and>
    (let c' = fst (answered (Some err) c) in
       cs_history c' = cs_history c \<and> cs_store c' = cs_store c \<and> \<not> cs_working c')"
proof -
  have "cs_working c" using assms by (simp add: settings_ok_def)
  moreover have "add_entry (new_entry pk pw manual location note) h = take 10 (new_entry pk pw manual location note # drop_key pk h)" for h
    by (auto simp: add_entry_def new_entry_def maxClientHistory_def Let_def)
  ultimately show ?thesis
    by (simp add: continueSavingChanges_def saveSettings_def answered_def assms(2) server_change_done_def
        server_change_failed_def set_history_def Let_def del: take_Suc_Cons)
qed

section \<open>Witnesses\<close>

definition vpn_client_app :: Application where
  "vpn_client_app = \<lparr>app_name = ''vpn-client'', autostart = False, port = 44, app_status = 1, detailedStatus = [],
     app_args = [''-srv'', ''02ab'', ''-killswitch=true'']\<rparr>"

definition empty_settings_store :: hv_store where
  "empty_settings_store = \<lparr>localStorage = (\<lambda>_. None), hypervisorPk = ''hv''\<rparr>"

lemma opened_window:
  "\<exists>c. open_settings vpn_client_app empty_settings_store = Inr c \<and> cs_history c = [] \<and> configuringVpn c"
proof -
  have "migrateHistory empty_settings_store = empty_settings_store"
    by (simp add: migrateHistory_def migrate_key_def empty_settings_store_def getItem_def)
  moreover have "load_history True empty_settings_store = Inr []"
    by (simp add: load_history_def empty_settings_store_def hv_defs)
  moreover have "str_includes (to_lower ''vpn-client'') ''vpn''" by code_simp
  ultimately show ?thesis by (simp add: open_settings_def vpn_client_app_def split: prod.split)
qed


theorem server_change_recorded_witness:
  "\<exists>c. cs_working c \<and> map he_key (cs_history (fst (answered None c))) = [''02cd'']"
proof -
  obtain c0 where c0: "open_settings vpn_client_app empty_settings_store = Inr c0" "cs_history c0 = []"
    using opened_window by blast
  define c where "c = fst (continueSavingChanges ''02aa'' ''02cd'' (Str ''pw'') True Undefined Undefined c0)"
  have "history_ok (cs_history c0)" by (simp add: c0(2) history_ok_def)
  note s0 = opened_ok(1) [OF c0(1) this] and w0 = opened_ok(2) [OF c0(1) this]
  have "settings_ok c" unfolding c_def by (rule settings_step_ok [OF settings_step.confirmed s0])
  moreover have open_c: "cs_open c = Some (ServerRequest ''02cd'' True True Undefined Undefined)" and h: "cs_history c = []"
    and w: "cs_working c"
    using w0 c0(2) by (simp_all add: c_def continueSavingChanges_def)
  ultimately have "cs_history (fst (answered None c)) =
      take 10 (new_entry ''02cd'' True True Undefined Undefined # drop_key ''02cd'' (cs_history c))"
    using server_change_recorded [of c "''02cd''" True True Undefined Undefined] unfolding Let_def by blast
  then show ?thesis using h w by (intro exI [of _ c]) (simp add: drop_key_def new_entry_def)
qed

end
