(* ===== verification/Label_List.thy ===== *)
theory Label_List
  imports List_Component Storage_Service
begin

text \<open>
  \<open>label-list.component.ts\<close>: the list of the labels of the user. It is the only list whose elements
  live in the storage of the browser, so that deleting in it composes the check boxes, the storage
  service and the list that is shown.
\<close>

definition getLabelTypeIdentification :: "LabelInfo \<Rightarrow> string \<times> string" where
  "getLabelTypeIdentification l =
     (case identifiedElementType l of
        NodeType \<Rightarrow> (''1'', ''labels.filter-dialog.type-options.visor'')
      | DmsgServerType \<Rightarrow> (''2'', ''labels.filter-dialog.type-options.dmsg-server'')
      | TransportType \<Rightarrow> (''3'', ''labels.filter-dialog.type-options.transport''))"

definition label_element :: "LabelInfo \<Rightarrow> element" where
  "label_element l =
     [(''id'', VStr (label_id l)), (''label'', VStr (label l)),
      (''identifiedElementType'', VStr (element_type_string (identifiedElementType l))),
      (''identifiedElementType_sort'', VStr (fst (getLabelTypeIdentification l)))]"

definition label_columns :: "SortingColumn list" where
  "label_columns =
     [\<lparr>properties = [''label''], column_label = ''labels.label'', sortingMode = TextMode, labelProperties = None\<rparr>,
      \<lparr>properties = [''id''], column_label = ''labels.id'', sortingMode = TextMode, labelProperties = None\<rparr>,
      \<lparr>properties = [''identifiedElementType_sort''], column_label = ''labels.type'', sortingMode = TextMode, labelProperties = None\<rparr>]"

definition label_filters :: "CompleteFilterProperties list" where
  "label_filters =
     [\<lparr>filterName = ''labels.filter-dialog.label'', printableLabelsForValues = None, filter_type = TextInput,
       keyNameInElementsArray = ''label'', secondaryKeyNameInElementsArray = None, keyNameInFiltersObject = []\<rparr>,
      \<lparr>filterName = ''labels.filter-dialog.id'', printableLabelsForValues = None, filter_type = TextInput,
       keyNameInElementsArray = ''id'', secondaryKeyNameInElementsArray = None, keyNameInFiltersObject = []\<rparr>,
      \<lparr>filterName = ''labels.filter-dialog.type'',
       printableLabelsForValues = Some
         [\<lparr>pl_value = [], pl_label = ''labels.filter-dialog.type-options.any''\<rparr>,
          \<lparr>pl_value = element_type_string NodeType, pl_label = ''labels.filter-dialog.type-options.visor''\<rparr>,
          \<lparr>pl_value = element_type_string DmsgServerType, pl_label = ''labels.filter-dialog.type-options.dmsg-server''\<rparr>,
          \<lparr>pl_value = element_type_string TransportType, pl_label = ''labels.filter-dialog.type-options.transport''\<rparr>],
       filter_type = Select, keyNameInElementsArray = ''identifiedElementType'', secondaryKeyNameInElementsArray = None,
       keyNameInFiltersObject = []\<rparr>]"

record saved_label_list =
  allLabels :: "LabelInfo list"
  ll_list :: "string list_component"

definition loadData ::
  "(string \<Rightarrow> string \<Rightarrow> int) \<Rightarrow> storage_service \<Rightarrow> saved_label_list \<Rightarrow> saved_label_list js_result" where
  "loadData collate st c =
     bindR (getSavedLabels st) (\<lambda>ls.
     bindR (set_list_data collate element_key (map label_element ls) (ll_list c)) (\<lambda>lc.
     Inr (c\<lparr>allLabels := ls, ll_list := lc\<rparr>)))"

text \<open>The constructor: the helpers are created, then the labels are loaded.\<close>

definition new_label_list ::
  "(string \<Rightarrow> string \<Rightarrow> int) \<Rightarrow> storage_service \<Rightarrow> (string, string) jsmap \<Rightarrow> saved_label_list js_result" where
  "new_label_list collate st q =
     loadData collate st
       \<lparr>allLabels = [], ll_list = new_list_component (hv st) label_columns 0 label_filters ''ll'' q False\<rparr>"

text \<open>
  The step of the loop of \<open>deleteSelected\<close>. The type of the element is \<open>null\<close> in the code; a call
  with an empty text does not use it.
\<close>

definition delete_if_selected :: "string \<times> bool \<Rightarrow> storage_service \<Rightarrow> storage_service js_result" where
  "delete_if_selected e st = (if snd e then saveLabel (fst e) (Str []) NodeType st else Inr st)"

definition deleteSelected_labels ::
  "(string \<Rightarrow> string \<Rightarrow> int) \<Rightarrow> storage_service \<Rightarrow> saved_label_list \<Rightarrow>
   (storage_service \<times> saved_label_list \<times> ui_event list) js_result" where
  "deleteSelected_labels collate st c =
     bindR (foldR delete_if_selected (lc_selections (ll_list c)) st) (\<lambda>st'.
     bindR (loadData collate st' c) (\<lambda>c'.
     Inr (st', c', [CloseDialog, SnackbarDone ''labels.deleted''])))"

definition delete_label ::
  "(string \<Rightarrow> string \<Rightarrow> int) \<Rightarrow> string \<Rightarrow> storage_service \<Rightarrow> saved_label_list \<Rightarrow>
   (storage_service \<times> saved_label_list \<times> ui_event list) js_result" where
  "delete_label collate i st c =
     bindR (saveLabel i (Str []) NodeType st) (\<lambda>st'.
     bindR (loadData collate st' c) (\<lambda>c'.
     Inr (st', c', [CloseDialog, SnackbarDone ''labels.deleted''])))"

definition label_option_selected :: "LabelInfo \<Rightarrow> nat option \<Rightarrow> string option" where
  "label_option_selected l selectedOption = (if selectedOption = Some 1 then Some (label_id l) else None)"

section \<open>Deleting labels\<close>

lemma label_fits:
  assumes "col < length label_columns" and "by_label \<Longrightarrow> labelProperties (label_columns ! col) \<noteq> None"
    and "sortableColumns s = label_columns"
  shows "fits_column s col by_label (VObj (label_element l))"
proof -
  have "col < 3" using assms(1) by (simp add: label_columns_def)
  then consider "col = 0" | "col = 1" | "col = 2" by linarith
  then show ?thesis
    using assms(2,3)
    by cases (cases by_label; simp add: fits_column_def label_columns_def sort_path_def sort_mode_def label_element_def)+
qed

interpretation ll: listed_elements label_element label_columns 0
  by unfold_locales (auto intro: label_fits simp: label_columns_def)

lemma loadData_shows:
  assumes "collation collate" and "list_sorter_ok label_columns 0 (lc_sorter (ll_list c))" and "getSavedLabels st = Inr ls"
  obtains c' ys where "loadData collate st c = Inr c'" and "allLabels c' = ls"
    and "list_shows element_key (ll_list c) ys (ll_list c')"
    and "mset ys = mset (filter (passes_filters (lc_filterer (ll_list c))) (map label_element ls))"
    and "sorted_elements collate (lc_sorter (ll_list c)) ys"
proof -
  from ll.set_data [OF assms(1,2), of element_key ls] obtain lc ys
    where lc: "set_list_data collate element_key (map label_element ls) (ll_list c) = Inr lc"
      "list_shows element_key (ll_list c) ys lc" "mset ys = mset (filter (passes_filters (lc_filterer (ll_list c)))
        (map label_element ls))" "sorted_elements collate (lc_sorter (ll_list c)) ys"
    by (elim exE conjE)
  show thesis
    by (rule that [of "c\<lparr>allLabels := ls, ll_list := lc\<rparr>" ys]) (use lc in \<open>simp_all add: loadData_def assms(3)\<close>)
qed

lemma saveLabel_removes:
  assumes "getSavedLabels st = Inr ls" and "labels_agree ls st"
  obtains st' where "saveLabel i (Str []) t st = Inr st'"
    and "getSavedLabels st' = Inr (filter (\<lambda>l. label_id l \<noteq> i) ls)"
    and "labels_agree (filter (\<lambda>l. label_id l \<noteq> i) ls) st'"
    and "nodes_coherent st' = nodes_coherent st"
proof -
  have "\<not> truthy (Str [])" by (simp add: truthy_iff)
  from saveLabel_empty [OF this assms, of i t] obtain st'
    where st': "saveLabel i (Str []) t st = Inr st'"
      "getSavedLabels st' = Inr (filter (\<lambda>l. label_id l \<noteq> i) ls)" "labels_agree (filter (\<lambda>l. label_id l \<noteq> i) ls) st'"
      "savedLocalNodes st' = savedLocalNodes st" "getSavedLocalNodes st' = getSavedLocalNodes st"
      "savedVisibleLocalNodes st' = savedVisibleLocalNodes st"
    by metis
  from st'(4-6) have "nodes_coherent st' = nodes_coherent st"
    by (simp add: nodes_coherent_def nodes_agree_def visible_ok_def split: sum.split)
  then show thesis using that st'(1-3) by blast
qed

lemma delete_loop:
  assumes "getSavedLabels st = Inr ls" and "labels_agree ls st"
  shows "\<exists>st'. foldR delete_if_selected es st = Inr st' \<and>
    getSavedLabels st' = Inr (filter (\<lambda>l. (label_id l, True) \<notin> set es) ls) \<and>
    labels_agree (filter (\<lambda>l. (label_id l, True) \<notin> set es) ls) st' \<and> nodes_coherent st' = nodes_coherent st"
  using assms
proof (induction es arbitrary: st ls)
  case (Cons e es)
  obtain i v where e: "e = (i, v)" by (cases e)
  show ?case
  proof (cases v)
    case True
    obtain st1 where st1: "saveLabel i (Str []) NodeType st = Inr st1"
      "getSavedLabels st1 = Inr (filter (\<lambda>l. label_id l \<noteq> i) ls)"
      "labels_agree (filter (\<lambda>l. label_id l \<noteq> i) ls) st1" "nodes_coherent st1 = nodes_coherent st"
      by (rule saveLabel_removes [OF Cons.prems])
    have "delete_if_selected e st = Inr st1" by (simp add: delete_if_selected_def e True st1(1))
    then show ?thesis using Cons.IH [OF st1(2,3)] by (simp add: e True st1(4) conj_ac)
  next
    case False
    then have "delete_if_selected e st = Inr st" by (simp add: delete_if_selected_def e)
    then show ?thesis using Cons.IH [OF Cons.prems] by (simp add: e False)
  qed
qed simp

text \<open>
  Property C22. Deleting the selected labels, from the check boxes to the storage and back to the
  list. In a coherent storage the operation never throws; afterwards the stored list is the previous
  one without the labels whose box was checked, in the same order, the cache in memory agrees with
  it and the data of the local visors is as coherent as before; and the list shows the remaining
  labels that pass the filters, in the selected order.
\<close>

theorem delete_selected_labels:
  fixes c :: saved_label_list
  assumes "collation collate" and "list_sorter_ok label_columns 0 (lc_sorter (ll_list c))"
    and "labels_coherent st" and "getSavedLabels st = Inr ls" and "map_wf (lc_selections (ll_list c))"
  defines "selected \<equiv> \<lambda>i. map_get (lc_selections (ll_list c)) i = Some True"
  shows "\<exists>st' c' ys. deleteSelected_labels collate st c = Inr (st', c', [CloseDialog, SnackbarDone ''labels.deleted'']) \<and>
    labels_coherent st' \<and> nodes_coherent st' = nodes_coherent st \<and>
    getSavedLabels st' = Inr (filter (\<lambda>l. \<not> selected (label_id l)) ls) \<and>
    (\<forall>i. getLabelInfo st' i = (if selected i then None else getLabelInfo st i)) \<and>
    list_shows element_key (ll_list c) ys (ll_list c') \<and>
    mset ys = mset (filter (passes_filters (lc_filterer (ll_list c)))
      (map label_element (filter (\<lambda>l. \<not> selected (label_id l)) ls))) \<and>
    sorted_elements collate (lc_sorter (ll_list c)) ys"
proof -
  let ?ls = "filter (\<lambda>l. \<not> selected (label_id l)) ls"
  have agree: "labels_agree ls st" using assms(3,4) by (simp add: labels_coherent_def)
  have sel: "selected i \<longleftrightarrow> (i, True) \<in> set (lc_selections (ll_list c))" for i
    by (simp add: selected_def map_get_entry [OF assms(5)])
  obtain st' where st': "foldR delete_if_selected (lc_selections (ll_list c)) st = Inr st'"
    "getSavedLabels st' = Inr ?ls" "labels_agree ?ls st'" "nodes_coherent st' = nodes_coherent st"
    using delete_loop [OF assms(4) agree, of "lc_selections (ll_list c)"] unfolding sel by blast
  obtain c' ys where c': "loadData collate st' c = Inr c'" "list_shows element_key (ll_list c) ys (ll_list c')"
    "mset ys = mset (filter (passes_filters (lc_filterer (ll_list c))) (map label_element ?ls))"
    "sorted_elements collate (lc_sorter (ll_list c)) ys"
    by (rule loadData_shows [OF assms(1,2) st'(2)])
  have "lookup_label ?ls i = (if selected i then None else lookup_label ls i)" for i
    by (induction ls rule: rev_induct) (auto simp: lookup_label_def)
  then have "getLabelInfo st' i = (if selected i then None else getLabelInfo st i)" for i
    using agree st'(3) by (simp add: getLabelInfo_get labels_agree_def)
  moreover have "labels_coherent st'" using st'(2,3) by (simp add: labels_coherent_def)
  moreover have "deleteSelected_labels collate st c = Inr (st', c', [CloseDialog, SnackbarDone ''labels.deleted''])"
    by (simp add: deleteSelected_labels_def st'(1) c'(1))
  ultimately show ?thesis using st'(2,4) c'(2-4) by blast
qed

text \<open>A label list with one label, whose box is checked.\<close>

definition demo_label :: LabelInfo where
  "demo_label = \<lparr>label_id = ''02aa'', label = ''home'', identifiedElementType = NodeType\<rparr>"

definition demo_label_storage :: storage_service where
  "demo_label_storage =
     (saveLabels [demo_label] (fresh_service empty_store))\<lparr>savedLabels := [(''02aa'', demo_label)]\<rparr>"

definition demo_label_list :: saved_label_list where
  "demo_label_list =
     \<lparr>allLabels = [demo_label],
      ll_list = (new_list_component \<lparr>localStorage = (\<lambda>_. None), hypervisorPk = ''hv''\<rparr> label_columns 0 label_filters ''ll'' [] False)
        \<lparr>lc_selections := [(''02aa'', True)]\<rparr>\<rparr>"

theorem delete_selected_labels_witness:
  "\<exists>st' c' ev. deleteSelected_labels length_collate demo_label_storage demo_label_list = Inr (st', c', ev) \<and>
     getSavedLabels st' = Inr [] \<and> getLabelInfo st' ''02aa'' = None"
proof -
  have get: "getSavedLabels demo_label_storage = Inr [demo_label]"
    by (simp add: demo_label_storage_def)
  have coherent: "labels_coherent demo_label_storage"
    unfolding labels_coherent_def get
    by (simp add: labels_agree_def demo_label_storage_def lookup_label_def map_get_def demo_label_def)
  have ok: "list_sorter_ok label_columns 0 (lc_sorter (ll_list demo_label_list))"
    using new_list_sorter_ok [of "\<lparr>localStorage = (\<lambda>_. None), hypervisorPk = ''hv''\<rparr>" 0 label_columns label_filters "''ll''" "[]" False]
    by (simp add: demo_label_list_def label_columns_def)
  have wf: "map_wf (lc_selections (ll_list demo_label_list))"
    by (simp add: demo_label_list_def map_wf_def)
  have sel: "map_get (lc_selections (ll_list demo_label_list)) (label_id demo_label) = Some True"
    by (simp add: demo_label_list_def map_get_def demo_label_def)
  then have sel2: "map_get (lc_selections (ll_list demo_label_list)) ''02aa'' = Some True"
    by (simp add: demo_label_def)
  from delete_selected_labels [OF length_collation ok coherent get wf] show ?thesis
    by (elim exE conjE) (intro exI conjI, assumption, simp_all add: sel sel2)
qed

end
