(* ===== verification/Route_List.thy ===== *)
theory Route_List
  imports Transport_List Node_Service
begin

text \<open>
  \<open>route-list.component.ts\<close> and \<open>route.service.ts\<close>: the list of the routing rules of a visor. The
  setter of the data computes the ends of each route from the parts of its rule; the routes come
  from \<open>getNode\<close>, which leaves out the parts the backend did not send.
\<close>

definition route_get :: "string \<Rightarrow> string \<Rightarrow> http_request" where
  "route_get nodeKey i =
     \<lparr>http_method = ''GET'', http_url = ''visors/'' @ nodeKey @ ''/routes/'' @ i, http_body = NoBody\<rparr>"

definition route_delete :: "string \<Rightarrow> string \<Rightarrow> http_request" where
  "route_delete nodeKey i =
     \<lparr>http_method = ''DELETE'', http_url = ''visors/'' @ nodeKey @ ''/routes/'' @ i, http_body = NoBody\<rparr>"

definition ruleTypes :: "(int, string) jsmap" where
  "ruleTypes = [(0, ''App''), (1, ''Forward''), (2, ''Int. forward'')]"

definition getTypeName :: "int \<Rightarrow> string" where
  "getTypeName t = (case (if map_has ruleTypes t then map_get ruleTypes t else None) of Some n \<Rightarrow> n | None \<Rightarrow> ''Unknown'')"

text \<open>
  The two ends of a route as the setter finds them: source and destination (\<open>''''\<close> when there is
  none), and whether there are labels for them.
\<close>

definition route_ends :: "Route \<Rightarrow> (string option \<times> string option) js_result" where
  "route_ends r =
     (case (appFields r, forwardFields r) of
        (Some d, _) \<Rightarrow> Inr (Some (srcPk d), Some (dstPk d))
      | (None, Some f) \<Rightarrow>
          (case routeDescriptor f of
             Some d \<Rightarrow> Inr (Some (srcPk d), Some (dstPk d))
           | None \<Rightarrow> Inl TypeError)
      | (None, None) \<Rightarrow>
          (case intermediaryForwardFields r of
             Some f \<Rightarrow> Inr (None, Some (nextTid f))
           | None \<Rightarrow> Inr (None, None)))"

definition end_text :: "string option \<Rightarrow> string" where
  "end_text e = (case e of Some x \<Rightarrow> x | None \<Rightarrow> [])"

definition end_label :: "(string \<Rightarrow> string) \<Rightarrow> storage_service \<Rightarrow> string option \<Rightarrow> string" where
  "end_label instant st e = (case e of Some x \<Rightarrow> getCompleteLabel instant st x | None \<Rightarrow> [])"

text \<open>
  The step of the loop of the setter. The type of a rule is a number here, so that the branch for a
  summary without a type does not occur.
\<close>

definition route_element :: "(string \<Rightarrow> string) \<Rightarrow> storage_service \<Rightarrow> Route \<Rightarrow> element js_result" where
  "route_element instant st r =
     (case ruleSummary r of
        None \<Rightarrow> Inl TypeError
      | Some s \<Rightarrow>
          bindR (route_ends r) (\<lambda>(src, dst).
            Inr [(''key'', VNum (route_key r)), (''rule'', VStr (rule r)), (''type'', VNum (ruleType s)),
                 (''src'', VStr (end_text src)), (''src_label'', VStr (end_label instant st src)),
                 (''dst'', VStr (end_text dst)), (''dst_label'', VStr (end_label instant st dst))]))"

definition route_columns :: "SortingColumn list" where
  "route_columns =
     [\<lparr>properties = [''key''], column_label = ''routes.key'', sortingMode = NumberMode, labelProperties = None\<rparr>,
      \<lparr>properties = [''type''], column_label = ''routes.type'', sortingMode = NumberMode, labelProperties = None\<rparr>,
      \<lparr>properties = [''src''], column_label = ''routes.source'', sortingMode = TextMode, labelProperties = Some [''src_label'']\<rparr>,
      \<lparr>properties = [''dst''], column_label = ''routes.destination'', sortingMode = TextMode, labelProperties = Some [''dst_label'']\<rparr>]"

definition route_filters :: "CompleteFilterProperties list" where
  "route_filters =
     [\<lparr>filterName = ''routes.filter-dialog.type'',
       printableLabelsForValues = Some
         (\<lparr>pl_value = [], pl_label = ''routes.filter-dialog.any-type-option''\<rparr> #
          map (\<lambda>e. \<lparr>pl_value = int_to_string (fst e), pl_label = snd e\<rparr>) ruleTypes),
       filter_type = Select, keyNameInElementsArray = ''type'', secondaryKeyNameInElementsArray = None,
       keyNameInFiltersObject = []\<rparr>,
      \<lparr>filterName = ''routes.filter-dialog.key'', printableLabelsForValues = None, filter_type = TextInput,
       keyNameInElementsArray = ''key'', secondaryKeyNameInElementsArray = None, keyNameInFiltersObject = []\<rparr>,
      \<lparr>filterName = ''routes.filter-dialog.source'', printableLabelsForValues = None, filter_type = TextInput,
       keyNameInElementsArray = ''src'', secondaryKeyNameInElementsArray = Some ''src_label'', keyNameInFiltersObject = []\<rparr>,
      \<lparr>filterName = ''routes.filter-dialog.destination'', printableLabelsForValues = None, filter_type = TextInput,
       keyNameInElementsArray = ''dst'', secondaryKeyNameInElementsArray = Some ''dst_label'', keyNameInFiltersObject = []\<rparr>]"

definition route_ident :: "element \<Rightarrow> int" where
  "route_ident e = (case map_of e ''key'' of Some (VNum k) \<Rightarrow> k | _ \<Rightarrow> 0)"

definition set_routes ::
  "(string \<Rightarrow> string \<Rightarrow> int) \<Rightarrow> (string \<Rightarrow> string) \<Rightarrow> storage_service \<Rightarrow> Route list \<Rightarrow>
   int list_component \<Rightarrow> int list_component js_result" where
  "set_routes collate instant st rs c =
     bindR (mapR (route_element instant st) rs) (\<lambda>es. set_list_data collate route_ident es c)"

definition new_route_list :: "hv_store \<Rightarrow> (string, string) jsmap \<Rightarrow> bool \<Rightarrow> int list_component" where
  "new_route_list st q short = new_list_component st route_columns 0 route_filters ''rl'' q short"

datatype route_action = RouteDetails | DeleteRoute | NoRouteAction

definition route_option_selected :: "nat option \<Rightarrow> route_action" where
  "route_option_selected selectedOption =
     (if selectedOption = Some 1 then RouteDetails
      else if selectedOption = Some 2 then DeleteRoute
      else NoRouteAction)"

definition startDeleting_route :: "string \<Rightarrow> int \<Rightarrow> http_request" where
  "startDeleting_route nodeKey k = route_delete nodeKey (int_to_string k)"

definition route_deleted :: "jsval option \<Rightarrow> ui_event list" where
  "route_deleted resp =
     (case resp of None \<Rightarrow> [CloseDialog, RefreshData, SnackbarDone ''routes.deleted''] | Some err \<Rightarrow> [error_shown err])"

section \<open>The elements of the list\<close>

text \<open>The rules the setter can work with.\<close>

definition complete_rule :: "Route \<Rightarrow> bool" where
  "complete_rule r \<longleftrightarrow> ruleSummary r \<noteq> None \<and>
     (appFields r = None \<longrightarrow> (\<forall>f. forwardFields r = Some f \<longrightarrow> routeDescriptor f \<noteq> None))"

lemma route_element_result:
  "complete_rule r \<Longrightarrow> \<exists>e. route_element instant st r = Inr e"
  "\<not> complete_rule r \<Longrightarrow> route_element instant st r = Inl TypeError"
  by (auto simp: complete_rule_def route_element_def route_ends_def split: option.splits)

definition route_object :: "(string \<Rightarrow> string) \<Rightarrow> storage_service \<Rightarrow> Route \<Rightarrow> element" where
  "route_object instant st r =
     (case route_element instant st r of
        Inr e \<Rightarrow> e
      | Inl x \<Rightarrow> [(''key'', VNum 0), (''type'', VNum 0), (''src'', VStr []), (''src_label'', VStr []),
                 (''dst'', VStr []), (''dst_label'', VStr [])])"

lemma route_object_members:
  "map_of (route_object instant st r) ''key'' = Some (VNum (if complete_rule r then route_key r else 0)) \<and>
   (\<exists>t. map_of (route_object instant st r) ''type'' = Some (VNum t)) \<and>
   (\<forall>k \<in> {''src'', ''src_label'', ''dst'', ''dst_label''}. \<exists>x. map_of (route_object instant st r) k = Some (VStr x))"
proof (cases "complete_rule r")
  case True
  then have "\<exists>p. route_ends r = Inr p"
    by (auto simp: complete_rule_def route_ends_def split: option.split)
  then obtain s src dst where "ruleSummary r = Some s" "route_ends r = Inr (src, dst)"
    using True by (auto simp: complete_rule_def)
  then show ?thesis using True by (simp add: route_object_def route_element_def)
next
  case False
  then show ?thesis by (simp add: route_object_def route_element_result(2))
qed

lemma route_fits:
  assumes "col < length route_columns" and "by_label \<Longrightarrow> labelProperties (route_columns ! col) \<noteq> None"
    and "sortableColumns s = route_columns"
  shows "fits_column s col by_label (VObj (route_object instant st r))"
proof -
  have "col < 4" using assms(1) by (simp add: route_columns_def)
  then consider "col = 0" | "col = 1" | "col = 2" | "col = 3" by linarith
  then show ?thesis
    using assms(2,3) route_object_members [of instant st r]
    by cases (cases by_label; auto simp: fits_column_def route_columns_def sort_path_def sort_mode_def)+
qed

interpretation rl: listed_elements "route_object instant st" route_columns 0 for instant st
  by unfold_locales (auto intro: route_fits simp: route_columns_def)

lemma route_elements:
  "mapR (route_element instant st) rs =
     (if list_all complete_rule rs then Inr (map (route_object instant st) rs) else Inl TypeError)"
proof (induction rs)
  case (Cons r rs)
  show ?case
  proof (cases "complete_rule r")
    case True
    then obtain e where "route_element instant st r = Inr e" using route_element_result(1) by blast
    then show ?thesis by (simp add: Cons.IH True route_object_def)
  qed (simp add: route_element_result(2))
qed simp

text \<open>
  Property C40. The list of routes. When every rule has a summary and every forwarding rule without
  application fields has its descriptor, giving the data to the component never throws and the list
  shows exactly the routes that pass the filters, in the selected order and with the check boxes of
  the page; when one rule of the list lacks them, the setter throws for the whole list and no route
  is shown.
\<close>

theorem set_routes_correct:
  assumes "collation collate" and "list_sorter_ok route_columns 0 (lc_sorter c)"
  shows "if list_all complete_rule rs
    then \<exists>c' es ys. mapR (route_element instant st) rs = Inr es \<and> set_routes collate instant st rs c = Inr c' \<and>
      map route_ident es = map route_key rs \<and> list_shows route_ident c ys c' \<and>
      mset ys = mset (filter (passes_filters (lc_filterer c)) es) \<and> sorted_elements collate (lc_sorter c) ys
    else set_routes collate instant st rs c = Inl TypeError"
proof (cases "list_all complete_rule rs")
  case True
  let ?es = "map (route_object instant st) rs"
  have "map route_ident ?es = map route_key rs"
    using True by (auto simp: route_ident_def route_object_members list_all_iff)
  moreover have "mapR (route_element instant st) rs = Inr ?es" "set_routes collate instant st rs c = set_list_data collate route_ident ?es c"
    by (simp_all add: set_routes_def route_elements True)
  ultimately show ?thesis
    using True rl.set_data [OF assms, of route_ident instant st rs] by (simp only: if_True) blast
next
  case False
  then show ?thesis by (simp add: set_routes_def route_elements)
qed

section \<open>Routes without their parts\<close>

text \<open>
  The answer of the backend may leave out the summary of a rule, and \<open>getNode\<close> then
  leaves it out too instead of rejecting the answer; so one such rule makes the list of routes fail,
  although the data of the visor was accepted.
\<close>

theorem rule_without_summary:
  assumes "r \<in> set rs" and "rr_rule_summary r = None"
  shows "set_routes collate instant st (map node_route rs) c = Inl TypeError"
proof -
  have "\<not> complete_rule (node_route r)" using assms(2) by (simp add: complete_rule_def node_route_def)
  then have "\<not> list_all complete_rule (map node_route rs)" using assms(1) by (auto simp: list_all_iff)
  then show ?thesis by (simp add: set_routes_def route_elements)
qed

definition bare_rule :: raw_route where
  "bare_rule = \<lparr>rr_key = 5, rr_rule = ''r'', rr_rule_summary = None\<rparr>"

theorem rule_without_summary_witness:
  "set_routes length_collate (\<lambda>t. t) (fresh_service empty_store) (map node_route [bare_rule])
     (new_route_list empty_store [] False) = Inl TypeError"
  by (rule rule_without_summary [of bare_rule]) (simp_all add: bare_rule_def)

definition app_route :: Route where
  "app_route =
     \<lparr>route_key = 3, rule = ''r'', ruleSummary = Some \<lparr>keepAlive = 1, ruleType = 0, keyRouteId = 3\<rparr>,
      appFields = Some \<lparr>dstPk = ''02bb'', srcPk = ''02aa'', dstPort = 1, srcPort = 2\<rparr>, forwardFields = None,
      intermediaryForwardFields = None\<rparr>"

theorem set_routes_correct_witness:
  "\<exists>c'. set_routes length_collate (\<lambda>t. t) (fresh_service empty_store) [app_route]
     (new_route_list \<lparr>localStorage = (\<lambda>_. None), hypervisorPk = ''hv''\<rparr> [] False) = Inr c'"
proof -
  have ok: "list_sorter_ok route_columns 0
      (lc_sorter (new_route_list \<lparr>localStorage = (\<lambda>_. None), hypervisorPk = ''hv''\<rparr> [] False))"
    unfolding new_route_list_def by (rule new_list_sorter_ok) (simp_all add: route_columns_def)
  have complete: "list_all complete_rule [app_route]" by (simp add: complete_rule_def app_route_def)
  from set_routes_correct [OF length_collation ok, of "[app_route]" "\<lambda>t. t" "fresh_service empty_store"]
  show ?thesis unfolding if_P [OF complete] by blast
qed

end
