(* ===== verification/Spec2Isabelle.thy ===== *)
theory Spec2Isabelle
  imports Language_Check Terminal Auto_Scale Ui_Pages Node_Page Logs Create_Transport App_Start Vpn_Settings Bulk_Rewards Update_Window Client_Settings Label_List Route_List Node_List
begin

text \<open>
  A verification library for the Skywire manager, the web front end of the Skywire visor
  (\<open>src/static/skywire-manager-src/src/app\<close>; every path below is relative to it, those in \<open>assets\<close> to the folder above).

  \<^bold>\<open>The program.\<close> The manager is a single-page application that a visor (the hypervisor) serves. Services
  hold the state that outlives a page: \<open>services/storage.service.ts\<close> keeps the known visors and the labels
  in \<open>localStorage\<close>; \<open>services/vpn-saved-data.service.ts\<close> keeps the VPN servers in the same storage, which
  several tabs of the browser share; \<open>services/vpn-client.service.ts\<close> polls and changes the VPN app;
  \<open>services/single-node-data.service.ts\<close> and \<open>services/multiple-node-data.service.ts\<close> poll the visors
  through \<open>services/node.service.ts\<close>; \<open>services/api.service.ts\<close> makes the requests and
  \<open>services/auth.service.ts\<close> decides who may use the pages. The pages show lists, which all go through
  \<open>utils/lists/data-filterer.ts\<close> and \<open>utils/lists/data-sorter.ts\<close>, and open windows that make one
  operation at a time. Errors of any kind are turned into one class by \<open>utils/errors.ts\<close>.

  \<^bold>\<open>Theories, from the language to the pages.\<close>

  \<^item> The language. \<open>JS_Prelude\<close> (nullable strings, exceptions as sums, \<open>Map\<close> and \<open>Set\<close> in the order of
    insertion), \<open>JS_Strings\<close> (string functions, \<open>parseInt\<close>, numbers as texts), \<open>JS_Arrays\<close> (\<open>slice\<close>, a
    stable \<open>sort\<close>, the locale \<open>js_comparator\<close>), \<open>JS_Values\<close> (objects with properties reached by name) and
    \<open>JSON_Text\<close> (\<open>JSON.stringify\<close> and \<open>JSON.parse\<close>, with their round trip). \<open>Hv_Store\<close> has \<open>localStorage\<close> and the
    part of it that belongs to a hypervisor.
  \<^item> Data and errors. \<open>App_Datatypes\<close> (\<open>app.datatypes.ts\<close>), \<open>Service_Errors\<close> (\<open>utils/errors.ts\<close>), \<open>General_Utils\<close>
    (\<open>utils/generalUtils.ts\<close>) and \<open>Ui_Base\<close> (\<open>utils/timeUtils.ts\<close>, \<open>utils/page-base.ts\<close>,
    \<open>services/snackbar.service.ts\<close>).
  \<^item> Lists. \<open>Pagination\<close>, \<open>Data_Sorter\<close> and \<open>Data_Filterer\<close> are the helpers, \<open>List_Operations\<close> the confirmation dialog
    and the deletion of the selected elements, \<open>List_Component\<close> the state and the operations that
    every list repeats, as a locale that \<open>Transport_List\<close>, \<open>Route_List\<close>, \<open>Label_List\<close> and \<open>Node_List\<close> instantiate;
    \<open>Apps_List\<close> works on the list of apps with the same dialogs.
  \<^item> Storage. \<open>Storage_Service\<close> (with the theorem that the caches agree with a fresh load after any sequence of
    calls), \<open>Labeled_Element\<close> (labels and the form that edits them) and \<open>Vpn_Saved_Data\<close> (the map of VPN servers and
    the version protocol between the instances of the application, as a step relation over a world).
  \<^item> Data of the visors. \<open>Node_Service\<close> (the requests and what becomes of their answers), \<open>Node_Data\<close> and
    \<open>Nodes_Data\<close> (the two polling services), \<open>Node_Page\<close> (\<open>pages/node/node.component.ts\<close>, with the static members
    that the instances of the page share) and \<open>Node_Actions\<close> (the menu of a visor).
  \<^item> Access. \<open>Auth\<close> (requests with their tokens, log in, the guards of the routes) and \<open>App_Start\<close>
    (\<open>app.component.ts\<close>, the login page and the password form).
  \<^item> VPN. \<open>Vpn_Client\<close> (the service), \<open>Vpn_Helpers\<close> (changing the server, with the questions to the user),
    \<open>Vpn_Server_List\<close> (discovery and the page of the servers), \<open>Vpn_Status\<close> (the main page) and
    \<open>Vpn_Settings\<close> (the page of the settings with the kill switch, what the top bar shows of the VPN, the page
    of fatal problems, and the theorem that every value the service emits can be handled by all of them).
  \<^item> Windows. \<open>Proxy_Discovery\<close> and \<open>Client_Settings\<close> (settings of the clients of the VPN and of the proxy),
    \<open>Create_Transport\<close>, \<open>Logs\<close> (logs of a visor and of an app), \<open>Settings_Windows\<close> (name server, hops, rewards,
    proxy server, apps of the user and Skychat, over the locale \<open>saving_window\<close> that says what they repeat and
    that each of them interprets), \<open>Bulk_Rewards\<close> (the rewards of many visors), \<open>Update_Window\<close> (updates of visors
    and their settings) and \<open>Terminal\<close> (\<open>assets/scripts/terminal.js\<close> and the window that uses it).
  \<^item> The rest. \<open>Auto_Scale\<close> (\<open>pipes/auto-scale.pipe.ts\<close>), \<open>Language_Check\<close> (\<open>assets/i18n/check.js\<close>, the script that
    compares the files with translations) and \<open>Ui_Pages\<close> (language of the interface, page of the settings, start page,
    details of a visor, tabs of the VPN).

  \<^bold>\<open>How state and operations are modelled.\<close> The fields of a class are a record with the names of the source
  (a prefix is added where two classes share a name). A method is a function that returns the new state,
  and what it sends to other parts (requests, messages, navigation, emitted values) as a list in the state or
  as a second component. A method that waits for an answer is split where the code waits: the
  first part records what is pending, the second part is the handler of the answer. Timers, answers, dialogs and the
  clicks of the user are the constructors of an event type, so a component with asynchronous
  behaviour is a function from an event and a state to a state, and its runs are an \<open>inductive\<close> step relation
  with reachable states. An exception is \<open>Inl\<close> of an error, and every \<open>throw\<close> and every access to a property
  of \<open>undefined\<close> in the modelled lines is such a branch.

  \<^bold>\<open>What the lemmas show.\<close>

  \<^item> Invariants by rule induction: the caches of the storage, the world of VPN instances (a save is only made over the
    version the instance has read), the VPN client (requests in flight against the flags of the state), the
    windows for the settings and for transports, the polling services, the pages of a visor and of the VPN.
  \<^item> Functional behaviour, each operation on all its branches: \<open>getNodes\<close>, the protocol of a change of server,
    the handlers of answers, the marks of persistent transports, deletion of selected elements, message of an error.
  \<^item> Refinement: the set of local visors, the flags of a server and the four lists of servers against abstract maps and
    sets; the list components against \<open>sort\<close> after \<open>filter\<close>; equivalence of \<open>filterList\<close> with a conjunction of
    predicates, and of the check of the translations with equality of the texts at every path.
  \<^item> Round trips: JSON, the storage after a restart, sorting options and filters through the URL, the arguments of the apps,
    the history of the terminal, the language.
  \<^item> Progress: a VPN operation whose requests are answered comes to an end; the list of visors and the start of the
    application are always waiting for something that moves them on.
  \<^item> Bounds: the history of servers, the histories of traffic, the lines of a log.

  \<^bold>\<open>Parameters.\<close> What is not in the repository is an argument of the definitions that use it: the comparison
  of texts by locale, the translation of a text, the table of country names, the divisions of the BigNumber library,
  \<open>Number()\<close> of a text, the format of a date, the text of an exception object and the visor behind the HTTP
  interface. Where a theorem relies on one, its hypothesis states the documented behaviour (for instance
  \<open>collation\<close>: the comparison by locale is a total preorder) and a witness gives a concrete function.

  \<^bold>\<open>Fuel.\<close> Only the parser of JSON has fuel: \<open>json_parse\<close> starts with the length of the text, and
  \<open>parse_stringify\<close> proves that this is enough for every text the application prints. The search for highlighted
  parts (\<open>Proxy_Discovery\<close>) and the loop over the units (\<open>Auto_Scale\<close>) are each a \<open>partial_function\<close>; the first is proved to
  return for every filter the code gives it, the second for every amount.
  Every other recursion is structural or has a termination proof.

  \<^bold>\<open>Simplifications.\<close> Characters are 8 bits wide and the case conversions act on ASCII, the alphabet of keys and tags.
  Objects are values: where the code mutates an object that two places share, the model updates both places or says
  in the component that the sharing is not visible. Numbers are whole (averages of latencies are rationals, elapsed
  times whole seconds); the sort of a column of numbers is stated for whole numbers, which leaves out the round trip time of dmsg.
  The delays and the repetitions of rxjs are events, so a theorem holds for every timing the operators can produce. Data read
  from the storage has the type the application wrote; a text that is not JSON is an error branch.

  \<^bold>\<open>Not modelled.\<close> Templates, styles and the components that only draw what they are given; scrolling, focus
  and animations; repeating the saved answer of the discovery service on the page of the servers; module, routing and translation set-up, which is declarative; the visor and its command line
  tools (Go), which are the environment of the manager; vendored code. The manifest lists every such part.
\<close>

end
